(* ===== verification/Usbip_Prelude.thy ===== *)
theory Usbip_Prelude
  imports Main "HOL-Library.Word" "HOL-Library.Monad_Syntax" "HOL-Library.Multiset"
begin

text \<open>
  Shared vocabulary of the USB/IP development: machine integers and their byte
  representations, the errno values and the fields of the USB pipe word the drivers use,
  bounded memory operations on byte buffers, and the generic list and word lemmas the
  component theories rest on.  A result of type \<open>'a option\<close> is used for code that can leave
  the defined behaviour of C: \<open>None\<close> is an access outside an array or buffer, a null
  dereference or a \<open>BUG()\<close>.
\<close>

unbundle bit_operations_syntax

named_theorems eval_simps \<open>evaluation of bounded quantifiers and sums at numerals\<close>

declare All_less_Suc [eval_simps]

lemma All_less_numeral [eval_simps]:
  "(\<forall>i<numeral v. P i) = (P (pred_numeral v) \<and> (\<forall>i<pred_numeral v. P i))" for P :: "nat \<Rightarrow> bool"
  by (simp add: numeral_eq_Suc All_less_Suc)

section \<open>Machine integers\<close>

type_synonym u8 = "8 word"
type_synonym u16 = "16 word"
type_synonym u32 = "32 word"
type_synonym ulong = "64 word"

text \<open>Values of the C type \<open>int\<close> that are only compared and returned are HOL integers;
  a C conversion to \<open>int\<close> of a 32-bit quantity is \<open>sint\<close>.\<close>

abbreviation (input) ENOENT :: int where "ENOENT \<equiv> 2"
abbreviation (input) EIO :: int where "EIO \<equiv> 5"
abbreviation (input) EBADF :: int where "EBADF \<equiv> 9"
abbreviation (input) EAGAIN :: int where "EAGAIN \<equiv> 11"
abbreviation (input) ENOMEM :: int where "ENOMEM \<equiv> 12"
abbreviation (input) EFAULT :: int where "EFAULT \<equiv> 14"
abbreviation (input) EEXIST :: int where "EEXIST \<equiv> 17"
abbreviation (input) EBUSY :: int where "EBUSY \<equiv> 16"
abbreviation (input) EXDEV :: int where "EXDEV \<equiv> 18"
abbreviation (input) ENODEV :: int where "ENODEV \<equiv> 19"
abbreviation (input) EINVAL :: int where "EINVAL \<equiv> 22"
abbreviation (input) EPIPE :: int where "EPIPE \<equiv> 32"
abbreviation (input) EIDRM :: int where "EIDRM \<equiv> 43"
abbreviation (input) EPROTO :: int where "EPROTO \<equiv> 71"
abbreviation (input) ERANGE :: int where "ERANGE \<equiv> 34"
abbreviation (input) EOVERFLOW :: int where "EOVERFLOW \<equiv> 75"
abbreviation (input) EOPNOTSUPP :: int where "EOPNOTSUPP \<equiv> 95"
abbreviation (input) ECONNRESET :: int where "ECONNRESET \<equiv> 104"
abbreviation (input) ESHUTDOWN :: int where "ESHUTDOWN \<equiv> 108"
abbreviation (input) ETIMEDOUT :: int where "ETIMEDOUT \<equiv> 110"
abbreviation (input) EINPROGRESS :: int where "EINPROGRESS \<equiv> 115"
abbreviation (input) ERESTARTSYS :: int where "ERESTARTSYS \<equiv> 512"
abbreviation (input) EINTR :: int where "EINTR \<equiv> 4"

text \<open>The speeds of a USB device.\<close>

abbreviation (input) USB_SPEED_LOW :: u32 where "USB_SPEED_LOW \<equiv> 1"
abbreviation (input) USB_SPEED_FULL :: u32 where "USB_SPEED_FULL \<equiv> 2"
abbreviation (input) USB_SPEED_HIGH :: u32 where "USB_SPEED_HIGH \<equiv> 3"
abbreviation (input) USB_SPEED_WIRELESS :: u32 where "USB_SPEED_WIRELESS \<equiv> 4"
abbreviation (input) USB_SPEED_SUPER :: u32 where "USB_SPEED_SUPER \<equiv> 5"

section \<open>Bytes of a word\<close>

text \<open>The four bytes of a 32-bit value as a big-endian and as a little-endian machine
  stores them, and the byte swap the kernel's \<open>cpu_to_be32\<close> performs on the latter.\<close>

definition be_bytes32 :: "u32 \<Rightarrow> u8 list" where
  "be_bytes32 x = [ucast (drop_bit 24 x), ucast (drop_bit 16 x), ucast (drop_bit 8 x), ucast x]"

definition word_of_be32 :: "u8 list \<Rightarrow> u32" where
  "word_of_be32 bs = (case bs of
     [a, b, c, d] \<Rightarrow>
       push_bit 24 (ucast a) OR push_bit 16 (ucast b) OR push_bit 8 (ucast c) OR ucast d
   | _ \<Rightarrow> 0)"

definition bswap32 :: "u32 \<Rightarrow> u32" where
  "bswap32 x = word_of_be32 (rev (be_bytes32 x))"

text \<open>\<open>le\<close> tells whether the host stores integers little-endian.\<close>

definition host_bytes32 :: "bool \<Rightarrow> u32 \<Rightarrow> u8 list" where
  "host_bytes32 le x = (if le then rev (be_bytes32 x) else be_bytes32 x)"

definition host_word32 :: "bool \<Rightarrow> u8 list \<Rightarrow> u32" where
  "host_word32 le bs = word_of_be32 (if le then rev bs else bs)"

definition cpu_to_be32 :: "bool \<Rightarrow> u32 \<Rightarrow> u32" where
  "cpu_to_be32 le x = (if le then bswap32 x else x)"

definition be32_to_cpu :: "bool \<Rightarrow> u32 \<Rightarrow> u32" where
  "be32_to_cpu le x = (if le then bswap32 x else x)"

lemma length_be_bytes32 [simp]: "length (be_bytes32 x) = 4"
  by (simp add: be_bytes32_def)

lemma length_host_bytes32 [simp]: "length (host_bytes32 le x) = 4"
  by (simp add: host_bytes32_def)

lemma bit_u8_high [simp]: "8 \<le> n \<Longrightarrow> \<not> bit (x :: u8) n"
  by (auto dest: bit_imp_le_length)

lemma word_of_be32_bytes [simp]: "word_of_be32 (be_bytes32 x) = x"
proof -
  have "bit (word_of_be32 (be_bytes32 x)) n = bit x n" if n: "n < 32" for n
  proof -
    consider "n < 8" | "8 \<le> n" "n < 16" | "16 \<le> n" "n < 24" | "24 \<le> n" "n < 32"
      using n by linarith
    then show ?thesis
      by cases (auto simp: word_of_be32_def be_bytes32_def bit_simps)
  qed
  then show ?thesis by (intro bit_word_eqI) simp
qed

lemma be_bytes32_word [simp]:
  assumes "length bs = 4" shows "be_bytes32 (word_of_be32 bs) = bs"
proof -
  from assms obtain a b c d where bs: "bs = [a, b, c, d]"
    by (auto simp: eval_nat_numeral length_Suc_conv)
  have "be_bytes32 (word_of_be32 [a, b, c, d]) = [a, b, c, d]"
    unfolding word_of_be32_def be_bytes32_def
    by (auto intro!: bit_word_eqI simp: bit_simps)
  then show ?thesis by (simp add: bs)
qed

lemma bswap32_bswap32 [simp]: "bswap32 (bswap32 x) = x"
  by (simp add: bswap32_def)

lemma host_word32_bytes [simp]: "host_word32 le (host_bytes32 le x) = x"
  by (simp add: host_word32_def host_bytes32_def)

lemma be32_to_cpu_to_be32 [simp]: "be32_to_cpu le (cpu_to_be32 le x) = x"
  by (simp add: be32_to_cpu_def cpu_to_be32_def)

text \<open>What reaches the wire does not depend on the byte order of the sender, and what is read
  from the wire does not depend on the byte order of the receiver.\<close>

lemma host_bytes32_cpu_to_be32 [simp]: "host_bytes32 le (cpu_to_be32 le x) = be_bytes32 x"
  by (simp add: host_bytes32_def cpu_to_be32_def bswap32_def)

lemma be32_to_cpu_host_word32 [simp]:
  "length bs = 4 \<Longrightarrow> be32_to_cpu le (host_word32 le bs) = word_of_be32 bs"
  by (simp add: be32_to_cpu_def host_word32_def bswap32_def)

section \<open>Byte buffers\<close>

text \<open>\<open>slice i n xs\<close> are the \<open>n\<close> elements from index \<open>i\<close> on.  \<open>memmove\<close> works on one buffer,
  as its only caller does; it fails where it would touch memory outside the buffer, and a
  move of no bytes touches none.\<close>

definition slice :: "nat \<Rightarrow> nat \<Rightarrow> 'a list \<Rightarrow> 'a list" where
  "slice i n xs = take n (drop i xs)"

definition overwrite :: "nat \<Rightarrow> 'a list \<Rightarrow> 'a list \<Rightarrow> 'a list" where
  "overwrite i ys xs = take i xs @ ys @ drop (i + length ys) xs"

definition memmove :: "nat \<Rightarrow> nat \<Rightarrow> nat \<Rightarrow> 'a list \<Rightarrow> 'a list option" where
  "memmove dst src n buf =
     (if n = 0 then Some buf
      else if src + n \<le> length buf \<and> dst + n \<le> length buf
      then Some (overwrite dst (slice src n buf) buf) else None)"

lemma length_slice [simp]: "i + n \<le> length xs \<Longrightarrow> length (slice i n xs) = n"
  by (simp add: slice_def)

lemma slice_0 [simp]: "slice i 0 xs = []"
  by (simp add: slice_def)

lemma length_overwrite [simp]: "i + length ys \<le> length xs \<Longrightarrow> length (overwrite i ys xs) = length xs"
  by (simp add: overwrite_def)

lemma nth_overwrite:
  assumes "i + length ys \<le> length xs" "k < length xs"
  shows "overwrite i ys xs ! k = (if i \<le> k \<and> k < i + length ys then ys ! (k - i) else xs ! k)"
  using assms by (auto simp: overwrite_def nth_append not_less)

lemma slice_eqI:
  assumes "length xs = length ys" "\<And>k. i \<le> k \<Longrightarrow> k < i + n \<Longrightarrow> k < length xs \<Longrightarrow> xs ! k = ys ! k"
  shows "slice i n xs = slice i n ys"
  unfolding slice_def using assms by (intro nth_equalityI) auto

text \<open>A write leaves the slices it does not overlap, and puts its data where it says.\<close>

lemma slice_overwrite_disjoint:
  assumes "i + length ys \<le> length xs" "j + n \<le> i \<or> i + length ys \<le> j"
  shows "slice j n (overwrite i ys xs) = slice j n xs"
  using assms by (intro slice_eqI) (auto simp: nth_overwrite)

lemma slice_overwrite_same:
  assumes "i + length ys \<le> length xs"
  shows "slice i (length ys) (overwrite i ys xs) = ys"
  using assms by (auto simp: slice_def overwrite_def)

lemma take_overwrite:
  assumes "i + length ys \<le> length xs" "n \<le> i"
  shows "take n (overwrite i ys xs) = take n xs"
  using assms by (auto simp: overwrite_def min_def)

lemma memmove_overwrite:
  "src + n \<le> length buf \<Longrightarrow> dst + n \<le> length buf \<Longrightarrow>
   memmove dst src n buf = Some (overwrite dst (slice src n buf) buf)"
  by (simp add: memmove_def overwrite_def)

lemma unat_diff_add:
  "unat (off :: u32) = n + unat a \<Longrightarrow> unat (off - a) = n"
  by (metis add_diff_cancel_right' le_add2 unat_sub word_le_nat_alt)

lemma sint_small: "unat (x :: u32) < 2 ^ 31 \<Longrightarrow> sint x = int (unat x)"
proof -
  assume "unat x < 2 ^ 31"
  then have "unat x < 2147483648" by simp
  then have "uint x < 2147483648" using uint_nat [of x] by linarith
  then have "signed_take_bit 31 (uint x) = uint x"
    by (intro signed_take_bit_int_eq_self) (simp_all add: order_trans [of _ 0])
  then show ?thesis using sint_uint [of x] by simp
qed

lemma sint_nonneg_small: "unat (x :: u32) < 2 ^ 31 \<Longrightarrow> \<not> sint x < 0"
  using sint_small [of x] by linarith

lemma slice_concat_map:
  assumes "\<And>x. length (f x) = w" "i < length xs"
  shows "slice (w * i) w (concat (map f xs)) = f (xs ! i)"
  using assms(2)
proof (induction xs arbitrary: i)
  case (Cons x xs)
  then show ?case by (cases i) (simp_all add: slice_def assms(1))
qed simp

lemma ucast_ucast_seqnum [simp]: "ucast (ucast (n :: u32) :: ulong) = n"
  by (rule bit_word_eqI) (simp add: bit_simps)

section \<open>C strings\<close>

text \<open>A buffer of characters read as a C string ends at its first zero character.  The kernel's
  \<open>strncmp\<close> and \<open>strlcpy\<close> are used on C strings.\<close>

definition cstr :: "string \<Rightarrow> string" where
  "cstr s = takeWhile (\<lambda>c. c \<noteq> CHR 0x00) s"

definition strn_eq :: "string \<Rightarrow> string \<Rightarrow> nat \<Rightarrow> bool" where
  "strn_eq a b n = (take n a = take n b)"

definition strlcpy :: "string \<Rightarrow> nat \<Rightarrow> string" where
  "strlcpy s n = take (n - 1) s"

text \<open>The conversions of the kernel's \<open>sscanf\<close>: white space is skipped, \<open>%d\<close> takes one minus
  sign, and the value is truncated to 32 bits.\<close>

definition is_space :: "char \<Rightarrow> bool" where
  "is_space c = (c \<in> {CHR '' '', CHR 0x09, CHR 0x0A, CHR 0x0B, CHR 0x0C, CHR 0x0D})"

definition is_digit :: "char \<Rightarrow> bool" where
  "is_digit c = (48 \<le> (of_char c :: nat) \<and> (of_char c :: nat) \<le> 57)"

definition digit_val :: "char \<Rightarrow> nat" where
  "digit_val c = of_char c - 48"

fun scan_digits :: "nat \<Rightarrow> string \<Rightarrow> nat \<times> string" where
  "scan_digits acc [] = (acc, [])"
| "scan_digits acc (c # cs) =
     (if is_digit c then scan_digits (10 * acc + digit_val c) cs else (acc, c # cs))"

definition scan_unsigned :: "string \<Rightarrow> (u32 \<times> string) option" where
  "scan_unsigned s = (case dropWhile is_space s of
     [] \<Rightarrow> None
   | c # cs \<Rightarrow> if is_digit c then let (n, r) = scan_digits 0 (c # cs) in Some (of_nat n, r) else None)"

definition scan_signed :: "string \<Rightarrow> (int \<times> string) option" where
  "scan_signed s = (case dropWhile is_space s of
     CHR ''-'' # cs \<Rightarrow> map_option (\<lambda>(n, r). (sint (- n), r))
       (if cs \<noteq> [] \<and> is_digit (hd cs) then scan_unsigned cs else None)
   | cs \<Rightarrow> map_option (\<lambda>(n, r). (sint n, r)) (scan_unsigned cs))"

text \<open>\<open>kstrtol\<close> and \<open>kstrtoint\<close> with base 10, for the range \<open>lo\<close> to \<open>hi\<close> of the result: a sign, digits,
  and at most a newline after them.\<close>

definition kstrto :: "int \<Rightarrow> int \<Rightarrow> string \<Rightarrow> int + int" where
  "kstrto lo hi s =
     (let (neg, r) = (case s of [] \<Rightarrow> (False, []) | c # cs \<Rightarrow> if c = CHR ''-'' then (True, cs)
            else if c = CHR ''+'' then (False, cs) else (False, c # cs)) in
      if r = [] \<or> \<not> is_digit (hd r) then Inl (- EINVAL)
      else let (n, rest) = scan_digits 0 r; v = (if neg then - int n else int n) in
        if n \<ge> 2 ^ 64 then Inl (- ERANGE)
        else if rest \<noteq> [] \<and> rest \<noteq> [CHR 0x0A] then Inl (- EINVAL)
        else if v < lo \<or> hi < v then Inl (- ERANGE) else Inr v)"

definition kstrtol :: "string \<Rightarrow> int + int" where
  "kstrtol s = kstrto (- (2 ^ 63)) (2 ^ 63 - 1) s"

definition kstrtoint :: "string \<Rightarrow> int + int" where
  "kstrtoint s = kstrto (- (2 ^ 31)) (2 ^ 31 - 1) s"

text \<open>Digits of other bases; 16 is no digit.\<close>

definition radix_digit :: "char \<Rightarrow> nat" where
  "radix_digit c = (let n = of_char c :: nat in
     if 48 \<le> n \<and> n \<le> 57 then n - 48
     else if 97 \<le> n \<and> n \<le> 102 then n - 87
     else if 65 \<le> n \<and> n \<le> 70 then n - 55
     else 16)"

fun scan_radix :: "nat \<Rightarrow> nat \<Rightarrow> string \<Rightarrow> nat \<times> string" where
  "scan_radix radix acc [] = (acc, [])"
| "scan_radix radix acc (c # cs) =
     (if radix_digit c < radix then scan_radix radix (radix * acc + radix_digit c) cs else (acc, c # cs))"

text \<open>\<open>%d\<close> of a number that is not negative, for the attributes the drivers print.\<close>

fun decimal :: "nat \<Rightarrow> string" where
  "decimal n = (if n < 10 then [char_of (48 + n)]
     else decimal (n div 10) @ [char_of (48 + n mod 10)])"

declare decimal.simps [simp del]

lemma decimal_digits: "list_all is_digit (decimal n) \<and> decimal n \<noteq> []"
proof (induction n rule: decimal.induct)
  case (1 n)
  moreover have "n mod 10 \<le> 9" by simp
  ultimately show ?case
    by (subst decimal.simps, subst (2) decimal.simps) (simp add: is_digit_def [of "char_of _"])
qed

lemma scan_digits_append:
  "list_all is_digit xs \<Longrightarrow> scan_digits acc (xs @ ys) = scan_digits (fst (scan_digits acc xs)) ys"
  by (induction xs arbitrary: acc) auto

lemma scan_digits_decimal:
  "rest = [] \<or> \<not> is_digit (hd rest) \<Longrightarrow> scan_digits 0 (decimal n @ rest) = (n, rest)"
proof (induction n arbitrary: rest rule: decimal.induct)
  case (1 n)
  have stop: "scan_digits m rest = (m, rest)" for m using "1.prems" by (cases rest) auto
  have d: "is_digit (char_of (48 + k))" "digit_val (char_of (48 + k)) = k" if "k < 10" for k :: nat
    using that by (simp_all add: is_digit_def digit_val_def)
  show ?case
  proof (cases "n < 10")
    case True
    then show ?thesis using d [OF True] stop by (subst decimal.simps) simp
  next
    case False
    have "scan_digits 0 (decimal (n div 10) @ []) = (n div 10, [])" by (rule "1.IH" [OF False]) simp
    then have "fst (scan_digits 0 (decimal (n div 10))) = n div 10" by simp
    then show ?thesis using False d [of "n mod 10"] stop decimal_digits [of "n div 10"]
      by (subst decimal.simps) (simp add: scan_digits_append)
  qed
qed

lemma kstrtol_decimal: "n < 2 ^ 63 \<Longrightarrow> kstrtol (decimal n) = Inr (int n)"
proof -
  assume n: "n < 2 ^ 63"
  obtain c cs where c: "decimal n = c # cs" "is_digit c"
    using decimal_digits [of n] by (cases "decimal n") auto
  then have "c \<noteq> CHR ''-''" "c \<noteq> CHR ''+''" by (auto simp: is_digit_def)
  moreover have "scan_digits 0 (c # cs) = (n, [])" using scan_digits_decimal [of "[]" n] c by simp
  ultimately show ?thesis using n c by (simp add: kstrtol_def kstrto_def del: scan_digits.simps)
qed

section \<open>The USB pipe word\<close>

text \<open>The encoding of \<open>urb->pipe\<close>: bit 7 the direction, bits 8 to 14 the device address, bits
  15 to 18 the endpoint number, bits 30 and 31 the transfer type.\<close>

abbreviation (input) USB_DIR_IN :: nat where "USB_DIR_IN \<equiv> 0x80"
abbreviation (input) PIPE_ISOCHRONOUS :: u32 where "PIPE_ISOCHRONOUS \<equiv> 0"
abbreviation (input) PIPE_INTERRUPT :: u32 where "PIPE_INTERRUPT \<equiv> 1"
abbreviation (input) PIPE_CONTROL :: u32 where "PIPE_CONTROL \<equiv> 2"
abbreviation (input) PIPE_BULK :: u32 where "PIPE_BULK \<equiv> 3"

definition usb_pipein :: "u32 \<Rightarrow> bool" where
  "usb_pipein pipe = bit pipe 7"

definition usb_pipeout :: "u32 \<Rightarrow> bool" where
  "usb_pipeout pipe = (\<not> usb_pipein pipe)"

definition usb_pipetype :: "u32 \<Rightarrow> u32" where
  "usb_pipetype pipe = drop_bit 30 pipe AND 3"

definition usb_pipeisoc :: "u32 \<Rightarrow> bool" where
  "usb_pipeisoc pipe = (usb_pipetype pipe = PIPE_ISOCHRONOUS)"

definition usb_pipedevice :: "u32 \<Rightarrow> u32" where
  "usb_pipedevice pipe = drop_bit 8 pipe AND 0x7f"

definition usb_pipeendpoint :: "u32 \<Rightarrow> u32" where
  "usb_pipeendpoint pipe = drop_bit 15 pipe AND 0xf"

lemmas pipe_defs = usb_pipein_def usb_pipeout_def usb_pipetype_def usb_pipeisoc_def
  usb_pipedevice_def usb_pipeendpoint_def

section \<open>Lists as multisets\<close>

lemma filter_absent: "x \<notin> f ` set xs \<Longrightarrow> filter (\<lambda>y. f y \<noteq> x) xs = xs"
  by (auto simp: filter_id_conv)

lemma mset_filter_key:
  "distinct (map f xs) \<Longrightarrow> x \<in> set xs \<Longrightarrow> mset (filter (\<lambda>y. f y \<noteq> f x) xs) = mset xs - {#x#}"
proof (induction xs)
  case (Cons y ys)
  show ?case
  proof (cases "y = x")
    case True
    then show ?thesis using Cons.prems by (simp add: filter_absent)
  next
    case False
    then have "x \<in> set ys" "f y \<noteq> f x" using Cons.prems by auto
    then show ?thesis using Cons by (simp add: False)
  qed
qed simp

lemma distinct_mset_sub:
  assumes "mset ys \<subseteq># mset xs" "distinct xs" shows "distinct ys"
proof -
  obtain zs where "mset xs - mset ys = mset zs" by (metis ex_mset)
  then have "mset xs = mset (ys @ zs)" using assms(1) by (metis mset_append subset_mset.add_diff_inverse)
  then have "distinct (ys @ zs)" using assms(2) mset_eq_imp_distinct_iff by blast
  then show ?thesis by simp
qed

end
