(* ===== verification/Usbip_Event.thy ===== *)
theory Usbip_Event
  imports Usbip_Prelude
begin

text \<open>
  The structure every USB/IP device embeds (\<open>struct usbip_device\<close> of \<open>usbip_common.h\<close>) and the
  event handler of \<open>usbip_event.c\<close>: a device reports trouble by setting bits of its event word
  and queueing itself on a global list; one worker pops the devices and runs their shutdown,
  reset and unusable handlers.  The device drivers are clients of the handler, so what it
  needs from them is the locale \<open>eh_handlers\<close>, which the theories of the three drivers
  interpret on their own handlers.
\<close>

section \<open>The common device structure\<close>

datatype usbip_side = USBIP_VHCI | USBIP_STUB | USBIP_VUDC

datatype usbip_device_status =
    SDEV_ST_AVAILABLE | SDEV_ST_USED | SDEV_ST_ERROR
  | VDEV_ST_NULL | VDEV_ST_NOTASSIGNED | VDEV_ST_USED | VDEV_ST_ERROR

text \<open>The numbers of the enumeration, which user space reads from sysfs.\<close>

fun status_number :: "usbip_device_status \<Rightarrow> nat" where
  "status_number SDEV_ST_AVAILABLE = 1"
| "status_number SDEV_ST_USED = 2"
| "status_number SDEV_ST_ERROR = 3"
| "status_number VDEV_ST_NULL = 4"
| "status_number VDEV_ST_NOTASSIGNED = 5"
| "status_number VDEV_ST_USED = 6"
| "status_number VDEV_ST_ERROR = 7"

text \<open>\<open>ud_id\<close> stands for the address of the structure.  Sockets and \<open>usbip_ux\<close> structures are
  named by numbers, with \<open>None\<close> for a null pointer; \<open>tcp_rx\<close> and \<open>tcp_tx\<close> tell whether the
  device has a receive and a transmit thread.\<close>

record usbip_device =
  ud_id :: nat
  side :: usbip_side
  status :: usbip_device_status
  tcp_socket :: "nat option"
  ux :: "nat option"
  tcp_rx :: bool
  tcp_tx :: bool
  event :: ulong

abbreviation (input) USBIP_EH_SHUTDOWN :: ulong where "USBIP_EH_SHUTDOWN \<equiv> 1"
abbreviation (input) USBIP_EH_BYE :: ulong where "USBIP_EH_BYE \<equiv> 2"
abbreviation (input) USBIP_EH_RESET :: ulong where "USBIP_EH_RESET \<equiv> 4"
abbreviation (input) USBIP_EH_UNUSABLE :: ulong where "USBIP_EH_UNUSABLE \<equiv> 8"

definition SDEV_EVENT_REMOVED :: ulong where
  "SDEV_EVENT_REMOVED = USBIP_EH_SHUTDOWN OR USBIP_EH_BYE"
definition SDEV_EVENT_DOWN :: ulong where
  "SDEV_EVENT_DOWN = USBIP_EH_SHUTDOWN OR USBIP_EH_RESET"
definition SDEV_EVENT_ERROR_TCP :: ulong where
  "SDEV_EVENT_ERROR_TCP = USBIP_EH_SHUTDOWN OR USBIP_EH_RESET"
definition SDEV_EVENT_ERROR_SUBMIT :: ulong where
  "SDEV_EVENT_ERROR_SUBMIT = USBIP_EH_SHUTDOWN OR USBIP_EH_RESET"
definition SDEV_EVENT_ERROR_MALLOC :: ulong where
  "SDEV_EVENT_ERROR_MALLOC = USBIP_EH_SHUTDOWN OR USBIP_EH_UNUSABLE"
definition VUDC_EVENT_REMOVED :: ulong where
  "VUDC_EVENT_REMOVED = USBIP_EH_SHUTDOWN OR USBIP_EH_RESET OR USBIP_EH_BYE"
definition VUDC_EVENT_DOWN :: ulong where
  "VUDC_EVENT_DOWN = USBIP_EH_SHUTDOWN OR USBIP_EH_RESET"
definition VUDC_EVENT_ERROR_TCP :: ulong where
  "VUDC_EVENT_ERROR_TCP = USBIP_EH_SHUTDOWN OR USBIP_EH_RESET"
definition VUDC_EVENT_ERROR_USB :: ulong where
  "VUDC_EVENT_ERROR_USB = USBIP_EH_SHUTDOWN OR USBIP_EH_UNUSABLE"
definition VUDC_EVENT_ERROR_MALLOC :: ulong where
  "VUDC_EVENT_ERROR_MALLOC = USBIP_EH_SHUTDOWN OR USBIP_EH_UNUSABLE"
definition VDEV_EVENT_REMOVED :: ulong where
  "VDEV_EVENT_REMOVED = USBIP_EH_SHUTDOWN OR USBIP_EH_BYE"
definition VDEV_EVENT_DOWN :: ulong where
  "VDEV_EVENT_DOWN = USBIP_EH_SHUTDOWN OR USBIP_EH_RESET"
definition VDEV_EVENT_ERROR_TCP :: ulong where
  "VDEV_EVENT_ERROR_TCP = USBIP_EH_SHUTDOWN OR USBIP_EH_RESET"
definition VDEV_EVENT_ERROR_MALLOC :: ulong where
  "VDEV_EVENT_ERROR_MALLOC = USBIP_EH_SHUTDOWN OR USBIP_EH_UNUSABLE"

lemmas event_defs = SDEV_EVENT_REMOVED_def SDEV_EVENT_DOWN_def SDEV_EVENT_ERROR_TCP_def
  SDEV_EVENT_ERROR_SUBMIT_def SDEV_EVENT_ERROR_MALLOC_def VUDC_EVENT_REMOVED_def
  VUDC_EVENT_DOWN_def VUDC_EVENT_ERROR_TCP_def VUDC_EVENT_ERROR_USB_def
  VUDC_EVENT_ERROR_MALLOC_def VDEV_EVENT_REMOVED_def VDEV_EVENT_DOWN_def
  VDEV_EVENT_ERROR_TCP_def VDEV_EVENT_ERROR_MALLOC_def

section \<open>The kernel allocator and the state of one connection\<close>

text \<open>The kernel outside the repository is a parameter: its state is the type variable \<open>'c\<close> and
  each of its functions the drivers call is a function on that state.  \<open>kalloc n\<close> is an
  allocation of \<open>n\<close> bytes, which succeeds or fails.\<close>

type_synonym 'c kalloc = "nat \<Rightarrow> 'c \<Rightarrow> bool \<times> 'c"

text \<open>What the functions of \<open>usbip_common.c\<close> and \<open>usbip_event.c\<close> work on: the device, the
  global list of devices with pending events, and the state of the kernel.\<close>

record 'c conn =
  ud :: usbip_device
  event_list :: "nat list"
  env :: 'c

text \<open>\<open>sizeof(struct usbip_event)\<close>: two list pointers and the device pointer.\<close>

abbreviation (input) sizeof_usbip_event :: nat where "sizeof_usbip_event \<equiv> 24"

section \<open>Raising events\<close>

definition set_event :: "ulong \<Rightarrow> usbip_device \<Rightarrow> usbip_device" where
  "set_event ev d = d\<lparr>event := event d OR ev\<rparr>"

definition unset_event :: "ulong \<Rightarrow> usbip_device \<Rightarrow> usbip_device" where
  "unset_event ev d = d\<lparr>event := event d AND NOT ev\<rparr>"

definition usbip_event_add :: "'c kalloc \<Rightarrow> ulong \<Rightarrow> ('c, 'z) conn_scheme \<Rightarrow> ('c, 'z) conn_scheme" where
  "usbip_event_add kalloc ev s =
     (if event (ud s) AND USBIP_EH_BYE \<noteq> 0 then s
      else let s1 = s\<lparr>ud := set_event ev (ud s)\<rparr> in
        if ud_id (ud s1) \<in> set (event_list s1) then s1
        else let (ok, c') = kalloc sizeof_usbip_event (env s1) in
          if \<not> ok then s1\<lparr>env := c'\<rparr>
          else s1\<lparr>env := c', event_list := event_list s1 @ [ud_id (ud s1)]\<rparr>)"

definition usbip_event_happened :: "usbip_device \<Rightarrow> bool" where
  "usbip_event_happened d = (event d \<noteq> 0)"

definition usbip_start_eh :: "usbip_device \<Rightarrow> usbip_device" where
  "usbip_start_eh d = d\<lparr>event := 0\<rparr>"

text \<open>\<open>usbip_stop_eh\<close> waits until this holds of the device.\<close>

definition usbip_stop_eh_done :: "usbip_device \<Rightarrow> bool" where
  "usbip_stop_eh_done d = (event d AND NOT USBIP_EH_BYE = 0)"

definition usbip_in_eh :: "nat option \<Rightarrow> nat \<Rightarrow> bool" where
  "usbip_in_eh worker_context task = (worker_context = Some task)"

section \<open>The event handler\<close>

text \<open>The handler runs over the state \<open>'w\<close> of a driver: \<open>dev_of\<close> and \<open>put_dev\<close> read and write the
  common structure of a device, \<open>events_of\<close> and \<open>put_events\<close> the list of pending devices, and the
  last three are the device's \<open>eh_ops\<close>.\<close>

record 'w eh_ops =
  dev_of :: "nat \<Rightarrow> 'w \<Rightarrow> usbip_device"
  put_dev :: "nat \<Rightarrow> usbip_device \<Rightarrow> 'w \<Rightarrow> 'w"
  events_of :: "'w \<Rightarrow> nat list"
  put_events :: "nat list \<Rightarrow> 'w \<Rightarrow> 'w"
  eh_shutdown :: "nat \<Rightarrow> 'w \<Rightarrow> 'w"
  eh_reset :: "nat \<Rightarrow> 'w \<Rightarrow> 'w"
  eh_unusable :: "nat \<Rightarrow> 'w \<Rightarrow> 'w"

definition get_event :: "'w eh_ops \<Rightarrow> 'w \<Rightarrow> nat option \<times> 'w" where
  "get_event ops w = (case events_of ops w of
     [] \<Rightarrow> (None, w)
   | d # ds \<Rightarrow> (Some d, put_events ops ds w))"

text \<open>One of the three \<open>if\<close>s of the handler: run the operation when its bit is set, then clear
  the bit.\<close>

definition run_eh_op ::
  "'w eh_ops \<Rightarrow> ulong \<Rightarrow> (nat \<Rightarrow> 'w \<Rightarrow> 'w) \<Rightarrow> nat \<Rightarrow> 'w \<Rightarrow> 'w" where
  "run_eh_op ops ev f d w =
     (if event (dev_of ops d w) AND ev \<noteq> 0
      then let w1 = f d w in put_dev ops d (unset_event ev (dev_of ops d w1)) w1
      else w)"

definition handle_device :: "'w eh_ops \<Rightarrow> nat \<Rightarrow> 'w \<Rightarrow> 'w" where
  "handle_device ops d w =
     run_eh_op ops USBIP_EH_UNUSABLE (eh_unusable ops) d
       (run_eh_op ops USBIP_EH_RESET (eh_reset ops) d
         (run_eh_op ops USBIP_EH_SHUTDOWN (eh_shutdown ops) d w))"

text \<open>The worker's loop, with fuel for the number of devices popped; \<open>None\<close> is fuel used up.
  The handler remembers in \<open>worker_context\<close> the task it runs in.\<close>

fun event_loop :: "'w eh_ops \<Rightarrow> nat \<Rightarrow> 'w \<Rightarrow> 'w option" where
  "event_loop ops fuel w = (case get_event ops w of
     (None, w1) \<Rightarrow> Some w1
   | (Some d, w1) \<Rightarrow>
       (case fuel of 0 \<Rightarrow> None | Suc n \<Rightarrow> event_loop ops n (handle_device ops d w1)))"

declare event_loop.simps [simp del]

definition event_handler ::
  "'w eh_ops \<Rightarrow> nat \<Rightarrow> nat option \<Rightarrow> nat \<Rightarrow> 'w \<Rightarrow> nat option \<times> 'w option" where
  "event_handler ops current worker_context fuel w =
     (if worker_context = None then Some current else worker_context, event_loop ops fuel w)"

text \<open>\<open>usbip_stop_eh\<close> waits for the event worker: the worker runs until its list is empty, and
  the wait is over when the device has no event left but \<open>USBIP_EH_BYE\<close>.  \<open>None\<close> is a wait
  that never ends.\<close>

definition usbip_stop_eh :: "'w eh_ops \<Rightarrow> nat \<Rightarrow> 'w \<Rightarrow> 'w option" where
  "usbip_stop_eh ops a w = (case event_loop ops (length (events_of ops w)) w of
     None \<Rightarrow> None
   | Some w' \<Rightarrow> if usbip_stop_eh_done (dev_of ops a w') then Some w' else None)"

section \<open>Facts on event words\<close>

lemma and_not_absorb: "(x :: ulong) AND ev = 0 \<Longrightarrow> x AND NOT ev = x"
  by (rule bit_word_eqI) (auto simp: bit_eq_iff bit_simps)

lemma event_set_event [simp]: "event (set_event ev d) = event d OR ev"
  by (simp add: set_event_def)

lemma event_unset_event [simp]: "event (unset_event ev d) = event d AND NOT ev"
  by (simp add: unset_event_def)

lemma unset_event_sel [simp]:
  "ud_id (unset_event ev d) = ud_id d" "side (unset_event ev d) = side d"
  "status (unset_event ev d) = status d" "tcp_socket (unset_event ev d) = tcp_socket d"
  "ux (unset_event ev d) = ux d" "tcp_rx (unset_event ev d) = tcp_rx d"
  "tcp_tx (unset_event ev d) = tcp_tx d"
  by (simp_all add: unset_event_def)

lemma set_event_sel [simp]:
  "ud_id (set_event ev d) = ud_id d" "side (set_event ev d) = side d"
  "status (set_event ev d) = status d" "tcp_socket (set_event ev d) = tcp_socket d"
  "ux (set_event ev d) = ux d" "tcp_rx (set_event ev d) = tcp_rx d"
  "tcp_tx (set_event ev d) = tcp_tx d"
  by (simp_all add: set_event_def)

text \<open>Raising an event touches the event word, the list and the allocator only.\<close>

lemma usbip_event_add_frame [simp]:
  "ud_id (ud (usbip_event_add ka ev s)) = ud_id (ud s)"
  "side (ud (usbip_event_add ka ev s)) = side (ud s)"
  "status (ud (usbip_event_add ka ev s)) = status (ud s)"
  "tcp_socket (ud (usbip_event_add ka ev s)) = tcp_socket (ud s)"
  "ux (ud (usbip_event_add ka ev s)) = ux (ud s)"
  "tcp_rx (ud (usbip_event_add ka ev s)) = tcp_rx (ud s)"
  "tcp_tx (ud (usbip_event_add ka ev s)) = tcp_tx (ud s)"
  "conn.more (usbip_event_add ka ev s) = conn.more s"
  by (simp_all add: usbip_event_add_def Let_def split: prod.split)

lemma usbip_event_add_event:
  "event (ud (usbip_event_add ka ev s)) =
     (if event (ud s) AND USBIP_EH_BYE \<noteq> 0 then event (ud s) else event (ud s) OR ev)"
  by (simp add: usbip_event_add_def Let_def split: prod.split)

lemma usbip_event_add_list:
  "event_list (usbip_event_add ka ev s) = event_list s \<or>
   (ud_id (ud s) \<notin> set (event_list s) \<and>
    event_list (usbip_event_add ka ev s) = event_list s @ [ud_id (ud s)])"
  by (simp add: usbip_event_add_def Let_def split: prod.split)

lemma usbip_event_add_distinct:
  "distinct (event_list s) \<Longrightarrow> distinct (event_list (usbip_event_add ka ev s))"
  using usbip_event_add_list [of ka ev s] by auto

text \<open>An operation on one device puts no other on the list of pending devices.\<close>

definition queues_own :: "('c, 'z) conn_scheme \<Rightarrow> ('c, 'z) conn_scheme \<Rightarrow> bool" where
  "queues_own s s' = (ud_id (ud s') = ud_id (ud s) \<and>
     set (event_list s') \<subseteq> insert (ud_id (ud s)) (set (event_list s)))"

lemma queues_own_refl [simp]: "ud s' = ud s \<Longrightarrow> event_list s' = event_list s \<Longrightarrow> queues_own s s'"
  by (auto simp: queues_own_def)

lemma queues_own_trans: "queues_own s s' \<Longrightarrow> queues_own s' s'' \<Longrightarrow> queues_own s s''"
  by (auto simp: queues_own_def)

lemma queues_own_event_add [simp]: "queues_own s (usbip_event_add ka ev s)"
  using usbip_event_add_list [of ka ev s] by (auto simp: queues_own_def)

section \<open>What the handler needs of a driver\<close>

text \<open>\<open>known d w\<close>: \<open>d\<close> is a device of the driver.  The three operations leave the event words and
  the list of pending devices alone.\<close>

locale eh_handlers =
  fixes ops :: "'w eh_ops"
    and known :: "nat \<Rightarrow> 'w \<Rightarrow> bool"
  assumes dev_put_dev: "known d w \<Longrightarrow> dev_of ops d (put_dev ops d x w) = x"
    and dev_put_dev_other: "known d w \<Longrightarrow> known d' w \<Longrightarrow> d' \<noteq> d \<Longrightarrow>
          dev_of ops d' (put_dev ops d x w) = dev_of ops d' w"
    and events_put_dev: "known d w \<Longrightarrow> events_of ops (put_dev ops d x w) = events_of ops w"
    and dev_put_events: "known d w \<Longrightarrow> dev_of ops d (put_events ops ds w) = dev_of ops d w"
    and events_put_events: "events_of ops (put_events ops ds w) = ds"
    and known_put_dev: "known d w \<Longrightarrow> known d' (put_dev ops d x w) = known d' w"
    and known_put_events: "known d (put_events ops ds w) = known d w"
    and op_known: "f \<in> {eh_shutdown ops, eh_reset ops, eh_unusable ops} \<Longrightarrow> known d w \<Longrightarrow>
          known d' (f d w) = known d' w"
    and op_event: "f \<in> {eh_shutdown ops, eh_reset ops, eh_unusable ops} \<Longrightarrow> known d w \<Longrightarrow>
          known d' w \<Longrightarrow> event (dev_of ops d' (f d w)) = event (dev_of ops d' w)"
    and op_events: "f \<in> {eh_shutdown ops, eh_reset ops, eh_unusable ops} \<Longrightarrow> known d w \<Longrightarrow>
          events_of ops (f d w) = events_of ops w"
begin

lemma run_eh_op_known:
  "f \<in> {eh_shutdown ops, eh_reset ops, eh_unusable ops} \<Longrightarrow> known d w \<Longrightarrow>
   known d' (run_eh_op ops ev f d w) = known d' w"
  by (simp add: run_eh_op_def Let_def op_known known_put_dev)

lemma run_eh_op_events:
  "f \<in> {eh_shutdown ops, eh_reset ops, eh_unusable ops} \<Longrightarrow> known d w \<Longrightarrow>
   events_of ops (run_eh_op ops ev f d w) = events_of ops w"
  by (simp add: run_eh_op_def Let_def op_known op_events events_put_dev)

lemma run_eh_op_event:
  "f \<in> {eh_shutdown ops, eh_reset ops, eh_unusable ops} \<Longrightarrow> known d w \<Longrightarrow>
   event (dev_of ops d (run_eh_op ops ev f d w)) = event (dev_of ops d w) AND NOT ev"
  by (auto simp: run_eh_op_def Let_def op_known op_event dev_put_dev and_not_absorb)

lemma run_eh_op_event_other:
  "f \<in> {eh_shutdown ops, eh_reset ops, eh_unusable ops} \<Longrightarrow> known d w \<Longrightarrow> known d' w \<Longrightarrow>
   d' \<noteq> d \<Longrightarrow> event (dev_of ops d' (run_eh_op ops ev f d w)) = event (dev_of ops d' w)"
  by (auto simp: run_eh_op_def Let_def op_known op_event dev_put_dev_other)

lemmas run_eh_op_facts = run_eh_op_known run_eh_op_events run_eh_op_event run_eh_op_event_other

lemma handle_device_known: "known d w \<Longrightarrow> known d' (handle_device ops d w) = known d' w"
  by (simp add: handle_device_def run_eh_op_facts)

lemma handle_device_events:
  "known d w \<Longrightarrow> events_of ops (handle_device ops d w) = events_of ops w"
  by (simp add: handle_device_def run_eh_op_facts)

lemma handle_device_event:
  "known d w \<Longrightarrow> event (dev_of ops d (handle_device ops d w)) =
     event (dev_of ops d w) AND NOT (USBIP_EH_SHUTDOWN OR USBIP_EH_RESET OR USBIP_EH_UNUSABLE)"
  by (simp add: handle_device_def run_eh_op_facts and.assoc)

lemma handle_device_event_other:
  "known d w \<Longrightarrow> known d' w \<Longrightarrow> d' \<noteq> d \<Longrightarrow>
   event (dev_of ops d' (handle_device ops d w)) = event (dev_of ops d' w)"
  by (simp add: handle_device_def run_eh_op_facts)

text \<open>What every operation of a driver keeps, the worker keeps.\<close>

lemma run_eh_op_inv:
  assumes op: "\<And>f d w. f \<in> {eh_shutdown ops, eh_reset ops, eh_unusable ops} \<Longrightarrow> known d w \<Longrightarrow>
      Q w \<Longrightarrow> Q (f d w)"
    and put: "\<And>d ev w. known d w \<Longrightarrow> Q w \<Longrightarrow> Q (put_dev ops d (unset_event ev (dev_of ops d w)) w)"
    and Q: "Q x" "known d x" "f \<in> {eh_shutdown ops, eh_reset ops, eh_unusable ops}"
  shows "Q (run_eh_op ops ev f d x)"
proof -
  have "known d (f d x)" using op_known [OF Q(3,2)] Q(2) by simp
  from put [OF this op [OF Q(3,2,1)]] Q(1) show ?thesis by (simp add: run_eh_op_def Let_def)
qed

lemma event_loop_inv:
  assumes op: "\<And>f d w. f \<in> {eh_shutdown ops, eh_reset ops, eh_unusable ops} \<Longrightarrow> known d w \<Longrightarrow>
      Q w \<Longrightarrow> Q (f d w)"
    and put: "\<And>d ev w. known d w \<Longrightarrow> Q w \<Longrightarrow> Q (put_dev ops d (unset_event ev (dev_of ops d w)) w)"
    and putl: "\<And>ds w. Q w \<Longrightarrow> Q (put_events ops ds w)"
  shows "event_loop ops n w = Some w' \<Longrightarrow> Q w \<Longrightarrow> \<forall>d\<in>set (events_of ops w). known d w \<Longrightarrow> Q w'"
proof (induction n arbitrary: w)
  case 0
  then show ?case by (subst (asm) event_loop.simps) (auto simp: get_event_def split: list.splits)
next
  case (Suc n)
  have r: "Q (run_eh_op ops ev f d x)" if "Q x" "known d x"
    "f \<in> {eh_shutdown ops, eh_reset ops, eh_unusable ops}" for ev f d x
    by (rule run_eh_op_inv [where Q = Q]) (use op put that in auto)
  show ?case
  proof (cases "events_of ops w")
    case Nil
    then show ?thesis using Suc.prems by (subst (asm) event_loop.simps) (simp add: get_event_def)
  next
    case (Cons d ds)
    let ?w1 = "put_events ops ds w" and ?w2 = "handle_device ops d (put_events ops ds w)"
    have k: "known d ?w1" using Suc.prems(3) Cons by (simp add: known_put_events)
    have "Q ?w2" using k putl [OF Suc.prems(2)] by (simp add: handle_device_def r run_eh_op_known)
    moreover have "\<forall>d\<in>set (events_of ops ?w2). known d ?w2"
      using Suc.prems(3) Cons k
      by (simp add: handle_device_events handle_device_known events_put_events known_put_events)
    moreover have "event_loop ops n ?w2 = Some w'"
      using Suc.prems(1) Cons by (subst (asm) event_loop.simps) (simp add: get_event_def)
    ultimately show ?thesis using Suc.IH by blast
  qed
qed

text \<open>With as much fuel as there are pending devices the worker empties the list, and every
  device that was on it has no handler left to run; the others keep their event words.\<close>

lemma event_loop_drains:
  assumes "\<forall>d\<in>set (events_of ops w). known d w"
  shows "\<exists>w'. event_loop ops (length (events_of ops w)) w = Some w' \<and> events_of ops w' = [] \<and>
    (\<forall>d. known d w' = known d w) \<and>
    (\<forall>d. known d w \<longrightarrow> event (dev_of ops d w') =
       (if d \<in> set (events_of ops w)
        then event (dev_of ops d w) AND
             NOT (USBIP_EH_SHUTDOWN OR USBIP_EH_RESET OR USBIP_EH_UNUSABLE)
        else event (dev_of ops d w)))"
  using assms
proof (induction "events_of ops w" arbitrary: w)
  case Nil
  then have "event_loop ops 0 w = Some w"
    by (subst event_loop.simps) (simp add: get_event_def)
  with Nil show ?case by (metis length_0_conv empty_iff list.set(1))
next
  case (Cons d ds)
  have e: "events_of ops w = d # ds" using Cons.hyps(2) by simp
  let ?w1 = "put_events ops ds w"
  let ?w2 = "handle_device ops d ?w1"
  let ?m = "NOT (USBIP_EH_SHUTDOWN OR USBIP_EH_RESET OR USBIP_EH_UNUSABLE)"
  have kd: "known d ?w1" using Cons.prems by (simp add: known_put_events e)
  have ev2: "ds = events_of ops ?w2" by (simp add: handle_device_events kd events_put_events)
  have kn2: "known d' ?w2 = known d' w" for d'
    using handle_device_known [OF kd] by (simp add: known_put_events)
  have "\<forall>d\<in>set (events_of ops ?w2). known d ?w2"
    using Cons.prems by (simp add: kn2 e flip: ev2)
  from Cons.hyps(1) [OF ev2 this] obtain w' where w':
    "event_loop ops (length ds) ?w2 = Some w'" "events_of ops w' = []"
    "\<And>d. known d w' = known d w"
    "\<And>d. known d w \<Longrightarrow> event (dev_of ops d w') =
       (if d \<in> set ds then event (dev_of ops d ?w2) AND ?m else event (dev_of ops d ?w2))"
    by (auto simp: kn2 simp flip: ev2)
  have ev: "event (dev_of ops d' ?w2) = (if d' = d then event (dev_of ops d' w) AND ?m
      else event (dev_of ops d' w))" if "known d' w" for d'
    using that kd
    by (simp add: handle_device_event handle_device_event_other known_put_events dev_put_events)
  have "event_loop ops (length (events_of ops w)) w = Some w'"
    by (subst event_loop.simps) (simp add: get_event_def e w'(1))
  moreover have "event (dev_of ops d' w') = (if d' \<in> set (d # ds)
      then event (dev_of ops d' w) AND ?m else event (dev_of ops d' w))" if "known d' w" for d'
    using that by (cases "d' = d") (simp_all add: w'(4) ev and.assoc)
  ultimately show ?case using w'(2,3) unfolding e by blast
qed

end

section \<open>The life of a connection\<close>

text \<open>A device is closed when it has neither socket nor threads.  What the drivers' operations do
  to that and to the status of the device: shutting down closes it and leaves its status (where
  \<open>sane\<close> excludes that the operation faults), a reset leaves it idle if it succeeds, as \<open>reset_ok\<close>
  says, and else in error, and an unusable device is in error.\<close>

definition closed :: "usbip_device \<Rightarrow> bool" where
  "closed d = (tcp_socket d = None \<and> \<not> tcp_rx d \<and> \<not> tcp_tx d)"

lemma closed_unset_event [simp]: "closed (unset_event ev d) = closed d"
  by (simp add: closed_def)

locale eh_lifecycle = eh_handlers ops known
  for ops :: "'w eh_ops" and known :: "nat \<Rightarrow> 'w \<Rightarrow> bool" +
  fixes sane :: "nat \<Rightarrow> 'w \<Rightarrow> bool"
    and reset_ok :: "nat \<Rightarrow> 'w \<Rightarrow> bool"
    and idle :: usbip_device_status
    and err :: usbip_device_status
  assumes shutdown_closes: "known d w \<Longrightarrow> sane d w \<Longrightarrow> closed (dev_of ops d (eh_shutdown ops d w))"
    and shutdown_status: "known d w \<Longrightarrow> sane d w \<Longrightarrow>
          status (dev_of ops d (eh_shutdown ops d w)) = status (dev_of ops d w)"
    and reset_closed: "known d w \<Longrightarrow> closed (dev_of ops d w) \<Longrightarrow>
          closed (dev_of ops d (eh_reset ops d w))"
    and reset_status: "known d w \<Longrightarrow>
          status (dev_of ops d (eh_reset ops d w)) = (if reset_ok d w then idle else err)"
    and reset_ok_put: "known d w \<Longrightarrow> reset_ok d (put_dev ops d x w) = reset_ok d w"
    and unusable_closed: "known d w \<Longrightarrow> closed (dev_of ops d w) \<Longrightarrow>
          closed (dev_of ops d (eh_unusable ops d w))"
    and unusable_status: "known d w \<Longrightarrow> status (dev_of ops d (eh_unusable ops d w)) = err"
begin

lemma run_shutdown:
  assumes "known d w" "sane d w" "event (dev_of ops d w) AND USBIP_EH_SHUTDOWN \<noteq> 0"
  defines "w1 \<equiv> run_eh_op ops USBIP_EH_SHUTDOWN (eh_shutdown ops) d w"
  shows "closed (dev_of ops d w1)" "status (dev_of ops d w1) = status (dev_of ops d w)"
    "reset_ok d w1 = reset_ok d (eh_shutdown ops d w)"
  using assms
  by (simp_all add: run_eh_op_def Let_def dev_put_dev op_known shutdown_closes shutdown_status reset_ok_put)

lemma run_reset:
  assumes "known d w" "closed (dev_of ops d w)"
  defines "w1 \<equiv> run_eh_op ops USBIP_EH_RESET (eh_reset ops) d w"
  shows "closed (dev_of ops d w1)"
    "status (dev_of ops d w1) = (if event (dev_of ops d w) AND USBIP_EH_RESET = 0 then status (dev_of ops d w)
       else if reset_ok d w then idle else err)"
  using assms by (simp_all add: run_eh_op_def Let_def dev_put_dev op_known reset_closed reset_status)

lemma run_unusable:
  assumes "known d w" "closed (dev_of ops d w)"
  defines "w1 \<equiv> run_eh_op ops USBIP_EH_UNUSABLE (eh_unusable ops) d w"
  shows "closed (dev_of ops d w1)"
    "status (dev_of ops d w1) = (if event (dev_of ops d w) AND USBIP_EH_UNUSABLE = 0
       then status (dev_of ops d w) else err)"
  using assms by (simp_all add: run_eh_op_def Let_def dev_put_dev op_known unusable_closed unusable_status)

text \<open>A device that reports trouble is closed by the handler.  An unusable device is in error after
  it; otherwise a reset, if one was asked for, decides, in the state the shutdown left; a device that
  was only shut down or removed keeps its status.\<close>

lemma handle_device_lifecycle:
  assumes k: "known d w" and s: "sane d w"
    and ev: "event (dev_of ops d w) AND USBIP_EH_SHUTDOWN \<noteq> 0"
  shows "closed (dev_of ops d (handle_device ops d w)) \<and>
    status (dev_of ops d (handle_device ops d w)) =
      (if event (dev_of ops d w) AND USBIP_EH_UNUSABLE \<noteq> 0 then err
       else if event (dev_of ops d w) AND USBIP_EH_RESET \<noteq> 0
       then (if reset_ok d (eh_shutdown ops d w) then idle else err)
       else status (dev_of ops d w)) \<and>
    event (dev_of ops d (handle_device ops d w)) =
      event (dev_of ops d w) AND NOT (USBIP_EH_SHUTDOWN OR USBIP_EH_RESET OR USBIP_EH_UNUSABLE)"
proof -
  let ?w1 = "run_eh_op ops USBIP_EH_SHUTDOWN (eh_shutdown ops) d w"
  let ?w2 = "run_eh_op ops USBIP_EH_RESET (eh_reset ops) d ?w1"
  have k1: "known d ?w1" and k2: "known d ?w2" using k by (simp_all add: run_eh_op_known)
  note sd = run_shutdown [OF k s ev]
  note rs = run_reset [OF k1 sd(1)]
  note un = run_unusable [OF k2 rs(1)]
  have e1: "event (dev_of ops d ?w1) = event (dev_of ops d w) AND NOT USBIP_EH_SHUTDOWN"
    using k by (simp add: run_eh_op_event)
  have e2: "event (dev_of ops d ?w2) =
      event (dev_of ops d w) AND NOT USBIP_EH_SHUTDOWN AND NOT USBIP_EH_RESET"
    using k1 e1 by (simp add: run_eh_op_event and.assoc)
  have r1: "event (dev_of ops d ?w1) AND USBIP_EH_RESET = event (dev_of ops d w) AND USBIP_EH_RESET"
    unfolding e1 by (simp add: and.assoc)
  have r2: "event (dev_of ops d ?w2) AND USBIP_EH_UNUSABLE =
      event (dev_of ops d w) AND USBIP_EH_UNUSABLE"
    unfolding e2 by (simp add: and.assoc)
  show ?thesis
    using un rs(2) sd(2,3) r1 r2 handle_device_event [OF k] by (auto simp: handle_device_def)
qed

end

end
