(* ===== verification/Usbip_Pdu.thy ===== *)
theory Usbip_Pdu
  imports Usbip_Prelude
begin

text \<open>
  The requests of the USB/IP protocol: the header structures of \<open>usbip_common.h\<close> with their byte
  layout, the URB fields they are built from, and the packing and byte order functions of
  \<open>usbip_common.c\<close>.  The two round trips (a header that is sent is received as it was, whatever
  the byte orders of the two hosts; a URB that is packed is unpacked as it was) are the base of
  the end-to-end properties of the root theory.
\<close>

section \<open>Structures\<close>

abbreviation (input) USBIP_CMD_SUBMIT :: u32 where "USBIP_CMD_SUBMIT \<equiv> 1"
abbreviation (input) USBIP_CMD_UNLINK :: u32 where "USBIP_CMD_UNLINK \<equiv> 2"
abbreviation (input) USBIP_RET_SUBMIT :: u32 where "USBIP_RET_SUBMIT \<equiv> 3"
abbreviation (input) USBIP_RET_UNLINK :: u32 where "USBIP_RET_UNLINK \<equiv> 4"
abbreviation (input) USBIP_DIR_OUT :: u32 where "USBIP_DIR_OUT \<equiv> 0"
abbreviation (input) USBIP_DIR_IN :: u32 where "USBIP_DIR_IN \<equiv> 1"

record usbip_header_basic =
  b_command :: u32
  b_seqnum :: u32
  b_devid :: u32
  b_direction :: u32
  b_ep :: u32

record usbip_header_cmd_submit =
  cs_transfer_flags :: u32
  cs_transfer_buffer_length :: u32
  cs_start_frame :: u32
  cs_number_of_packets :: u32
  cs_interval :: u32
  cs_setup :: "u8 list"

record usbip_header_ret_submit =
  rs_status :: u32
  rs_actual_length :: u32
  rs_start_frame :: u32
  rs_number_of_packets :: u32
  rs_error_count :: u32

record usbip_header_cmd_unlink =
  cu_seqnum :: u32

record usbip_header_ret_unlink =
  ru_status :: u32

text \<open>The union of the four: 28 bytes, that is five words and the eight bytes of \<open>setup\<close>.  Its
  members overlay each other word by word.\<close>

record usbip_header_u =
  u_w0 :: u32
  u_w1 :: u32
  u_w2 :: u32
  u_w3 :: u32
  u_w4 :: u32
  u_setup :: "u8 list"

record usbip_header =
  base :: usbip_header_basic
  u :: usbip_header_u

definition cmd_submit :: "usbip_header_u \<Rightarrow> usbip_header_cmd_submit" where
  "cmd_submit m = \<lparr>cs_transfer_flags = u_w0 m, cs_transfer_buffer_length = u_w1 m,
     cs_start_frame = u_w2 m, cs_number_of_packets = u_w3 m, cs_interval = u_w4 m,
     cs_setup = u_setup m\<rparr>"

definition put_cmd_submit :: "usbip_header_cmd_submit \<Rightarrow> usbip_header_u \<Rightarrow> usbip_header_u" where
  "put_cmd_submit p m = \<lparr>u_w0 = cs_transfer_flags p, u_w1 = cs_transfer_buffer_length p,
     u_w2 = cs_start_frame p, u_w3 = cs_number_of_packets p, u_w4 = cs_interval p,
     u_setup = cs_setup p\<rparr>"

definition ret_submit :: "usbip_header_u \<Rightarrow> usbip_header_ret_submit" where
  "ret_submit m = \<lparr>rs_status = u_w0 m, rs_actual_length = u_w1 m, rs_start_frame = u_w2 m,
     rs_number_of_packets = u_w3 m, rs_error_count = u_w4 m\<rparr>"

definition put_ret_submit :: "usbip_header_ret_submit \<Rightarrow> usbip_header_u \<Rightarrow> usbip_header_u" where
  "put_ret_submit p m = m\<lparr>u_w0 := rs_status p, u_w1 := rs_actual_length p,
     u_w2 := rs_start_frame p, u_w3 := rs_number_of_packets p, u_w4 := rs_error_count p\<rparr>"

definition cmd_unlink :: "usbip_header_u \<Rightarrow> usbip_header_cmd_unlink" where
  "cmd_unlink m = \<lparr>cu_seqnum = u_w0 m\<rparr>"

definition put_cmd_unlink :: "usbip_header_cmd_unlink \<Rightarrow> usbip_header_u \<Rightarrow> usbip_header_u" where
  "put_cmd_unlink p m = m\<lparr>u_w0 := cu_seqnum p\<rparr>"

definition ret_unlink :: "usbip_header_u \<Rightarrow> usbip_header_ret_unlink" where
  "ret_unlink m = \<lparr>ru_status = u_w0 m\<rparr>"

definition put_ret_unlink :: "usbip_header_ret_unlink \<Rightarrow> usbip_header_u \<Rightarrow> usbip_header_u" where
  "put_ret_unlink p m = m\<lparr>u_w0 := ru_status p\<rparr>"

lemmas union_defs = cmd_submit_def put_cmd_submit_def ret_submit_def put_ret_submit_def
  cmd_unlink_def put_cmd_unlink_def ret_unlink_def put_ret_unlink_def

text \<open>The header after \<open>memset(&pdu, 0, sizeof(pdu))\<close>.\<close>

definition zero_header :: usbip_header where
  "zero_header = \<lparr>base = \<lparr>b_command = 0, b_seqnum = 0, b_devid = 0, b_direction = 0, b_ep = 0\<rparr>,
     u = \<lparr>u_w0 = 0, u_w1 = 0, u_w2 = 0, u_w3 = 0, u_w4 = 0, u_setup = replicate 8 0\<rparr>\<rparr>"

definition wf_header :: "usbip_header \<Rightarrow> bool" where
  "wf_header h = (length (u_setup (u h)) = 8)"

text \<open>The packet descriptor of the protocol, and that of the USB core.\<close>

record usbip_iso_packet_descriptor =
  i_offset :: u32
  i_length :: u32
  i_actual_length :: u32
  i_status :: u32

record usb_iso_packet_descriptor =
  iso_offset :: u32
  iso_length :: u32
  iso_actual_length :: u32
  iso_status :: int

text \<open>The fields of \<open>struct urb\<close> that USB/IP reads and writes.  A buffer is the list of its bytes
  (\<open>None\<close> a null pointer), \<open>iso_frame_desc\<close> the list of the descriptors allocated with the URB.\<close>

record urb =
  urb_pipe :: u32
  urb_transfer_flags :: u32
  urb_transfer_buffer :: "u8 list option"
  urb_transfer_buffer_length :: u32
  urb_actual_length :: u32
  urb_status :: int
  urb_start_frame :: u32
  urb_number_of_packets :: u32
  urb_interval :: u32
  urb_error_count :: u32
  urb_setup_packet :: "u8 list option"
  urb_iso_frame_desc :: "usb_iso_packet_descriptor list"

definition in_s32 :: "int \<Rightarrow> bool" where
  "in_s32 i = (- (2 ^ 31) \<le> i \<and> i < 2 ^ 31)"

lemma sint_of_s32 [simp]: "in_s32 i \<Longrightarrow> sint (word_of_int i :: u32) = i"
  by (simp add: in_s32_def signed_of_int signed_take_bit_int_eq_self)

lemma word_of_sint32 [simp]: "(word_of_int (sint x) :: u32) = x"
  by simp

section \<open>Packing\<close>

abbreviation (input) URB_NO_TRANSFER_DMA_MAP :: u32 where "URB_NO_TRANSFER_DMA_MAP \<equiv> 4"

definition tweak_transfer_flags :: "u32 \<Rightarrow> u32" where
  "tweak_transfer_flags flags = flags AND NOT URB_NO_TRANSFER_DMA_MAP"

text \<open>The functions of the source work in both directions; \<open>pack\<close> chooses.  The result is the
  header and the URB, one of them changed.\<close>

definition usbip_pack_cmd_submit ::
  "usbip_header \<Rightarrow> 'z urb_scheme \<Rightarrow> bool \<Rightarrow> usbip_header \<times> 'z urb_scheme" where
  "usbip_pack_cmd_submit pdu urb pack =
     (let spdu = cmd_submit (u pdu) in
      if pack then
        (pdu\<lparr>u := put_cmd_submit (spdu\<lparr>
           cs_transfer_flags := tweak_transfer_flags (urb_transfer_flags urb),
           cs_transfer_buffer_length := urb_transfer_buffer_length urb,
           cs_start_frame := urb_start_frame urb,
           cs_number_of_packets := urb_number_of_packets urb,
           cs_interval := urb_interval urb\<rparr>) (u pdu)\<rparr>, urb)
      else
        (pdu, urb\<lparr>
           urb_transfer_flags := cs_transfer_flags spdu,
           urb_transfer_buffer_length := cs_transfer_buffer_length spdu,
           urb_start_frame := cs_start_frame spdu,
           urb_number_of_packets := cs_number_of_packets spdu,
           urb_interval := cs_interval spdu\<rparr>))"

definition usbip_pack_ret_submit ::
  "usbip_header \<Rightarrow> 'z urb_scheme \<Rightarrow> bool \<Rightarrow> usbip_header \<times> 'z urb_scheme" where
  "usbip_pack_ret_submit pdu urb pack =
     (let rpdu = ret_submit (u pdu) in
      if pack then
        (pdu\<lparr>u := put_ret_submit (rpdu\<lparr>
           rs_status := word_of_int (urb_status urb),
           rs_actual_length := urb_actual_length urb,
           rs_start_frame := urb_start_frame urb,
           rs_number_of_packets := urb_number_of_packets urb,
           rs_error_count := urb_error_count urb\<rparr>) (u pdu)\<rparr>, urb)
      else
        (pdu, urb\<lparr>
           urb_status := sint (rs_status rpdu),
           urb_actual_length := rs_actual_length rpdu,
           urb_start_frame := rs_start_frame rpdu,
           urb_number_of_packets := rs_number_of_packets rpdu,
           urb_error_count := rs_error_count rpdu\<rparr>))"

definition usbip_pack_pdu ::
  "usbip_header \<Rightarrow> 'z urb_scheme \<Rightarrow> u32 \<Rightarrow> bool \<Rightarrow> usbip_header \<times> 'z urb_scheme" where
  "usbip_pack_pdu pdu urb cmd pack =
     (if cmd = USBIP_CMD_SUBMIT then usbip_pack_cmd_submit pdu urb pack
      else if cmd = USBIP_RET_SUBMIT then usbip_pack_ret_submit pdu urb pack
      else (pdu, urb))"

section \<open>Byte order\<close>

text \<open>\<open>conv le send\<close> is the conversion of one field on a host of byte order \<open>le\<close>.\<close>

definition conv :: "bool \<Rightarrow> bool \<Rightarrow> u32 \<Rightarrow> u32" where
  "conv le send x = (if send then cpu_to_be32 le x else be32_to_cpu le x)"

definition correct_endian_basic :: "bool \<Rightarrow> usbip_header_basic \<Rightarrow> bool \<Rightarrow> usbip_header_basic" where
  "correct_endian_basic le b send =
     \<lparr>b_command = conv le send (b_command b), b_seqnum = conv le send (b_seqnum b),
      b_devid = conv le send (b_devid b), b_direction = conv le send (b_direction b),
      b_ep = conv le send (b_ep b)\<rparr>"

definition correct_endian_cmd_submit ::
  "bool \<Rightarrow> usbip_header_cmd_submit \<Rightarrow> bool \<Rightarrow> usbip_header_cmd_submit" where
  "correct_endian_cmd_submit le pdu send =
     pdu\<lparr>cs_transfer_flags := conv le send (cs_transfer_flags pdu),
       cs_transfer_buffer_length := conv le send (cs_transfer_buffer_length pdu),
       cs_start_frame := conv le send (cs_start_frame pdu),
       cs_number_of_packets := conv le send (cs_number_of_packets pdu),
       cs_interval := conv le send (cs_interval pdu)\<rparr>"

definition correct_endian_ret_submit ::
  "bool \<Rightarrow> usbip_header_ret_submit \<Rightarrow> bool \<Rightarrow> usbip_header_ret_submit" where
  "correct_endian_ret_submit le pdu send =
     \<lparr>rs_status = conv le send (rs_status pdu),
      rs_actual_length = conv le send (rs_actual_length pdu),
      rs_start_frame = conv le send (rs_start_frame pdu),
      rs_number_of_packets = conv le send (rs_number_of_packets pdu),
      rs_error_count = conv le send (rs_error_count pdu)\<rparr>"

definition correct_endian_cmd_unlink ::
  "bool \<Rightarrow> usbip_header_cmd_unlink \<Rightarrow> bool \<Rightarrow> usbip_header_cmd_unlink" where
  "correct_endian_cmd_unlink le pdu send = \<lparr>cu_seqnum = conv le send (cu_seqnum pdu)\<rparr>"

definition correct_endian_ret_unlink ::
  "bool \<Rightarrow> usbip_header_ret_unlink \<Rightarrow> bool \<Rightarrow> usbip_header_ret_unlink" where
  "correct_endian_ret_unlink le pdu send = \<lparr>ru_status = conv le send (ru_status pdu)\<rparr>"

definition usbip_header_correct_endian :: "bool \<Rightarrow> usbip_header \<Rightarrow> bool \<Rightarrow> usbip_header" where
  "usbip_header_correct_endian le pdu send =
     (let b = correct_endian_basic le (base pdu) send;
          cmd = (if send then b_command (base pdu) else b_command b);
          m = u pdu;
          m' = (if cmd = USBIP_CMD_SUBMIT
                then put_cmd_submit (correct_endian_cmd_submit le (cmd_submit m) send) m
                else if cmd = USBIP_RET_SUBMIT
                then put_ret_submit (correct_endian_ret_submit le (ret_submit m) send) m
                else if cmd = USBIP_CMD_UNLINK
                then put_cmd_unlink (correct_endian_cmd_unlink le (cmd_unlink m) send) m
                else if cmd = USBIP_RET_UNLINK
                then put_ret_unlink (correct_endian_ret_unlink le (ret_unlink m) send) m
                else m)
      in \<lparr>base = b, u = m'\<rparr>)"

definition usbip_iso_packet_correct_endian ::
  "bool \<Rightarrow> usbip_iso_packet_descriptor \<Rightarrow> bool \<Rightarrow> usbip_iso_packet_descriptor" where
  "usbip_iso_packet_correct_endian le pk send =
     \<lparr>i_offset = conv le send (i_offset pk), i_length = conv le send (i_length pk),
      i_actual_length = conv le send (i_actual_length pk),
      i_status = conv le send (i_status pk)\<rparr>"

definition usbip_pack_iso ::
  "usbip_iso_packet_descriptor \<Rightarrow> usb_iso_packet_descriptor \<Rightarrow> bool \<Rightarrow>
     usbip_iso_packet_descriptor \<times> usb_iso_packet_descriptor" where
  "usbip_pack_iso pk uiso pack =
     (if pack then
        (pk\<lparr>i_offset := iso_offset uiso, i_length := iso_length uiso,
           i_status := word_of_int (iso_status uiso),
           i_actual_length := iso_actual_length uiso\<rparr>, uiso)
      else
        (pk, uiso\<lparr>iso_offset := i_offset pk, iso_length := i_length pk,
           iso_status := sint (i_status pk), iso_actual_length := i_actual_length pk\<rparr>))"

section \<open>Byte layout\<close>

text \<open>The bytes of the packed structures in the memory of a host, and back.\<close>

definition sizeof_usbip_header :: nat where "sizeof_usbip_header = 48"
definition sizeof_iso_descriptor :: nat where "sizeof_iso_descriptor = 16"

definition header_words :: "usbip_header \<Rightarrow> u32 list" where
  "header_words h = [b_command (base h), b_seqnum (base h), b_devid (base h), b_direction (base h),
     b_ep (base h), u_w0 (u h), u_w1 (u h), u_w2 (u h), u_w3 (u h), u_w4 (u h)]"

definition header_bytes :: "bool \<Rightarrow> usbip_header \<Rightarrow> u8 list" where
  "header_bytes le h = concat (map (host_bytes32 le) (header_words h)) @ u_setup (u h)"

definition word_at :: "bool \<Rightarrow> u8 list \<Rightarrow> nat \<Rightarrow> u32" where
  "word_at le bs i = host_word32 le (slice (4 * i) 4 bs)"

definition bytes_header :: "bool \<Rightarrow> u8 list \<Rightarrow> usbip_header" where
  "bytes_header le bs =
     \<lparr>base = \<lparr>b_command = word_at le bs 0, b_seqnum = word_at le bs 1, b_devid = word_at le bs 2,
        b_direction = word_at le bs 3, b_ep = word_at le bs 4\<rparr>,
      u = \<lparr>u_w0 = word_at le bs 5, u_w1 = word_at le bs 6, u_w2 = word_at le bs 7,
        u_w3 = word_at le bs 8, u_w4 = word_at le bs 9, u_setup = slice 40 8 bs\<rparr>\<rparr>"

definition iso_bytes :: "bool \<Rightarrow> usbip_iso_packet_descriptor \<Rightarrow> u8 list" where
  "iso_bytes le pk = concat (map (host_bytes32 le)
     [i_offset pk, i_length pk, i_actual_length pk, i_status pk])"

definition bytes_iso :: "bool \<Rightarrow> u8 list \<Rightarrow> usbip_iso_packet_descriptor" where
  "bytes_iso le bs = \<lparr>i_offset = word_at le bs 0, i_length = word_at le bs 1,
     i_actual_length = word_at le bs 2, i_status = word_at le bs 3\<rparr>"

section \<open>Round trips\<close>

lemma conv_conv [simp]: "conv le False (conv le True x) = x"
  by (simp add: conv_def)

lemma host_bytes32_conv [simp]: "host_bytes32 le (conv le True x) = be_bytes32 x"
  by (simp add: conv_def)

lemma host_bytes32_0 [simp]: "host_bytes32 le 0 = replicate 4 0"
  by (simp add: host_bytes32_def be_bytes32_def eval_nat_numeral)

lemma word_at_Cons [simp]:
  "word_at le (host_bytes32 le x @ bs) 0 = x"
  "0 < i \<Longrightarrow> word_at le (host_bytes32 le x @ bs) i = word_at le bs (i - 1)"
  by (simp_all add: word_at_def slice_def diff_mult_distrib2)

lemma length_header_bytes: "wf_header h \<Longrightarrow> length (header_bytes le h) = sizeof_usbip_header"
  by (simp add: header_bytes_def header_words_def wf_header_def sizeof_usbip_header_def)

lemma length_iso_bytes [simp]: "length (iso_bytes le i) = sizeof_iso_descriptor"
  by (simp add: iso_bytes_def sizeof_iso_descriptor_def)

lemma slice_skip: "n \<le> length xs \<Longrightarrow> m \<ge> length xs \<Longrightarrow> slice m k (xs @ ys) = slice (m - length xs) k ys"
  by (simp add: slice_def)

text \<open>Reading back the bytes of a structure gives the structure.\<close>

lemma bytes_header_bytes: "wf_header h \<Longrightarrow> bytes_header le (header_bytes le h) = h"
  by (simp add: bytes_header_def header_bytes_def header_words_def wf_header_def slice_skip)
     (simp add: slice_def)

lemma bytes_iso_bytes: "bytes_iso le (iso_bytes le i @ bs) = i"
  by (simp add: bytes_iso_def iso_bytes_def)

text \<open>Converting for sending and then for receiving on one host changes nothing, for any header:
  both look at the command as the host reads it.\<close>

lemma correct_endian_inverse:
  "usbip_header_correct_endian le (usbip_header_correct_endian le h True) False = h"
  by (simp add: usbip_header_correct_endian_def Let_def correct_endian_basic_def
      correct_endian_cmd_submit_def correct_endian_ret_submit_def correct_endian_cmd_unlink_def
      correct_endian_ret_unlink_def union_defs)

lemma wf_header_correct_endian [simp]:
  "wf_header (usbip_header_correct_endian le h send) = wf_header h"
  by (simp add: wf_header_def usbip_header_correct_endian_def Let_def union_defs
      correct_endian_cmd_submit_def)

text \<open>The unlink requests use one word of the union only.  The senders clear the header first, so
  the other words, which no side converts, are zero.\<close>

definition canonical :: "usbip_header \<Rightarrow> bool" where
  "canonical h = (wf_header h \<and>
     (b_command (base h) \<in> {USBIP_CMD_SUBMIT, USBIP_RET_SUBMIT} \<or>
      b_command (base h) \<in> {USBIP_CMD_UNLINK, USBIP_RET_UNLINK} \<and>
      u_w1 (u h) = 0 \<and> u_w2 (u h) = 0 \<and> u_w3 (u h) = 0 \<and> u_w4 (u h) = 0))"

text \<open>The bytes on the wire: every word big-endian, then the setup bytes.\<close>

definition wire_bytes :: "usbip_header \<Rightarrow> u8 list" where
  "wire_bytes h = concat (map be_bytes32 (header_words h)) @ u_setup (u h)"

lemma sent_header_wire:
  "canonical h \<Longrightarrow> header_bytes le (usbip_header_correct_endian le h True) = wire_bytes h"
  by (auto simp: canonical_def header_bytes_def wire_bytes_def header_words_def
      usbip_header_correct_endian_def Let_def correct_endian_basic_def
      correct_endian_cmd_submit_def correct_endian_ret_submit_def correct_endian_cmd_unlink_def
      correct_endian_ret_unlink_def union_defs be_bytes32_def eval_nat_numeral)

lemma header_over_wire:
  assumes "canonical h"
  shows "usbip_header_correct_endian le' (bytes_header le' (wire_bytes h)) False = h"
proof -
  have "wire_bytes h = header_bytes le' (usbip_header_correct_endian le' h True)"
    using sent_header_wire [OF assms] by simp
  moreover have "wf_header (usbip_header_correct_endian le' h True)"
    using assms by (simp add: canonical_def)
  ultimately show ?thesis by (simp add: bytes_header_bytes correct_endian_inverse)
qed

section \<open>Properties\<close>

text \<open>C4: a header that one side converts for sending is read by the other side, after its own
  conversion, exactly as it was, whatever the byte orders of the two hosts.\<close>

theorem header_roundtrip:
  assumes "canonical h"
  shows "usbip_header_correct_endian le'
     (bytes_header le' (header_bytes le (usbip_header_correct_endian le h True))) False = h"
  using sent_header_wire [OF assms] header_over_wire [OF assms] by simp

definition demo_submit_header :: usbip_header where
  "demo_submit_header = \<lparr>base = \<lparr>b_command = USBIP_CMD_SUBMIT, b_seqnum = 0x01020304,
       b_devid = 0x10002, b_direction = USBIP_DIR_IN, b_ep = 1\<rparr>,
     u = \<lparr>u_w0 = 0x200, u_w1 = 64, u_w2 = 0, u_w3 = 0xffffffff, u_w4 = 4,
       u_setup = [0x80, 6, 0, 1, 0, 0, 18, 0]\<rparr>\<rparr>"

theorem header_roundtrip_witness:
  "usbip_header_correct_endian False (bytes_header False
     (header_bytes True (usbip_header_correct_endian True demo_submit_header True))) False =
   demo_submit_header"
  by (rule header_roundtrip)
     (simp add: canonical_def wf_header_def demo_submit_header_def)

text \<open>Unpacking what was packed for a submission gives the URB the fields of the sender's, with
  the DMA mapping flag, which means nothing to the other host, removed; the result of a
  submission comes back as it was.\<close>

theorem pack_pdu_roundtrip:
  assumes "in_s32 (urb_status urb)"
  shows "snd (usbip_pack_pdu (fst (usbip_pack_pdu h urb USBIP_CMD_SUBMIT True)) urb'
      USBIP_CMD_SUBMIT False) = urb'\<lparr>
        urb_transfer_flags := urb_transfer_flags urb AND NOT URB_NO_TRANSFER_DMA_MAP,
        urb_transfer_buffer_length := urb_transfer_buffer_length urb,
        urb_start_frame := urb_start_frame urb,
        urb_number_of_packets := urb_number_of_packets urb,
        urb_interval := urb_interval urb\<rparr> \<and>
    snd (usbip_pack_pdu (fst (usbip_pack_pdu h urb USBIP_RET_SUBMIT True)) urb'
      USBIP_RET_SUBMIT False) = urb'\<lparr>
        urb_status := urb_status urb, urb_actual_length := urb_actual_length urb,
        urb_start_frame := urb_start_frame urb,
        urb_number_of_packets := urb_number_of_packets urb,
        urb_error_count := urb_error_count urb\<rparr>"
  using assms by (simp add: usbip_pack_pdu_def usbip_pack_cmd_submit_def
      usbip_pack_ret_submit_def tweak_transfer_flags_def union_defs)

definition demo_bulk_urb :: urb where
  "demo_bulk_urb = \<lparr>urb_pipe = 0xC0008300, urb_transfer_flags = 0x204,
     urb_transfer_buffer = Some [1, 2, 3], urb_transfer_buffer_length = 3, urb_actual_length = 3,
     urb_status = - EPIPE, urb_start_frame = 0, urb_number_of_packets = 0, urb_interval = 0,
     urb_error_count = 0, urb_setup_packet = None, urb_iso_frame_desc = []\<rparr>"

theorem pack_pdu_roundtrip_witness:
  "urb_transfer_flags (snd (usbip_pack_pdu (fst (usbip_pack_pdu zero_header demo_bulk_urb
      USBIP_CMD_SUBMIT True)) demo_bulk_urb USBIP_CMD_SUBMIT False)) = 0x200 \<and>
   urb_status (snd (usbip_pack_pdu (fst (usbip_pack_pdu zero_header demo_bulk_urb
      USBIP_RET_SUBMIT True)) demo_bulk_urb USBIP_RET_SUBMIT False)) = - EPIPE"
proof -
  have "in_s32 (urb_status demo_bulk_urb)" by (simp add: in_s32_def demo_bulk_urb_def)
  then show ?thesis
    using pack_pdu_roundtrip [of demo_bulk_urb zero_header demo_bulk_urb]
    by (simp add: demo_bulk_urb_def)
qed

end
