(* ===== verification/Usbip_Common.thy ===== *)
theory Usbip_Common
  imports Usbip_Event Usbip_Pdu
begin

text \<open>
  The rest of \<open>usbip_common.c\<close>: the transport operations (\<open>struct usbip_trx_operations\<close>, with the
  kernel socket implementation), receiving exactly as many bytes as asked for, and the three
  functions that fill a URB from the connection: its transfer buffer, its isochronous packet
  descriptors, and the padding between isochronous packets.  The contract a transport has to
  meet is the locale \<open>trx_stream\<close>.
\<close>

section \<open>Transport operations\<close>

text \<open>The function pointers of the source get the device; those that change it return it.
  A message that is sent is the list of its \<open>kvec\<close> buffers, one that is received the bytes
  stored, beside the returned number.\<close>

record 'c usbip_trx_operations =
  trx_sendmsg :: "usbip_device \<Rightarrow> u8 list list \<Rightarrow> 'c \<Rightarrow> int \<times> 'c"
  trx_recvmsg :: "usbip_device \<Rightarrow> int \<Rightarrow> 'c \<Rightarrow> int \<times> u8 list \<times> 'c"
  trx_link :: "usbip_device \<Rightarrow> int \<Rightarrow> 'c \<Rightarrow> int \<times> usbip_device \<times> 'c"
  trx_unlink :: "usbip_device \<Rightarrow> 'c \<Rightarrow> int \<times> usbip_device \<times> 'c"

text \<open>The socket functions of the kernel that the kernel transport calls.\<close>

record 'c kernel_sockets =
  kernel_sendmsg :: "nat option \<Rightarrow> u8 list list \<Rightarrow> 'c \<Rightarrow> int \<times> 'c"
  kernel_recvmsg :: "nat option \<Rightarrow> int \<Rightarrow> 'c \<Rightarrow> int \<times> u8 list \<times> 'c"
  sockfd_lookup :: "int \<Rightarrow> 'c \<Rightarrow> nat option \<times> 'c"
  kernel_sock_shutdown :: "nat \<Rightarrow> 'c \<Rightarrow> int \<times> 'c"

text \<open>The send and receive operations hand \<open>tcp_socket\<close> on without a test; what happens with a
  null socket is the kernel's.\<close>

definition usbip_kernel_sendmsg ::
  "'c kernel_sockets \<Rightarrow> usbip_device \<Rightarrow> u8 list list \<Rightarrow> 'c \<Rightarrow> int \<times> 'c" where
  "usbip_kernel_sendmsg ks d iov c = kernel_sendmsg ks (tcp_socket d) iov c"

definition usbip_kernel_recvmsg ::
  "'c kernel_sockets \<Rightarrow> usbip_device \<Rightarrow> int \<Rightarrow> 'c \<Rightarrow> int \<times> u8 list \<times> 'c" where
  "usbip_kernel_recvmsg ks d sz c = kernel_recvmsg ks (tcp_socket d) sz c"

definition usbip_kernel_link ::
  "'c kernel_sockets \<Rightarrow> usbip_device \<Rightarrow> int \<Rightarrow> 'c \<Rightarrow> int \<times> usbip_device \<times> 'c" where
  "usbip_kernel_link ks d sockfd c =
     (let (sk, c') = sockfd_lookup ks sockfd c; d' = d\<lparr>tcp_socket := sk\<rparr> in
      if sk = None then (- EINVAL, d', c') else (0, d', c'))"

definition usbip_kernel_unlink ::
  "'c kernel_sockets \<Rightarrow> usbip_device \<Rightarrow> 'c \<Rightarrow> int \<times> usbip_device \<times> 'c" where
  "usbip_kernel_unlink ks d c = (case tcp_socket d of
     None \<Rightarrow> (- EBADF, d, c)
   | Some sk \<Rightarrow> let (r, c') = kernel_sock_shutdown ks sk c in (r, d, c'))"

definition usbip_trx_kernel_ops :: "'c kernel_sockets \<Rightarrow> 'c usbip_trx_operations" where
  "usbip_trx_kernel_ops ks =
     \<lparr>trx_sendmsg = usbip_kernel_sendmsg ks, trx_recvmsg = usbip_kernel_recvmsg ks,
      trx_link = usbip_kernel_link ks, trx_unlink = usbip_kernel_unlink ks\<rparr>"

text \<open>What the code runs on: the byte order of the host, the allocator, and the transport in
  force (\<open>usbip_trx_ops\<close>).\<close>

record 'c platform =
  host_le :: bool
  kmalloc :: "'c kalloc"
  trx_ops :: "'c usbip_trx_operations"

text \<open>A platform with the kernel transport in force.\<close>

definition kernel_trx ::
  "('c, 'p) platform_scheme \<Rightarrow> 'c kernel_sockets \<Rightarrow> ('c, 'p) platform_scheme" where
  "kernel_trx K ks = K\<lparr>trx_ops := usbip_trx_kernel_ops ks\<rparr>"

lemma kernel_trx_unlink [simp]: "trx_unlink (trx_ops (kernel_trx K ks)) = usbip_kernel_unlink ks"
  by (simp add: kernel_trx_def usbip_trx_kernel_ops_def)

lemma kernel_unlink_dev [simp]: "fst (snd (usbip_kernel_unlink ks d c)) = d"
  by (simp add: usbip_kernel_unlink_def Let_def split: option.split prod.split)

text \<open>The drivers need more of the kernel: starting and stopping the threads of a device, dropping
  the reference to a socket, and counting references to a \<open>usb_device\<close>.  \<open>kthread_get_run\<close> yields a pointer in any case (an error
  pointer when the thread was not created).\<close>

record 'c driver_platform = "'c platform" +
  kthread_get_run :: "'c \<Rightarrow> 'c"
  kthread_stop_put :: "'c \<Rightarrow> 'c"
  sockfd_put :: "nat \<Rightarrow> 'c \<Rightarrow> 'c"
  usb_get_dev :: "nat \<Rightarrow> 'c \<Rightarrow> 'c"
  usb_put_dev :: "nat \<Rightarrow> 'c \<Rightarrow> 'c"

definition stop_thread :: "bool \<Rightarrow> ('c, 'k) driver_platform_scheme \<Rightarrow> 'c \<Rightarrow> 'c" where
  "stop_thread running K c = (if running then kthread_stop_put K c else c)"

text \<open>The bytes of a buffer that a \<open>kvec\<close> covers; \<open>None\<close> where it leaves the buffer.\<close>

definition kvec :: "u8 list \<Rightarrow> nat \<Rightarrow> nat \<Rightarrow> u8 list option" where
  "kvec buf off len = (if len = 0 then Some []
     else if off + len \<le> length buf then Some (slice off len buf) else None)"

section \<open>Receiving\<close>

function usbip_recv_loop ::
  "'c usbip_trx_operations \<Rightarrow> usbip_device \<Rightarrow> int \<Rightarrow> int \<Rightarrow> u8 list \<Rightarrow> 'c \<Rightarrow> int \<times> u8 list \<times> 'c"
where
  "usbip_recv_loop ops d sz tot buf c =
     (let (result, bs, c') = trx_recvmsg ops d sz c in
      if result \<le> 0 then (result, buf, c')
      else if sz - result > 0
      then usbip_recv_loop ops d (sz - result) (tot + result) (buf @ bs) c'
      else (tot + result, buf @ bs, c'))"
  by pat_completeness auto
termination
  by (relation "measure (\<lambda>(ops, d, sz, tot, buf, c). nat sz)") auto

declare usbip_recv_loop.simps [simp del]

text \<open>\<open>nonnull\<close>: the buffer pointer is not null.  The bytes returned are those stored in the
  buffer, in an error too.\<close>

definition usbip_recv ::
  "'c usbip_trx_operations \<Rightarrow> usbip_device \<Rightarrow> bool \<Rightarrow> int \<Rightarrow> 'c \<Rightarrow> int \<times> u8 list \<times> 'c" where
  "usbip_recv ops d nonnull sz c =
     (if (tcp_socket d = None \<and> ux d = None) \<or> \<not> nonnull \<or> sz = 0 then (- EINVAL, [], c)
      else usbip_recv_loop ops d sz 0 [] c)"

section \<open>Isochronous packet descriptors\<close>

text \<open>The loop of \<open>usbip_alloc_iso_desc_pdu\<close>: descriptor \<open>i\<close> and the \<open>n - 1\<close> after it, converted.\<close>

fun pack_iso_descs :: "bool \<Rightarrow> usb_iso_packet_descriptor list \<Rightarrow> nat \<Rightarrow> nat \<Rightarrow> u8 list option" where
  "pack_iso_descs le ds i 0 = Some []"
| "pack_iso_descs le ds i (Suc n) =
     (if i < length ds then
        map_option (\<lambda>bs. iso_bytes le (usbip_iso_packet_correct_endian le
            (fst (usbip_pack_iso \<lparr>i_offset = 0, i_length = 0, i_actual_length = 0, i_status = 0\<rparr>
              (ds ! i) True)) True) @ bs)
          (pack_iso_descs le ds (Suc i) n)
      else None)"

text \<open>The inner option is a null result, the outer one a fault.  A negative count makes an
  allocation of nearly \<open>2 ^ 64\<close> bytes, and no descriptor is packed.\<close>

definition usbip_alloc_iso_desc_pdu ::
  "('c, 'p) platform_scheme \<Rightarrow> 'z urb_scheme \<Rightarrow> 'c \<Rightarrow> (u8 list option \<times> 'c) option" where
  "usbip_alloc_iso_desc_pdu P urb c =
     (let np = sint (urb_number_of_packets urb);
          (ok, c') = kmalloc P (nat (np * int sizeof_iso_descriptor mod 2 ^ 64)) c in
      if \<not> ok then Some (None, c')
      else map_option (\<lambda>bs. (Some bs, c'))
        (pack_iso_descs (host_le P) (urb_iso_frame_desc urb) 0 (nat np)))"

text \<open>The loop of \<open>usbip_recv_iso\<close>: \<open>n\<close> more descriptors from index \<open>i\<close> on, read from \<open>bs\<close> and
  stored in the URB, with the sum of their actual lengths.\<close>

fun unpack_iso_descs ::
  "bool \<Rightarrow> u8 list \<Rightarrow> nat \<Rightarrow> nat \<Rightarrow> usb_iso_packet_descriptor list \<Rightarrow> u32 \<Rightarrow>
     (usb_iso_packet_descriptor list \<times> u32) option" where
  "unpack_iso_descs le bs i 0 ds tot = Some (ds, tot)"
| "unpack_iso_descs le bs i (Suc n) ds tot =
     (if sizeof_iso_descriptor * Suc i \<le> length bs \<and> i < length ds then
        let pk = usbip_iso_packet_correct_endian le
              (bytes_iso le (slice (sizeof_iso_descriptor * i) sizeof_iso_descriptor bs)) False;
            d = snd (usbip_pack_iso pk (ds ! i) False)
        in unpack_iso_descs le bs (Suc i) n (ds[i := d]) (tot + iso_actual_length d)
      else None)"

text \<open>The test the source makes to tell the device side of a connection from the host side.\<close>

definition stub_side :: "usbip_device \<Rightarrow> bool" where
  "stub_side d = (side d = USBIP_STUB \<or> side d = USBIP_VUDC)"

definition tcp_error :: "usbip_device \<Rightarrow> ulong" where
  "tcp_error d = (if stub_side d then SDEV_EVENT_ERROR_TCP else VDEV_EVENT_ERROR_TCP)"

definition usbip_recv_iso ::
  "('c, 'p) platform_scheme \<Rightarrow> 'z urb_scheme \<Rightarrow> ('c, 'y) conn_scheme \<Rightarrow>
     (int \<times> 'z urb_scheme \<times> ('c, 'y) conn_scheme) option" where
  "usbip_recv_iso P urb s =
     (let np = sint (urb_number_of_packets urb);
          sz = sint (urb_number_of_packets urb * word_of_nat sizeof_iso_descriptor) in
      if \<not> usb_pipeisoc (urb_pipe urb) then Some (0, urb, s)
      else if np = 0 then Some (0, urb, s)
      else let (ok, c1) = kmalloc P (nat (sz mod 2 ^ 64)) (env s); s1 = s\<lparr>env := c1\<rparr> in
      if \<not> ok then Some (- ENOMEM, urb, s1)
      else let (ret, bs, c2) = usbip_recv (trx_ops P) (ud s1) True sz (env s1);
               s2 = s1\<lparr>env := c2\<rparr> in
      if ret \<noteq> sz
      then Some (- EPIPE, urb, usbip_event_add (kmalloc P) (tcp_error (ud s2)) s2)
      else case unpack_iso_descs (host_le P) bs 0 (nat np) (urb_iso_frame_desc urb) 0 of
        None \<Rightarrow> None
      | Some (ds, total_length) \<Rightarrow>
          let urb' = urb\<lparr>urb_iso_frame_desc := ds\<rparr> in
          if total_length \<noteq> urb_actual_length urb'
          then Some (- EPIPE, urb', usbip_event_add (kmalloc P) (tcp_error (ud s2)) s2)
          else Some (ret, urb', s2))"

section \<open>Restoring the padding\<close>

text \<open>Packets \<open>i\<close> down to 1; \<open>off\<close> is \<open>actualoffset\<close>, a C \<open>int\<close> that wraps.\<close>

fun pad_iso_loop ::
  "nat \<Rightarrow> u32 \<Rightarrow> usb_iso_packet_descriptor list \<Rightarrow> u8 list \<Rightarrow> u8 list option" where
  "pad_iso_loop 0 off ds buf = Some buf"
| "pad_iso_loop (Suc i) off ds buf =
     (if Suc i < length ds then
        let d = ds ! Suc i; off' = off - iso_actual_length d in
        if sint off' < 0 \<and> iso_actual_length d \<noteq> 0 then None
        else case memmove (unat (iso_offset d)) (unat off') (unat (iso_actual_length d)) buf of
          None \<Rightarrow> None
        | Some buf' \<Rightarrow> pad_iso_loop i off' ds buf'
      else None)"

definition buffer_of :: "'z urb_scheme \<Rightarrow> u8 list" where
  "buffer_of urb = (case urb_transfer_buffer urb of None \<Rightarrow> [] | Some b \<Rightarrow> b)"

definition put_buffer :: "u8 list \<Rightarrow> 'z urb_scheme \<Rightarrow> 'z urb_scheme" where
  "put_buffer b urb = urb\<lparr>urb_transfer_buffer := map_option (\<lambda>_. b) (urb_transfer_buffer urb)\<rparr>"

definition usbip_pad_iso :: "'z urb_scheme \<Rightarrow> 'z urb_scheme option" where
  "usbip_pad_iso urb =
     (let np = sint (urb_number_of_packets urb) in
      if \<not> usb_pipeisoc (urb_pipe urb) then Some urb
      else if np = 0 \<or> urb_actual_length urb = 0 then Some urb
      else if urb_actual_length urb = urb_transfer_buffer_length urb then Some urb
      else map_option (\<lambda>b. put_buffer b urb)
        (pad_iso_loop (nat (np - 1)) (urb_actual_length urb) (urb_iso_frame_desc urb)
          (buffer_of urb)))"

section \<open>Receiving the transfer buffer\<close>

definition store_prefix :: "u8 list \<Rightarrow> 'z urb_scheme \<Rightarrow> 'z urb_scheme option" where
  "store_prefix bs urb =
     (if length bs \<le> length (buffer_of urb)
      then Some (put_buffer (overwrite 0 bs (buffer_of urb)) urb) else None)"

text \<open>An OUT transfer brings its buffer to the device side, an IN transfer what it read to the
  host side.\<close>

definition xbuff_size :: "usbip_device \<Rightarrow> 'z urb_scheme \<Rightarrow> int" where
  "xbuff_size d urb = (if stub_side d then sint (urb_transfer_buffer_length urb)
     else sint (urb_actual_length urb))"

definition usbip_recv_xbuff ::
  "('c, 'p) platform_scheme \<Rightarrow> 'z urb_scheme \<Rightarrow> ('c, 'y) conn_scheme \<Rightarrow>
     (int \<times> 'z urb_scheme \<times> ('c, 'y) conn_scheme) option" where
  "usbip_recv_xbuff P urb s =
     (if stub_side (ud s) \<and> usb_pipein (urb_pipe urb) \<or>
         \<not> stub_side (ud s) \<and> usb_pipeout (urb_pipe urb) then Some (0, urb, s)
      else let sz = xbuff_size (ud s) urb in
      if \<not> sz > 0 then Some (0, urb, s)
      else if sz > uint (urb_transfer_buffer_length urb) then
        if side (ud s) = USBIP_STUB
        then Some (0, urb, usbip_event_add (kmalloc P) SDEV_EVENT_ERROR_TCP s)
        else Some (- EPIPE, urb, usbip_event_add (kmalloc P) VDEV_EVENT_ERROR_TCP s)
      else let (ret, bs, c) = usbip_recv (trx_ops P) (ud s) (urb_transfer_buffer urb \<noteq> None)
                 sz (env s); s1 = s\<lparr>env := c\<rparr> in
      case store_prefix bs urb of
        None \<Rightarrow> None
      | Some urb' \<Rightarrow>
          if ret \<noteq> sz then
            if stub_side (ud s)
            then Some (ret, urb', usbip_event_add (kmalloc P) SDEV_EVENT_ERROR_TCP s1)
            else Some (- EPIPE, urb', usbip_event_add (kmalloc P) VDEV_EVENT_ERROR_TCP s1)
          else Some (ret, urb', s1))"

section \<open>What a transport promises\<close>

text \<open>\<open>stream d c\<close> are the bytes that wait to be received: a successful \<open>recvmsg\<close> takes some of
  them off the front, at most as many as asked for.\<close>

locale trx_stream =
  fixes ops :: "'c usbip_trx_operations"
    and stream :: "usbip_device \<Rightarrow> 'c \<Rightarrow> u8 list"
  assumes recvmsg_len: "0 < n \<Longrightarrow> trx_recvmsg ops d n c = (r, bs, c') \<Longrightarrow> 0 < r \<Longrightarrow>
      r \<le> n \<and> nat r \<le> length (stream d c)"
    and recvmsg_bytes: "0 < n \<Longrightarrow> trx_recvmsg ops d n c = (r, bs, c') \<Longrightarrow> 0 < r \<Longrightarrow>
      bs = take (nat r) (stream d c)"
    and recvmsg_rest: "0 < n \<Longrightarrow> trx_recvmsg ops d n c = (r, bs, c') \<Longrightarrow> 0 < r \<Longrightarrow>
      stream d c' = drop (nat r) (stream d c)"
begin

lemma recv_loop:
  "usbip_recv_loop ops d sz tot buf c = (r, bs, c') \<Longrightarrow> 0 < sz \<Longrightarrow> 0 \<le> tot \<Longrightarrow>
   length bs \<le> length buf + nat sz \<and>
   (0 < r \<longrightarrow> r = tot + sz \<and> nat sz \<le> length (stream d c) \<and>
     bs = buf @ take (nat sz) (stream d c) \<and> stream d c' = drop (nat sz) (stream d c))"
proof (induction "nat sz" arbitrary: sz tot buf c rule: less_induct)
  case less
  obtain r1 bs1 c1 where msg: "trx_recvmsg ops d sz c = (r1, bs1, c1)"
    using prod_cases3 by blast
  show ?case
  proof (cases "0 < r1")
    case False
    with less.prems(1) msg show ?thesis by (subst (asm) usbip_recv_loop.simps) auto
  next
    case True
    note m = recvmsg_len [OF less.prems(2) msg True] recvmsg_bytes [OF less.prems(2) msg True]
      recvmsg_rest [OF less.prems(2) msg True]
    show ?thesis
    proof (cases "0 < sz - r1")
      case False
      with less.prems(1) msg True have "r = tot + r1" "bs = buf @ bs1" "c' = c1"
        by (subst (asm) usbip_recv_loop.simps; simp)+
      with m False show ?thesis by auto
    next
      case more: True
      with less.prems(1) msg True
      have "usbip_recv_loop ops d (sz - r1) (tot + r1) (buf @ bs1) c1 = (r, bs, c')"
        by (subst (asm) usbip_recv_loop.simps) simp
      from less.hyps [OF _ this more] True less.prems have
        "length bs \<le> length (buf @ bs1) + nat (sz - r1)"
        "0 < r \<longrightarrow> r = tot + r1 + (sz - r1) \<and> nat (sz - r1) \<le> length (stream d c1) \<and>
          bs = (buf @ bs1) @ take (nat (sz - r1)) (stream d c1) \<and>
          stream d c' = drop (nat (sz - r1)) (stream d c1)"
        by auto
      moreover have "nat sz = nat r1 + nat (sz - r1)" using True more by simp
      ultimately show ?thesis using m by (auto simp: take_add add.commute)
    qed
  qed
qed

lemma recv_exact:
  assumes "usbip_recv ops d nn sz c = (r, bs, c')" "0 < sz" "0 < r"
  shows "r = sz" "length bs = nat sz" "bs = take (nat sz) (stream d c)"
    "stream d c' = drop (nat sz) (stream d c)"
  using assms recv_loop [of d sz 0 "[]" c r bs c'] by (auto simp: usbip_recv_def split: if_splits)

lemma recv_bounded:
  assumes "usbip_recv ops d nn sz c = (r, bs, c')" "0 \<le> sz"
  shows "length bs \<le> nat sz" "r \<le> sz"
  using assms recv_loop [of d sz 0 "[]" c r bs c'] by (auto simp: usbip_recv_def split: if_splits)

end

section \<open>The padding is restored\<close>

abbreviation iso_off :: "usb_iso_packet_descriptor list \<Rightarrow> nat \<Rightarrow> nat" where
  "iso_off ds i \<equiv> unat (iso_offset (ds ! i))"

abbreviation iso_len :: "usb_iso_packet_descriptor list \<Rightarrow> nat \<Rightarrow> nat" where
  "iso_len ds i \<equiv> unat (iso_actual_length (ds ! i))"

text \<open>Where packet \<open>i\<close> starts when the packets follow each other without padding.\<close>

definition compact_off :: "usb_iso_packet_descriptor list \<Rightarrow> nat \<Rightarrow> nat" where
  "compact_off ds i = (\<Sum>j<i. iso_len ds j)"

text \<open>The packets lie in a buffer of \<open>n\<close> bytes one after the other, the first at its start.\<close>

definition iso_layout :: "usb_iso_packet_descriptor list \<Rightarrow> nat \<Rightarrow> bool" where
  "iso_layout ds n =
     ((ds \<noteq> [] \<longrightarrow> iso_off ds 0 = 0 \<and>
        iso_off ds (length ds - 1) + iso_len ds (length ds - 1) \<le> n) \<and>
      (\<forall>i<length ds - 1. iso_off ds i + iso_len ds i \<le> iso_off ds (Suc i)))"

lemma compact_off_Suc [simp]: "compact_off ds (Suc i) = compact_off ds i + iso_len ds i"
  by (simp add: compact_off_def)

lemma compact_off_0 [simp]: "compact_off ds 0 = 0"
  by (simp add: compact_off_def)

lemma compact_off_numeral [eval_simps]:
  "compact_off ds (numeral v) = compact_off ds (pred_numeral v) + iso_len ds (pred_numeral v)"
  by (simp add: numeral_eq_Suc)

lemma compact_off_mono: "i \<le> j \<Longrightarrow> compact_off ds i \<le> compact_off ds j"
  unfolding compact_off_def by (rule sum_mono2) auto

lemma iso_layout_step:
  "iso_layout ds n \<Longrightarrow> i < j \<Longrightarrow> j < length ds \<Longrightarrow> iso_off ds i + iso_len ds i \<le> iso_off ds j"
proof (induction j)
  case (Suc j)
  then have "iso_off ds j + iso_len ds j \<le> iso_off ds (Suc j)" by (simp add: iso_layout_def)
  moreover have "iso_off ds i + iso_len ds i \<le> iso_off ds j" if "i \<noteq> j"
    using that Suc by simp
  ultimately show ?case using Suc.prems by (cases "i = j") auto
qed simp

lemma iso_layout_bound:
  assumes "iso_layout ds n" "i < length ds" shows "iso_off ds i + iso_len ds i \<le> n"
proof (cases "i = length ds - 1")
  case True
  then show ?thesis using assms by (auto simp: iso_layout_def)
next
  case False
  then have "iso_off ds i + iso_len ds i \<le> iso_off ds (length ds - 1)"
    using assms by (intro iso_layout_step) auto
  then show ?thesis using assms by (auto simp: iso_layout_def)
qed

lemma iso_layout_compact: "iso_layout ds n \<Longrightarrow> i < length ds \<Longrightarrow> compact_off ds i \<le> iso_off ds i"
proof (induction i)
  case (Suc i)
  then show ?case using iso_layout_step [of ds n i "Suc i"] by simp
qed simp

lemma pad_iso_loop_spec:
  assumes "iso_layout ds (length buf)" "i < length ds" "unat off = compact_off ds (Suc i)"
    "unat off < 2 ^ 31"
  shows "\<exists>buf'. pad_iso_loop i off ds buf = Some buf' \<and> length buf' = length buf \<and>
    (\<forall>k\<le>i. slice (iso_off ds k) (iso_len ds k) buf' = slice (compact_off ds k) (iso_len ds k) buf) \<and>
    (\<forall>k. i < k \<and> k < length ds \<longrightarrow>
       slice (iso_off ds k) (iso_len ds k) buf' = slice (iso_off ds k) (iso_len ds k) buf)"
  using assms
proof (induction i arbitrary: off buf)
  case 0
  then show ?case by (auto simp: iso_layout_def)
next
  case (Suc i)
  let ?d = "ds ! Suc i" and ?off = "off - iso_actual_length (ds ! Suc i)"
  let ?n = "iso_len ds (Suc i)" and ?dst = "iso_off ds (Suc i)" and ?src = "compact_off ds (Suc i)"
  let ?buf = "overwrite ?dst (slice ?src ?n buf) buf"
  have off: "unat ?off = ?src" using Suc.prems(3) by (intro unat_diff_add) simp
  have dst: "?dst + ?n \<le> length buf" and src_dst: "?src \<le> ?dst"
    using iso_layout_bound iso_layout_compact Suc.prems(1,2) by blast+
  then have mv: "memmove ?dst (unat ?off) ?n buf = Some ?buf"
    unfolding off by (intro memmove_overwrite) auto
  have len: "length (slice ?src ?n buf) = ?n" using dst src_dst by simp
  have "unat ?off < 2 ^ 31" using off Suc.prems(3,4) by simp
  then have nn: "\<not> sint ?off < 0" by (rule sint_nonneg_small)
  have "iso_layout ds (length ?buf)" using Suc.prems(1) dst len by simp
  from Suc.IH [OF this _ off \<open>unat ?off < 2 ^ 31\<close>] Suc.prems(2) obtain buf' where
    loop: "pad_iso_loop i ?off ds ?buf = Some buf'" and lb: "length buf' = length ?buf" and
    low: "\<And>k. k \<le> i \<Longrightarrow> slice (iso_off ds k) (iso_len ds k) buf' =
        slice (compact_off ds k) (iso_len ds k) ?buf" and
    high: "\<And>k. i < k \<Longrightarrow> k < length ds \<Longrightarrow>
       slice (iso_off ds k) (iso_len ds k) buf' = slice (iso_off ds k) (iso_len ds k) ?buf"
    by auto
  have keep_low: "slice (compact_off ds k) (iso_len ds k) ?buf =
      slice (compact_off ds k) (iso_len ds k) buf" if "k \<le> i" for k
  proof -
    have "compact_off ds k + iso_len ds k \<le> ?dst"
      using compact_off_mono [of "Suc k" "Suc i" ds] that src_dst by simp
    then show ?thesis using dst len by (intro slice_overwrite_disjoint) auto
  qed
  have keep_high: "slice (iso_off ds k) (iso_len ds k) ?buf = slice (iso_off ds k) (iso_len ds k) buf"
    if "Suc i < k" "k < length ds" for k
    using iso_layout_step [OF Suc.prems(1) that] dst len by (intro slice_overwrite_disjoint) auto
  have "slice ?dst ?n ?buf = slice ?src ?n buf"
    using slice_overwrite_same [of ?dst "slice ?src ?n buf" buf] dst len by simp
  then have all_low: "slice (iso_off ds k) (iso_len ds k) buf' =
      slice (compact_off ds k) (iso_len ds k) buf" if "k \<le> Suc i" for k
    using that low keep_low high Suc.prems(2) by (cases "k = Suc i") auto
  have "pad_iso_loop (Suc i) off ds buf = Some buf'"
    using Suc.prems(2) nn mv loop by (simp add: Let_def)
  with lb all_low show ?case using high keep_high dst len by (intro exI [of _ buf']) auto
qed

lemma iso_layout_rest:
  assumes "iso_layout ds n" "i \<le> j" "j < length ds"
  shows "iso_off ds i + compact_off ds j \<le> iso_off ds j + compact_off ds i"
  using assms(2,3)
proof (induction j)
  case (Suc j)
  show ?case
  proof (cases "i = Suc j")
    case False
    then have "iso_off ds i + compact_off ds j \<le> iso_off ds j + compact_off ds i"
      using Suc by simp
    moreover have "iso_off ds j + iso_len ds j \<le> iso_off ds (Suc j)"
      using iso_layout_step [OF assms(1), of j "Suc j"] Suc.prems(2) by simp
    ultimately show ?thesis by simp
  qed simp
qed simp

text \<open>Packets that fill the buffer have no padding between them.\<close>

lemma iso_layout_full:
  assumes "iso_layout ds (compact_off ds (length ds))" "i < length ds"
  shows "iso_off ds i = compact_off ds i"
proof -
  let ?l = "length ds - 1"
  have l: "Suc ?l = length ds" using assms(2) by simp
  have "iso_off ds i + compact_off ds ?l \<le> iso_off ds ?l + compact_off ds i"
    using assms by (intro iso_layout_rest [OF assms(1)]) auto
  moreover have "iso_off ds ?l + iso_len ds ?l \<le> compact_off ds (Suc ?l)"
    using iso_layout_bound [OF assms(1), of ?l] assms(2) by (simp only: l)
  ultimately show ?thesis using iso_layout_compact [OF assms] by simp
qed

definition iso_urb_ok :: "'z urb_scheme \<Rightarrow> bool" where
  "iso_urb_ok urb =
     (usb_pipeisoc (urb_pipe urb) \<and>
      unat (urb_number_of_packets urb) = length (urb_iso_frame_desc urb) \<and>
      length (urb_iso_frame_desc urb) < 2 ^ 31 \<and>
      unat (urb_transfer_buffer_length urb) \<le> length (buffer_of urb) \<and>
      iso_layout (urb_iso_frame_desc urb) (unat (urb_transfer_buffer_length urb)) \<and>
      unat (urb_actual_length urb) =
        compact_off (urb_iso_frame_desc urb) (length (urb_iso_frame_desc urb)) \<and>
      unat (urb_actual_length urb) < 2 ^ 31)"

lemma buffer_of_put_buffer:
  "length b = length (buffer_of urb) \<Longrightarrow> buffer_of (put_buffer b urb) = b"
  by (auto simp: buffer_of_def put_buffer_def split: option.splits)

lemma put_buffer_same: "put_buffer (buffer_of urb) urb = urb"
  by (simp add: put_buffer_def buffer_of_def split: option.splits)

lemma iso_layout_mono: "iso_layout ds n \<Longrightarrow> n \<le> m \<Longrightarrow> iso_layout ds m"
  by (auto simp: iso_layout_def)

lemma pad_iso_spec:
  assumes "iso_urb_ok urb"
  shows "\<exists>urb'. usbip_pad_iso urb = Some urb' \<and>
    urb' = put_buffer (buffer_of urb') urb \<and> length (buffer_of urb') = length (buffer_of urb) \<and>
    (\<forall>k<length (urb_iso_frame_desc urb).
      slice (iso_off (urb_iso_frame_desc urb) k) (iso_len (urb_iso_frame_desc urb) k) (buffer_of urb') =
      slice (compact_off (urb_iso_frame_desc urb) k) (iso_len (urb_iso_frame_desc urb) k) (buffer_of urb))"
proof -
  let ?ds = "urb_iso_frame_desc urb" and ?b = "buffer_of urb"
  let ?np = "urb_number_of_packets urb"
  note ok = assms [unfolded iso_urb_ok_def]
  have np: "sint ?np = int (length ?ds)" using ok sint_small [of ?np] by simp
  consider (none) "?np = 0 \<or> urb_actual_length urb = 0"
    | (full) "?np \<noteq> 0" "urb_actual_length urb \<noteq> 0" "urb_actual_length urb = urb_transfer_buffer_length urb"
    | (pad) "?np \<noteq> 0" "urb_actual_length urb \<noteq> 0" "urb_actual_length urb \<noteq> urb_transfer_buffer_length urb"
    by blast
  then show ?thesis
  proof cases
    case none
    then have "?ds = [] \<or> compact_off ?ds (length ?ds) = 0" using ok by auto
    then have "iso_len ?ds k = 0" if "k < length ?ds" for k
      using that compact_off_mono [of "Suc k" "length ?ds" ?ds] by auto
    moreover have "usbip_pad_iso urb = Some urb"
      using none ok np by (auto simp: usbip_pad_iso_def Let_def)
    ultimately show ?thesis by (auto simp: put_buffer_same)
  next
    case full
    then have "iso_layout ?ds (compact_off ?ds (length ?ds))" using ok by metis
    then have "iso_off ?ds k = compact_off ?ds k" if "k < length ?ds" for k
      using iso_layout_full that by blast
    moreover have "usbip_pad_iso urb = Some urb"
      using full by (simp add: usbip_pad_iso_def Let_def)
    ultimately show ?thesis by (auto simp: put_buffer_same)
  next
    case pad
    then have "0 < length ?ds" using ok by (metis gr0I length_0_conv unat_eq_zero)
    then have l: "Suc (length ?ds - 1) = length ?ds" by simp
    have "iso_layout ?ds (length ?b)" using ok iso_layout_mono by blast
    from pad_iso_loop_spec [OF this, of "length ?ds - 1" "urb_actual_length urb"] obtain b' where b':
      "pad_iso_loop (length ?ds - 1) (urb_actual_length urb) ?ds ?b = Some b'" "length b' = length ?b"
      "\<And>k. k \<le> length ?ds - 1 \<Longrightarrow> slice (iso_off ?ds k) (iso_len ?ds k) b' =
         slice (compact_off ?ds k) (iso_len ?ds k) ?b"
      using ok l \<open>0 < length ?ds\<close> by (auto simp del: compact_off_Suc)
    have "nat (sint ?np - 1) = length ?ds - 1" using np \<open>0 < length ?ds\<close> by simp
    then have "usbip_pad_iso urb = Some (put_buffer b' urb)"
      using pad ok b'(1) np \<open>0 < length ?ds\<close> by (simp add: usbip_pad_iso_def Let_def)
    then show ?thesis using b' by (auto simp: buffer_of_put_buffer)
  qed
qed

section \<open>Descriptors over the wire\<close>

text \<open>The sixteen bytes of a descriptor on the wire.\<close>

definition iso_wire :: "usb_iso_packet_descriptor \<Rightarrow> u8 list" where
  "iso_wire d = concat (map be_bytes32
     [iso_offset d, iso_length d, iso_actual_length d, word_of_int (iso_status d)])"

lemma length_iso_wire [simp]: "length (iso_wire d) = sizeof_iso_descriptor"
  by (simp add: iso_wire_def sizeof_iso_descriptor_def)

lemma pack_iso_wire:
  "iso_bytes le (usbip_iso_packet_correct_endian le (fst (usbip_pack_iso p d True)) True) = iso_wire d"
  by (simp add: iso_bytes_def usbip_iso_packet_correct_endian_def usbip_pack_iso_def iso_wire_def)

lemma unpack_iso_wire:
  "in_s32 (iso_status d) \<Longrightarrow> snd (usbip_pack_iso (usbip_iso_packet_correct_endian le
     (bytes_iso le (iso_wire d)) False) d' False) = d"
proof -
  assume s: "in_s32 (iso_status d)"
  let ?p = "usbip_iso_packet_correct_endian le (fst (usbip_pack_iso
     \<lparr>i_offset = 0, i_length = 0, i_actual_length = 0, i_status = 0\<rparr> d True)) True"
  have "bytes_iso le (iso_wire d) = ?p"
    using bytes_iso_bytes [of le ?p "[]"] by (simp add: pack_iso_wire)
  then show ?thesis
    using s by (simp add: usbip_iso_packet_correct_endian_def usbip_pack_iso_def)
qed

lemma pack_iso_descs_wire:
  "i + n \<le> length ds \<Longrightarrow>
   pack_iso_descs le ds i n = Some (concat (map iso_wire (take n (drop i ds))))"
proof (induction n arbitrary: i)
  case (Suc n)
  then have "take (Suc n) (drop i ds) = ds ! i # take n (drop (Suc i) ds)"
    by (metis Cons_nth_drop_Suc Suc_leD add_Suc_right le_add1 less_le_trans not_less_eq_eq take_Suc_Cons less_Suc_eq_le)
  with Suc show ?case by (simp add: pack_iso_wire)
qed simp

definition iso_total :: "usb_iso_packet_descriptor list \<Rightarrow> u32" where
  "iso_total ds = sum_list (map iso_actual_length ds)"

lemma unpack_iso_descs_wire:
  assumes "\<forall>d\<in>set ds. in_s32 (iso_status d)" "length xs = length ds" "take i xs = take i ds"
    "i + n = length ds"
  shows "unpack_iso_descs le (concat (map iso_wire ds)) i n xs t =
    Some (ds, t + iso_total (drop i ds))"
  using assms(2-)
proof (induction n arbitrary: i xs t)
  case 0
  then show ?case by (simp add: iso_total_def)
next
  case (Suc n)
  let ?bs = "concat (map iso_wire ds)"
  have i: "i < length ds" using Suc.prems(3) by simp
  have lb: "length ?bs = sizeof_iso_descriptor * length ds"
    by (simp add: length_concat comp_def sum_list_triv)
  then have "sizeof_iso_descriptor * Suc i \<le> length ?bs" using i by (simp add: sizeof_iso_descriptor_def)
  moreover have "slice (sizeof_iso_descriptor * i) sizeof_iso_descriptor ?bs = iso_wire (ds ! i)"
    using i by (intro slice_concat_map) simp_all
  moreover have "in_s32 (iso_status (ds ! i))" using assms(1) i by simp
  ultimately have "unpack_iso_descs le ?bs i (Suc n) xs t =
      unpack_iso_descs le ?bs (Suc i) n (xs[i := ds ! i]) (t + iso_actual_length (ds ! i))"
    using i Suc.prems(1) by (simp add: unpack_iso_wire Let_def)
  also have "\<dots> = Some (ds, t + iso_actual_length (ds ! i) + iso_total (drop (Suc i) ds))"
    using Suc.prems i by (intro Suc.IH) (simp_all add: take_Suc_conv_app_nth)
  also have "t + iso_actual_length (ds ! i) + iso_total (drop (Suc i) ds) = t + iso_total (drop i ds)"
    using i by (simp add: iso_total_def flip: Cons_nth_drop_Suc [OF i])
  finally show ?case .
qed


section \<open>Reliable transports\<close>

text \<open>While the connection is \<open>live\<close> and the bytes asked for are there, receiving makes progress.\<close>

locale trx_reliable = trx_stream ops stream
  for ops :: "'c usbip_trx_operations" and stream :: "usbip_device \<Rightarrow> 'c \<Rightarrow> u8 list" +
  fixes live :: "usbip_device \<Rightarrow> 'c \<Rightarrow> bool"
  assumes recvmsg_progress: "live d c \<Longrightarrow> 0 < n \<Longrightarrow> n \<le> int (length (stream d c)) \<Longrightarrow>
      trx_recvmsg ops d n c = (r, bs, c') \<Longrightarrow> 0 < r \<and> live d c'"
begin

lemma recv_loop_live:
  "live d c \<Longrightarrow> 0 < sz \<Longrightarrow> sz \<le> int (length (stream d c)) \<Longrightarrow> 0 \<le> tot \<Longrightarrow>
   usbip_recv_loop ops d sz tot buf c = (r, bs, c') \<Longrightarrow> 0 < r \<and> live d c'"
proof (induction "nat sz" arbitrary: sz tot buf c rule: less_induct)
  case less
  obtain r1 bs1 c1 where msg: "trx_recvmsg ops d sz c = (r1, bs1, c1)"
    using prod_cases3 by blast
  note p = recvmsg_progress [OF less.prems(1-3) msg]
  have r1: "0 < r1" and live1: "live d c1" using p by auto
  note m = recvmsg_len [OF less.prems(2) msg r1] recvmsg_rest [OF less.prems(2) msg r1]
  show ?case
  proof (cases "0 < sz - r1")
    case False
    with less.prems(4,5) msg r1 live1 show ?thesis
      by (subst (asm) usbip_recv_loop.simps) auto
  next
    case True
    with less.prems(5) msg r1
    have "usbip_recv_loop ops d (sz - r1) (tot + r1) (buf @ bs1) c1 = (r, bs, c')"
      by (subst (asm) usbip_recv_loop.simps) simp
    from less.hyps [OF _ live1 True _ _ this] show ?thesis
      using r1 m less.prems by auto
  qed
qed

lemma recv_all:
  assumes "live d c" "0 < sz" "sz \<le> int (length (stream d c))"
    "tcp_socket d \<noteq> None \<or> ux d \<noteq> None"
  shows "\<exists>c'. usbip_recv ops d True sz c = (sz, take (nat sz) (stream d c), c') \<and>
    stream d c' = drop (nat sz) (stream d c) \<and> live d c'"
proof -
  obtain r bs c' where u: "usbip_recv ops d True sz c = (r, bs, c')" using prod_cases3 by blast
  then have "usbip_recv_loop ops d sz 0 [] c = (r, bs, c')"
    using assms by (auto simp: usbip_recv_def)
  with recv_loop_live [OF assms(1-3), of 0] have "0 < r" "live d c'" by blast+
  with recv_exact [OF u assms(2)] u show ?thesis by auto
qed

end

section \<open>Filling a URB\<close>

text \<open>\<open>roomy\<close>: the buffer of the URB has the size the URB says.\<close>

definition roomy :: "'z urb_scheme \<Rightarrow> bool" where
  "roomy urb = (unat (urb_transfer_buffer_length urb) \<le> length (buffer_of urb))"

lemma buffer_of_None: "urb_transfer_buffer urb = None \<Longrightarrow> buffer_of urb = []"
  by (simp add: buffer_of_def)

lemma length_store_prefix:
  "store_prefix bs urb = Some urb' \<Longrightarrow> length (buffer_of urb') = length (buffer_of urb)"
  by (auto simp: store_prefix_def buffer_of_put_buffer split: if_splits)

text \<open>No transport can make \<open>usbip_recv_xbuff\<close> write outside the transfer buffer.\<close>

lemma recv_xbuff_spec:
  assumes tr: "trx_stream (trx_ops P) stream" and "roomy urb"
  shows "\<exists>ret urb' s'. usbip_recv_xbuff P urb s = Some (ret, urb', s') \<and>
    urb' = put_buffer (buffer_of urb') urb \<and> length (buffer_of urb') = length (buffer_of urb)"
proof -
  let ?sz = "xbuff_size (ud s) urb" and ?nn = "urb_transfer_buffer urb \<noteq> None"
  obtain r bs c where u: "usbip_recv (trx_ops P) (ud s) ?nn ?sz (env s) = (r, bs, c)"
    using prod_cases3 by blast
  show ?thesis
  proof (cases "0 < ?sz \<and> ?sz \<le> uint (urb_transfer_buffer_length urb)")
    case True
    then have "length bs \<le> nat ?sz" using trx_stream.recv_bounded [OF tr u] by simp
    also have "\<dots> \<le> length (buffer_of urb)"
      using nat_mono [OF conjunct2 [OF True]] assms(2) by (simp add: roomy_def)
    finally have le: "length bs \<le> length (buffer_of urb)" .
    then have sp: "store_prefix bs urb = Some (put_buffer (overwrite 0 bs (buffer_of urb)) urb)"
      by (simp add: store_prefix_def)
    show ?thesis
      using True le
      by (auto simp: usbip_recv_xbuff_def Let_def u sp buffer_of_put_buffer put_buffer_same
          simp del: not_None_eq)
  next
    case False
    then show ?thesis by (auto simp: usbip_recv_xbuff_def Let_def put_buffer_same)
  qed
qed

section \<open>Properties\<close>

text \<open>The packets of a transfer, each at its offset.\<close>

definition iso_packets :: "usb_iso_packet_descriptor list \<Rightarrow> u8 list \<Rightarrow> u8 list list" where
  "iso_packets ds buf =
     map (\<lambda>d. slice (unat (iso_offset d)) (unat (iso_actual_length d)) buf) ds"

lemma concat_slices:
  "i \<le> length ds \<Longrightarrow>
   concat (map (\<lambda>k. slice (compact_off ds k) (iso_len ds k) b) [0..<i]) = take (compact_off ds i) b"
  by (induction i) (simp_all add: slice_def take_add)

lemma iso_packets_nth:
  "iso_packets ds b = map (\<lambda>k. slice (iso_off ds k) (iso_len ds k) b) [0..<length ds]"
  by (rule nth_equalityI) (simp_all add: iso_packets_def)

lemma iso_packets_compact:
  assumes "\<forall>k<length ds. slice (iso_off ds k) (iso_len ds k) b' =
      slice (compact_off ds k) (iso_len ds k) b"
  shows "concat (iso_packets ds b') = take (compact_off ds (length ds)) b"
proof -
  have "iso_packets ds b' = map (\<lambda>k. slice (compact_off ds k) (iso_len ds k) b) [0..<length ds]"
    using assms by (simp add: iso_packets_nth)
  then show ?thesis by (simp add: concat_slices)
qed


definition demo_iso_urb :: urb where
  "demo_iso_urb = \<lparr>urb_pipe = 0x80, urb_transfer_flags = 0,
     urb_transfer_buffer = Some [1, 2, 3, 4, 5, 0, 0, 0, 0, 0],
     urb_transfer_buffer_length = 10, urb_actual_length = 5, urb_status = 0, urb_start_frame = 0,
     urb_number_of_packets = 3, urb_interval = 1, urb_error_count = 0, urb_setup_packet = None,
     urb_iso_frame_desc =
       [\<lparr>iso_offset = 0, iso_length = 3, iso_actual_length = 2, iso_status = 0\<rparr>,
        \<lparr>iso_offset = 3, iso_length = 3, iso_actual_length = 1, iso_status = 0\<rparr>,
        \<lparr>iso_offset = 6, iso_length = 4, iso_actual_length = 2, iso_status = 0\<rparr>]\<rparr>"

lemma demo_iso_urb_ok: "iso_urb_ok demo_iso_urb"
  by (simp add: iso_urb_ok_def demo_iso_urb_def usb_pipeisoc_def usb_pipetype_def buffer_of_def
      iso_layout_def eval_simps)


text \<open>A transport for the witnesses: its state is the list of bytes that wait, and it hands out at
  most three at a time.\<close>

definition list_trx :: "u8 list usbip_trx_operations" where
  "list_trx = \<lparr>
     trx_sendmsg = (\<lambda>d iov c. (int (length (concat iov)), c)),
     trx_recvmsg = (\<lambda>d n c. let k = min (nat n) (min 3 (length c)) in (int k, take k c, drop k c)),
     trx_link = (\<lambda>d fd c. (0, d\<lparr>tcp_socket := Some (nat fd)\<rparr>, c)),
     trx_unlink = (\<lambda>d c. (0, d, c))\<rparr>"

lemma list_trx_reliable: "trx_reliable list_trx (\<lambda>d c. c) (\<lambda>d c. True)"
  by unfold_locales (auto simp: list_trx_def Let_def)

definition demo_platform :: "u8 list platform" where
  "demo_platform = \<lparr>host_le = True, kmalloc = (\<lambda>n c. (True, c)), trx_ops = list_trx\<rparr>"

definition demo_ud :: "usbip_side \<Rightarrow> usbip_device_status \<Rightarrow> usbip_device" where
  "demo_ud sd st = \<lparr>ud_id = 0, side = sd, status = st, tcp_socket = Some 3, ux = None,
     tcp_rx = True, tcp_tx = True, event = 0\<rparr>"

definition demo_sockets :: "'c kernel_sockets" where
  "demo_sockets = \<lparr>kernel_sendmsg = (\<lambda>sk iov c. (int (length (concat iov)), c)),
     kernel_recvmsg = (\<lambda>sk n c. (0, [], c)), sockfd_lookup = (\<lambda>fd c. (Some (nat fd), c)),
     kernel_sock_shutdown = (\<lambda>sk c. (0, c))\<rparr>"

text \<open>C21: receiving \<open>sz\<close> bytes over a reliable transport that has them ends, whatever the sizes of
  the pieces the transport hands out, and delivers exactly the next \<open>sz\<close> bytes.\<close>

theorem usbip_recv_delivers:
  assumes "trx_reliable ops stream live" "live d c" "0 < sz" "sz \<le> int (length (stream d c))"
    "tcp_socket d \<noteq> None \<or> ux d \<noteq> None"
  shows "\<exists>c'. usbip_recv ops d True sz c = (sz, take (nat sz) (stream d c), c') \<and>
    stream d c' = drop (nat sz) (stream d c) \<and> live d c'"
  using trx_reliable.recv_all [OF assms] .

theorem usbip_recv_delivers_witness:
  "\<exists>c'. usbip_recv list_trx (demo_ud USBIP_STUB SDEV_ST_USED) True 7 [1, 2, 3, 4, 5, 6, 7, 8] =
     (7, [1, 2, 3, 4, 5, 6, 7], c') \<and> c' = [8]"
  using usbip_recv_delivers [OF list_trx_reliable, of 7 "[1, 2, 3, 4, 5, 6, 7, 8]"
      "demo_ud USBIP_STUB SDEV_ST_USED"]
  by (simp add: demo_ud_def)

text \<open>C16: whatever the peer sends, receiving the transfer buffer of a URB whose buffer has the size
  the URB says stays inside that buffer and changes nothing else of the URB.\<close>

theorem usbip_recv_xbuff_in_bounds:
  assumes "trx_stream (trx_ops P) stream" "roomy urb"
  shows "\<exists>ret urb' s'. usbip_recv_xbuff P urb s = Some (ret, urb', s') \<and>
    urb' = put_buffer (buffer_of urb') urb \<and> length (buffer_of urb') = length (buffer_of urb)"
  using recv_xbuff_spec [OF assms] .

definition demo_conn :: "usbip_side \<Rightarrow> u8 list \<Rightarrow> u8 list conn" where
  "demo_conn sd bs = \<lparr>ud = demo_ud sd SDEV_ST_USED, event_list = [], env = bs\<rparr>"

theorem usbip_recv_xbuff_in_bounds_witness:
  "\<exists>ret urb' s'. usbip_recv_xbuff demo_platform demo_iso_urb (demo_conn USBIP_VHCI [9, 8, 7, 6, 5, 4]) =
    Some (ret, urb', s') \<and> length (buffer_of urb') = 10"
proof -
  have tr: "trx_stream (trx_ops demo_platform) (\<lambda>d c. c)"
    using list_trx_reliable by (simp add: demo_platform_def trx_reliable_def)
  have ro: "roomy demo_iso_urb" and len: "length (buffer_of demo_iso_urb) = 10"
    by (simp_all add: roomy_def demo_iso_urb_def buffer_of_def)
  show ?thesis
    using usbip_recv_xbuff_in_bounds [OF tr ro, of "demo_conn USBIP_VHCI [9, 8, 7, 6, 5, 4]"] len
    by auto
qed

text \<open>C22: the packet descriptors of a transfer, packed on one host and unpacked on another into a URB
  with as many descriptors, arrive as they were, and the total the receiver computes is the
  sum of the actual lengths.\<close>

theorem iso_descs_roundtrip:
  assumes "\<forall>d\<in>set ds. in_s32 (iso_status d)" "length xs = length ds"
  shows "\<exists>bs. pack_iso_descs le ds 0 (length ds) = Some bs \<and>
    length bs = sizeof_iso_descriptor * length ds \<and>
    unpack_iso_descs le' bs 0 (length ds) xs 0 = Some (ds, iso_total ds)"
  using pack_iso_descs_wire [of 0 "length ds" ds le] unpack_iso_descs_wire [OF assms, of 0 "length ds" le' 0]
  by (simp add: length_concat comp_def sum_list_triv)

theorem iso_descs_roundtrip_witness:
  "\<exists>bs. pack_iso_descs True (urb_iso_frame_desc demo_iso_urb) 0 3 = Some bs \<and> length bs = 48 \<and>
    unpack_iso_descs False bs 0 3 (replicate 3 (hd (urb_iso_frame_desc demo_iso_urb))) 0 =
      Some (urb_iso_frame_desc demo_iso_urb, 5)"
proof -
  let ?ds = "urb_iso_frame_desc demo_iso_urb"
  have ds: "\<forall>d\<in>set ?ds. in_s32 (iso_status d)" "length ?ds = 3" "iso_total ?ds = 5"
    by (simp_all add: demo_iso_urb_def in_s32_def iso_total_def)
  show ?thesis
    using iso_descs_roundtrip [OF ds(1), of "replicate 3 (hd ?ds)" True False] ds(2,3)
    by (simp add: sizeof_iso_descriptor_def del: unpack_iso_descs.simps pack_iso_descs.simps)
qed

section \<open>What the common functions leave alone\<close>

text \<open>The functions of this theory change of a connection only the event word, the list of
  pending devices and the state of the kernel, and never clear an event.\<close>

definition conn_step :: "('c, 'y) conn_scheme \<Rightarrow> ('c, 'y) conn_scheme \<Rightarrow> bool" where
  "conn_step s s' = (conn.more s' = conn.more s \<and>
     (ud s')\<lparr>event := 0\<rparr> = (ud s)\<lparr>event := 0\<rparr> \<and> (event (ud s) \<noteq> 0 \<longrightarrow> event (ud s') \<noteq> 0))"

lemma conn_step_refl [simp]: "conn_step s s"
  by (simp add: conn_step_def)

lemma conn_step_trans: "conn_step s s' \<Longrightarrow> conn_step s' s'' \<Longrightarrow> conn_step s s''"
  by (simp add: conn_step_def)

lemma conn_step_env [simp]: "conn_step s (s\<lparr>env := c\<rparr>)"
  by (simp add: conn_step_def)

lemma word_or_eq_0: "(a :: ulong) OR b = 0 \<longleftrightarrow> a = 0 \<and> b = 0"
  by (metis or_eq_0_iff)

lemma usbip_event_add_ud:
  "(ud (usbip_event_add ka ev s))\<lparr>event := 0\<rparr> = (ud s)\<lparr>event := 0\<rparr>"
  by (simp add: usbip_event_add_def Let_def set_event_def split: prod.split)

lemma conn_step_event_add [simp]: "conn_step s (usbip_event_add ka ev s)"
  by (simp add: conn_step_def usbip_event_add_ud usbip_event_add_event word_or_eq_0)

lemma usbip_event_add_nonzero: "ev \<noteq> 0 \<Longrightarrow> event (ud (usbip_event_add ka ev s)) \<noteq> 0"
  by (auto simp: usbip_event_add_event word_or_eq_0)

lemma conn_step_env_add [simp]: "conn_step s (usbip_event_add ka ev (s\<lparr>env := c\<rparr>))"
  by (rule conn_step_trans [OF conn_step_env conn_step_event_add])

lemma conn_step_ud:
  assumes "conn_step s s'"
  shows "tcp_socket (ud s') = tcp_socket (ud s)" "ux (ud s') = ux (ud s)"
    "status (ud s') = status (ud s)" "side (ud s') = side (ud s)" "ud_id (ud s') = ud_id (ud s)"
    "tcp_rx (ud s') = tcp_rx (ud s)" "tcp_tx (ud s') = tcp_tx (ud s)"
    "conn.more s' = conn.more s" "event (ud s') = 0 \<Longrightarrow> event (ud s) = 0"
  using assms by (cases "ud s"; cases "ud s'"; auto simp: conn_step_def)+

lemma usbip_recv_iso_conn_step:
  "usbip_recv_iso P urb s = Some (r, urb', s') \<Longrightarrow> conn_step s s'"
  by (auto simp: usbip_recv_iso_def Let_def split: if_splits prod.splits option.splits)

lemma usbip_recv_xbuff_conn_step:
  "usbip_recv_xbuff P urb s = Some (r, urb', s') \<Longrightarrow> conn_step s s'"
  by (auto simp: usbip_recv_xbuff_def Let_def split: if_splits prod.splits option.splits)

end
