(* ===== verification/Stub_Tx.thy ===== *)
theory Stub_Tx
  imports Usbip_Common
begin

text \<open>
  The state of an exported device (\<open>struct stub_device\<close> of \<open>stub.h\<close>), the functions that free its
  requests (\<open>stub_main.c\<close>), and the transmit side of \<open>stub_tx.c\<close>: the completion handler of a URB
  and the two loops that send the results of submissions and of unlink requests.
\<close>

section \<open>The state of an exported device\<close>

text \<open>The URBs the driver submits: beside the common fields, whether \<open>hcpriv\<close>, \<open>complete\<close> and
  \<open>dev\<close> are set.\<close>

record stub_urb = urb +
  su_hcpriv :: bool
  su_complete :: bool
  su_dev :: bool

text \<open>\<open>sp_id\<close> is the address of the structure, by which the USB core knows the request: it is the
  \<open>context\<close> of the URB.  The URB belongs to it, \<open>None\<close> when it was not allocated.\<close>

record stub_priv =
  sp_id :: nat
  sp_seqnum :: ulong
  sp_urb :: "stub_urb option"
  sp_unlinking :: bool

record stub_unlink =
  sl_seqnum :: ulong
  sl_status :: u32

text \<open>\<open>struct stub_device\<close> without its \<open>ud\<close>; \<open>priv_next\<close> is the address the next request gets.\<close>

record stub_device =
  sd_udev :: nat
  devid :: u32
  priv_init :: "stub_priv list"
  priv_tx :: "stub_priv list"
  priv_free :: "stub_priv list"
  unlink_tx :: "stub_unlink list"
  unlink_free :: "stub_unlink list"
  priv_next :: nat

record 'c stub_conn = "'c conn" +
  sdev :: stub_device

text \<open>The USB core, a parameter: \<open>udev\<close> is the present contents of the \<open>usb_device\<close> at an address,
  the others are functions the driver calls.  A URB is named by the address of its request.\<close>

record usb_endpoint =
  ep_attributes :: u8
  ep_address :: u8

record usb_device =
  udev_name :: string
  udev_busnum :: u32
  udev_devnum :: u32
  udev_bus_name :: string
  udev_class :: u8
  udev_state :: nat
  udev_ep_in :: "usb_endpoint option list"
  udev_ep_out :: "usb_endpoint option list"

record 'c stub_kernel = "'c driver_platform" +
  udev :: "nat \<Rightarrow> 'c \<Rightarrow> usb_device"
  usb_alloc_urb :: "int \<Rightarrow> 'c \<Rightarrow> usb_iso_packet_descriptor list option \<times> 'c"
  usb_submit_urb :: "nat \<Rightarrow> stub_urb \<Rightarrow> 'c \<Rightarrow> int \<times> 'c"
  usb_unlink_urb :: "nat \<Rightarrow> 'c \<Rightarrow> int \<times> 'c"
  usb_kill_urb :: "nat \<Rightarrow> 'c \<Rightarrow> 'c"
  usb_clear_halt :: "nat \<Rightarrow> u32 \<Rightarrow> 'c \<Rightarrow> int \<times> 'c"
  usb_set_interface :: "nat \<Rightarrow> u16 \<Rightarrow> u16 \<Rightarrow> 'c \<Rightarrow> int \<times> 'c"
  usb_set_configuration :: "nat \<Rightarrow> u16 \<Rightarrow> 'c \<Rightarrow> int \<times> 'c"
  usb_lock_device_for_reset :: "nat \<Rightarrow> 'c \<Rightarrow> int \<times> 'c"
  usb_reset_device :: "nat \<Rightarrow> 'c \<Rightarrow> int \<times> 'c"
  usb_unlock_device :: "nat \<Rightarrow> 'c \<Rightarrow> 'c"
  usb_hub_claim_port :: "nat \<Rightarrow> 'c \<Rightarrow> int \<times> 'c"
  usb_hub_release_port :: "nat \<Rightarrow> 'c \<Rightarrow> int \<times> 'c"
  device_create_file :: "nat \<Rightarrow> string \<Rightarrow> 'c \<Rightarrow> int \<times> 'c"
  device_remove_file :: "nat \<Rightarrow> string \<Rightarrow> 'c \<Rightarrow> 'c"

section \<open>Requests\<close>

definition all_privs :: "stub_device \<Rightarrow> stub_priv list" where
  "all_privs sd = priv_init sd @ priv_tx sd @ priv_free sd"

definition find_priv :: "nat \<Rightarrow> stub_device \<Rightarrow> stub_priv option" where
  "find_priv i sd = find (\<lambda>p. sp_id p = i) (all_privs sd)"

text \<open>A write through the pointer to a request, on whichever list it is.\<close>

definition write_priv :: "nat \<Rightarrow> (stub_priv \<Rightarrow> stub_priv) \<Rightarrow> stub_device \<Rightarrow> stub_device" where
  "write_priv i f sd =
     (let g = map (\<lambda>p. if sp_id p = i then f p else p) in
      sd\<lparr>priv_init := g (priv_init sd), priv_tx := g (priv_tx sd), priv_free := g (priv_free sd)\<rparr>)"

text \<open>\<open>list_del\<close>: the request leaves the list it is on.\<close>

definition del_priv :: "nat \<Rightarrow> stub_device \<Rightarrow> stub_device" where
  "del_priv i sd =
     (let g = filter (\<lambda>p. sp_id p \<noteq> i) in
      sd\<lparr>priv_init := g (priv_init sd), priv_tx := g (priv_tx sd), priv_free := g (priv_free sd)\<rparr>)"

definition stub_priv_pop_from_listhead :: "stub_priv list \<Rightarrow> (stub_priv \<times> stub_priv list) option" where
  "stub_priv_pop_from_listhead ps = (case ps of [] \<Rightarrow> None | p # ps' \<Rightarrow> Some (p, ps'))"

definition stub_priv_pop :: "stub_device \<Rightarrow> (stub_priv \<times> stub_device) option" where
  "stub_priv_pop sd = (case stub_priv_pop_from_listhead (priv_init sd) of
     Some (p, l) \<Rightarrow> Some (p, sd\<lparr>priv_init := l\<rparr>)
   | None \<Rightarrow> (case stub_priv_pop_from_listhead (priv_tx sd) of
       Some (p, l) \<Rightarrow> Some (p, sd\<lparr>priv_tx := l\<rparr>)
     | None \<Rightarrow> (case stub_priv_pop_from_listhead (priv_free sd) of
         Some (p, l) \<Rightarrow> Some (p, sd\<lparr>priv_free := l\<rparr>)
       | None \<Rightarrow> None)))"

lemma stub_priv_pop_shrinks:
  "stub_priv_pop sd = Some (p, sd') \<Longrightarrow> all_privs sd = p # all_privs sd'"
  by (auto simp: stub_priv_pop_def stub_priv_pop_from_listhead_def all_privs_def
      split: list.splits)

text \<open>A URB that is killed completes with \<open>-ENOENT\<close>, for which \<open>stub_complete\<close> does nothing.  The
  fault is the dereference of the URB to free its buffers.\<close>

function stub_device_cleanup_urbs ::
  "('c, 'k) stub_kernel_scheme \<Rightarrow> stub_device \<Rightarrow> 'c \<Rightarrow> (stub_device \<times> 'c) option" where
  "stub_device_cleanup_urbs K sd c = (case stub_priv_pop sd of
     None \<Rightarrow> Some (sd, c)
   | Some (p, sd') \<Rightarrow>
       let c' = (if sp_urb p = None then c else usb_kill_urb K (sp_id p) c) in
       (case sp_urb p of
          None \<Rightarrow> None
        | Some urb \<Rightarrow> stub_device_cleanup_urbs K sd' c'))"
  by pat_completeness auto
termination
  by (relation "measure (\<lambda>(K, sd, c). length (all_privs sd))") (auto dest: stub_priv_pop_shrinks)

declare stub_device_cleanup_urbs.simps [simp del]

definition stub_free_priv_and_urb :: "stub_priv \<Rightarrow> stub_device \<Rightarrow> stub_device option" where
  "stub_free_priv_and_urb p sd =
     (case sp_urb p of None \<Rightarrow> None | Some urb \<Rightarrow> Some (del_priv (sp_id p) sd))"

section \<open>Completion\<close>

abbreviation (input) sizeof_stub_unlink :: nat where "sizeof_stub_unlink \<equiv> 32"

definition stub_enqueue_ret_unlink ::
  "('c, 'k) stub_kernel_scheme \<Rightarrow> u32 \<Rightarrow> u32 \<Rightarrow> 'c stub_conn \<Rightarrow> 'c stub_conn" where
  "stub_enqueue_ret_unlink K seqnum st s =
     (let (ok, c) = kmalloc K sizeof_stub_unlink (env s); s1 = s\<lparr>env := c\<rparr> in
      if \<not> ok then usbip_event_add (kmalloc K) VDEV_EVENT_ERROR_MALLOC s1
      else s1\<lparr>sdev := (sdev s1)\<lparr>unlink_tx := unlink_tx (sdev s1) @
             [\<lparr>sl_seqnum = ucast seqnum, sl_status = st\<rparr>]\<rparr>\<rparr>)"

text \<open>The USB core hands back the URB it was given for request \<open>i\<close> as \<open>urb\<close>.  The fault is a
  request that was freed.\<close>

definition stub_complete ::
  "('c, 'k) stub_kernel_scheme \<Rightarrow> nat \<Rightarrow> stub_urb \<Rightarrow> 'c stub_conn \<Rightarrow> 'c stub_conn option" where
  "stub_complete K i urb s = (case find_priv i (sdev s) of
     None \<Rightarrow> None
   | Some p0 \<Rightarrow>
       let p = p0\<lparr>sp_urb := Some urb\<rparr>;
           s1 = s\<lparr>sdev := write_priv i (\<lambda>p. p\<lparr>sp_urb := Some urb\<rparr>) (sdev s)\<rparr> in
       if urb_status urb = - ENOENT then Some s1
       else if tcp_socket (ud s1) = None then Some s1
       else if sp_unlinking p then
         let s2 = stub_enqueue_ret_unlink K (ucast (sp_seqnum p)) (word_of_int (urb_status urb)) s1 in
         map_option (\<lambda>sd. s2\<lparr>sdev := sd\<rparr>) (stub_free_priv_and_urb p (sdev s2))
       else
         let sd = del_priv i (sdev s1) in
         Some (s1\<lparr>sdev := sd\<lparr>priv_tx := priv_tx sd @ [p]\<rparr>\<rparr>))"

section \<open>Sending the results of submissions\<close>

definition setup_base_pdu :: "u32 \<Rightarrow> u32 \<Rightarrow> usbip_header_basic" where
  "setup_base_pdu command seqnum = \<lparr>b_command = command, b_seqnum = seqnum, b_devid = 0,
     b_direction = 0, b_ep = 0\<rparr>"

definition setup_ret_submit_pdu :: "usbip_header \<Rightarrow> stub_priv \<Rightarrow> stub_urb \<Rightarrow> usbip_header" where
  "setup_ret_submit_pdu rpdu p urb =
     fst (usbip_pack_pdu (rpdu\<lparr>base := setup_base_pdu USBIP_RET_SUBMIT (ucast (sp_seqnum p))\<rparr>) urb
       USBIP_RET_SUBMIT True)"

definition setup_ret_unlink_pdu :: "usbip_header \<Rightarrow> stub_unlink \<Rightarrow> usbip_header" where
  "setup_ret_unlink_pdu rpdu ul =
     rpdu\<lparr>base := setup_base_pdu USBIP_RET_UNLINK (ucast (sl_seqnum ul)),
       u := put_ret_unlink \<lparr>ru_status = sl_status ul\<rparr> (u rpdu)\<rparr>"

definition dequeue_from_priv_tx :: "stub_device \<Rightarrow> (stub_priv \<times> stub_device) option" where
  "dequeue_from_priv_tx sd = (case priv_tx sd of
     [] \<Rightarrow> None
   | p # ps \<Rightarrow> Some (p, sd\<lparr>priv_tx := ps, priv_free := priv_free sd @ [p]\<rparr>))"

text \<open>The packets \<open>i\<close> to \<open>i + n - 1\<close> of an isochronous URB, each at its offset.\<close>

fun iso_kvecs :: "'z urb_scheme \<Rightarrow> nat \<Rightarrow> nat \<Rightarrow> u8 list list option" where
  "iso_kvecs urb i 0 = Some []"
| "iso_kvecs urb i (Suc n) =
     (if i < length (urb_iso_frame_desc urb) then
        let d = urb_iso_frame_desc urb ! i in
        do { v \<leftarrow> kvec (buffer_of urb) (unat (iso_offset d)) (unat (iso_actual_length d));
             vs \<leftarrow> iso_kvecs urb (Suc i) n;
             Some (v # vs) }
      else None)"

text \<open>Step 2 of sending: the transfer buffer of an IN transfer.\<close>

definition ret_submit_data :: "'z urb_scheme \<Rightarrow> u8 list list option" where
  "ret_submit_data urb =
     (if usb_pipein (urb_pipe urb) \<and> usb_pipetype (urb_pipe urb) \<noteq> PIPE_ISOCHRONOUS \<and>
         urb_actual_length urb > 0
      then map_option (\<lambda>v. [v]) (kvec (buffer_of urb) 0 (unat (urb_actual_length urb)))
      else if usb_pipein (urb_pipe urb) \<and> usb_pipetype (urb_pipe urb) = PIPE_ISOCHRONOUS
      then iso_kvecs urb 0 (nat (sint (urb_number_of_packets urb)))
      else Some [])"

abbreviation (input) sizeof_kvec :: nat where "sizeof_kvec \<equiv> 16"

definition fail_tx ::
  "('c, 'k) stub_kernel_scheme \<Rightarrow> ulong \<Rightarrow> 'c stub_conn \<Rightarrow> (int \<times> 'c stub_conn) option" where
  "fail_tx K ev s = Some (-1, usbip_event_add (kmalloc K) ev s)"

text \<open>The body of the loop for one dequeued request: the number of bytes sent, or \<open>-1\<close>.\<close>

definition stub_send_one ::
  "('c, 'k) stub_kernel_scheme \<Rightarrow> stub_priv \<Rightarrow> 'c stub_conn \<Rightarrow> (int \<times> 'c stub_conn) option" where
  "stub_send_one K p s = (case sp_urb p of
     None \<Rightarrow> None
   | Some urb \<Rightarrow>
       let isoc = (usb_pipetype (urb_pipe urb) = PIPE_ISOCHRONOUS);
           iovnum = sint (if isoc then 2 + urb_number_of_packets urb else 2);
           (ok, c1) = (if iovnum < 0 then (False, env s)
                       else kmalloc K (nat iovnum * sizeof_kvec) (env s));
           s1 = s\<lparr>env := c1\<rparr> in
       if \<not> ok then fail_tx K SDEV_EVENT_ERROR_MALLOC s1
       else let hdr = header_bytes (host_le K) (usbip_header_correct_endian (host_le K)
                  (setup_ret_submit_pdu zero_header p urb) True) in
       (case ret_submit_data urb of
          None \<Rightarrow> None
        | Some data \<Rightarrow>
            let txsize = length hdr + length (concat data) in
            if usb_pipein (urb_pipe urb) \<and> isoc \<and>
               txsize \<noteq> length hdr + unat (urb_actual_length urb)
            then fail_tx K SDEV_EVENT_ERROR_TCP s1
            else (case (if isoc then usbip_alloc_iso_desc_pdu K urb (env s1)
                        else Some (Some [], env s1)) of
              None \<Rightarrow> None
            | Some (None, c2) \<Rightarrow> fail_tx K SDEV_EVENT_ERROR_MALLOC (s1\<lparr>env := c2\<rparr>)
            | Some (Some descs, c2) \<Rightarrow>
                let s2 = s1\<lparr>env := c2\<rparr>;
                    iov = [hdr] @ data @ (if isoc then [descs] else []);
                    tx = length (concat iov);
                    (ret, c3) = trx_sendmsg (trx_ops K) (ud s2) iov (env s2);
                    s3 = s2\<lparr>env := c3\<rparr> in
                if ret \<noteq> int tx then fail_tx K SDEV_EVENT_ERROR_TCP s3
                else Some (int tx, s3))))"

text \<open>The results that were sent are freed.\<close>

definition free_sent :: "stub_device \<Rightarrow> stub_device option" where
  "free_sent sd = (if list_all (\<lambda>p. sp_urb p \<noteq> None) (priv_free sd)
     then Some (sd\<lparr>priv_free := []\<rparr>) else None)"

lemma fail_tx_sdev: "fail_tx K ev s = Some (r, s') \<Longrightarrow> sdev s' = sdev s"
  by (auto simp: fail_tx_def usbip_event_add_def Let_def split: prod.splits if_splits)

lemma stub_send_one_sdev: "stub_send_one K p s = Some (r, s') \<Longrightarrow> sdev s' = sdev s"
  by (auto simp: stub_send_one_def Let_def dest: fail_tx_sdev
      split: option.splits prod.splits if_splits)

function stub_send_submit_loop ::
  "('c, 'k) stub_kernel_scheme \<Rightarrow> nat \<Rightarrow> 'c stub_conn \<Rightarrow> (int \<times> 'c stub_conn) option" where
  "stub_send_submit_loop K tot s = (case dequeue_from_priv_tx (sdev s) of
     None \<Rightarrow> map_option (\<lambda>sd. (sint (word_of_nat tot :: u32), s\<lparr>sdev := sd\<rparr>)) (free_sent (sdev s))
   | Some (p, sd) \<Rightarrow> (case stub_send_one K p (s\<lparr>sdev := sd\<rparr>) of
       None \<Rightarrow> None
     | Some (r, s') \<Rightarrow> if r < 0 then Some (-1, s') else stub_send_submit_loop K (tot + nat r) s'))"
  by pat_completeness auto
termination
  by (relation "measure (\<lambda>(K, tot, s). length (priv_tx (sdev s)))")
     (auto simp: dequeue_from_priv_tx_def split: list.splits dest!: stub_send_one_sdev)

declare stub_send_submit_loop.simps [simp del]

definition stub_send_ret_submit ::
  "('c, 'k) stub_kernel_scheme \<Rightarrow> 'c stub_conn \<Rightarrow> (int \<times> 'c stub_conn) option" where
  "stub_send_ret_submit K s = stub_send_submit_loop K 0 s"

section \<open>Sending the results of unlink requests\<close>

definition dequeue_from_unlink_tx :: "stub_device \<Rightarrow> (stub_unlink \<times> stub_device) option" where
  "dequeue_from_unlink_tx sd = (case unlink_tx sd of
     [] \<Rightarrow> None
   | ul # uls \<Rightarrow> Some (ul, sd\<lparr>unlink_tx := uls, unlink_free := unlink_free sd @ [ul]\<rparr>))"

definition stub_send_unlink_one ::
  "('c, 'k) stub_kernel_scheme \<Rightarrow> stub_unlink \<Rightarrow> 'c stub_conn \<Rightarrow> int \<times> 'c stub_conn" where
  "stub_send_unlink_one K ul s =
     (let hdr = header_bytes (host_le K) (usbip_header_correct_endian (host_le K)
            (setup_ret_unlink_pdu zero_header ul) True);
          (ret, c) = trx_sendmsg (trx_ops K) (ud s) [hdr] (env s); s1 = s\<lparr>env := c\<rparr> in
      if ret \<noteq> int (length hdr)
      then (-1, usbip_event_add (kmalloc K) SDEV_EVENT_ERROR_TCP s1)
      else (int (length hdr), s1))"

lemma stub_send_unlink_one_sdev: "stub_send_unlink_one K ul s = (r, s') \<Longrightarrow> sdev s' = sdev s"
  by (auto simp: stub_send_unlink_one_def usbip_event_add_def Let_def
      split: prod.splits if_splits)

function stub_send_unlink_loop ::
  "('c, 'k) stub_kernel_scheme \<Rightarrow> nat \<Rightarrow> 'c stub_conn \<Rightarrow> int \<times> 'c stub_conn" where
  "stub_send_unlink_loop K tot s = (case dequeue_from_unlink_tx (sdev s) of
     None \<Rightarrow> (sint (word_of_nat tot :: u32), s\<lparr>sdev := (sdev s)\<lparr>unlink_free := []\<rparr>\<rparr>)
   | Some (ul, sd) \<Rightarrow>
       let (r, s') = stub_send_unlink_one K ul (s\<lparr>sdev := sd\<rparr>) in
       if r < 0 then (-1, s') else stub_send_unlink_loop K (tot + nat r) s')"
  by pat_completeness auto
termination
  by (relation "measure (\<lambda>(K, tot, s). length (unlink_tx (sdev s)))")
     (auto simp: dequeue_from_unlink_tx_def split: list.splits
       dest!: stub_send_unlink_one_sdev [OF sym])

declare stub_send_unlink_loop.simps [simp del]

definition stub_send_ret_unlink ::
  "('c, 'k) stub_kernel_scheme \<Rightarrow> 'c stub_conn \<Rightarrow> int \<times> 'c stub_conn" where
  "stub_send_ret_unlink K s = stub_send_unlink_loop K 0 s"

text \<open>The thread: \<open>stops\<close> are the answers of \<open>kthread_should_stop\<close>, one for each time the loop is
  entered or woken up.  The run ends with the list, with a fault, or when the loop is left.\<close>

fun stub_tx_loop ::
  "('c, 'k) stub_kernel_scheme \<Rightarrow> bool list \<Rightarrow> 'c stub_conn \<Rightarrow> 'c stub_conn option" where
  "stub_tx_loop K [] s = Some s"
| "stub_tx_loop K (stop # stops) s =
     (if stop then Some s
      else if usbip_event_happened (ud s) then Some s
      else case stub_send_ret_submit K s of
        None \<Rightarrow> None
      | Some (r1, s1) \<Rightarrow>
          if r1 < 0 then Some s1
          else let (r2, s2) = stub_send_ret_unlink K s1 in
            if r2 < 0 then Some s2 else stub_tx_loop K stops s2)"

end
