(* ===== verification/Stub_Rx.thy ===== *)
theory Stub_Rx
  imports Stub_Tx
begin

text \<open>
  The receive side of the device-side driver, \<open>stub_rx.c\<close>: the special control requests, unlinking,
  setting up and submitting the URB of a request, and the receive loop.
\<close>

section \<open>Control requests\<close>

text \<open>The fields of the eight bytes of a setup packet; the two-byte ones are little-endian.\<close>

definition bRequestType :: "u8 list \<Rightarrow> u8" where "bRequestType req = req ! 0"
definition bRequest :: "u8 list \<Rightarrow> u8" where "bRequest req = req ! 1"
definition le16_at :: "u8 list \<Rightarrow> nat \<Rightarrow> u16" where
  "le16_at req i = ucast (req ! i) OR push_bit 8 (ucast (req ! Suc i))"
definition wValue :: "u8 list \<Rightarrow> u16" where "wValue req = le16_at req 2"
definition wIndex :: "u8 list \<Rightarrow> u16" where "wIndex req = le16_at req 4"
definition wLength :: "u8 list \<Rightarrow> u16" where "wLength req = le16_at req 6"

lemmas setup_defs = bRequestType_def bRequest_def le16_at_def wValue_def wIndex_def wLength_def

abbreviation (input) USB_REQ_CLEAR_FEATURE :: u8 where "USB_REQ_CLEAR_FEATURE \<equiv> 1"
abbreviation (input) USB_REQ_SET_FEATURE :: u8 where "USB_REQ_SET_FEATURE \<equiv> 3"
abbreviation (input) USB_REQ_SET_CONFIGURATION :: u8 where "USB_REQ_SET_CONFIGURATION \<equiv> 9"
abbreviation (input) USB_REQ_SET_INTERFACE :: u8 where "USB_REQ_SET_INTERFACE \<equiv> 11"
abbreviation (input) USB_RECIP_DEVICE :: u8 where "USB_RECIP_DEVICE \<equiv> 0"
abbreviation (input) USB_RECIP_INTERFACE :: u8 where "USB_RECIP_INTERFACE \<equiv> 1"
abbreviation (input) USB_RECIP_ENDPOINT :: u8 where "USB_RECIP_ENDPOINT \<equiv> 2"
abbreviation (input) USB_RT_PORT :: u8 where "USB_RT_PORT \<equiv> 0x23"
abbreviation (input) USB_ENDPOINT_HALT :: u16 where "USB_ENDPOINT_HALT \<equiv> 0"
abbreviation (input) USB_PORT_FEAT_RESET :: u16 where "USB_PORT_FEAT_RESET \<equiv> 4"

definition is_clear_halt_cmd :: "u8 list \<Rightarrow> bool" where
  "is_clear_halt_cmd req = (bRequest req = USB_REQ_CLEAR_FEATURE \<and>
     bRequestType req = USB_RECIP_ENDPOINT \<and> wValue req = USB_ENDPOINT_HALT)"

definition is_set_interface_cmd :: "u8 list \<Rightarrow> bool" where
  "is_set_interface_cmd req = (bRequest req = USB_REQ_SET_INTERFACE \<and>
     bRequestType req = USB_RECIP_INTERFACE)"

definition is_set_configuration_cmd :: "u8 list \<Rightarrow> bool" where
  "is_set_configuration_cmd req = (bRequest req = USB_REQ_SET_CONFIGURATION \<and>
     bRequestType req = USB_RECIP_DEVICE)"

definition is_reset_device_cmd :: "u8 list \<Rightarrow> bool" where
  "is_reset_device_cmd req = (bRequest req = USB_REQ_SET_FEATURE \<and>
     bRequestType req = USB_RT_PORT \<and> wValue req = USB_PORT_FEAT_RESET)"

text \<open>The pipe words of \<open>usb_sndctrlpipe\<close> and its relatives.\<close>

definition create_pipe :: "u32 \<Rightarrow> usb_device \<Rightarrow> u32 \<Rightarrow> bool \<Rightarrow> u32" where
  "create_pipe type d ep is_in = push_bit 30 type OR (push_bit 8 (udev_devnum d) OR push_bit 15 ep) OR
     (if is_in then 0x80 else 0)"

definition tweak_clear_halt_cmd ::
  "('c, 'k) stub_kernel_scheme \<Rightarrow> u8 list \<Rightarrow> nat \<Rightarrow> 'c \<Rightarrow> int \<times> 'c" where
  "tweak_clear_halt_cmd K req dev c =
     (let target_endp = ucast (wIndex req AND 0xf); target_dir = wIndex req AND 0x80;
          target_pipe = create_pipe PIPE_CONTROL (udev K dev c) target_endp (target_dir \<noteq> 0)
      in usb_clear_halt K dev target_pipe c)"

definition tweak_set_interface_cmd ::
  "('c, 'k) stub_kernel_scheme \<Rightarrow> u8 list \<Rightarrow> nat \<Rightarrow> 'c \<Rightarrow> int \<times> 'c" where
  "tweak_set_interface_cmd K req dev c =
     (let alternate = wValue req; interface = wIndex req in usb_set_interface K dev interface alternate c)"

definition tweak_set_configuration_cmd ::
  "('c, 'k) stub_kernel_scheme \<Rightarrow> u8 list \<Rightarrow> nat \<Rightarrow> 'c \<Rightarrow> int \<times> 'c" where
  "tweak_set_configuration_cmd K req dev c =
     (let config = wValue req; (err, c') = usb_set_configuration K dev config c in (0, c'))"

definition tweak_reset_device_cmd ::
  "('c, 'k) stub_kernel_scheme \<Rightarrow> nat \<Rightarrow> 'c \<Rightarrow> int \<times> 'c" where
  "tweak_reset_device_cmd K dev c =
     (let (r, c1) = usb_lock_device_for_reset K dev c in
      if r < 0 then (0, c1)
      else let (_, c2) = usb_reset_device K dev c1 in (0, usb_unlock_device K dev c2))"

definition tweak_special_requests ::
  "('c, 'k) stub_kernel_scheme \<Rightarrow> stub_urb \<Rightarrow> nat \<Rightarrow> 'c \<Rightarrow> 'c" where
  "tweak_special_requests K urb dev c = (case urb_setup_packet urb of
     None \<Rightarrow> c
   | Some req \<Rightarrow>
       if usb_pipetype (urb_pipe urb) \<noteq> PIPE_CONTROL then c
       else if is_clear_halt_cmd req then snd (tweak_clear_halt_cmd K req dev c)
       else if is_set_interface_cmd req then snd (tweak_set_interface_cmd K req dev c)
       else if is_set_configuration_cmd req then snd (tweak_set_configuration_cmd K req dev c)
       else if is_reset_device_cmd req then snd (tweak_reset_device_cmd K dev c)
       else c)"

section \<open>Unlink requests\<close>

text \<open>The search in \<open>priv_init\<close>: the first request with the sequence number becomes the unlink
  request.  It is returned with the list that holds it.\<close>

fun mark_unlinking :: "ulong \<Rightarrow> ulong \<Rightarrow> stub_priv list \<Rightarrow> (stub_priv \<times> stub_priv list) option" where
  "mark_unlinking target new [] = None"
| "mark_unlinking target new (p # ps) =
     (if sp_seqnum p \<noteq> target
      then map_option (\<lambda>(q, qs). (q, p # qs)) (mark_unlinking target new ps)
      else let q = p\<lparr>sp_unlinking := True, sp_seqnum := new\<rparr> in Some (q, q # ps))"

text \<open>The messages of the source dereference the URB and its device, the fault.\<close>

definition stub_recv_cmd_unlink ::
  "('c, 'k) stub_kernel_scheme \<Rightarrow> usbip_header \<Rightarrow> 'c stub_conn \<Rightarrow> (int \<times> 'c stub_conn) option" where
  "stub_recv_cmd_unlink K pdu s =
     (case mark_unlinking (ucast (cu_seqnum (cmd_unlink (u pdu)))) (ucast (b_seqnum (base pdu)))
         (priv_init (sdev s)) of
        Some (p, ps) \<Rightarrow> (case sp_urb p of
            None \<Rightarrow> None
          | Some urb \<Rightarrow>
              if \<not> su_dev urb then None
              else let s1 = s\<lparr>sdev := (sdev s)\<lparr>priv_init := ps\<rparr>\<rparr>;
                       (ret, c) = usb_unlink_urb K (sp_id p) (env s1)
                   in Some (0, s1\<lparr>env := c\<rparr>))
      | None \<Rightarrow> Some (0, stub_enqueue_ret_unlink K (b_seqnum (base pdu)) 0 s))"

section \<open>Submission requests\<close>

definition valid_request :: "'c stub_conn \<Rightarrow> usbip_header \<Rightarrow> bool" where
  "valid_request s pdu = (b_devid (base pdu) = devid (sdev s) \<and> status (ud s) = SDEV_ST_USED)"

abbreviation (input) sizeof_stub_priv :: nat where "sizeof_stub_priv \<equiv> 56"

text \<open>The address of the new request, or \<open>None\<close>.\<close>

definition stub_priv_alloc ::
  "('c, 'k) stub_kernel_scheme \<Rightarrow> usbip_header \<Rightarrow> 'c stub_conn \<Rightarrow> nat option \<times> 'c stub_conn" where
  "stub_priv_alloc K pdu s =
     (let (ok, c) = kmalloc K sizeof_stub_priv (env s); s1 = s\<lparr>env := c\<rparr>; sd = sdev s1 in
      if \<not> ok then (None, usbip_event_add (kmalloc K) SDEV_EVENT_ERROR_MALLOC s1)
      else (Some (priv_next sd), s1\<lparr>sdev := sd\<lparr>
             priv_init := priv_init sd @ [\<lparr>sp_id = priv_next sd,
               sp_seqnum = ucast (b_seqnum (base pdu)), sp_urb = None, sp_unlinking = False\<rparr>],
             priv_next := Suc (priv_next sd)\<rparr>\<rparr>))"

abbreviation (input) USB_ENDPOINT_XFER_CONTROL :: u8 where "USB_ENDPOINT_XFER_CONTROL \<equiv> 0"
abbreviation (input) USB_ENDPOINT_XFER_ISOC :: u8 where "USB_ENDPOINT_XFER_ISOC \<equiv> 1"
abbreviation (input) USB_ENDPOINT_XFER_BULK :: u8 where "USB_ENDPOINT_XFER_BULK \<equiv> 2"
abbreviation (input) USB_ENDPOINT_XFER_INT :: u8 where "USB_ENDPOINT_XFER_INT \<equiv> 3"

definition usb_endpoint_type :: "usb_endpoint \<Rightarrow> u8" where
  "usb_endpoint_type e = ep_attributes e AND 3"

definition usb_endpoint_dir_out :: "usb_endpoint \<Rightarrow> bool" where
  "usb_endpoint_dir_out e = (ep_address e AND 0x80 = 0)"

text \<open>The faults are an index beyond the array of sixteen endpoints and the \<open>BUG()\<close>.\<close>

definition get_pipe :: "usb_device \<Rightarrow> u32 \<Rightarrow> u32 \<Rightarrow> u32 option" where
  "get_pipe d epnum dir =
     (let eps = (if dir = USBIP_DIR_IN then udev_ep_in d else udev_ep_out d);
          i = unat (epnum AND 0x7f) in
      if \<not> i < length eps then None
      else case eps ! i of
        None \<Rightarrow> None
      | Some e \<Rightarrow>
          let is_in = (dir \<noteq> USBIP_DIR_OUT) in
          if usb_endpoint_type e = USB_ENDPOINT_XFER_CONTROL
          then Some (create_pipe PIPE_CONTROL d epnum is_in)
          else if usb_endpoint_type e = USB_ENDPOINT_XFER_BULK
          then Some (create_pipe PIPE_BULK d epnum is_in)
          else if usb_endpoint_type e = USB_ENDPOINT_XFER_INT
          then Some (create_pipe PIPE_INTERRUPT d epnum is_in)
          else if usb_endpoint_type e = USB_ENDPOINT_XFER_ISOC
          then Some (create_pipe PIPE_ISOCHRONOUS d epnum is_in)
          else Some 0)"

abbreviation (input) URB_SHORT_NOT_OK :: u32 where "URB_SHORT_NOT_OK \<equiv> 1"
abbreviation (input) URB_ISO_ASAP :: u32 where "URB_ISO_ASAP \<equiv> 2"
abbreviation (input) URB_NO_FSBR :: u32 where "URB_NO_FSBR \<equiv> 0x20"
abbreviation (input) URB_ZERO_PACKET :: u32 where "URB_ZERO_PACKET \<equiv> 0x40"
abbreviation (input) URB_NO_INTERRUPT :: u32 where "URB_NO_INTERRUPT \<equiv> 0x80"
abbreviation (input) URB_FREE_BUFFER :: u32 where "URB_FREE_BUFFER \<equiv> 0x100"
abbreviation (input) URB_DIR_MASK :: u32 where "URB_DIR_MASK \<equiv> 0x200"

abbreviation (input) USB_STATE_UNAUTHENTICATED :: nat where "USB_STATE_UNAUTHENTICATED \<equiv> 4"

text \<open>The flags a transfer of this type and direction may have.\<close>

definition allowed_flags :: "u8 \<Rightarrow> bool \<Rightarrow> u32" where
  "allowed_flags xfertype is_out =
     (let allowed = URB_NO_TRANSFER_DMA_MAP OR URB_NO_INTERRUPT OR URB_DIR_MASK OR URB_FREE_BUFFER;
          not_ok = (if \<not> is_out then URB_SHORT_NOT_OK else 0) in
      if xfertype = USB_ENDPOINT_XFER_BULK
      then allowed OR (if is_out then URB_ZERO_PACKET else 0) OR URB_NO_FSBR OR not_ok
      else if xfertype = USB_ENDPOINT_XFER_CONTROL then allowed OR URB_NO_FSBR OR not_ok
      else if xfertype = USB_ENDPOINT_XFER_ISOC then allowed OR URB_ISO_ASAP
      else allowed OR not_ok)"

text \<open>The index of the endpoint array is at most 15; \<open>None\<close> of the array is a null pointer.\<close>

definition masking_bogus_flags :: "usb_device \<Rightarrow> stub_urb \<Rightarrow> stub_urb" where
  "masking_bogus_flags d urb =
     (if su_hcpriv urb \<or> \<not> su_complete urb then urb
      else if \<not> su_dev urb \<or> udev_state d < USB_STATE_UNAUTHENTICATED then urb
      else case (if usb_pipein (urb_pipe urb) then udev_ep_in d else udev_ep_out d) !
             unat (usb_pipeendpoint (urb_pipe urb)) of
        None \<Rightarrow> urb
      | Some e \<Rightarrow>
          let xfertype = usb_endpoint_type e in
          if xfertype = USB_ENDPOINT_XFER_CONTROL then
            (case urb_setup_packet urb of
               None \<Rightarrow> urb
             | Some setup \<Rightarrow>
                 let is_out = (bRequestType setup AND 0x80 = 0 \<or> wLength setup = 0) in
                 urb\<lparr>urb_transfer_flags := urb_transfer_flags urb AND allowed_flags xfertype is_out\<rparr>)
          else urb\<lparr>urb_transfer_flags := urb_transfer_flags urb AND
                 allowed_flags xfertype (usb_endpoint_dir_out e)\<rparr>)"

definition zero_stub_urb :: "usb_iso_packet_descriptor list \<Rightarrow> stub_urb" where
  "zero_stub_urb descs = \<lparr>urb_pipe = 0, urb_transfer_flags = 0, urb_transfer_buffer = None,
     urb_transfer_buffer_length = 0, urb_actual_length = 0, urb_status = 0, urb_start_frame = 0,
     urb_number_of_packets = 0, urb_interval = 0, urb_error_count = 0, urb_setup_packet = None,
     urb_iso_frame_desc = descs, su_hcpriv = False, su_complete = False, su_dev = False\<rparr>"

text \<open>\<open>put_urb i urb s\<close>: the URB of request \<open>i\<close> is now \<open>urb\<close>.\<close>

definition put_urb :: "nat \<Rightarrow> stub_urb \<Rightarrow> 'c stub_conn \<Rightarrow> 'c stub_conn" where
  "put_urb i urb s = s\<lparr>sdev := write_priv i (\<lambda>p. p\<lparr>sp_urb := Some urb\<rparr>) (sdev s)\<rparr>"

text \<open>The first half of \<open>stub_recv_cmd_submit\<close>: the request and the URB with its buffers are
  allocated and filled from the header.  The result is the address of the request and its URB,
  or \<open>None\<close> when an allocation failed.\<close>

definition setup_urb ::
  "('c, 'k) stub_kernel_scheme \<Rightarrow> usbip_header \<Rightarrow> u32 \<Rightarrow> 'c stub_conn \<Rightarrow>
     (nat \<times> stub_urb) option \<times> 'c stub_conn" where
  "setup_urb K pdu pipe s = (case stub_priv_alloc K pdu s of
     (None, s1) \<Rightarrow> (None, s1)
   | (Some i, s1) \<Rightarrow>
       let cs = cmd_submit (u pdu);
           (descs, c2) = usb_alloc_urb K (if usb_pipeisoc pipe then sint (cs_number_of_packets cs) else 0)
             (env s1);
           s2 = s1\<lparr>env := c2\<rparr> in
       (case descs of
          None \<Rightarrow> (None, usbip_event_add (kmalloc K) SDEV_EVENT_ERROR_MALLOC s2)
        | Some ds \<Rightarrow>
            let len = cs_transfer_buffer_length cs; urb0 = zero_stub_urb ds;
                (ok, c3) = (if sint len > 0 then kmalloc K (unat len) (env s2) else (True, env s2));
                s3 = put_urb i urb0 (s2\<lparr>env := c3\<rparr>) in
            if \<not> ok then (None, usbip_event_add (kmalloc K) SDEV_EVENT_ERROR_MALLOC s3)
            else let urb1 = (if sint len > 0
                       then urb0\<lparr>urb_transfer_buffer := Some (replicate (unat len) 0)\<rparr> else urb0);
                     (ok2, c4) = kmalloc K 8 (env s3);
                     s4 = put_urb i urb1 (s3\<lparr>env := c4\<rparr>) in
            if \<not> ok2 then (None, usbip_event_add (kmalloc K) SDEV_EVENT_ERROR_MALLOC s4)
            else let urb2 = urb1\<lparr>urb_setup_packet := Some (cs_setup cs), su_dev := True,
                       urb_pipe := pipe, su_complete := True\<rparr>;
                     urb3 = snd (usbip_pack_pdu pdu urb2 USBIP_CMD_SUBMIT False)
                 in (Some (i, urb3), put_urb i urb3 s4)))"

text \<open>The second half: the data of the URB is received and the URB submitted.\<close>

definition submit_urb ::
  "('c, 'k) stub_kernel_scheme \<Rightarrow> nat \<Rightarrow> stub_urb \<Rightarrow> 'c stub_conn \<Rightarrow> 'c stub_conn option" where
  "submit_urb K i urb s =
     do { (r1, urb1, s1) \<leftarrow> usbip_recv_xbuff K urb s;
          if r1 < 0 then Some (put_urb i urb1 s1)
          else do {
            (r2, urb2, s2) \<leftarrow> usbip_recv_iso K urb1 s1;
            if r2 < 0 then Some (put_urb i urb2 s2)
            else let dev = sd_udev (sdev s2);
                     c3 = tweak_special_requests K urb2 dev (env s2);
                     urb3 = masking_bogus_flags (udev K dev c3) urb2;
                     (ret, c4) = usb_submit_urb K i urb3 c3;
                     s4 = put_urb i urb3 (s2\<lparr>env := c4\<rparr>)
                 in if ret = 0 then Some s4
                    else Some (usbip_event_add (kmalloc K) SDEV_EVENT_ERROR_SUBMIT s4) } }"

definition stub_recv_cmd_submit ::
  "('c, 'k) stub_kernel_scheme \<Rightarrow> usbip_header \<Rightarrow> 'c stub_conn \<Rightarrow> 'c stub_conn option" where
  "stub_recv_cmd_submit K pdu s =
     (case get_pipe (udev K (sd_udev (sdev s)) (env s)) (b_ep (base pdu)) (b_direction (base pdu)) of
        None \<Rightarrow> None
      | Some pipe \<Rightarrow> (case setup_urb K pdu pipe s of
            (None, s1) \<Rightarrow> Some s1
          | (Some (i, urb), s1) \<Rightarrow> submit_urb K i urb s1))"

section \<open>The receive loop\<close>

text \<open>What follows once a header has arrived and been converted.\<close>

definition stub_handle_pdu ::
  "('c, 'k) stub_kernel_scheme \<Rightarrow> usbip_header \<Rightarrow> 'c stub_conn \<Rightarrow> 'c stub_conn option" where
  "stub_handle_pdu K pdu s =
     (if \<not> valid_request s pdu then Some (usbip_event_add (kmalloc K) SDEV_EVENT_ERROR_TCP s)
      else if b_command (base pdu) = USBIP_CMD_UNLINK
      then map_option snd (stub_recv_cmd_unlink K pdu s)
      else if b_command (base pdu) = USBIP_CMD_SUBMIT then stub_recv_cmd_submit K pdu s
      else Some (usbip_event_add (kmalloc K) SDEV_EVENT_ERROR_TCP s))"

definition stub_rx_pdu ::
  "('c, 'k) stub_kernel_scheme \<Rightarrow> 'c stub_conn \<Rightarrow> 'c stub_conn option" where
  "stub_rx_pdu K s =
     (let (ret, bs, c) = usbip_recv (trx_ops K) (ud s) True (int sizeof_usbip_header) (env s);
          s1 = s\<lparr>env := c\<rparr> in
      if ret \<noteq> int sizeof_usbip_header
      then Some (usbip_event_add (kmalloc K) SDEV_EVENT_ERROR_TCP s1)
      else stub_handle_pdu K
        (usbip_header_correct_endian (host_le K) (bytes_header (host_le K) bs) False) s1)"

fun stub_rx_loop ::
  "('c, 'k) stub_kernel_scheme \<Rightarrow> bool list \<Rightarrow> 'c stub_conn \<Rightarrow> 'c stub_conn option" where
  "stub_rx_loop K [] s = Some s"
| "stub_rx_loop K (stop # stops) s =
     (if stop then Some s
      else if usbip_event_happened (ud s) then Some s
      else stub_rx_pdu K s \<bind> stub_rx_loop K stops)"

end
