(* ===== verification/Stub_Account.thy ===== *)
theory Stub_Account
  imports Stub_Rx
begin

text \<open>
  The device side of a connection as a state machine: its receive thread, the completions of the
  USB core and the pieces of its transmit thread in any order.  The invariant is that the
  requests are on one list each, and that what the driver sent together with what it still has
  queued is exactly what the requests of the peer call for: every request gets one answer.
\<close>

section \<open>The invariant of the queues\<close>

definition stub_ok :: "stub_device \<Rightarrow> bool" where
  "stub_ok sd = (distinct (map sp_id (all_privs sd)) \<and>
     (\<forall>p\<in>set (all_privs sd). sp_id p < priv_next sd) \<and>
     (\<forall>p\<in>set (priv_tx sd @ priv_free sd). sp_urb p \<noteq> None \<and> \<not> sp_unlinking p))"

text \<open>The answers the driver owes its peer: command and sequence number of each.\<close>

type_synonym answer = "u32 \<times> u32"

definition owed_priv :: "stub_priv \<Rightarrow> answer" where
  "owed_priv p = (if sp_unlinking p then USBIP_RET_UNLINK else USBIP_RET_SUBMIT, ucast (sp_seqnum p))"

definition owed_unlink :: "stub_unlink \<Rightarrow> answer" where
  "owed_unlink ul = (USBIP_RET_UNLINK, ucast (sl_seqnum ul))"

definition owed :: "stub_device \<Rightarrow> answer multiset" where
  "owed sd = mset (map owed_priv (priv_init sd)) + mset (map owed_priv (priv_tx sd)) +
     mset (map owed_unlink (unlink_tx sd))"

lemma sdev_conn_step: "conn_step s s' \<Longrightarrow> sdev s' = sdev s" for s :: "'c stub_conn"
  by (cases s; cases s') (simp add: conn_step_def)

lemma sdev_event_add [simp]: "sdev (usbip_event_add ka ev s) = sdev s" for s :: "'c stub_conn"
  by (rule sdev_conn_step) simp

lemma write_priv_sel [simp]:
  "priv_next (write_priv i f sd) = priv_next sd" "unlink_tx (write_priv i f sd) = unlink_tx sd"
  "unlink_free (write_priv i f sd) = unlink_free sd" "devid (write_priv i f sd) = devid sd"
  "sd_udev (write_priv i f sd) = sd_udev sd"
  by (simp_all add: write_priv_def Let_def)

lemma del_priv_sel [simp]:
  "priv_next (del_priv i sd) = priv_next sd" "unlink_tx (del_priv i sd) = unlink_tx sd"
  "unlink_free (del_priv i sd) = unlink_free sd" "devid (del_priv i sd) = devid sd"
  "sd_udev (del_priv i sd) = sd_udev sd"
  by (simp_all add: del_priv_def Let_def)

lemma all_privs_write:
  "all_privs (write_priv i f sd) = map (\<lambda>p. if sp_id p = i then f p else p) (all_privs sd)"
  by (simp add: all_privs_def write_priv_def Let_def)

lemma all_privs_del: "all_privs (del_priv i sd) = filter (\<lambda>p. sp_id p \<noteq> i) (all_privs sd)"
  by (simp add: all_privs_def del_priv_def Let_def)

abbreviation (input) set_urb :: "stub_urb \<Rightarrow> stub_priv \<Rightarrow> stub_priv" where
  "set_urb urb \<equiv> \<lambda>p. p\<lparr>sp_urb := Some urb\<rparr>"

lemma map_sp_id_write [simp]:
  "map sp_id (map (\<lambda>p. if sp_id p = i then set_urb urb p else p) ps) = map sp_id ps"
  by (induction ps) auto

lemma map_owed_write [simp]:
  "map owed_priv (map (\<lambda>p. if sp_id p = i then set_urb urb p else p) ps) = map owed_priv ps"
  by (induction ps) (auto simp: owed_priv_def)

lemma owed_write [simp]: "owed (write_priv i (set_urb urb) sd) = owed sd"
  by (simp add: owed_def write_priv_def Let_def del: map_map mset_map)

lemma stub_ok_write: "stub_ok sd \<Longrightarrow> stub_ok (write_priv i (set_urb urb) sd)"
  unfolding stub_ok_def all_privs_write map_sp_id_write
  by (auto simp: write_priv_def Let_def)

lemma stub_ok_del: "stub_ok sd \<Longrightarrow> stub_ok (del_priv i sd)"
  unfolding stub_ok_def all_privs_del
  by (auto simp: del_priv_def Let_def distinct_map_filter)

lemma stub_ok_init_unique:
  assumes "stub_ok sd" "p \<in> set (priv_init sd)"
  shows "sp_id p \<notin> sp_id ` set (priv_tx sd)" "sp_id p \<notin> sp_id ` set (priv_free sd)"
    "find_priv (sp_id p) sd = Some p"
proof -
  have d: "distinct (map sp_id (all_privs sd))" and i: "p \<in> set (all_privs sd)"
    using assms by (simp_all add: stub_ok_def all_privs_def)
  then show "sp_id p \<notin> sp_id ` set (priv_tx sd)" "sp_id p \<notin> sp_id ` set (priv_free sd)"
    using assms(2) by (auto simp: all_privs_def)
  have "find (\<lambda>q. sp_id q = sp_id p) xs = Some p" if "distinct (map sp_id xs)" "p \<in> set xs" for xs
    using that by (induction xs) auto
  then show "find_priv (sp_id p) sd = Some p" using d i by (simp add: find_priv_def)
qed

lemma owed_del_init:
  assumes "stub_ok sd" "p \<in> set (priv_init sd)"
  shows "owed sd = add_mset (owed_priv p) (owed (del_priv (sp_id p) sd))"
proof -
  have "distinct (map sp_id (priv_init sd))" using assms(1) by (simp add: stub_ok_def all_privs_def)
  then have "mset (filter (\<lambda>q. sp_id q \<noteq> sp_id p) (priv_init sd)) = mset (priv_init sd) - {#p#}"
    using assms(2) by (rule mset_filter_key)
  then have "mset (priv_init sd) = add_mset p (mset (filter (\<lambda>q. sp_id q \<noteq> sp_id p) (priv_init sd)))"
    using assms(2) by simp
  then have "image_mset owed_priv (mset (priv_init sd)) = add_mset (owed_priv p)
      (image_mset owed_priv (mset (filter (\<lambda>q. sp_id q \<noteq> sp_id p) (priv_init sd))))"
    by (metis image_mset_add_mset)
  then show ?thesis
    by (simp add: owed_def del_priv_def Let_def filter_absent [OF stub_ok_init_unique(1) [OF assms]])
qed

section \<open>Completion keeps the account\<close>

lemma VDEV_EVENT_ERROR_MALLOC_nz [simp]: "VDEV_EVENT_ERROR_MALLOC \<noteq> 0"
  "SDEV_EVENT_ERROR_MALLOC \<noteq> 0" "SDEV_EVENT_ERROR_TCP \<noteq> 0" "SDEV_EVENT_ERROR_SUBMIT \<noteq> 0"
  by (simp_all add: event_defs)

lemma enqueue_ret_unlink_cases:
  obtains "event (ud (stub_enqueue_ret_unlink K n st s)) \<noteq> 0"
      "sdev (stub_enqueue_ret_unlink K n st s) = sdev s"
  | "ud (stub_enqueue_ret_unlink K n st s) = ud s"
      "sdev (stub_enqueue_ret_unlink K n st s) = (sdev s)\<lparr>unlink_tx := unlink_tx (sdev s) @
         [\<lparr>sl_seqnum = ucast n, sl_status = st\<rparr>]\<rparr>"
proof -
  obtain ok c where m: "kmalloc K sizeof_stub_unlink (env s) = (ok, c)" by fastforce
  show thesis
  proof (cases ok)
    case True
    then show thesis using m by (intro that(2)) (simp_all add: stub_enqueue_ret_unlink_def)
  next
    case False
    then show thesis using m
      by (intro that(1)) (simp_all add: stub_enqueue_ret_unlink_def usbip_event_add_nonzero)
  qed
qed

lemma owed_unlink_append:
  "owed (sd\<lparr>unlink_tx := unlink_tx sd @ [ul]\<rparr>) = add_mset (owed_unlink ul) (owed sd)"
  by (simp add: owed_def)

lemma stub_ok_unlink [simp]: "stub_ok (sd\<lparr>unlink_tx := x\<rparr>) = stub_ok sd"
  by (simp add: stub_ok_def all_privs_def)

lemma stub_complete_account:
  assumes ok: "stub_ok (sdev s)" and p: "p \<in> set (priv_init (sdev s))"
    and step: "stub_complete K (sp_id p) urb s = Some s'"
  shows "stub_ok (sdev s') \<and> (event (ud s') = 0 \<longrightarrow> event (ud s) = 0 \<and> owed (sdev s') = owed (sdev s))"
proof -
  let ?s1 = "s\<lparr>sdev := write_priv (sp_id p) (set_urb urb) (sdev s)\<rparr>"
  let ?p = "set_urb urb p"
  have f: "find_priv (sp_id p) (sdev s) = Some p" by (rule stub_ok_init_unique(3) [OF ok p])
  have ok1: "stub_ok (sdev ?s1)" using stub_ok_write [OF ok] by simp
  have p1: "?p \<in> set (priv_init (sdev ?s1))"
    using p by (auto simp: write_priv_def Let_def intro!: image_eqI [of _ _ p])
  have o1: "owed (sdev ?s1) = owed (sdev s)" by simp
  have od: "owed (sdev s) = add_mset (owed_priv ?p) (owed (del_priv (sp_id p) (sdev ?s1)))"
    using owed_del_init [OF ok1 p1] by (simp add: o1)
  consider (skip) "s' = ?s1"
    | (unlink) "sp_unlinking p" "\<exists>s2. s2 = stub_enqueue_ret_unlink K (ucast (sp_seqnum p))
          (word_of_int (urb_status urb)) ?s1 \<and> s' = s2\<lparr>sdev := del_priv (sp_id p) (sdev s2)\<rparr>"
    | (fin) "\<not> sp_unlinking p" "s' = ?s1\<lparr>sdev := (del_priv (sp_id p) (sdev ?s1))
          \<lparr>priv_tx := priv_tx (del_priv (sp_id p) (sdev ?s1)) @ [?p]\<rparr>\<rparr>"
    using step f
    by (auto simp: stub_complete_def Let_def stub_free_priv_and_urb_def split: if_splits)
  then show ?thesis
  proof cases
    case skip
    then show ?thesis using ok1 o1 by simp
  next
    case unlink
    let ?n = "ucast (sp_seqnum p) :: u32" and ?st = "word_of_int (urb_status urb) :: u32"
    from unlink(2) have s': "s' = (stub_enqueue_ret_unlink K ?n ?st ?s1)\<lparr>sdev :=
        del_priv (sp_id p) (sdev (stub_enqueue_ret_unlink K ?n ?st ?s1))\<rparr>" by simp
    show ?thesis
    proof (cases rule: enqueue_ret_unlink_cases [of K ?n ?st ?s1])
      case 1
      then show ?thesis using s' stub_ok_del [OF ok1] by simp
    next
      case 2
      let ?ul = "\<lparr>sl_seqnum = ucast ?n, sl_status = ?st\<rparr>"
      have "sdev s' = (del_priv (sp_id p) (sdev ?s1))\<lparr>unlink_tx :=
          unlink_tx (del_priv (sp_id p) (sdev ?s1)) @ [?ul]\<rparr>"
        using s' 2 by (simp add: del_priv_def Let_def)
      moreover have "owed_priv ?p = owed_unlink ?ul"
        using unlink(1) by (simp add: owed_priv_def owed_unlink_def)
      moreover have "ud s' = ud s" using s' 2 by simp
      ultimately show ?thesis
        using od stub_ok_del [OF ok1] by (simp only: owed_unlink_append stub_ok_unlink) simp
    qed
  next
    case fin
    let ?d = "del_priv (sp_id p) (sdev ?s1)"
    have ud: "ud s' = ud s" and sd: "sdev s' = ?d\<lparr>priv_tx := priv_tx ?d @ [?p]\<rparr>" using fin by simp_all
    have d: "stub_ok ?d" by (rule stub_ok_del [OF ok1])
    have "sp_id p < priv_next (sdev s)" using ok p by (simp add: stub_ok_def all_privs_def)
    moreover have "sp_id p \<notin> sp_id ` set (all_privs ?d)" by (auto simp: all_privs_del)
    ultimately have "stub_ok (sdev s')"
      using d fin(1) unfolding sd stub_ok_def all_privs_def by (auto simp: all_privs_def)
    moreover have "owed (sdev s') = owed (sdev s)"
      unfolding od sd by (simp add: owed_def)
    ultimately show ?thesis using ud by simp
  qed
qed

section \<open>Receiving keeps the account\<close>

lemma mark_unlinking_None:
  "mark_unlinking t n ps = None \<longleftrightarrow> find (\<lambda>p. sp_seqnum p = t) ps = None"
  by (induction ps) (auto simp: Let_def)

lemma mark_unlinking_Some:
  "mark_unlinking t n ps = Some (q, qs) \<Longrightarrow>
   \<exists>p. find (\<lambda>p. sp_seqnum p = t) ps = Some p \<and> q = p\<lparr>sp_unlinking := True, sp_seqnum := n\<rparr> \<and>
     map sp_id qs = map sp_id ps \<and> p \<in> set ps \<and>
     add_mset (owed_priv p) (mset (map owed_priv qs)) = add_mset (owed_priv q) (mset (map owed_priv ps))"
proof (induction ps arbitrary: qs)
  case (Cons a ps)
  show ?case
  proof (cases "sp_seqnum a = t")
    case True
    then show ?thesis using Cons.prems by (auto simp: Let_def add_mset_commute)
  next
    case False
    with Cons.prems obtain qs' where "mark_unlinking t n ps = Some (q, qs')" "qs = a # qs'" by auto
    from Cons.IH [OF this(1)] this(2) False show ?thesis by (auto simp: add_mset_commute)
  qed
qed simp

text \<open>Steps that keep the invariant and the account, and clear no event.\<close>

definition quiet :: "'c stub_conn \<Rightarrow> 'c stub_conn \<Rightarrow> bool" where
  "quiet s s' = ((stub_ok (sdev s) \<longrightarrow> stub_ok (sdev s')) \<and> owed (sdev s') = owed (sdev s) \<and>
     (event (ud s') = 0 \<longrightarrow> event (ud s) = 0))"

lemma quiet_refl [simp]: "quiet s s"
  by (simp add: quiet_def)

lemma quiet_trans: "quiet s s' \<Longrightarrow> quiet s' s'' \<Longrightarrow> quiet s s''"
  by (simp add: quiet_def)

lemma quiet_conn_step: "conn_step s s' \<Longrightarrow> quiet s s'"
  using sdev_conn_step [of s s'] by (auto simp: quiet_def conn_step_def)

lemma quiet_put_urb: "quiet s (put_urb i urb s)"
  by (simp add: quiet_def put_urb_def stub_ok_write)

lemma quiet_env: "quiet s s' \<Longrightarrow> quiet s (s'\<lparr>env := c\<rparr>)"
  by (simp add: quiet_def)

lemma quiet_put: "quiet s s' \<Longrightarrow> quiet s (put_urb i urb s')"
  using quiet_trans [OF _ quiet_put_urb] .

lemma quiet_add: "quiet s s' \<Longrightarrow> quiet s (usbip_event_add ka ev s')"
  using quiet_trans [OF _ quiet_conn_step [OF conn_step_event_add]] .

lemma submit_urb_quiet:
  assumes "submit_urb K i urb s = Some s'" shows "quiet s s'"
proof -
  obtain r1 urb1 s1 where x: "usbip_recv_xbuff K urb s = Some (r1, urb1, s1)"
    using assms by (auto simp: submit_urb_def bind_eq_Some_conv)
  have q1: "quiet s s1" by (rule quiet_conn_step [OF usbip_recv_xbuff_conn_step [OF x]])
  show ?thesis
  proof (cases "r1 < 0")
    case True
    then show ?thesis using assms x q1 by (auto simp: submit_urb_def intro: quiet_put)
  next
    case False
    then obtain r2 urb2 s2 where y: "usbip_recv_iso K urb1 s1 = Some (r2, urb2, s2)"
      using assms x by (auto simp: submit_urb_def bind_eq_Some_conv)
    have q2: "quiet s s2"
      by (rule quiet_trans [OF q1 quiet_conn_step [OF usbip_recv_iso_conn_step [OF y]]])
    show ?thesis
      using assms x y False q2
      by (auto simp: submit_urb_def Let_def split: if_splits prod.splits
          intro!: quiet_add quiet_put quiet_env)
  qed
qed

lemma ud_put_urb [simp]: "ud (put_urb i urb s) = ud s"
  by (simp add: put_urb_def)

lemma stub_priv_alloc_cases:
  assumes "stub_priv_alloc K pdu s = (r, s1)" "stub_ok (sdev s)"
  obtains "r = None" "event (ud s1) \<noteq> 0" "sdev s1 = sdev s"
  | i where "r = Some i" "ud s1 = ud s" "stub_ok (sdev s1)"
      "owed (sdev s1) = add_mset (USBIP_RET_SUBMIT, b_seqnum (base pdu)) (owed (sdev s))"
proof -
  obtain ok c where m: "kmalloc K sizeof_stub_priv (env s) = (ok, c)" by fastforce
  show thesis
  proof (cases ok)
    case False
    then show thesis using m assms(1)
      by (intro that(1)) (auto simp: stub_priv_alloc_def Let_def usbip_event_add_nonzero)
  next
    case True
    let ?p = "\<lparr>sp_id = priv_next (sdev s), sp_seqnum = ucast (b_seqnum (base pdu)), sp_urb = None,
        sp_unlinking = False\<rparr>"
    have s1: "s1 = s\<lparr>env := c, sdev := (sdev s)\<lparr>priv_init := priv_init (sdev s) @ [?p],
        priv_next := Suc (priv_next (sdev s))\<rparr>\<rparr>"
      and r: "r = Some (priv_next (sdev s))"
      using m True assms(1) by (auto simp: stub_priv_alloc_def Let_def)
    have "stub_ok (sdev s1)"
      using assms(2) unfolding s1 stub_ok_def all_privs_def
      by (auto simp: less_Suc_eq image_iff)
    then show thesis using r s1 by (intro that(2)) (auto simp: owed_def owed_priv_def)
  qed
qed

lemma setup_urb_cases:
  assumes "setup_urb K pdu pipe s = (r, s1)" "stub_ok (sdev s)"
  obtains "r = None" "event (ud s1) \<noteq> 0" "stub_ok (sdev s1)"
  | x where "r = Some x" "ud s1 = ud s" "stub_ok (sdev s1)"
      "owed (sdev s1) = add_mset (USBIP_RET_SUBMIT, b_seqnum (base pdu)) (owed (sdev s))"
proof -
  obtain q s2 where a: "stub_priv_alloc K pdu s = (q, s2)" by fastforce
  from a assms(2) show thesis
  proof (cases rule: stub_priv_alloc_cases)
    case 1
    then show thesis using that(1) assms a by (simp add: setup_urb_def)
  next
    case (2 i)
    note body = assms(1) [unfolded setup_urb_def a 2(1), simplified, unfolded Let_def]
    have "quiet s2 s1"
      using body by (auto intro!: quiet_add quiet_put quiet_env split: prod.splits option.splits if_splits)
    moreover have "r = None \<Longrightarrow> event (ud s1) \<noteq> 0"
      using body by (auto simp: usbip_event_add_nonzero split: prod.splits option.splits if_splits)
    moreover have "r \<noteq> None \<Longrightarrow> ud s1 = ud s2"
      using body by (auto split: prod.splits option.splits if_splits)
    ultimately show thesis using 2 that by (cases r) (auto simp: quiet_def)
  qed
qed

text \<open>The answers a request calls for: what is in \<open>X\<close> already, changed by header \<open>pdu\<close>.\<close>

definition answers_after :: "usbip_header \<Rightarrow> 'c stub_conn \<Rightarrow> answer multiset \<Rightarrow> answer multiset" where
  "answers_after pdu s X =
     (if \<not> valid_request s pdu then X
      else if b_command (base pdu) = USBIP_CMD_UNLINK then
        add_mset (USBIP_RET_UNLINK, b_seqnum (base pdu))
          (case find (\<lambda>p. sp_seqnum p = ucast (cu_seqnum (cmd_unlink (u pdu)))) (priv_init (sdev s)) of
             None \<Rightarrow> X | Some p \<Rightarrow> X - {#owed_priv p#})
      else if b_command (base pdu) = USBIP_CMD_SUBMIT
      then add_mset (USBIP_RET_SUBMIT, b_seqnum (base pdu)) X
      else X)"

lemma recv_cmd_submit_account:
  assumes "stub_ok (sdev s)" "stub_recv_cmd_submit K pdu s = Some s'"
  shows "stub_ok (sdev s') \<and> (event (ud s') = 0 \<longrightarrow> event (ud s) = 0 \<and>
    owed (sdev s') = add_mset (USBIP_RET_SUBMIT, b_seqnum (base pdu)) (owed (sdev s)))"
proof -
  obtain pipe r s1 where su: "setup_urb K pdu pipe s = (r, s1)"
    and s': "case r of None \<Rightarrow> s' = s1 | Some (i, urb) \<Rightarrow> submit_urb K i urb s1 = Some s'"
    using assms(2) by (auto simp: stub_recv_cmd_submit_def split: option.splits prod.splits)
  from su assms(1) show ?thesis
  proof (cases rule: setup_urb_cases)
    case 1
    then show ?thesis using s' by simp
  next
    case (2 x)
    then obtain i urb where "submit_urb K i urb s1 = Some s'" using s' by (cases x) auto
    from submit_urb_quiet [OF this] 2 show ?thesis by (simp add: quiet_def)
  qed
qed

lemma recv_cmd_unlink_account:
  assumes ok: "stub_ok (sdev s)" and step: "stub_recv_cmd_unlink K pdu s = Some (r, s')"
  shows "stub_ok (sdev s') \<and> (event (ud s') = 0 \<longrightarrow> event (ud s) = 0 \<and>
    owed (sdev s') = add_mset (USBIP_RET_UNLINK, b_seqnum (base pdu))
      (case find (\<lambda>p. sp_seqnum p = ucast (cu_seqnum (cmd_unlink (u pdu)))) (priv_init (sdev s)) of
         None \<Rightarrow> owed (sdev s) | Some p \<Rightarrow> owed (sdev s) - {#owed_priv p#}))"
proof (cases "mark_unlinking (ucast (cu_seqnum (cmd_unlink (u pdu)))) (ucast (b_seqnum (base pdu)))
    (priv_init (sdev s))")
  case None
  then have s': "s' = stub_enqueue_ret_unlink K (b_seqnum (base pdu)) 0 s"
    using step by (simp add: stub_recv_cmd_unlink_def)
  show ?thesis
    by (cases rule: enqueue_ret_unlink_cases [of K "b_seqnum (base pdu)" 0 s])
       (use None ok in \<open>simp_all add: s' mark_unlinking_None owed_unlink_append owed_unlink_def\<close>)
next
  case (Some x)
  obtain q qs where x: "x = (q, qs)" by fastforce
  from mark_unlinking_Some [OF Some [unfolded x]] obtain p where
    p: "find (\<lambda>p. sp_seqnum p = ucast (cu_seqnum (cmd_unlink (u pdu)))) (priv_init (sdev s)) = Some p"
    "q = p\<lparr>sp_unlinking := True, sp_seqnum := ucast (b_seqnum (base pdu))\<rparr>"
    "map sp_id qs = map sp_id (priv_init (sdev s))" "p \<in> set (priv_init (sdev s))"
    "add_mset (owed_priv p) (mset (map owed_priv qs)) =
       add_mset (owed_priv q) (mset (map owed_priv (priv_init (sdev s))))" by blast
  have s': "sdev s' = (sdev s)\<lparr>priv_init := qs\<rparr>" "ud s' = ud s"
    using step Some x by (auto simp: stub_recv_cmd_unlink_def Let_def split: option.splits if_splits
        prod.splits)
  have ids: "map sp_id (all_privs (sdev s')) = map sp_id (all_privs (sdev s))"
    using p(3) by (simp add: s' all_privs_def)
  then have "sp_id ` set (all_privs (sdev s')) = sp_id ` set (all_privs (sdev s))"
    by (metis list.set_map)
  moreover have "\<forall>i\<in>sp_id ` set (all_privs (sdev s)). i < priv_next (sdev s')"
    using ok by (simp add: stub_ok_def s')
  ultimately have "\<forall>p\<in>set (all_privs (sdev s')). sp_id p < priv_next (sdev s')" by blast
  then have "stub_ok (sdev s')"
    using ok ids by (simp only: stub_ok_def) (simp add: s')
  moreover have "mset (map owed_priv qs) = add_mset (owed_priv q)
      (mset (map owed_priv (priv_init (sdev s))) - {#owed_priv p#})"
  proof -
    let ?M = "mset (map owed_priv (priv_init (sdev s)))"
    have "owed_priv p \<in># ?M" using p(4) by simp
    from insert_DiffM [OF this] p(5) have "add_mset (owed_priv p) (mset (map owed_priv qs)) =
        add_mset (owed_priv p) (add_mset (owed_priv q) (?M - {#owed_priv p#}))"
      by (simp only: add_mset_commute [of "owed_priv p"])
    then show ?thesis by simp
  qed
  moreover have "owed_priv q = (USBIP_RET_UNLINK, b_seqnum (base pdu))"
    by (simp add: p(2) owed_priv_def)
  moreover have "owed_priv p \<in># mset (map owed_priv (priv_init (sdev s)))" using p(4) by simp
  ultimately show ?thesis using p(1) by (simp add: s' owed_def)
qed

lemma handle_pdu_account:
  assumes "stub_ok (sdev s)" "stub_handle_pdu K pdu s = Some s'"
  shows "stub_ok (sdev s') \<and> (event (ud s') = 0 \<longrightarrow> event (ud s) = 0 \<and>
    owed (sdev s') = answers_after pdu s (owed (sdev s)))"
  using assms recv_cmd_submit_account [OF assms(1), of K pdu s']
    recv_cmd_unlink_account [OF assms(1), of K pdu _ s']
  by (auto simp: stub_handle_pdu_def answers_after_def usbip_event_add_nonzero split: if_splits)

section \<open>Sending keeps the account\<close>

lemma stub_ok_unlink_free [simp]: "stub_ok (sd\<lparr>unlink_free := x\<rparr>) = stub_ok sd"
  by (simp add: stub_ok_def all_privs_def)

lemma stub_ok_free_sent:
  assumes "stub_ok sd" "free_sent sd = Some sd'"
  shows "stub_ok sd' \<and> owed sd' = owed sd"
proof -
  have "sd' = sd\<lparr>priv_free := []\<rparr>" using assms(2) by (simp add: free_sent_def split: if_splits)
  then show ?thesis using assms(1) by (simp add: stub_ok_def all_privs_def owed_def) blast
qed

lemma fail_tx_event: "ev \<noteq> 0 \<Longrightarrow> fail_tx K ev s = Some (r, s') \<Longrightarrow> r = -1 \<and> event (ud s') \<noteq> 0"
  by (auto simp: fail_tx_def usbip_event_add_nonzero)

lemma stub_send_one_conn_step:
  assumes "stub_send_one K p s = Some (r, s')"
  shows "conn_step s s' \<and> (r < 0 \<longrightarrow> event (ud s') \<noteq> 0)"
proof -
  have f: "conn_step s s'" if "fail_tx K ev (s\<lparr>env := c\<rparr>) = Some (r, s')" for ev c r s'
    using that by (auto simp: fail_tx_def)
  have f': "conn_step s s'" if "fail_tx K ev s = Some (r, s')" for ev r s'
    using that by (auto simp: fail_tx_def)
  show ?thesis
    using assms
    by (auto simp: stub_send_one_def Let_def dest: f f' fail_tx_event [rotated]
        split: option.splits prod.splits if_splits)
qed

lemma stub_send_unlink_one_conn_step:
  assumes "stub_send_unlink_one K ul s = (r, s')"
  shows "conn_step s s' \<and> (r < 0 \<longrightarrow> event (ud s') \<noteq> 0)"
  using assms by (auto simp: stub_send_unlink_one_def Let_def usbip_event_add_nonzero
      split: prod.splits if_splits)

lemma dequeue_priv_account:
  assumes "dequeue_from_priv_tx sd = Some (p, sd')" "stub_ok sd"
  shows "stub_ok sd' \<and> owed sd = add_mset (USBIP_RET_SUBMIT, ucast (sp_seqnum p)) (owed sd') \<and>
    sp_urb p \<noteq> None"
proof -
  obtain ps where t: "priv_tx sd = p # ps"
    and sd': "sd' = sd\<lparr>priv_tx := ps, priv_free := priv_free sd @ [p]\<rparr>"
    using assms(1) by (auto simp: dequeue_from_priv_tx_def split: list.splits)
  have np: "\<not> sp_unlinking p" "sp_urb p \<noteq> None" using assms(2) t by (simp_all add: stub_ok_def)
  have "mset (all_privs sd') = mset (all_privs sd)" by (simp add: all_privs_def sd' t)
  then have "mset (map sp_id (all_privs sd')) = mset (map sp_id (all_privs sd))"
    "set (all_privs sd') = set (all_privs sd)"
    by (simp, metis set_mset_mset)
  moreover have "distinct (map sp_id (all_privs sd'))"
    using assms(2) mset_eq_imp_distinct_iff [OF calculation(1)] by (simp add: stub_ok_def)
  ultimately have "stub_ok sd'"
    using assms(2) t unfolding stub_ok_def by (auto simp: sd')
  then show ?thesis using np by (simp add: owed_def sd' t owed_priv_def)
qed

lemma dequeue_unlink_account:
  assumes "dequeue_from_unlink_tx sd = Some (ul, sd')" "stub_ok sd"
  shows "stub_ok sd' \<and> owed sd = add_mset (owed_unlink ul) (owed sd')"
proof -
  obtain uls where t: "unlink_tx sd = ul # uls"
    and sd': "sd' = sd\<lparr>unlink_tx := uls, unlink_free := unlink_free sd @ [ul]\<rparr>"
    using assms(1) by (auto simp: dequeue_from_unlink_tx_def split: list.splits)
  show ?thesis using assms(2) by (simp add: sd' owed_def t)
qed

section \<open>The state machine of a connection\<close>

text \<open>The request of the peer that the next call of \<open>stub_rx_pdu\<close> reads.\<close>

definition received :: "('c, 'k) stub_kernel_scheme \<Rightarrow> 'c stub_conn \<Rightarrow> usbip_header option" where
  "received K s =
     (let (ret, bs, c) = usbip_recv (trx_ops K) (ud s) True (int sizeof_usbip_header) (env s) in
      if ret \<noteq> int sizeof_usbip_header then None
      else Some (usbip_header_correct_endian (host_le K) (bytes_header (host_le K) bs) False))"

text \<open>A state is the connection, the answers the requests received so far call for, and the
  answers sent.  The two threads, the USB core and the rest of the kernel take turns; the
  transmit thread can be interrupted between any two of its messages.\<close>

type_synonym 'c stub_run = "'c stub_conn \<times> answer multiset \<times> answer multiset"

inductive stub_step :: "('c, 'k) stub_kernel_scheme \<Rightarrow> 'c stub_run \<Rightarrow> 'c stub_run \<Rightarrow> bool"
  for K :: "('c, 'k) stub_kernel_scheme" where
  rx: "\<not> usbip_event_happened (ud s) \<Longrightarrow> stub_rx_pdu K s = Some s' \<Longrightarrow>
       stub_step K (s, X, Y)
         (s', case received K s of None \<Rightarrow> X | Some pdu \<Rightarrow> answers_after pdu s X, Y)"
| complete: "p \<in> set (priv_init (sdev s)) \<Longrightarrow> stub_complete K (sp_id p) urb s = Some s' \<Longrightarrow>
       stub_step K (s, X, Y) (s', X, Y)"
| tx_submit: "dequeue_from_priv_tx (sdev s) = Some (p, sd) \<Longrightarrow>
       stub_send_one K p (s\<lparr>sdev := sd\<rparr>) = Some (r, s') \<Longrightarrow>
       stub_step K (s, X, Y)
         (s', X, if r < 0 then Y else add_mset (USBIP_RET_SUBMIT, ucast (sp_seqnum p)) Y)"
| tx_free: "free_sent (sdev s) = Some sd \<Longrightarrow> stub_step K (s, X, Y) (s\<lparr>sdev := sd\<rparr>, X, Y)"
| tx_unlink: "dequeue_from_unlink_tx (sdev s) = Some (ul, sd) \<Longrightarrow>
       stub_send_unlink_one K ul (s\<lparr>sdev := sd\<rparr>) = (r, s') \<Longrightarrow>
       stub_step K (s, X, Y) (s', X, if r < 0 then Y else add_mset (owed_unlink ul) Y)"
| tx_unlink_free: "stub_step K (s, X, Y) (s\<lparr>sdev := (sdev s)\<lparr>unlink_free := []\<rparr>\<rparr>, X, Y)"
| raise: "ev \<noteq> 0 \<Longrightarrow> stub_step K (s, X, Y) (usbip_event_add (kmalloc K) ev s, X, Y)"
| kernel: "stub_step K (s, X, Y) (s\<lparr>env := c\<rparr>, X, Y)"

text \<open>The loops of the transmit thread are runs of the machine.\<close>

lemma send_submit_loop_steps:
  "stub_send_submit_loop K tot s = Some (r, s') \<Longrightarrow> \<exists>Y'. (stub_step K)\<^sup>*\<^sup>* (s, X, Y) (s', X, Y')"
proof (induction K tot s arbitrary: Y rule: stub_send_submit_loop.induct)
  case (1 K tot s)
  show ?case
  proof (cases "dequeue_from_priv_tx (sdev s)")
    case None
    then obtain sd where "free_sent (sdev s) = Some sd" "s' = s\<lparr>sdev := sd\<rparr>"
      using "1.prems" by (subst (asm) stub_send_submit_loop.simps) auto
    then show ?thesis using stub_step.tx_free [of s sd K X Y] by blast
  next
    case (Some x)
    then obtain p sd r1 s1 where d: "dequeue_from_priv_tx (sdev s) = Some (p, sd)" "x = (p, sd)"
      and o: "stub_send_one K p (s\<lparr>sdev := sd\<rparr>) = Some (r1, s1)"
      using "1.prems" by (cases x) (subst (asm) stub_send_submit_loop.simps, auto split: option.splits)
    note st = stub_step.tx_submit [OF d(1) o, of X Y]
    show ?thesis
    proof (cases "r1 < 0")
      case True
      then have "s' = s1" using "1.prems" d o by (subst (asm) stub_send_submit_loop.simps) simp
      then show ?thesis using st by blast
    next
      case False
      then have "stub_send_submit_loop K (tot + nat r1) s1 = Some (r, s')"
        using "1.prems" d o by (subst (asm) stub_send_submit_loop.simps) simp
      from "1.IH" [OF d(1) refl o refl False this] st show ?thesis
        by (meson converse_rtranclp_into_rtranclp)
    qed
  qed
qed

lemma send_unlink_loop_steps:
  "stub_send_unlink_loop K tot s = (r, s') \<Longrightarrow> \<exists>Y'. (stub_step K)\<^sup>*\<^sup>* (s, X, Y) (s', X, Y')"
proof (induction K tot s arbitrary: Y rule: stub_send_unlink_loop.induct)
  case (1 K tot s)
  show ?case
  proof (cases "dequeue_from_unlink_tx (sdev s)")
    case None
    then have "s' = s\<lparr>sdev := (sdev s)\<lparr>unlink_free := []\<rparr>\<rparr>"
      using "1.prems" by (subst (asm) stub_send_unlink_loop.simps) auto
    then show ?thesis using stub_step.tx_unlink_free [of K s X Y] by blast
  next
    case (Some x)
    then obtain ul sd where d: "dequeue_from_unlink_tx (sdev s) = Some (ul, sd)" by (cases x) auto
    obtain r1 s1 where o: "stub_send_unlink_one K ul (s\<lparr>sdev := sd\<rparr>) = (r1, s1)" by fastforce
    note st = stub_step.tx_unlink [OF d o, of X Y]
    show ?thesis
    proof (cases "r1 < 0")
      case True
      then have "s' = s1" using "1.prems" d o by (subst (asm) stub_send_unlink_loop.simps) simp
      then show ?thesis using st by blast
    next
      case False
      then have "stub_send_unlink_loop K (tot + nat r1) s1 = (r, s')"
        using "1.prems" d o by (subst (asm) stub_send_unlink_loop.simps) simp
      from "1.IH" [OF d refl o [symmetric] refl False this] st show ?thesis
        by (meson converse_rtranclp_into_rtranclp)
    qed
  qed
qed

section \<open>The account balances\<close>

definition stub_inv :: "'c stub_run \<Rightarrow> bool" where
  "stub_inv x = (case x of (s, X, Y) \<Rightarrow>
     stub_ok (sdev s) \<and> (event (ud s) = 0 \<longrightarrow> X = Y + owed (sdev s)))"

lemma answers_after_env [simp]: "answers_after pdu (s\<lparr>env := c\<rparr>) X = answers_after pdu s X"
  by (simp add: answers_after_def valid_request_def)

lemma answers_after_add:
  "answers_after pdu s (Y + owed (sdev s)) = Y + answers_after pdu s (owed (sdev s))"
proof -
  have "owed_priv p \<in># owed (sdev s)" if "find P (priv_init (sdev s)) = Some p" for p P
    using that by (auto simp: owed_def find_Some_iff)
  then show ?thesis by (auto simp: answers_after_def split: option.split)
qed

lemma stub_rx_pdu_account:
  assumes "stub_ok (sdev s)" "stub_rx_pdu K s = Some s'"
  shows "stub_ok (sdev s') \<and> (event (ud s') = 0 \<longrightarrow> event (ud s) = 0 \<and>
    owed (sdev s') = (case received K s of None \<Rightarrow> owed (sdev s)
      | Some pdu \<Rightarrow> answers_after pdu s (owed (sdev s))))"
proof -
  obtain ret bs c where r:
    "usbip_recv (trx_ops K) (ud s) True (int sizeof_usbip_header) (env s) = (ret, bs, c)"
    using prod_cases3 by blast
  show ?thesis
  proof (cases "ret = int sizeof_usbip_header")
    case False
    then show ?thesis using assms r
      by (auto simp: stub_rx_pdu_def Let_def usbip_event_add_nonzero)
  next
    case True
    then show ?thesis using assms r
        handle_pdu_account [of "s\<lparr>env := c\<rparr>" K
          "usbip_header_correct_endian (host_le K) (bytes_header (host_le K) bs) False" s']
      by (simp add: stub_rx_pdu_def received_def Let_def)
  qed
qed

lemma stub_step_inv: "stub_step K x y \<Longrightarrow> stub_inv x \<Longrightarrow> stub_inv y"
proof (induction rule: stub_step.induct)
  case (rx s s' X Y)
  then show ?case using stub_rx_pdu_account [of s K s']
    by (auto simp: stub_inv_def answers_after_add split: option.splits)
next
  case (complete p s urb s' X Y)
  then show ?case using stub_complete_account [of s p K urb s'] by (auto simp: stub_inv_def)
next
  case (tx_submit s p sd r s' X Y)
  have a: "stub_ok sd \<and> owed (sdev s) = add_mset (USBIP_RET_SUBMIT, ucast (sp_seqnum p)) (owed sd)"
    using dequeue_priv_account [OF tx_submit(1)] tx_submit.prems by (simp add: stub_inv_def)
  have b: "conn_step (s\<lparr>sdev := sd\<rparr>) s' \<and> (r < 0 \<longrightarrow> event (ud s') \<noteq> 0)"
    by (rule stub_send_one_conn_step [OF tx_submit(2)])
  have "sdev s' = sd" "event (ud s') = 0 \<Longrightarrow> event (ud s) = 0"
    using sdev_conn_step [OF b [THEN conjunct1]] conn_step_ud(9) [OF b [THEN conjunct1]] by simp_all
  then show ?case using a b tx_submit.prems by (auto simp: stub_inv_def)
next
  case (tx_free s sd X Y)
  then show ?case using stub_ok_free_sent [of "sdev s" sd] by (simp add: stub_inv_def)
next
  case (tx_unlink s ul sd r s' X Y)
  have a: "stub_ok sd \<and> owed (sdev s) = add_mset (owed_unlink ul) (owed sd)"
    using dequeue_unlink_account [OF tx_unlink(1)] tx_unlink.prems by (simp add: stub_inv_def)
  have b: "conn_step (s\<lparr>sdev := sd\<rparr>) s' \<and> (r < 0 \<longrightarrow> event (ud s') \<noteq> 0)"
    by (rule stub_send_unlink_one_conn_step [OF tx_unlink(2)])
  have "sdev s' = sd" "event (ud s') = 0 \<Longrightarrow> event (ud s) = 0"
    using sdev_conn_step [OF b [THEN conjunct1]] conn_step_ud(9) [OF b [THEN conjunct1]] by simp_all
  then show ?case using a b tx_unlink.prems by (auto simp: stub_inv_def)
next
  case (raise ev s X Y)
  then show ?case by (simp add: stub_inv_def usbip_event_add_nonzero)
qed (simp_all add: stub_inv_def owed_def)

definition queues_empty :: "stub_device \<Rightarrow> bool" where
  "queues_empty sd = (priv_init sd = [] \<and> priv_tx sd = [] \<and> priv_free sd = [] \<and>
     unlink_tx sd = [] \<and> unlink_free sd = [])"

lemma stub_reach_inv:
  assumes "(stub_step K)\<^sup>*\<^sup>* x y" "stub_inv x" shows "stub_inv y"
  using assms by (induction rule: rtranclp_induct) (auto intro: stub_step_inv)

text \<open>C2: every request gets exactly one answer.  However the receive thread, the completions of the
  USB core and the pieces of the transmit thread interleave, as long as no error event is raised
  the answers sent together with those still queued are, counted with multiplicity, exactly the
  answers the requests received so far call for: one \<open>RET_SUBMIT\<close> for a submission that was not
  unlinked in time, one \<open>RET_UNLINK\<close> for an unlink request.\<close>

theorem stub_answers_once:
  assumes "(stub_step K)\<^sup>*\<^sup>* (s0, {#}, {#}) (s, X, Y)" "queues_empty (sdev s0)"
  shows "stub_ok (sdev s) \<and> (event (ud s) = 0 \<longrightarrow> X = Y + owed (sdev s))"
proof -
  have "stub_inv (s0, {#}, {#})"
    using assms(2) by (simp add: stub_inv_def queues_empty_def stub_ok_def all_privs_def owed_def)
  from stub_reach_inv [OF assms(1) this] show ?thesis by (simp add: stub_inv_def)
qed

text \<open>A kernel for the witnesses: its state is the list of bytes that wait on the connection.  The
  device has a bulk endpoint 1 in each direction beside the control endpoint.\<close>

definition demo_udev :: usb_device where
  "demo_udev = \<lparr>udev_name = ''1-2'', udev_busnum = 1, udev_devnum = 2, udev_bus_name = ''ehci'',
     udev_class = 0, udev_state = 7,
     udev_ep_in = [Some \<lparr>ep_attributes = 0, ep_address = 0\<rparr>,
       Some \<lparr>ep_attributes = 2, ep_address = 0x81\<rparr>] @ replicate 14 None,
     udev_ep_out = [Some \<lparr>ep_attributes = 0, ep_address = 0\<rparr>,
       Some \<lparr>ep_attributes = 2, ep_address = 1\<rparr>] @ replicate 14 None\<rparr>"

definition demo_stub_kernel :: "u8 list stub_kernel" where
  "demo_stub_kernel = \<lparr>host_le = True, kmalloc = (\<lambda>n c. (True, c)), trx_ops = list_trx,
     kthread_get_run = id, kthread_stop_put = id, sockfd_put = (\<lambda>_. id),
     usb_get_dev = (\<lambda>_ c. c), usb_put_dev = (\<lambda>_ c. c),
     udev = (\<lambda>_ _. demo_udev), usb_alloc_urb = (\<lambda>n c. (Some [], c)),
     usb_submit_urb = (\<lambda>_ _ c. (0, c)), usb_unlink_urb = (\<lambda>_ c. (- EINPROGRESS, c)),
     usb_kill_urb = (\<lambda>_ c. c), usb_clear_halt = (\<lambda>_ _ c. (0, c)),
     usb_set_interface = (\<lambda>_ _ _ c. (0, c)), usb_set_configuration = (\<lambda>_ _ c. (0, c)),
     usb_lock_device_for_reset = (\<lambda>_ c. (0, c)), usb_reset_device = (\<lambda>_ c. (0, c)),
     usb_unlock_device = (\<lambda>_ c. c),
     usb_hub_claim_port = (\<lambda>_ c. (0, c)), usb_hub_release_port = (\<lambda>_ c. (0, c)),
     device_create_file = (\<lambda>_ _ c. (0, c)), device_remove_file = (\<lambda>_ _ c. c)\<rparr>"

definition demo_sdev :: stub_device where
  "demo_sdev = \<lparr>sd_udev = 0, devid = 0x10002, priv_init = [], priv_tx = [], priv_free = [],
     unlink_tx = [], unlink_free = [], priv_next = 0\<rparr>"

definition demo_stub :: "u8 list \<Rightarrow> u8 list stub_conn" where
  "demo_stub bs = \<lparr>ud = demo_ud USBIP_STUB SDEV_ST_USED, event_list = [], env = bs, sdev = demo_sdev\<rparr>"

text \<open>An unlink request for a URB that is not pending.\<close>

definition demo_unlink_header :: usbip_header where
  "demo_unlink_header = \<lparr>base = \<lparr>b_command = USBIP_CMD_UNLINK, b_seqnum = 8, b_devid = 0x10002,
       b_direction = 0, b_ep = 0\<rparr>,
     u = \<lparr>u_w0 = 7, u_w1 = 0, u_w2 = 0, u_w3 = 0, u_w4 = 0, u_setup = replicate 8 0\<rparr>\<rparr>"

lemma demo_unlink_canonical: "canonical demo_unlink_header"
  by (simp add: canonical_def wf_header_def demo_unlink_header_def)

lemma length_wire_bytes: "wf_header h \<Longrightarrow> length (wire_bytes h) = sizeof_usbip_header"
  by (simp add: wire_bytes_def header_words_def wf_header_def sizeof_usbip_header_def)

lemma demo_receive:
  assumes "canonical h"
  shows "\<exists>c. usbip_recv list_trx (demo_ud USBIP_STUB SDEV_ST_USED) True (int sizeof_usbip_header)
     (wire_bytes h) = (int sizeof_usbip_header, wire_bytes h, c)"
proof -
  have l: "length (wire_bytes h) = sizeof_usbip_header"
    using assms by (simp add: canonical_def length_wire_bytes)
  show ?thesis
    using trx_reliable.recv_all [OF list_trx_reliable, of "int sizeof_usbip_header"
        "wire_bytes h" "demo_ud USBIP_STUB SDEV_ST_USED"] l
    by (auto simp: sizeof_usbip_header_def demo_ud_def)
qed

theorem stub_answers_once_witness:
  "\<exists>s. (stub_step demo_stub_kernel)\<^sup>*\<^sup>* (demo_stub (wire_bytes demo_unlink_header), {#}, {#})
      (s, {#(USBIP_RET_UNLINK, 8)#}, {#}) \<and> owed (sdev s) = {#(USBIP_RET_UNLINK, 8)#}"
proof -
  let ?s = "demo_stub (wire_bytes demo_unlink_header)"
  obtain c where r: "usbip_recv list_trx (demo_ud USBIP_STUB SDEV_ST_USED) True
      (int sizeof_usbip_header) (wire_bytes demo_unlink_header) =
      (int sizeof_usbip_header, wire_bytes demo_unlink_header, c)"
    using demo_receive [OF demo_unlink_canonical] by blast
  have h: "usbip_header_correct_endian True (bytes_header True (wire_bytes demo_unlink_header)) False =
      demo_unlink_header" by (rule header_over_wire [OF demo_unlink_canonical])
  have d: "\<not> usbip_event_happened (ud ?s)" "queues_empty (sdev ?s)"
    "valid_request ?s demo_unlink_header" "ud ?s = demo_ud USBIP_STUB SDEV_ST_USED"
    "env ?s = wire_bytes demo_unlink_header"
    by (simp_all add: demo_stub_def demo_ud_def usbip_event_happened_def queues_empty_def
        demo_sdev_def valid_request_def demo_unlink_header_def)
  have rec: "received demo_stub_kernel ?s = Some demo_unlink_header"
    using r h d by (simp add: received_def demo_stub_kernel_def Let_def)
  have "stub_rx_pdu demo_stub_kernel ?s = stub_handle_pdu demo_stub_kernel demo_unlink_header (?s\<lparr>env := c\<rparr>)"
    using r h d by (simp add: stub_rx_pdu_def demo_stub_kernel_def Let_def)
  also have "\<dots> = Some (stub_enqueue_ret_unlink demo_stub_kernel 8 0 (?s\<lparr>env := c\<rparr>))"
    using d by (simp add: stub_handle_pdu_def stub_recv_cmd_unlink_def demo_unlink_header_def
        valid_request_def demo_stub_def demo_sdev_def)
  finally obtain s where s: "stub_rx_pdu demo_stub_kernel ?s = Some s" and
    ud: "ud s = ud ?s"
    by (simp add: stub_enqueue_ret_unlink_def demo_stub_kernel_def)
  have "answers_after demo_unlink_header ?s {#} = {#(USBIP_RET_UNLINK, 8)#}"
    using d by (simp add: answers_after_def demo_unlink_header_def demo_stub_def demo_sdev_def)
  then have "(stub_step demo_stub_kernel)\<^sup>*\<^sup>* (?s, {#}, {#}) (s, {#(USBIP_RET_UNLINK, 8)#}, {#})"
    using stub_step.rx [OF d(1) s, of "{#}" "{#}"] rec by auto
  then show ?thesis
    using stub_answers_once [OF _ d(2), of demo_stub_kernel s "{#(USBIP_RET_UNLINK, 8)#}" "{#}"] ud d(1)
    by (auto simp: usbip_event_happened_def)
qed

end
