(* ===== verification/Stub_Busid.thy ===== *)
theory Stub_Busid
  imports Usbip_Common
begin

text \<open>
  The table of bus identifiers of the device-side driver (\<open>stub_main.c\<close>): which devices a user
  gave to USB/IP.  The table is a fixed array of \<open>MAX_BUSID\<close> entries; an entry is free when its
  name is empty.  Names are C strings in fields of \<open>BUSID_SIZE\<close> bytes.
\<close>

section \<open>The table\<close>

datatype busid_status = STUB_BUSID_OTHER | STUB_BUSID_REMOV | STUB_BUSID_ADDED | STUB_BUSID_ALLOC

abbreviation (input) BUSID_SIZE :: nat where "BUSID_SIZE \<equiv> 32"
abbreviation (input) MAX_BUSID :: nat where "MAX_BUSID \<equiv> 16"

text \<open>\<open>bp_sdev\<close> and \<open>bp_udev\<close> are addresses, \<open>None\<close> the null pointer.  \<open>interf_count\<close> is never
  used by the driver.\<close>

record bus_id_priv =
  bp_name :: string
  bp_status :: busid_status
  bp_interf_count :: int
  bp_sdev :: "nat option"
  bp_udev :: "nat option"
  bp_shutdown_busid :: bool

type_synonym busid_tbl = "bus_id_priv list"

definition init_busid_table :: busid_tbl where
  "init_busid_table = replicate MAX_BUSID \<lparr>bp_name = [], bp_status = STUB_BUSID_OTHER,
     bp_interf_count = 0, bp_sdev = None, bp_udev = None, bp_shutdown_busid = False\<rparr>"

text \<open>The search from entry \<open>i\<close> on, \<open>None\<close> for the index \<open>-1\<close>.\<close>

fun busid_search :: "string \<Rightarrow> nat \<Rightarrow> busid_tbl \<Rightarrow> nat option" where
  "busid_search busid i [] = None"
| "busid_search busid i (e # t) =
     (if bp_name e \<noteq> [] \<and> strn_eq (bp_name e) busid BUSID_SIZE then Some i
      else busid_search busid (Suc i) t)"

definition get_busid_idx :: "string \<Rightarrow> busid_tbl \<Rightarrow> nat option" where
  "get_busid_idx busid t = busid_search busid 0 t"

text \<open>The pointer to an entry is its index.\<close>

definition get_busid_priv :: "string \<Rightarrow> busid_tbl \<Rightarrow> nat option" where
  "get_busid_priv busid t = get_busid_idx busid t"

definition claim_entry :: "string \<Rightarrow> bus_id_priv \<Rightarrow> bus_id_priv" where
  "claim_entry busid e =
     (let e1 = e\<lparr>bp_name := strlcpy busid BUSID_SIZE\<rparr> in
      if bp_status e1 \<noteq> STUB_BUSID_ALLOC \<and> bp_status e1 \<noteq> STUB_BUSID_REMOV
      then e1\<lparr>bp_status := STUB_BUSID_ADDED\<rparr> else e1)"

text \<open>The loop of \<open>add_match_busid\<close>: the first free entry is claimed.\<close>

fun add_to_free :: "string \<Rightarrow> busid_tbl \<Rightarrow> busid_tbl option" where
  "add_to_free busid [] = None"
| "add_to_free busid (e # t) =
     (if bp_name e = [] then Some (claim_entry busid e # t)
      else map_option (\<lambda>t'. e # t') (add_to_free busid t))"

definition add_match_busid :: "string \<Rightarrow> busid_tbl \<Rightarrow> int \<times> busid_tbl" where
  "add_match_busid busid t =
     (if get_busid_idx busid t \<noteq> None then (0, t)
      else case add_to_free busid t of None \<Rightarrow> (-1, t) | Some t' \<Rightarrow> (0, t'))"

definition del_match_busid :: "string \<Rightarrow> busid_tbl \<Rightarrow> int \<times> busid_tbl" where
  "del_match_busid busid t = (case get_busid_idx busid t of
     None \<Rightarrow> (-1, t)
   | Some idx \<Rightarrow>
       let e = t ! idx;
           e1 = (if bp_status e = STUB_BUSID_OTHER then e\<lparr>bp_name := []\<rparr> else e);
           e2 = (if bp_status e1 \<noteq> STUB_BUSID_OTHER \<and> bp_status e1 \<noteq> STUB_BUSID_ADDED
                 then e1\<lparr>bp_status := STUB_BUSID_REMOV\<rparr> else e1)
       in (0, t[idx := e2]))"

section \<open>The driver attributes\<close>

text \<open>The text \<open>show_match_busid\<close> prints; the number returned is its length.\<close>

definition show_match_busid :: "busid_tbl \<Rightarrow> string" where
  "show_match_busid t =
     concat (map (\<lambda>e. bp_name e @ '' '') (filter (\<lambda>e. bp_name e \<noteq> []) t)) @ [CHR 0x0A]"

text \<open>\<open>buf\<close> are the \<open>count\<close> characters written to the attribute, which the kernel ends with a
  zero.\<close>

definition store_match_busid :: "string \<Rightarrow> busid_tbl \<Rightarrow> int \<times> busid_tbl" where
  "store_match_busid buf t =
     (let count = length buf in
      if count < 5 then (- EINVAL, t)
      else let src = cstr (drop 4 buf); busid = strlcpy src BUSID_SIZE in
      if BUSID_SIZE \<le> length src then (- EINVAL, t)
      else if strn_eq (cstr buf) ''add '' 4 then
        let (r, t') = add_match_busid busid t in
        if r < 0 then (- ENOMEM, t') else (int count, t')
      else if strn_eq (cstr buf) ''del '' 4 then
        let (r, t') = del_match_busid busid t in
        if r < 0 then (- ENODEV, t') else (int count, t')
      else (- EINVAL, t))"

text \<open>\<open>device_attach\<close> of the driver core is a parameter; the fault is the dereference of a null
  \<open>udev\<close>.\<close>

definition rebind_store ::
  "(nat \<Rightarrow> 'c \<Rightarrow> int \<times> 'c) \<Rightarrow> string \<Rightarrow> busid_tbl \<Rightarrow> 'c \<Rightarrow> (int \<times> 'c) option" where
  "rebind_store device_attach buf t c =
     (if \<not> length (take BUSID_SIZE (cstr buf)) < BUSID_SIZE then Some (- EINVAL, c)
      else case get_busid_priv (cstr buf) t of
        None \<Rightarrow> Some (- ENODEV, c)
      | Some idx \<Rightarrow> (case bp_udev (t ! idx) of
          None \<Rightarrow> None
        | Some udev \<Rightarrow>
            let (ret, c') = device_attach udev c in
            if ret < 0 then Some (ret, c') else Some (int (length buf), c')))"

section \<open>Facts on the search\<close>

definition busid_at :: "string \<Rightarrow> bus_id_priv \<Rightarrow> bool" where
  "busid_at busid e = (bp_name e \<noteq> [] \<and> strn_eq (bp_name e) busid BUSID_SIZE)"

lemma busid_search_Some:
  "busid_search busid i t = Some k \<Longrightarrow>
   i \<le> k \<and> k < i + length t \<and> busid_at busid (t ! (k - i)) \<and>
   (\<forall>j<k - i. \<not> busid_at busid (t ! j))"
proof (induction t arbitrary: i)
  case (Cons e t)
  show ?case
  proof (cases "busid_at busid e")
    case True
    then show ?thesis using Cons.prems by (auto simp: busid_at_def)
  next
    case False
    then have "busid_search busid (Suc i) t = Some k"
      using Cons.prems by (simp add: busid_at_def split: if_splits)
    from Cons.IH [OF this] False show ?thesis
      by (auto simp: nth_Cons split: nat.splits)
        (metis Suc_diff_Suc Suc_le_eq less_Suc_eq_0_disj old.nat.inject)+
  qed
qed simp

lemma busid_search_None:
  "busid_search busid i t = None \<longleftrightarrow> (\<forall>e\<in>set t. \<not> busid_at busid e)"
  by (induction t arbitrary: i) (auto simp: busid_at_def)

lemma get_busid_idx_Some:
  "get_busid_idx busid t = Some k \<Longrightarrow> k < length t \<and> busid_at busid (t ! k)"
  using busid_search_Some [of busid 0 t k] by (simp add: get_busid_idx_def)

lemma get_busid_idx_None:
  "get_busid_idx busid t = None \<longleftrightarrow> (\<forall>e\<in>set t. \<not> busid_at busid e)"
  by (simp add: get_busid_idx_def busid_search_None)

lemma add_to_free_None: "add_to_free busid t = None \<longleftrightarrow> (\<forall>e\<in>set t. bp_name e \<noteq> [])"
  by (induction t) auto

lemma add_to_free_Some:
  "add_to_free busid t = Some t' \<Longrightarrow>
   \<exists>k<length t. bp_name (t ! k) = [] \<and> t' = t[k := claim_entry busid (t ! k)]"
proof (induction t arbitrary: t')
  case (Cons e t)
  show ?case
  proof (cases "bp_name e = []")
    case True
    then show ?thesis using Cons.prems by (intro exI [of _ 0]) auto
  next
    case False
    with Cons.prems obtain t1 where t1: "add_to_free busid t = Some t1" "t' = e # t1" by auto
    from Cons.IH [OF t1(1)] obtain k where
      "k < length t" "bp_name (t ! k) = []" "t1 = t[k := claim_entry busid (t ! k)]" by auto
    then show ?thesis using t1 by (intro exI [of _ "Suc k"]) auto
  qed
qed simp

section \<open>The invariant of the table\<close>

text \<open>Sixteen entries, names that fit their fields, no name twice, and every named entry in use.\<close>

definition busid_table_ok :: "busid_tbl \<Rightarrow> bool" where
  "busid_table_ok t = (length t = MAX_BUSID \<and>
     (\<forall>i<length t. length (bp_name (t ! i)) < BUSID_SIZE) \<and>
     (\<forall>i<length t. bp_name (t ! i) \<noteq> [] \<longrightarrow> bp_status (t ! i) \<noteq> STUB_BUSID_OTHER) \<and>
     (\<forall>i<length t. \<forall>j<length t. bp_name (t ! i) \<noteq> [] \<longrightarrow>
        bp_name (t ! i) = bp_name (t ! j) \<longrightarrow> i = j))"

lemma init_busid_table_ok: "busid_table_ok init_busid_table"
  by (simp add: busid_table_ok_def init_busid_table_def)

lemma busid_at_short:
  "length (bp_name e) < BUSID_SIZE \<Longrightarrow> length busid < BUSID_SIZE \<Longrightarrow>
   busid_at busid e = (busid \<noteq> [] \<and> bp_name e = busid)"
  by (auto simp: busid_at_def strn_eq_def)

lemma get_busid_idx_iff:
  assumes "busid_table_ok t" "length busid < BUSID_SIZE"
  shows "get_busid_idx busid t = Some k \<longleftrightarrow> k < length t \<and> busid \<noteq> [] \<and> bp_name (t ! k) = busid"
proof
  assume *: "get_busid_idx busid t = Some k"
  then show "k < length t \<and> busid \<noteq> [] \<and> bp_name (t ! k) = busid"
    using get_busid_idx_Some [OF *] assms by (auto simp: busid_at_short busid_table_ok_def)
next
  assume *: "k < length t \<and> busid \<noteq> [] \<and> bp_name (t ! k) = busid"
  then have "busid_at busid (t ! k)" using assms by (simp add: busid_at_short)
  then have "get_busid_idx busid t \<noteq> None" using * by (auto simp: get_busid_idx_None)
  then obtain j where j: "get_busid_idx busid t = Some j" by auto
  then have "j < length t" "bp_name (t ! j) = busid"
    using get_busid_idx_Some [OF j] assms by (auto simp: busid_at_short busid_table_ok_def)
  then show "get_busid_idx busid t = Some k"
    using j * assms(1) by (simp add: busid_table_ok_def)
qed

lemma claim_entry_name: "length busid < BUSID_SIZE \<Longrightarrow> bp_name (claim_entry busid e) = busid"
  by (simp add: claim_entry_def Let_def strlcpy_def)

lemma claim_entry_status: "bp_status (claim_entry busid e) \<noteq> STUB_BUSID_OTHER"
  by (auto simp: claim_entry_def Let_def)

lemma busid_table_ok_update:
  assumes "busid_table_ok t" "k < length t" "length (bp_name e) < BUSID_SIZE"
    "bp_name e \<noteq> [] \<Longrightarrow> bp_status e \<noteq> STUB_BUSID_OTHER"
    "\<And>j. j < length t \<Longrightarrow> j \<noteq> k \<Longrightarrow> bp_name e \<noteq> [] \<Longrightarrow> bp_name (t ! j) \<noteq> bp_name e"
  shows "busid_table_ok (t[k := e])"
  using assms unfolding busid_table_ok_def
  by (simp add: nth_list_update) metis

lemma add_match_busid_ok:
  assumes "busid_table_ok t" "length busid < BUSID_SIZE"
  shows "busid_table_ok (snd (add_match_busid busid t))"
proof (cases "get_busid_idx busid t")
  case (Some k)
  then show ?thesis using assms by (simp add: add_match_busid_def)
next
  case None
  show ?thesis
  proof (cases "add_to_free busid t")
    case None2: None
    then show ?thesis using assms None by (simp add: add_match_busid_def)
  next
    case (Some t')
    from add_to_free_Some [OF Some] obtain k where
      k: "k < length t" "bp_name (t ! k) = []" "t' = t[k := claim_entry busid (t ! k)]" by auto
    have "bp_name (t ! j) \<noteq> busid" if "j < length t" "busid \<noteq> []" for j
      using None that get_busid_idx_iff [OF assms, of j] by auto
    then have "busid_table_ok t'"
      unfolding k(3) using assms k
      by (intro busid_table_ok_update) (simp_all add: claim_entry_name claim_entry_status)
    then show ?thesis using None Some by (simp add: add_match_busid_def)
  qed
qed

lemma del_match_busid_ok:
  assumes "busid_table_ok t" shows "busid_table_ok (snd (del_match_busid busid t))"
proof (cases "get_busid_idx busid t")
  case None
  then show ?thesis using assms by (simp add: del_match_busid_def)
next
  case (Some k)
  then have k: "k < length t" using get_busid_idx_Some by blast
  have "bp_name (t ! k) = bp_name (t ! j) \<Longrightarrow> j < length t \<Longrightarrow> bp_name (t ! k) \<noteq> [] \<Longrightarrow> j = k" for j
    using assms k by (metis busid_table_ok_def)
  moreover have "bp_name (t ! k) \<noteq> [] \<Longrightarrow> bp_status (t ! k) \<noteq> STUB_BUSID_OTHER"
    "length (bp_name (t ! k)) < BUSID_SIZE"
    using assms k by (auto simp: busid_table_ok_def)
  ultimately show ?thesis using assms k
    by (auto simp: del_match_busid_def Some Let_def intro!: busid_table_ok_update)
qed

lemma cstr_nul_free: "CHR 0x00 \<notin> set s \<Longrightarrow> cstr s = s"
  by (auto simp: cstr_def takeWhile_eq_all_conv)

lemma store_match_busid_add:
  assumes "CHR 0x00 \<notin> set busid" "busid \<noteq> []" "length busid < BUSID_SIZE"
  shows "store_match_busid (''add '' @ busid) t =
    (let (r, t') = add_match_busid busid t in
     if r < 0 then (- ENOMEM, t') else (4 + int (length busid), t'))"
proof -
  have l: "\<not> length (''add '' @ busid) < 5" using assms(2) by (cases busid) auto
  have "cstr (''add '' @ busid) = ''add '' @ busid"
    by (rule cstr_nul_free) (simp add: assms(1))
  then show ?thesis using l assms
    by (simp add: store_match_busid_def cstr_nul_free Let_def strn_eq_def strlcpy_def
        split: prod.split)
qed

lemma store_match_busid_del:
  assumes "CHR 0x00 \<notin> set busid" "busid \<noteq> []" "length busid < BUSID_SIZE"
  shows "store_match_busid (''del '' @ busid) t =
    (let (r, t') = del_match_busid busid t in
     if r < 0 then (- ENODEV, t') else (4 + int (length busid), t'))"
proof -
  have l: "\<not> length (''del '' @ busid) < 5" using assms(2) by (cases busid) auto
  have "cstr (''del '' @ busid) = ''del '' @ busid"
    by (rule cstr_nul_free) (simp add: assms(1))
  then show ?thesis using l assms
    by (simp add: store_match_busid_def cstr_nul_free Let_def strn_eq_def strlcpy_def
        split: prod.split)
qed

lemma get_busid_idx_eqI:
  assumes "busid_table_ok t" "busid_table_ok t'" "length busid < BUSID_SIZE"
    "\<And>k. k < length t \<Longrightarrow> busid \<noteq> [] \<Longrightarrow> (bp_name (t ! k) = busid) = (bp_name (t' ! k) = busid)"
  shows "get_busid_idx busid t = get_busid_idx busid t'"
proof -
  have "length t = length t'" using assms(1,2) by (simp add: busid_table_ok_def)
  then have "get_busid_idx busid t = Some k \<longleftrightarrow> get_busid_idx busid t' = Some k" for k
    using get_busid_idx_iff [OF assms(1,3), of k] get_busid_idx_iff [OF assms(2,3), of k] assms(4)
    by auto
  then show ?thesis by (metis option.exhaust)
qed

lemma add_match_busid_spec:
  assumes "busid_table_ok t" "busid \<noteq> []" "length busid < BUSID_SIZE"
    "add_match_busid busid t = (r, t')"
  shows "r = (if get_busid_idx busid t = None \<and> (\<forall>e\<in>set t. bp_name e \<noteq> []) then -1 else 0)"
    and "r = -1 \<Longrightarrow> t' = t"
    and "r = 0 \<Longrightarrow> \<exists>k. get_busid_idx busid t' = Some k"
    and "b \<noteq> busid \<Longrightarrow> length b < BUSID_SIZE \<Longrightarrow> get_busid_idx b t' = get_busid_idx b t"
proof -
  show r: "r = (if get_busid_idx busid t = None \<and> (\<forall>e\<in>set t. bp_name e \<noteq> []) then -1 else 0)"
    using assms(4) add_to_free_None [of busid t]
    by (auto simp: add_match_busid_def split: if_splits option.splits)
  show "r = -1 \<Longrightarrow> t' = t"
    using assms(4) by (auto simp: add_match_busid_def split: if_splits option.splits)
  have ok: "busid_table_ok t'" using add_match_busid_ok [OF assms(1,3)] assms(4) by simp
  consider "t' = t" "r = 0 \<longrightarrow> get_busid_idx busid t \<noteq> None"
    | k where "k < length t" "bp_name (t ! k) = []" "t' = t[k := claim_entry busid (t ! k)]"
  proof (cases "get_busid_idx busid t = None")
    case False
    then show thesis using assms(4) that(1) by (simp add: add_match_busid_def)
  next
    case None: True
    show thesis
    proof (cases "add_to_free busid t")
      case N: None
      then show thesis using assms(4) that(1) None by (simp add: add_match_busid_def)
    next
      case (Some t1)
      then have "t' = t1" using assms(4) None by (simp add: add_match_busid_def)
      with add_to_free_Some [OF Some] that(2) show thesis by blast
    qed
  qed
  note c = this
  show "r = 0 \<Longrightarrow> \<exists>k. get_busid_idx busid t' = Some k"
    using c
  proof cases
    case 1 then show "r = 0 \<Longrightarrow> ?thesis" by simp
  next
    case (2 k)
    then have "get_busid_idx busid t' = Some k"
      using get_busid_idx_iff [OF ok assms(3)] assms by (simp add: claim_entry_name)
    then show ?thesis by blast
  qed
  show "get_busid_idx b t' = get_busid_idx b t" if "b \<noteq> busid" "length b < BUSID_SIZE"
    using c
  proof cases
    case (2 k)
    show ?thesis
      by (rule get_busid_idx_eqI [OF ok assms(1) that(2)])
         (use 2 that assms in \<open>auto simp: nth_list_update claim_entry_name\<close>)
  qed simp
qed

text \<open>C39: writing \<open>add <busid>\<close> to \<open>match_busid\<close> keeps the table well formed and registers the device
  under that name, or reports that the table of sixteen is full and changes nothing; what is
  found under any other name stays the same.\<close>

theorem match_busid_add:
  assumes "busid_table_ok t" "CHR 0x00 \<notin> set busid" "busid \<noteq> []" "length busid < BUSID_SIZE"
    "store_match_busid (''add '' @ busid) t = (r, t')"
  shows "busid_table_ok t' \<and>
    (if get_busid_priv busid t = None \<and> (\<forall>e\<in>set t. bp_name e \<noteq> [])
     then r = - ENOMEM \<and> t' = t
     else r = 4 + int (length busid) \<and> (\<exists>k. get_busid_priv busid t' = Some k)) \<and>
    (\<forall>b. b \<noteq> busid \<longrightarrow> length b < BUSID_SIZE \<longrightarrow> get_busid_priv b t' = get_busid_priv b t)"
proof -
  obtain r1 where a: "add_match_busid busid t = (r1, t')"
    and r: "r = (if r1 < 0 then - ENOMEM else 4 + int (length busid))"
    using assms(5) store_match_busid_add [OF assms(2-4), of t]
    by (auto simp: Let_def split: prod.splits if_splits)
  note s = add_match_busid_spec [OF assms(1,3,4) a]
  show ?thesis
    using s add_match_busid_ok [OF assms(1,4)] a r
    by (auto simp: get_busid_priv_def split: if_splits)
qed

theorem match_busid_add_witness:
  "get_busid_priv ''1-2'' (snd (store_match_busid ''add 1-2'' init_busid_table)) \<noteq> None"
proof -
  obtain r t' where st: "store_match_busid (''add '' @ ''1-2'') init_busid_table = (r, t')"
    by fastforce
  have "busid_table_ok t' \<and>
    (if get_busid_priv ''1-2'' init_busid_table = None \<and> (\<forall>e\<in>set init_busid_table. bp_name e \<noteq> [])
     then r = - ENOMEM \<and> t' = init_busid_table
     else r = 4 + int (length ''1-2'') \<and> (\<exists>k. get_busid_priv ''1-2'' t' = Some k)) \<and>
    (\<forall>b. b \<noteq> ''1-2'' \<longrightarrow> length b < BUSID_SIZE \<longrightarrow>
       get_busid_priv b t' = get_busid_priv b init_busid_table)"
    by (rule match_busid_add [OF init_busid_table_ok _ _ _ st]) simp_all
  then show ?thesis using st by (auto simp: init_busid_table_def)
qed

text \<open>Writing \<open>del <busid>\<close> never frees an entry by itself: a device in use is marked for removal
  at its next disconnect, and an entry whose device is not in use stays registered although the
  write succeeds.\<close>

theorem match_busid_del:
  assumes "busid_table_ok t" "CHR 0x00 \<notin> set busid" "busid \<noteq> []" "length busid < BUSID_SIZE"
    "get_busid_priv busid t = Some k"
  shows "store_match_busid (''del '' @ busid) t = (4 + int (length busid),
    (if bp_status (t ! k) = STUB_BUSID_ADDED then t
     else t[k := (t ! k)\<lparr>bp_status := STUB_BUSID_REMOV\<rparr>]))"
proof -
  have k: "k < length t" "bp_name (t ! k) = busid" "get_busid_idx busid t = Some k"
    using assms(5) get_busid_idx_iff [OF assms(1,4)] by (auto simp: get_busid_priv_def)
  then have "bp_status (t ! k) \<noteq> STUB_BUSID_OTHER"
    using assms(1,3) by (auto simp: busid_table_ok_def)
  then show ?thesis using k store_match_busid_del [OF assms(2-4), of t]
    by (auto simp: del_match_busid_def Let_def)
qed

definition demo_table :: busid_tbl where
  "demo_table = init_busid_table[0 := (init_busid_table ! 0)\<lparr>bp_name := ''1-2'',
     bp_status := STUB_BUSID_ADDED\<rparr>]"

lemma demo_table_ok: "busid_table_ok demo_table"
  unfolding demo_table_def
  by (rule busid_table_ok_update [OF init_busid_table_ok]) (simp_all add: init_busid_table_def)

theorem match_busid_del_witness:
  "store_match_busid ''del 1-2'' demo_table = (7, demo_table)"
proof -
  have "get_busid_priv ''1-2'' demo_table = Some 0"
    unfolding get_busid_priv_def get_busid_idx_iff [OF demo_table_ok, of "''1-2''" 0, simplified]
    by (simp add: demo_table_def init_busid_table_def)
  moreover have "bp_status (demo_table ! 0) = STUB_BUSID_ADDED"
    by (simp add: demo_table_def init_busid_table_def)
  ultimately show ?thesis
    using match_busid_del [OF demo_table_ok, of "''1-2''" 0] by simp
qed

end
