(* ===== verification/Stub_Dev.thy ===== *)
theory Stub_Dev
  imports Stub_Account Stub_Busid
begin

text \<open>
  The life of an exported device, \<open>stub_dev.c\<close>: binding and unbinding the driver, handing over the
  socket of a connection, and the three operations of the event handler.  The handler's contract
  \<open>eh_handlers\<close> is discharged for these operations over the kernel's socket transport.
\<close>

section \<open>The socket attribute\<close>

text \<open>The first half of bringing a connection up: the socket is linked and the threads are started.
  The error is \<open>-EINVAL\<close> in either case.\<close>

definition stub_up_threads ::
  "('c, 'k) stub_kernel_scheme \<Rightarrow> int \<Rightarrow> 'c stub_conn \<Rightarrow> bool \<times> 'c stub_conn" where
  "stub_up_threads K sockfd s =
     (if status (ud s) \<noteq> SDEV_ST_AVAILABLE then (False, s)
      else let (rv, d, c) = trx_link (trx_ops K) (ud s) sockfd (env s); s1 = s\<lparr>ud := d, env := c\<rparr> in
      if rv \<noteq> 0 then (False, s1)
      else let c2 = kthread_get_run K (env s1); c3 = kthread_get_run K c2 in
        (True, s1\<lparr>ud := (ud s1)\<lparr>tcp_rx := True, tcp_tx := True\<rparr>, env := c3\<rparr>))"

definition stub_store_sockfd ::
  "('c, 'k) stub_kernel_scheme \<Rightarrow> string \<Rightarrow> 'c stub_conn \<Rightarrow> int \<times> 'c stub_conn" where
  "stub_store_sockfd K buf s = (case scan_signed (cstr buf) of
     None \<Rightarrow> (- EINVAL, s)
   | Some (sockfd, _) \<Rightarrow>
       if sockfd \<noteq> -1 then
         let (ok, s1) = stub_up_threads K sockfd s in
         if \<not> ok then (- EINVAL, s1)
         else (int (length buf), s1\<lparr>ud := (ud s1)\<lparr>status := SDEV_ST_USED\<rparr>\<rparr>)
       else if status (ud s) \<noteq> SDEV_ST_USED then (- EINVAL, s)
       else (int (length buf), usbip_event_add (kmalloc K) SDEV_EVENT_DOWN s))"

section \<open>The operations of the event handler\<close>

definition stub_shutdown_connection ::
  "('c, 'k) stub_kernel_scheme \<Rightarrow> 'c stub_conn \<Rightarrow> 'c stub_conn option" where
  "stub_shutdown_connection K s =
     (let (_, d1, c1) = trx_unlink (trx_ops K) (ud s) (env s);
          c2 = stop_thread (tcp_rx d1) K c1; d2 = d1\<lparr>tcp_rx := False\<rparr>;
          c3 = stop_thread (tcp_tx d2) K c2; d3 = d2\<lparr>tcp_tx := False\<rparr>;
          c4 = (case tcp_socket d3 of None \<Rightarrow> c3 | Some sk \<Rightarrow> sockfd_put K sk c3);
          d4 = d3\<lparr>tcp_socket := None\<rparr> in
      case stub_device_cleanup_urbs K (sdev s) c4 of
        None \<Rightarrow> None
      | Some (sd, c5) \<Rightarrow>
          Some (s\<lparr>ud := d4, env := c5, sdev := sd\<lparr>unlink_tx := [], unlink_free := []\<rparr>\<rparr>))"

definition stub_device_reset ::
  "('c, 'k) stub_kernel_scheme \<Rightarrow> 'c stub_conn \<Rightarrow> 'c stub_conn" where
  "stub_device_reset K s =
     (let dev = sd_udev (sdev s); (ret, c1) = usb_lock_device_for_reset K dev (env s) in
      if ret < 0 then s\<lparr>env := c1, ud := (ud s)\<lparr>status := SDEV_ST_ERROR\<rparr>\<rparr>
      else let (ret2, c2) = usb_reset_device K dev c1; c3 = usb_unlock_device K dev c2 in
        if ret2 \<noteq> 0 then s\<lparr>env := c3, ud := (ud s)\<lparr>status := SDEV_ST_ERROR\<rparr>\<rparr>
        else s\<lparr>env := c3, ud := (ud s)\<lparr>status := SDEV_ST_AVAILABLE\<rparr>\<rparr>)"

definition stub_device_unusable :: "'c stub_conn \<Rightarrow> 'c stub_conn" where
  "stub_device_unusable s = s\<lparr>ud := (ud s)\<lparr>status := SDEV_ST_ERROR\<rparr>\<rparr>"

section \<open>All devices of the driver\<close>

text \<open>The devices by their addresses, \<open>drvdata\<close> the driver data of a \<open>usb_device\<close>, and
  \<open>sw_next\<close> the address the next device gets.  \<open>crashed\<close> is set when a handler of the event
  worker faults.\<close>

record 'c stub_world =
  busid_table :: busid_tbl
  sdevs :: "nat \<Rightarrow> (usbip_device \<times> stub_device) option"
  drvdata :: "nat \<Rightarrow> nat option"
  sw_events :: "nat list"
  sw_env :: 'c
  sw_next :: nat
  crashed :: bool

definition sdev_at :: "nat \<Rightarrow> 'c stub_world \<Rightarrow> 'c stub_conn" where
  "sdev_at d w = \<lparr>ud = fst (the (sdevs w d)), event_list = sw_events w, env = sw_env w,
     sdev = snd (the (sdevs w d))\<rparr>"

definition put_sdev :: "nat \<Rightarrow> 'c stub_conn \<Rightarrow> 'c stub_world \<Rightarrow> 'c stub_world" where
  "put_sdev d s w = w\<lparr>sdevs := (sdevs w)(d \<mapsto> (ud s, sdev s)), sw_events := event_list s,
     sw_env := env s\<rparr>"

text \<open>The attributes of a device of the USB core, which find the device by its driver data.\<close>

definition usbip_status_show :: "nat \<Rightarrow> 'c stub_world \<Rightarrow> int + string" where
  "usbip_status_show dev w = (case drvdata w dev of
     None \<Rightarrow> Inl (- ENODEV)
   | Some a \<Rightarrow> Inr (decimal (status_number (status (ud (sdev_at a w)))) @ [CHR 0x0A]))"

definition store_sockfd ::
  "('c, 'k) stub_kernel_scheme \<Rightarrow> nat \<Rightarrow> string \<Rightarrow> 'c stub_world \<Rightarrow> int \<times> 'c stub_world" where
  "store_sockfd K dev buf w = (case drvdata w dev of
     None \<Rightarrow> (- ENODEV, w)
   | Some a \<Rightarrow> let (r, s) = stub_store_sockfd K buf (sdev_at a w) in (r, put_sdev a s w))"

definition stub_eh_ops :: "('c, 'k) stub_kernel_scheme \<Rightarrow> 'c stub_world eh_ops" where
  "stub_eh_ops K = \<lparr>
     dev_of = (\<lambda>d w. ud (sdev_at d w)),
     put_dev = (\<lambda>d x w. put_sdev d ((sdev_at d w)\<lparr>ud := x\<rparr>) w),
     events_of = sw_events,
     put_events = (\<lambda>ds w. w\<lparr>sw_events := ds\<rparr>),
     eh_shutdown = (\<lambda>d w. case stub_shutdown_connection K (sdev_at d w) of
        None \<Rightarrow> w\<lparr>crashed := True\<rparr> | Some s \<Rightarrow> put_sdev d s w),
     eh_reset = (\<lambda>d w. put_sdev d (stub_device_reset K (sdev_at d w)) w),
     eh_unusable = (\<lambda>d w. put_sdev d (stub_device_unusable (sdev_at d w)) w)\<rparr>"

section \<open>Binding\<close>

definition stub_add_files :: "('c, 'k) stub_kernel_scheme \<Rightarrow> nat \<Rightarrow> 'c \<Rightarrow> int \<times> 'c" where
  "stub_add_files K dev c =
     (let (e1, c1) = device_create_file K dev ''usbip_status'' c in
      if e1 \<noteq> 0 then (e1, c1)
      else let (e2, c2) = device_create_file K dev ''usbip_sockfd'' c1 in
      if e2 \<noteq> 0 then (e2, device_remove_file K dev ''usbip_status'' c2)
      else let (e3, c3) = device_create_file K dev ''usbip_debug'' c2 in
      if e3 \<noteq> 0 then (e3, device_remove_file K dev ''usbip_status''
          (device_remove_file K dev ''usbip_sockfd'' c3))
      else (0, c3))"

definition stub_remove_files :: "('c, 'k) stub_kernel_scheme \<Rightarrow> nat \<Rightarrow> 'c \<Rightarrow> 'c" where
  "stub_remove_files K dev c =
     device_remove_file K dev ''usbip_debug'' (device_remove_file K dev ''usbip_sockfd''
       (device_remove_file K dev ''usbip_status'' c))"

abbreviation (input) sizeof_stub_device :: nat where "sizeof_stub_device \<equiv> 560"

text \<open>The new device and its address, or \<open>None\<close>.\<close>

definition stub_device_alloc ::
  "('c, 'k) stub_kernel_scheme \<Rightarrow> nat \<Rightarrow> 'c stub_world \<Rightarrow> nat option \<times> 'c stub_world" where
  "stub_device_alloc K dev w =
     (let (ok, c) = kmalloc K sizeof_stub_device (sw_env w) in
      if \<not> ok then (None, w\<lparr>sw_env := c\<rparr>)
      else let c2 = usb_get_dev K dev c; a = sw_next w; di = udev K dev c2;
               d = usbip_start_eh \<lparr>ud_id = a, side = USBIP_STUB, status = SDEV_ST_AVAILABLE,
                     tcp_socket = None, ux = None, tcp_rx = False, tcp_tx = False, event = 0\<rparr>;
               sd = \<lparr>sd_udev = dev, devid = push_bit 16 (udev_busnum di) OR udev_devnum di,
                     priv_init = [], priv_tx = [], priv_free = [], unlink_tx = [],
                     unlink_free = [], priv_next = 0\<rparr>
           in (Some a, w\<lparr>sw_env := c2, sw_next := Suc a, sdevs := (sdevs w)(a \<mapsto> (d, sd))\<rparr>))"

definition stub_device_free :: "nat \<Rightarrow> 'c stub_world \<Rightarrow> 'c stub_world" where
  "stub_device_free a w = w\<lparr>sdevs := (sdevs w)(a := None)\<rparr>"

definition upd_busid :: "nat \<Rightarrow> (bus_id_priv \<Rightarrow> bus_id_priv) \<Rightarrow> 'c stub_world \<Rightarrow> 'c stub_world" where
  "upd_busid k f w = w\<lparr>busid_table := (busid_table w)[k := f (busid_table w ! k)]\<rparr>"

abbreviation (input) USB_CLASS_HUB :: u8 where "USB_CLASS_HUB \<equiv> 9"

text \<open>The claim of a device that passed the tests, for entry \<open>k\<close> of the table.\<close>

definition stub_probe_claim ::
  "('c, 'k) stub_kernel_scheme \<Rightarrow> nat \<Rightarrow> nat \<Rightarrow> 'c stub_world \<Rightarrow> int \<times> 'c stub_world" where
  "stub_probe_claim K dev k w = (case stub_device_alloc K dev w of
     (None, w1) \<Rightarrow> (- ENOMEM, w1)
   | (Some a, w1) \<Rightarrow>
       let w2 = upd_busid k (\<lambda>e. e\<lparr>bp_shutdown_busid := False, bp_sdev := Some a, bp_udev := Some dev\<rparr>)
             (w1\<lparr>drvdata := (drvdata w1)(dev \<mapsto> a)\<rparr>);
           undo = (\<lambda>w. stub_device_free a (upd_busid k (\<lambda>e. e\<lparr>bp_sdev := None\<rparr>)
             (w\<lparr>drvdata := (drvdata w)(dev := None), sw_env := usb_put_dev K dev (sw_env w)\<rparr>)));
           (rc, c3) = usb_hub_claim_port K dev (sw_env w2); w3 = w2\<lparr>sw_env := c3\<rparr> in
       if rc \<noteq> 0 then (rc, undo w3)
       else let (rc2, c4) = stub_add_files K dev (sw_env w3); w4 = w3\<lparr>sw_env := c4\<rparr> in
       if rc2 \<noteq> 0 then
         let (_, c5) = usb_hub_release_port K dev (sw_env w4) in (rc2, undo (w4\<lparr>sw_env := c5\<rparr>))
       else (0, upd_busid k (\<lambda>e. e\<lparr>bp_status := STUB_BUSID_ALLOC\<rparr>) w4))"

definition stub_probe ::
  "('c, 'k) stub_kernel_scheme \<Rightarrow> nat \<Rightarrow> 'c stub_world \<Rightarrow> int \<times> 'c stub_world" where
  "stub_probe K dev w =
     (let di = udev K dev (sw_env w) in
      case get_busid_priv (udev_name di) (busid_table w) of
        None \<Rightarrow> (- ENODEV, w)
      | Some k \<Rightarrow>
          if bp_status (busid_table w ! k) = STUB_BUSID_REMOV \<or>
             bp_status (busid_table w ! k) = STUB_BUSID_OTHER then (- ENODEV, w)
          else if udev_class di = USB_CLASS_HUB then (- ENODEV, w)
          else if udev_bus_name di = ''vhci_hcd'' then (- ENODEV, w)
          else stub_probe_claim K dev k w)"

section \<open>Unbinding\<close>

definition shutdown_busid ::
  "('c, 'k) stub_kernel_scheme \<Rightarrow> nat \<Rightarrow> 'c stub_world \<Rightarrow> 'c stub_world option" where
  "shutdown_busid K k w =
     (let e = busid_table w ! k in
      case bp_sdev e of
        None \<Rightarrow> Some w
      | Some a \<Rightarrow>
          if bp_shutdown_busid e then Some w
          else let w1 = upd_busid k (\<lambda>e. e\<lparr>bp_shutdown_busid := True\<rparr>) w;
                   w2 = put_sdev a (usbip_event_add (kmalloc K) SDEV_EVENT_REMOVED (sdev_at a w1)) w1
               in usbip_stop_eh (stub_eh_ops K) a w2)"

text \<open>The end of \<open>stub_disconnect\<close>, after the connection was shut down.\<close>

definition stub_disconnect_done ::
  "('c, 'k) stub_kernel_scheme \<Rightarrow> nat \<Rightarrow> nat \<Rightarrow> string \<Rightarrow> 'c stub_world \<Rightarrow> 'c stub_world" where
  "stub_disconnect_done K a k busid w =
     (let w1 = w\<lparr>sw_env := usb_put_dev K (sd_udev (snd (the (sdevs w a)))) (sw_env w)\<rparr>;
          w2 = stub_device_free a (upd_busid k (\<lambda>e. e\<lparr>bp_sdev := None\<rparr>) w1) in
      if bp_status (busid_table w2 ! k) = STUB_BUSID_ALLOC
      then upd_busid k (\<lambda>e. e\<lparr>bp_status := STUB_BUSID_ADDED\<rparr>) w2
      else let w3 = upd_busid k (\<lambda>e. e\<lparr>bp_status := STUB_BUSID_OTHER\<rparr>) w2 in
        w3\<lparr>busid_table := snd (del_match_busid busid (busid_table w3))\<rparr>)"

definition stub_disconnect ::
  "('c, 'k) stub_kernel_scheme \<Rightarrow> nat option \<Rightarrow> nat \<Rightarrow> nat \<Rightarrow> 'c stub_world \<Rightarrow> 'c stub_world option" where
  "stub_disconnect K worker_context current dev w =
     (let busid = udev_name (udev K dev (sw_env w)) in
      case get_busid_priv busid (busid_table w) of
        None \<Rightarrow> None
      | Some k \<Rightarrow> (case drvdata w dev of
          None \<Rightarrow> Some w
        | Some a \<Rightarrow>
            let w1 = w\<lparr>drvdata := (drvdata w)(dev := None),
                  sw_env := stub_remove_files K dev (sw_env w)\<rparr>;
                (rc, c2) = usb_hub_release_port K dev (sw_env w1); w2 = w1\<lparr>sw_env := c2\<rparr> in
            if rc \<noteq> 0 then Some w2
            else if usbip_in_eh worker_context current then Some w2
            else map_option (stub_disconnect_done K a k busid) (shutdown_busid K k w2)))"

section \<open>Shutting down\<close>

lemma cleanup_urbs_spec:
  "stub_device_cleanup_urbs K sd c =
     (if \<forall>p\<in>set (all_privs sd). sp_urb p \<noteq> None
      then Some (sd\<lparr>priv_init := [], priv_tx := [], priv_free := []\<rparr>,
        foldl (\<lambda>c p. usb_kill_urb K (sp_id p) c) c (all_privs sd))
      else None)"
proof (induction K sd c rule: stub_device_cleanup_urbs.induct)
  case (1 K sd c)
  show ?case
  proof (cases "stub_priv_pop sd")
    case None
    then have e: "priv_init sd = []" "priv_tx sd = []" "priv_free sd = []"
      by (auto simp: stub_priv_pop_def stub_priv_pop_from_listhead_def split: list.splits)
    then have "sd\<lparr>priv_init := [], priv_tx := [], priv_free := []\<rparr> = sd" by simp
    then show ?thesis using None e by (subst stub_device_cleanup_urbs.simps) (simp add: all_privs_def)
  next
    case (Some x)
    obtain p sd' where x: "x = (p, sd')" by fastforce
    have a: "all_privs sd = p # all_privs sd'" using stub_priv_pop_shrinks Some x by simp
    have e: "sd'\<lparr>priv_init := [], priv_tx := [], priv_free := []\<rparr> =
        sd\<lparr>priv_init := [], priv_tx := [], priv_free := []\<rparr>"
      using Some x by (auto simp: stub_priv_pop_def stub_priv_pop_from_listhead_def split: list.splits)
    show ?thesis
    proof (cases "sp_urb p")
      case None
      then show ?thesis using Some x a by (subst stub_device_cleanup_urbs.simps) simp
    next
      case (Some urb)
      then show ?thesis using \<open>stub_priv_pop sd = Some x\<close> x a e "1.IH" [OF \<open>stub_priv_pop sd = Some x\<close> x [symmetric] refl Some]
        by (subst stub_device_cleanup_urbs.simps) simp
    qed
  qed
qed

definition urbs_present :: "stub_device \<Rightarrow> bool" where
  "urbs_present sd = (\<forall>p\<in>set (all_privs sd). sp_urb p \<noteq> None)"

lemma shutdown_spec:
  "if urbs_present (sdev s)
   then \<exists>s'. stub_shutdown_connection K s = Some s' \<and> closed (ud s') \<and> queues_empty (sdev s') \<and>
     event_list s' = event_list s \<and> sd_udev (sdev s') = sd_udev (sdev s) \<and>
     event (ud s') = event (fst (snd (trx_unlink (trx_ops K) (ud s) (env s))))
   else stub_shutdown_connection K s = None"
  by (auto simp: stub_shutdown_connection_def Let_def cleanup_urbs_spec urbs_present_def closed_def
      queues_empty_def split: prod.split option.split)

lemma shutdown_Some:
  "stub_shutdown_connection K s = Some s' \<Longrightarrow> closed (ud s') \<and> queues_empty (sdev s') \<and>
     event_list s' = event_list s \<and>
     event (ud s') = event (fst (snd (trx_unlink (trx_ops K) (ud s) (env s))))"
  using shutdown_spec [of s K] by (auto split: if_splits)

section \<open>The event handler's contract\<close>

lemma sdevs_put_sdev: "sdevs (put_sdev d s w) = (sdevs w)(d \<mapsto> (ud s, sdev s))"
  by (simp add: put_sdev_def)

lemma sw_events_put_sdev: "sw_events (put_sdev d s w) = event_list s"
  by (simp add: put_sdev_def)

text \<open>The USB core resets a device: its lock is taken and the reset itself succeeds.\<close>

definition core_resets :: "('c, 'k) stub_kernel_scheme \<Rightarrow> nat \<Rightarrow> 'c \<Rightarrow> bool" where
  "core_resets K dev c = (0 \<le> fst (usb_lock_device_for_reset K dev c) \<and>
     fst (usb_reset_device K dev (snd (usb_lock_device_for_reset K dev c))) = 0)"

lemma stub_device_reset_frame:
  "event (ud (stub_device_reset K s)) = event (ud s)"
  "event_list (stub_device_reset K s) = event_list s"
  "closed (ud (stub_device_reset K s)) = closed (ud s)"
  "status (ud (stub_device_reset K s)) =
     (if core_resets K (sd_udev (sdev s)) (env s) then SDEV_ST_AVAILABLE else SDEV_ST_ERROR)"
  "sdev (stub_device_reset K s) = sdev s"
  by (auto simp: stub_device_reset_def core_resets_def Let_def closed_def split: prod.split)

lemma stub_device_unusable_frame:
  "event (ud (stub_device_unusable s)) = event (ud s)"
  "event_list (stub_device_unusable s) = event_list s"
  "closed (ud (stub_device_unusable s)) = closed (ud s)"
  "status (ud (stub_device_unusable s)) = SDEV_ST_ERROR"
  by (simp_all add: stub_device_unusable_def closed_def)

lemma events_of_stub [simp]: "events_of (stub_eh_ops K) w = sw_events w"
  by (simp add: stub_eh_ops_def)

lemmas stub_ops_simps = stub_eh_ops_def sdev_at_def sdevs_put_sdev sw_events_put_sdev

lemma sdev_shutdown_frame:
  assumes "stub_shutdown_connection (kernel_trx K ks) s = Some s'"
  shows "event (ud s') = event (ud s)" "event_list s' = event_list s" "closed (ud s')"
    "status (ud s') = status (ud s)" "sd_udev (sdev s') = sd_udev (sdev s)"
proof -
  obtain r c where "usbip_kernel_unlink ks (ud s) (env s) = (r, ud s, c)"
    using kernel_unlink_dev [of ks "ud s" "env s"] by (cases "usbip_kernel_unlink ks (ud s) (env s)") auto
  then show "status (ud s') = status (ud s)" "sd_udev (sdev s') = sd_udev (sdev s)"
    using assms by (auto simp: stub_shutdown_connection_def Let_def cleanup_urbs_spec split: option.splits if_splits)
qed (use shutdown_Some [OF assms] in simp_all)

interpretation stub_eh: eh_lifecycle "stub_eh_ops (kernel_trx K ks)" "\<lambda>d w. sdevs w d \<noteq> None"
  "\<lambda>d w. urbs_present (snd (the (sdevs w d)))"
  "\<lambda>d w. core_resets (kernel_trx K ks) (sd_udev (sdev (sdev_at d w))) (sw_env w)"
  SDEV_ST_AVAILABLE SDEV_ST_ERROR
  for K :: "('c, 'k) stub_kernel_scheme" and ks :: "'c kernel_sockets"
proof (unfold_locales, goal_cases)
  case (8 f d w d')
  then show ?case by (auto simp: stub_ops_simps split: option.splits if_splits)
next
  case (9 f d w d')
  then show ?case
    by (auto simp: stub_ops_simps stub_device_reset_frame stub_device_unusable_def
        dest!: sdev_shutdown_frame(1) split: option.splits)
next
  case (10 f d w)
  then show ?case
    by (auto simp: stub_ops_simps stub_device_reset_frame stub_device_unusable_def
        dest!: sdev_shutdown_frame(2) split: option.splits)
next
  case (11 d w)
  let ?s = "sdev_at d w"
  have "urbs_present (sdev ?s)" using 11 by (simp add: sdev_at_def)
  then obtain s' where "stub_shutdown_connection (kernel_trx K ks) ?s = Some s'" "closed (ud s')"
    using shutdown_spec [of ?s "kernel_trx K ks"] by auto
  then show ?case by (simp add: stub_eh_ops_def) (simp add: sdev_at_def sdevs_put_sdev)
next
  case (12 d w)
  then show ?case
    by (auto simp: stub_ops_simps dest!: sdev_shutdown_frame(4) split: option.splits)
next
  case (14 d w)
  then show ?case by (simp add: stub_ops_simps stub_device_reset_frame(4))
next
  case (15 d w x)
  then show ?case by (simp add: stub_ops_simps put_sdev_def)
qed (auto simp: stub_ops_simps stub_device_unusable_frame stub_device_reset_frame(1-3))

section \<open>Properties of the life cycle\<close>

lemma handle_device_sdev:
  assumes "stub_shutdown_connection (kernel_trx K ks) (sdev_at d w) = Some s1"
    "event (ud (sdev_at d w)) AND USBIP_EH_SHUTDOWN \<noteq> 0"
  shows "sdev (sdev_at d (handle_device (stub_eh_ops (kernel_trx K ks)) d w)) = sdev s1"
proof -
  let ?ops = "stub_eh_ops (kernel_trx K ks)"
  have put: "sdev (sdev_at d (put_dev ?ops d x w)) = sdev (sdev_at d w)" for x w
    by (simp add: stub_ops_simps)
  have keep: "sdev (sdev_at d (run_eh_op ?ops ev f d w)) = sdev (sdev_at d w)"
    if "f \<in> {eh_reset ?ops, eh_unusable ?ops}" for ev f w
    using that
    by (auto simp: run_eh_op_def Let_def put)
      (simp_all add: stub_ops_simps stub_device_reset_frame(5) stub_device_unusable_def)
  have "sdev (sdev_at d (run_eh_op ?ops USBIP_EH_SHUTDOWN (eh_shutdown ?ops) d w)) = sdev s1"
    using assms by (simp add: run_eh_op_def Let_def put stub_eh_ops_def [of "kernel_trx K ks"])
      (simp add: sdev_at_def put_sdev_def)
  then show ?thesis by (simp add: handle_device_def keep)
qed

text \<open>C11: a device whose error, disconnection or removal was reported is taken out of service by the event
  worker: its socket, its threads and all its requests are gone, and of the event word only the mark
  of removal is left.  Then it is in error if memory ran out; if a reset was asked for, it is
  available exactly if the USB core resets it, in the state the shutdown left, and in error if
  not; a device that is being removed keeps its status.  The requests have their URBs, without
  which the shutdown faults.\<close>

theorem stub_event_recovery:
  assumes "sdevs w d \<noteq> None" "urbs_present (sdev (sdev_at d w))"
    "event (ud (sdev_at d w)) AND USBIP_EH_SHUTDOWN \<noteq> 0"
  shows "\<exists>s1 s'. stub_shutdown_connection (kernel_trx K ks) (sdev_at d w) = Some s1 \<and>
    s' = sdev_at d (handle_device (stub_eh_ops (kernel_trx K ks)) d w) \<and>
    closed (ud s') \<and> queues_empty (sdev s') \<and>
    event (ud s') = event (ud (sdev_at d w)) AND NOT (USBIP_EH_SHUTDOWN OR USBIP_EH_RESET OR USBIP_EH_UNUSABLE) \<and>
    status (ud s') =
      (if event (ud (sdev_at d w)) AND USBIP_EH_UNUSABLE \<noteq> 0 then SDEV_ST_ERROR
       else if event (ud (sdev_at d w)) AND USBIP_EH_RESET \<noteq> 0
       then (if core_resets (kernel_trx K ks) (sd_udev (sdev (sdev_at d w))) (env s1)
         then SDEV_ST_AVAILABLE else SDEV_ST_ERROR)
       else status (ud (sdev_at d w)))"
proof -
  let ?K = "kernel_trx K ks" and ?ops = "stub_eh_ops (kernel_trx K ks)"
  have dev: "dev_of ?ops d x = ud (sdev_at d x)" for x by (simp add: stub_eh_ops_def)
  have u: "urbs_present (snd (the (sdevs w d)))" using assms(2) by (simp add: sdev_at_def)
  obtain s1 where s1: "stub_shutdown_connection ?K (sdev_at d w) = Some s1" "queues_empty (sdev s1)"
    using shutdown_spec [of "sdev_at d w" ?K] assms(2) by auto
  have e: "eh_shutdown ?ops d w = put_sdev d s1 w" using s1(1) by (simp add: stub_eh_ops_def)
  have "sd_udev (sdev (sdev_at d (put_sdev d s1 w))) = sd_udev (sdev (sdev_at d w))" "sw_env (put_sdev d s1 w) = env s1"
    using sdev_shutdown_frame(5) [OF s1(1)] by (simp_all add: sdev_at_def put_sdev_def)
  with stub_eh.handle_device_lifecycle [of w d K ks] assms(1,3) u e s1 handle_device_sdev [OF s1(1) assms(3)]
  show ?thesis by (simp add: dev)
qed

definition demo_world :: "ulong \<Rightarrow> u8 list stub_world" where
  "demo_world ev = \<lparr>busid_table = demo_table[0 := (demo_table ! 0)\<lparr>bp_status := STUB_BUSID_ALLOC,
       bp_sdev := Some 0, bp_udev := Some 0\<rparr>],
     sdevs = [0 \<mapsto> ((demo_ud USBIP_STUB SDEV_ST_USED)\<lparr>event := ev\<rparr>, demo_sdev)],
     drvdata = [0 \<mapsto> 0], sw_events = [0], sw_env = [], sw_next = 1, crashed = False\<rparr>"

theorem stub_event_recovery_witness:
  "status (ud (sdev_at 0 (handle_device (stub_eh_ops (kernel_trx demo_stub_kernel demo_sockets)) 0
     (demo_world SDEV_EVENT_ERROR_TCP)))) = SDEV_ST_AVAILABLE"
proof -
  let ?w = "demo_world SDEV_EVENT_ERROR_TCP"
  have "sdevs ?w 0 \<noteq> None" "urbs_present (sdev (sdev_at 0 ?w))" "event (ud (sdev_at 0 ?w)) = 5"
    by (simp_all add: demo_world_def urbs_present_def all_privs_def demo_sdev_def sdev_at_def event_defs)
  moreover have "core_resets (kernel_trx demo_stub_kernel demo_sockets) dev c" for dev c
    by (simp add: core_resets_def kernel_trx_def demo_stub_kernel_def)
  ultimately show ?thesis
    using stub_event_recovery [of ?w 0 demo_stub_kernel demo_sockets] by auto
qed

text \<open>A submission whose URB cannot be allocated stays on the list of pending requests without
  a URB, and the shutdown its error event calls for dereferences the missing URB.\<close>

theorem stub_alloc_failure_faults:
  assumes "get_pipe (udev K (sd_udev (sdev s)) (env s)) (b_ep (base pdu)) (b_direction (base pdu)) =
      Some pipe"
    "stub_priv_alloc K pdu s = (Some i, s1)"
    "usb_alloc_urb K (if usb_pipeisoc pipe then sint (cs_number_of_packets (cmd_submit (u pdu))) else 0)
      (env s1) = (None, c)"
  shows "\<exists>s'. stub_recv_cmd_submit K pdu s = Some s' \<and> event (ud s') \<noteq> 0 \<and>
    stub_shutdown_connection K' s' = None"
proof -
  let ?s' = "usbip_event_add (kmalloc K) SDEV_EVENT_ERROR_MALLOC (s1\<lparr>env := c\<rparr>)"
  have "stub_recv_cmd_submit K pdu s = Some ?s'"
    using assms by (simp add: stub_recv_cmd_submit_def setup_urb_def Let_def)
  moreover have "\<exists>p\<in>set (all_privs (sdev s1)). sp_urb p = None"
    using assms(2) by (auto simp: stub_priv_alloc_def Let_def all_privs_def split: prod.splits if_splits)
  then have "\<not> urbs_present (sdev ?s')" by (auto simp: urbs_present_def)
  ultimately show ?thesis
    using shutdown_spec [of ?s' K'] by (simp add: usbip_event_add_nonzero)
qed

theorem stub_alloc_failure_faults_witness:
  "\<exists>s'. stub_recv_cmd_submit (demo_stub_kernel\<lparr>usb_alloc_urb := \<lambda>n c. (None, c)\<rparr>)
      (demo_submit_header) (demo_stub []) = Some s' \<and> event (ud s') \<noteq> 0 \<and>
    stub_shutdown_connection demo_stub_kernel s' = None"
proof -
  let ?K = "demo_stub_kernel\<lparr>usb_alloc_urb := \<lambda>n c. (None, c)\<rparr>"
  have g: "get_pipe (udev ?K (sd_udev (sdev (demo_stub []))) (env (demo_stub [])))
      (b_ep (base demo_submit_header)) (b_direction (base demo_submit_header)) =
      Some (create_pipe PIPE_BULK demo_udev 1 True)"
    by (simp add: demo_stub_kernel_def demo_submit_header_def get_pipe_def demo_udev_def
        usb_endpoint_type_def)
  obtain s1 where a: "stub_priv_alloc ?K demo_submit_header (demo_stub []) = (Some 0, s1)"
    by (simp add: stub_priv_alloc_def demo_stub_kernel_def demo_stub_def demo_sdev_def)
  show ?thesis by (rule stub_alloc_failure_faults [OF g a]) simp
qed

lemma busid_ok_upd:
  assumes "busid_table_ok t" "k < length t" "bp_name (f (t ! k)) = bp_name (t ! k)"
    "bp_status (f (t ! k)) \<noteq> STUB_BUSID_OTHER \<or> bp_name (t ! k) = []"
  shows "busid_table_ok (t[k := f (t ! k)])"
proof (rule busid_table_ok_update [OF assms(1,2)])
  show "length (bp_name (f (t ! k))) < BUSID_SIZE" using assms by (simp add: busid_table_ok_def)
  show "bp_status (f (t ! k)) \<noteq> STUB_BUSID_OTHER" if "bp_name (f (t ! k)) \<noteq> []"
    using that assms by auto
  show "bp_name (t ! j) \<noteq> bp_name (f (t ! k))"
    if "j < length t" "j \<noteq> k" "bp_name (f (t ! k)) \<noteq> []" for j
    using that assms(1,2,3) unfolding busid_table_ok_def by metis
qed

text \<open>The devices the driver wants: entry \<open>k\<close> of the table has the name and is not being removed, the
  device is no hub and does not itself come over USB/IP.\<close>

definition stub_wants :: "('c, 'k) stub_kernel_scheme \<Rightarrow> nat \<Rightarrow> 'c stub_world \<Rightarrow> nat \<Rightarrow> bool" where
  "stub_wants K dev w k = (let di = udev K dev (sw_env w) in
     get_busid_priv (udev_name di) (busid_table w) = Some k \<and>
     bp_status (busid_table w ! k) \<in> {STUB_BUSID_ADDED, STUB_BUSID_ALLOC} \<and>
     udev_class di \<noteq> USB_CLASS_HUB \<and> udev_bus_name di \<noteq> ''vhci_hcd'')"

lemma stub_probe_wants:
  "stub_wants K dev w k \<Longrightarrow> stub_probe K dev w = stub_probe_claim K dev k w"
  "\<nexists>k. stub_wants K dev w k \<Longrightarrow> stub_probe K dev w = (- ENODEV, w)"
proof -
  show "stub_wants K dev w k \<Longrightarrow> stub_probe K dev w = stub_probe_claim K dev k w"
    by (auto simp: stub_wants_def stub_probe_def Let_def)
  show "\<nexists>k. stub_wants K dev w k \<Longrightarrow> stub_probe K dev w = (- ENODEV, w)"
    by (auto simp: stub_wants_def stub_probe_def Let_def split: option.splits)
      (metis busid_status.exhaust)
qed

text \<open>What binding entry \<open>k\<close> makes of the table, and what a failure leaves of it.\<close>

definition bound_table :: "nat \<Rightarrow> nat option \<Rightarrow> nat \<Rightarrow> busid_tbl \<Rightarrow> busid_tbl" where
  "bound_table dev a k t = t[k := (t ! k)\<lparr>bp_shutdown_busid := False, bp_sdev := a, bp_udev := Some dev,
     bp_status := (if a = None then bp_status (t ! k) else STUB_BUSID_ALLOC)\<rparr>]"

lemma bound_table_ok:
  assumes "busid_table_ok t" "get_busid_priv name t = Some k" "bp_status (t ! k) \<in> {STUB_BUSID_ADDED, STUB_BUSID_ALLOC}"
  shows "busid_table_ok (bound_table dev a k t)" "k < length t"
proof -
  show k: "k < length t" using assms(2) get_busid_idx_Some by (auto simp: get_busid_priv_def)
  show "busid_table_ok (bound_table dev a k t)"
    unfolding bound_table_def
    by (rule busid_ok_upd [OF assms(1) k, of "\<lambda>e. e\<lparr>bp_shutdown_busid := False, bp_sdev := a, bp_udev := Some dev,
        bp_status := (if a = None then bp_status (t ! k) else STUB_BUSID_ALLOC)\<rparr>"]) (use assms(3) in auto)
qed

definition new_sdev :: "('c, 'k) stub_kernel_scheme \<Rightarrow> nat \<Rightarrow> nat \<Rightarrow> 'c \<Rightarrow> usbip_device \<times> stub_device \<Rightarrow> bool" where
  "new_sdev K dev a c x = (case x of (d, sd) \<Rightarrow>
     status d = SDEV_ST_AVAILABLE \<and> closed d \<and> event d = 0 \<and> ud_id d = a \<and> queues_empty sd \<and> sd_udev sd = dev \<and>
     devid sd = push_bit 16 (udev_busnum (udev K dev c)) OR udev_devnum (udev K dev c))"

lemma stub_probe_claim_spec:
  assumes "k < length (busid_table w)" "sdevs w (sw_next w) = None"
    "kmalloc K sizeof_stub_device (sw_env w) = (True, c)"
    "usb_hub_claim_port K dev (usb_get_dev K dev c) = (r1, c1)" "stub_add_files K dev c1 = (r2, c2)"
    "stub_probe_claim K dev k w = (rc, w')"
  shows "if r1 = 0 \<and> r2 = 0
    then rc = 0 \<and> (\<exists>x. new_sdev K dev (sw_next w) (usb_get_dev K dev c) x \<and> sdevs w' = (sdevs w)(sw_next w \<mapsto> x)) \<and>
      busid_table w' = bound_table dev (Some (sw_next w)) k (busid_table w) \<and>
      drvdata w' = (drvdata w)(dev \<mapsto> sw_next w)
    else rc = (if r1 \<noteq> 0 then r1 else r2) \<and> sdevs w' = sdevs w \<and> drvdata w' = (drvdata w)(dev := None) \<and>
      busid_table w' = bound_table dev None k (busid_table w) \<and>
      sw_env w' = usb_put_dev K dev (if r1 \<noteq> 0 then c1 else snd (usb_hub_release_port K dev c2))"
proof -
  have undo: "(sdevs w)(sw_next w := None) = sdevs w" using assms(2) by (simp add: fun_upd_idem)
  have al: "\<exists>d sd. stub_device_alloc K dev w = (Some (sw_next w), w\<lparr>sw_env := usb_get_dev K dev c,
      sw_next := Suc (sw_next w), sdevs := (sdevs w)(sw_next w \<mapsto> (d, sd))\<rparr>) \<and>
      new_sdev K dev (sw_next w) (usb_get_dev K dev c) (d, sd)"
    using assms(3) by (simp add: stub_device_alloc_def new_sdev_def usbip_start_eh_def closed_def queues_empty_def Let_def)
      (intro exI conjI, rule refl, simp_all)
  then obtain d sd where al: "stub_device_alloc K dev w = (Some (sw_next w), w\<lparr>sw_env := usb_get_dev K dev c,
      sw_next := Suc (sw_next w), sdevs := (sdevs w)(sw_next w \<mapsto> (d, sd))\<rparr>)"
    "new_sdev K dev (sw_next w) (usb_get_dev K dev c) (d, sd)" by blast
  have swap: "e\<lparr>bp_shutdown_busid := False, bp_udev := Some dev, bp_sdev := None\<rparr> =
      e\<lparr>bp_shutdown_busid := False, bp_sdev := None, bp_udev := Some dev\<rparr>" for e by (cases e) simp
  note defs = stub_probe_claim_def Let_def upd_busid_def stub_device_free_def bound_table_def
  show ?thesis
  proof (cases "r1 = 0 \<and> r2 = 0")
    case True
    then have "rc = 0 \<and> sdevs w' = (sdevs w)(sw_next w \<mapsto> (d, sd)) \<and>
        busid_table w' = bound_table dev (Some (sw_next w)) k (busid_table w) \<and>
        drvdata w' = (drvdata w)(dev \<mapsto> sw_next w)"
      using assms(1,4,5,6) al(1) by (auto simp: defs)
    then show ?thesis using True al(2) by auto
  next
    case False
    then show ?thesis
      using assms(1,4,5,6) al(1) undo by (auto simp: defs swap split: prod.splits if_splits)
  qed
qed



lemma get_busid_idx_names:
  "map bp_name t = map bp_name t' \<Longrightarrow> get_busid_idx busid t = get_busid_idx busid t'"
proof -
  have "busid_search busid i t = busid_search busid i t'" if "map bp_name t = map bp_name t'" for i t'
    using that
  proof (induction t arbitrary: i t')
    case (Cons e t)
    then show ?case by (cases t') auto
  qed simp
  then show "map bp_name t = map bp_name t' \<Longrightarrow> ?thesis" by (simp add: get_busid_idx_def)
qed

lemma busid_short:
  assumes "busid_table_ok t" "get_busid_idx busid t = Some k" shows "length busid < BUSID_SIZE"
proof -
  have "busid_at busid (t ! k)" "k < length t" using get_busid_idx_Some [OF assms(2)] by simp_all
  then have "take 32 (bp_name (t ! k)) = take 32 busid" "length (bp_name (t ! k)) < 32"
    using assms(1) by (simp_all add: busid_at_def strn_eq_def busid_table_ok_def)
  then have "length (take 32 busid) < 32" by (metis length_take min.strict_coboundedI1)
  then show ?thesis by simp
qed

text \<open>What \<open>stub_disconnect_done\<close> does to the table.\<close>

lemma disconnect_table:
  assumes ok: "busid_table_ok t" and k: "get_busid_idx busid t = Some k"
  defines "t1 \<equiv> t[k := (t ! k)\<lparr>bp_sdev := None\<rparr>]"
  shows "if bp_status (t ! k) = STUB_BUSID_ALLOC
    then busid_table_ok (t1[k := (t1 ! k)\<lparr>bp_status := STUB_BUSID_ADDED\<rparr>]) \<and>
      get_busid_idx busid (t1[k := (t1 ! k)\<lparr>bp_status := STUB_BUSID_ADDED\<rparr>]) = Some k
    else busid_table_ok (snd (del_match_busid busid (t1[k := (t1 ! k)\<lparr>bp_status := STUB_BUSID_OTHER\<rparr>]))) \<and>
      get_busid_idx busid (snd (del_match_busid busid (t1[k := (t1 ! k)\<lparr>bp_status := STUB_BUSID_OTHER\<rparr>]))) = None"
proof -
  have kl: "k < length t" using get_busid_idx_Some [OF k] by simp
  have short: "length busid < BUSID_SIZE" by (rule busid_short [OF ok k])
  have nm: "bp_name (t ! k) = busid" "busid \<noteq> []" using get_busid_idx_iff [OF ok short] k by auto
  have names: "get_busid_idx busid (t[k := e]) = Some k" if "bp_name e = bp_name (t ! k)" for e
    using k get_busid_idx_names [of "t[k := e]" t] that kl
    by (metis list_update_id map_update)
  show ?thesis
  proof (cases "bp_status (t ! k) = STUB_BUSID_ALLOC")
    case True
    let ?e = "(t ! k)\<lparr>bp_sdev := None, bp_status := STUB_BUSID_ADDED\<rparr>"
    have "busid_table_ok (t[k := ?e])"
      by (rule busid_ok_upd [OF ok kl, of "\<lambda>e. e\<lparr>bp_sdev := None, bp_status := STUB_BUSID_ADDED\<rparr>"]) simp_all
    then show ?thesis using True kl names [of ?e] by (simp add: t1_def)
  next
    case False
    let ?e = "(t ! k)\<lparr>bp_sdev := None, bp_status := STUB_BUSID_OTHER\<rparr>"
    let ?f = "?e\<lparr>bp_name := []\<rparr>"
    have d: "snd (del_match_busid busid (t[k := ?e])) = t[k := ?f]"
      using names [of ?e] kl by (simp add: del_match_busid_def)
    have okf: "busid_table_ok (t[k := ?f])"
      using ok kl by (intro busid_table_ok_update) simp_all
    have "get_busid_idx busid (t[k := ?f]) \<noteq> Some j" for j
      using get_busid_idx_iff [OF okf short, of j] nm kl ok
      by (auto simp: nth_list_update busid_table_ok_def split: if_splits)
    then have "get_busid_idx busid (t[k := ?f]) = None" by (meson option.exhaust)
    then show ?thesis using False kl d okf by (simp add: t1_def)
  qed
qed

text \<open>What the event worker keeps of the driver's state.\<close>

definition worker_keeps :: "busid_tbl \<Rightarrow> (nat \<Rightarrow> nat option) \<Rightarrow> 'c stub_world \<Rightarrow> bool" where
  "worker_keeps t dd w = (busid_table w = t \<and> drvdata w = dd \<and> \<not> crashed w \<and>
     (\<forall>d y. sdevs w d = Some y \<longrightarrow> urbs_present (snd y)))"

declare stub_device_reset_frame(5) [simp]

lemma queues_empty_urbs: "queues_empty sd \<Longrightarrow> urbs_present sd"
  by (simp add: queues_empty_def urbs_present_def all_privs_def)

lemma worker_keeps_put:
  "worker_keeps t dd w \<Longrightarrow> urbs_present (sdev s) \<Longrightarrow> worker_keeps t dd (put_sdev d s w)"
  by (auto simp: worker_keeps_def put_sdev_def)

lemma worker_keeps_loop:
  assumes "event_loop (stub_eh_ops (kernel_trx K ks)) n w = Some w'" "worker_keeps t dd w"
    "\<forall>d\<in>set (sw_events w). sdevs w d \<noteq> None"
  shows "worker_keeps t dd w'"
proof (rule stub_eh.event_loop_inv [where Q = "worker_keeps t dd", OF _ _ _ assms(1,2)])
  fix f d and w :: "'a stub_world"
  let ?ops = "stub_eh_ops (kernel_trx K ks)"
  assume f: "f \<in> {eh_shutdown ?ops, eh_reset ?ops, eh_unusable ?ops}" and k: "sdevs w d \<noteq> None"
    and w: "worker_keeps t dd w"
  have u: "urbs_present (sdev (sdev_at d w))" using k w by (auto simp: worker_keeps_def sdev_at_def)
  from shutdown_spec [of "sdev_at d w" "kernel_trx K ks"] u obtain s' where
    s': "stub_shutdown_connection (kernel_trx K ks) (sdev_at d w) = Some s'" "queues_empty (sdev s')"
    by auto
  show "worker_keeps t dd (f d w)"
    using f s' w u
    by (auto simp: stub_eh_ops_def stub_device_unusable_def intro!: worker_keeps_put intro: queues_empty_urbs)
next
  fix d ev and w :: "'a stub_world"
  let ?ops = "stub_eh_ops (kernel_trx K ks)"
  show "worker_keeps t dd (put_dev ?ops d (unset_event ev (dev_of ?ops d w)) w)"
    if "sdevs w d \<noteq> None" "worker_keeps t dd w"
    using that worker_keeps_put [OF that(2), of "(sdev_at d w)\<lparr>ud := unset_event ev (dev_of ?ops d w)\<rparr>" d]
    by (auto simp: stub_eh_ops_def worker_keeps_def sdev_at_def)
next
  show "worker_keeps t dd (put_events (stub_eh_ops (kernel_trx K ks)) ds w)"
    if "worker_keeps t dd w" for ds w
    using that by (simp add: stub_eh_ops_def worker_keeps_def)
qed (use assms(3) in \<open>simp_all add: stub_eh_ops_def\<close>)

text \<open>Shutting down the connection of an entry ends exactly if the event can be queued: the device is
  already on the list of pending devices, or its entry of the list can be allocated.\<close>

definition removal_queued :: "('c, 'k) stub_kernel_scheme \<Rightarrow> nat \<Rightarrow> 'c stub_world \<Rightarrow> bool" where
  "removal_queued K a w = (a \<in> set (sw_events w) \<or> fst (kmalloc K sizeof_usbip_event (sw_env w)))"

lemma removal_leaves_bye:
  assumes "(x :: ulong) AND NOT m = 0" shows "(x OR y) AND NOT m AND NOT z = y AND NOT m AND NOT z"
proof -
  have "(x OR y) AND NOT m = y AND NOT m" using assms by (simp add: bit.conj_disj_distrib2)
  then have "((x OR y) AND NOT m) AND NOT z = (y AND NOT m) AND NOT z" by (rule arg_cong)
  then show ?thesis by (simp only: and.assoc)
qed

lemma shutdown_busid_ends:
  fixes w :: "'c stub_world"
  assumes a: "bp_sdev (busid_table w ! k) = Some a" "\<not> bp_shutdown_busid (busid_table w ! k)"
    and s: "sdevs w a = Some (d, sd)" "ud_id d = a"
      "event d AND NOT (USBIP_EH_SHUTDOWN OR USBIP_EH_RESET OR USBIP_EH_UNUSABLE) = 0"
    and ev: "\<forall>e\<in>set (sw_events w). sdevs w e \<noteq> None"
    and wk: "worker_keeps t dd w"
  shows "if removal_queued K a w
    then \<exists>w'. shutdown_busid (kernel_trx K ks) k w = Some w' \<and> sdevs w' a \<noteq> None \<and>
      worker_keeps (t[k := (t ! k)\<lparr>bp_shutdown_busid := True\<rparr>]) dd w'
    else shutdown_busid (kernel_trx K ks) k w = None"
proof -
  let ?K = "kernel_trx K ks" and ?ops = "stub_eh_ops (kernel_trx K ks)"
  let ?m = "NOT (USBIP_EH_SHUTDOWN OR USBIP_EH_RESET OR USBIP_EH_UNUSABLE) :: ulong"
  let ?w1 = "upd_busid k (\<lambda>e. e\<lparr>bp_shutdown_busid := True\<rparr>) w"
  let ?s2 = "usbip_event_add (kmalloc ?K) SDEV_EVENT_REMOVED (sdev_at a ?w1)"
  let ?w2 = "put_sdev a ?s2 ?w1"
  have km: "kmalloc ?K = kmalloc K" by (simp add: kernel_trx_def)
  obtain ok c where m: "kmalloc K sizeof_usbip_event (sw_env w) = (ok, c)" by fastforce
  have sa: "sdev_at a ?w1 = \<lparr>ud = d, event_list = sw_events w, env = sw_env w, sdev = sd\<rparr>"
    using s by (simp add: sdev_at_def upd_busid_def)
  have "event d AND USBIP_EH_BYE = (event d AND ?m) AND USBIP_EH_BYE" by (simp add: and.assoc)
  also have "\<dots> = 0" unfolding s(3) by simp
  finally have bye: "event d AND USBIP_EH_BYE = 0" .
  have q: "a \<in> set (event_list ?s2) \<longleftrightarrow> removal_queued K a w"
    "event_list ?s2 = sw_events w \<or> event_list ?s2 = sw_events w @ [a]"
    using m s bye by (auto simp: sa km usbip_event_add_def Let_def removal_queued_def)
  have e2: "event (ud ?s2) = event d OR SDEV_EVENT_REMOVED" using bye by (simp add: usbip_event_add_event sa)
  have w2: "worker_keeps (t[k := (t ! k)\<lparr>bp_shutdown_busid := True\<rparr>]) dd ?w1"
    using wk by (auto simp: worker_keeps_def upd_busid_def)
  have u: "urbs_present sd" using wk s(1) by (auto simp: worker_keeps_def)
  have w2: "worker_keeps (t[k := (t ! k)\<lparr>bp_shutdown_busid := True\<rparr>]) dd ?w2"
    by (rule worker_keeps_put [OF w2]) (simp add: sa u)
  have ev2: "sw_events ?w2 = event_list ?s2" by (simp add: put_sdev_def)
  have kn: "\<forall>e\<in>set (sw_events ?w2). sdevs ?w2 e \<noteq> None"
    unfolding ev2 using q ev s by (auto simp: put_sdev_def upd_busid_def)
  have eo: "events_of ?ops = sw_events" by (simp add: stub_eh_ops_def)
  have kn': "\<forall>e\<in>set (events_of ?ops ?w2). sdevs ?w2 e \<noteq> None" using kn by (simp only: eo)
  have ka: "sdevs ?w2 a \<noteq> None" by (simp add: put_sdev_def)
  obtain w' where l: "event_loop ?ops (length (events_of ?ops ?w2)) ?w2 = Some w'"
    "\<And>d. (sdevs w' d \<noteq> None) = (sdevs ?w2 d \<noteq> None)"
    "\<And>d. sdevs ?w2 d \<noteq> None \<Longrightarrow> event (dev_of ?ops d w') =
       (if d \<in> set (events_of ?ops ?w2) then event (dev_of ?ops d ?w2) AND ?m else event (dev_of ?ops d ?w2))"
    using stub_eh.event_loop_drains [OF kn'] by blast
  have "dev_of ?ops a ?w2 = ud ?s2" by (simp add: stub_eh_ops_def sdev_at_def put_sdev_def)
  then have "event (dev_of ?ops a w') =
      (if removal_queued K a w then (event d OR SDEV_EVENT_REMOVED) AND ?m else event d OR SDEV_EVENT_REMOVED)"
    using l(3) [OF ka] q(1) e2 by (simp only: eo ev2)
  moreover have "(event d OR SDEV_EVENT_REMOVED) AND ?m AND NOT USBIP_EH_BYE = 0"
    unfolding removal_leaves_bye [OF s(3)] by (simp add: event_defs)
  moreover have "(event d OR SDEV_EVENT_REMOVED) AND NOT USBIP_EH_BYE \<noteq> 0"
  proof
    assume "(event d OR SDEV_EVENT_REMOVED) AND NOT USBIP_EH_BYE = 0"
    then have "(event d AND NOT USBIP_EH_BYE) OR (SDEV_EVENT_REMOVED AND NOT USBIP_EH_BYE) = 0"
      by (simp only: bit.conj_disj_distrib2)
    then have "SDEV_EVENT_REMOVED AND NOT USBIP_EH_BYE = 0" by (simp only: or_eq_0_iff)
    then show False by (simp add: event_defs)
  qed
  ultimately have "usbip_stop_eh_done (dev_of ?ops a w') = removal_queued K a w"
    by (cases "removal_queued K a w") (simp_all only: usbip_stop_eh_done_def if_True if_False and.assoc simp_thms)
  moreover have "event_loop ?ops (length (sw_events ?w2)) ?w2 = Some w'" using l(1) by (simp only: eo)
  ultimately have "shutdown_busid ?K k w = (if removal_queued K a w then Some w' else None)"
    using a by (simp add: shutdown_busid_def usbip_stop_eh_def Let_def)
  moreover have "worker_keeps (t[k := (t ! k)\<lparr>bp_shutdown_busid := True\<rparr>]) dd w'"
    by (rule worker_keeps_loop [OF l(1) w2 kn])
  ultimately show ?thesis using l(2) [of a] ka by auto
qed

text \<open>C14: unbinding a bound device.  If the hub does not release the port, or the unbinding runs in the
  event worker, the driver returns at once and the structure of the device stays, with nothing
  pointing to it from the device; if the event cannot be queued the driver waits for ever.
  Otherwise it returns with the structure freed: the connection was shut down by the event worker, an
  entry that is still wanted stays registered for the next binding, and one that was marked for
  removal is free afterwards.  The device is the one of its entry and has not been removed yet, and
  the requests of all devices have their URBs.\<close>

theorem stub_disconnect_frees:
  fixes w :: "'c stub_world"
  assumes "busid_table_ok (busid_table w)"
    "get_busid_priv (udev_name (udev K dev (sw_env w))) (busid_table w) = Some k"
    "drvdata w dev = Some a" "bp_sdev (busid_table w ! k) = Some a"
    "\<not> bp_shutdown_busid (busid_table w ! k)"
    "sdevs w a = Some (d, sd)" "ud_id d = a"
    "event d AND NOT (USBIP_EH_SHUTDOWN OR USBIP_EH_RESET OR USBIP_EH_UNUSABLE) = 0"
    "\<not> crashed w" "\<forall>e\<in>set (sw_events w). sdevs w e \<noteq> None"
    "\<forall>e y. sdevs w e = Some y \<longrightarrow> urbs_present (snd y)"
    "usb_hub_release_port K dev (stub_remove_files (kernel_trx K ks) dev (sw_env w)) = (rc, c)"
    "w2 = w\<lparr>drvdata := (drvdata w)(dev := None), sw_env := c\<rparr>"
  shows "if rc \<noteq> 0 \<or> usbip_in_eh worker_context current
    then stub_disconnect (kernel_trx K ks) worker_context current dev w = Some w2
    else if \<not> removal_queued K a w2
    then stub_disconnect (kernel_trx K ks) worker_context current dev w = None
    else \<exists>w'. stub_disconnect (kernel_trx K ks) worker_context current dev w = Some w' \<and>
      sdevs w' a = None \<and> drvdata w' dev = None \<and> \<not> crashed w' \<and> busid_table_ok (busid_table w') \<and>
      get_busid_priv (udev_name (udev K dev (sw_env w))) (busid_table w') =
        (if bp_status (busid_table w ! k) = STUB_BUSID_ALLOC then Some k else None)"
proof -
  let ?K = "kernel_trx K ks" and ?t = "busid_table w"
  let ?busid = "udev_name (udev K dev (sw_env w))"
  have [simp]: "udev ?K = udev K" "usb_hub_release_port ?K = usb_hub_release_port K"
    by (simp_all add: kernel_trx_def)
  have k: "k < length ?t" using assms(2) get_busid_idx_Some by (auto simp: get_busid_priv_def)
  have run: "stub_disconnect ?K worker_context current dev w =
      (if rc \<noteq> 0 \<or> usbip_in_eh worker_context current then Some w2
       else map_option (stub_disconnect_done ?K a k ?busid) (shutdown_busid ?K k w2))"
    using assms(2,3,12,13) by (simp add: stub_disconnect_def Let_def)
  have wk: "worker_keeps ?t ((drvdata w)(dev := None)) w2"
    using assms(9,11,13) by (simp add: worker_keeps_def)
  have sb: "if removal_queued K a w2
    then \<exists>w'. shutdown_busid ?K k w2 = Some w' \<and> sdevs w' a \<noteq> None \<and>
      worker_keeps (?t[k := (?t ! k)\<lparr>bp_shutdown_busid := True\<rparr>]) ((drvdata w)(dev := None)) w'
    else shutdown_busid ?K k w2 = None"
    by (rule shutdown_busid_ends [OF _ _ _ assms(7,8) _ wk]) (use assms(4-6,10,13) in simp_all)
  show ?thesis
  proof (cases "rc \<noteq> 0 \<or> usbip_in_eh worker_context current \<or> \<not> removal_queued K a w2")
    case True
    then show ?thesis using run sb by auto
  next
    case False
    then obtain w3 where w3: "shutdown_busid ?K k w2 = Some w3"
      "worker_keeps (?t[k := (?t ! k)\<lparr>bp_shutdown_busid := True\<rparr>]) ((drvdata w)(dev := None)) w3"
      using sb by auto
    let ?t3 = "?t[k := (?t ! k)\<lparr>bp_shutdown_busid := True\<rparr>]"
    have ok3: "busid_table_ok ?t3"
      using k assms(1) get_busid_idx_Some assms(2)
      by (intro busid_ok_upd [of ?t k "\<lambda>e. e\<lparr>bp_shutdown_busid := True\<rparr>"]) (auto simp: busid_table_ok_def)
    have g3: "get_busid_idx ?busid ?t3 = Some k"
      using assms(2) k get_busid_idx_names [of ?t3 ?t ?busid]
      by (simp add: get_busid_priv_def map_update list_update_same_conv)
    have t3: "busid_table w3 = ?t3" "drvdata w3 = (drvdata w)(dev := None)" "\<not> crashed w3"
      using w3(2) by (simp_all add: worker_keeps_def)
    have "stub_disconnect ?K worker_context current dev w = Some (stub_disconnect_done ?K a k ?busid w3)"
      using run False w3(1) by simp
    then show ?thesis
      using False disconnect_table [OF ok3 g3] t3 k
      by (simp add: stub_disconnect_done_def Let_def stub_device_free_def upd_busid_def get_busid_priv_def
          split: if_splits)
  qed
qed

theorem stub_disconnect_frees_witness:
  "\<exists>w'. stub_disconnect (kernel_trx demo_stub_kernel demo_sockets) None 5 0 (demo_world 0) = Some w' \<and>
    sdevs w' 0 = None \<and> get_busid_priv ''1-2'' (busid_table w') = Some 0"
proof -
  let ?w = "demo_world 0"
  have ok: "busid_table_ok (busid_table ?w)"
    unfolding demo_world_def stub_world.simps
    by (rule busid_ok_upd [OF demo_table_ok, of 0 "\<lambda>e. e\<lparr>bp_status := STUB_BUSID_ALLOC,
        bp_sdev := Some 0, bp_udev := Some 0\<rparr>"]) (simp_all add: demo_table_def init_busid_table_def)
  have g: "get_busid_priv (udev_name (udev demo_stub_kernel 0 (sw_env ?w))) (busid_table ?w) = Some 0"
    by (simp add: demo_world_def demo_stub_kernel_def demo_udev_def get_busid_priv_def
        get_busid_idx_def demo_table_def init_busid_table_def strn_eq_def numeral_eq_Suc)
  have e: "drvdata ?w 0 = Some 0" "bp_sdev (busid_table ?w ! 0) = Some 0"
    "\<not> bp_shutdown_busid (busid_table ?w ! 0)" "bp_status (busid_table ?w ! 0) = STUB_BUSID_ALLOC"
    "sdevs ?w 0 = Some (demo_ud USBIP_STUB SDEV_ST_USED, demo_sdev)" "\<not> crashed ?w"
    "\<forall>e\<in>set (sw_events ?w). sdevs ?w e \<noteq> None"
    by (simp_all add: demo_world_def demo_table_def init_busid_table_def demo_ud_def)
  have u: "\<forall>e y. sdevs ?w e = Some y \<longrightarrow> urbs_present (snd y)"
    by (auto simp: demo_world_def urbs_present_def all_privs_def demo_sdev_def split: if_splits)
  have n: "udev_name (udev demo_stub_kernel 0 (sw_env ?w)) = ''1-2''"
    by (simp add: demo_stub_kernel_def demo_udev_def)
  let ?w2 = "?w\<lparr>drvdata := (drvdata ?w)(0 := None), sw_env := []\<rparr>"
  have rel: "usb_hub_release_port demo_stub_kernel 0
      (stub_remove_files (kernel_trx demo_stub_kernel demo_sockets) 0 (sw_env ?w)) = (0, [])"
    by (simp add: demo_stub_kernel_def kernel_trx_def stub_remove_files_def demo_world_def)
  have ev: "event (demo_ud USBIP_STUB SDEV_ST_USED) AND
      NOT (USBIP_EH_SHUTDOWN OR USBIP_EH_RESET OR USBIP_EH_UNUSABLE) = 0" "ud_id (demo_ud USBIP_STUB SDEV_ST_USED) = 0"
    by (simp_all add: demo_ud_def)
  have in_eh: "\<not> (0 \<noteq> (0 :: int) \<or> usbip_in_eh None 5)" by (simp add: usbip_in_eh_def)
  have queued: "\<not> \<not> removal_queued demo_stub_kernel 0 ?w2" by (simp add: removal_queued_def demo_world_def)
  have "\<exists>w'. stub_disconnect (kernel_trx demo_stub_kernel demo_sockets) None 5 0 ?w = Some w' \<and>
    sdevs w' 0 = None \<and> drvdata w' 0 = None \<and> \<not> crashed w' \<and> busid_table_ok (busid_table w') \<and>
    get_busid_priv (udev_name (udev demo_stub_kernel 0 (sw_env ?w))) (busid_table w') =
      (if bp_status (busid_table ?w ! 0) = STUB_BUSID_ALLOC then Some 0 else None)"
    using stub_disconnect_frees [OF ok g e(1-3,5) ev(2,1) e(6,7) u rel refl, of None 5] queued in_eh
    by (simp only: if_False not_not if_True simp_thms)
  then show ?thesis unfolding n e(4) by auto
qed

text \<open>A peer that holds a connection can crash the exporting host: a well-formed submission for
  an endpoint the device does not have runs into \<open>BUG()\<close>, and one whose endpoint number is 16 or
  more reads beyond the endpoint array, before anything else of the request is looked at.\<close>

theorem stub_submit_endpoint_fault:
  assumes "valid_request s pdu" "b_command (base pdu) = USBIP_CMD_SUBMIT"
    "eps = (if b_direction (base pdu) = USBIP_DIR_IN then udev_ep_in (udev K (sd_udev (sdev s)) (env s))
        else udev_ep_out (udev K (sd_udev (sdev s)) (env s)))"
    "length eps = 16" "i = unat (b_ep (base pdu) AND 0x7f)" "16 \<le> i \<or> eps ! i = None"
  shows "stub_handle_pdu K pdu s = None"
  using assms by (auto simp: stub_handle_pdu_def stub_recv_cmd_submit_def get_pipe_def Let_def)

theorem stub_submit_endpoint_fault_witness:
  "stub_handle_pdu demo_stub_kernel
     (demo_submit_header\<lparr>base := (base demo_submit_header)\<lparr>b_ep := 5\<rparr>\<rparr>) (demo_stub []) = None"
  by (rule stub_submit_endpoint_fault [of _ _ "udev_ep_in demo_udev" _ 5])
     (simp_all add: valid_request_def demo_submit_header_def demo_stub_def demo_sdev_def demo_ud_def
       demo_stub_kernel_def demo_udev_def)

text \<open>The threads of a new connection run before the device is marked as used: a request that
  arrives in between is refused and tears the connection down.\<close>

theorem stub_early_request_refused:
  assumes "stub_up_threads K sockfd s = (True, s1)" "status (fst (snd (trx_link (trx_ops K) (ud s) sockfd
      (env s)))) = status (ud s)"
  shows "\<exists>s2. stub_handle_pdu K pdu s1 = Some s2 \<and> event (ud s2) \<noteq> 0"
proof -
  have "status (ud s1) = SDEV_ST_AVAILABLE"
    using assms by (auto simp: stub_up_threads_def Let_def split: if_splits prod.splits)
  then show ?thesis by (simp add: stub_handle_pdu_def valid_request_def usbip_event_add_nonzero)
qed

theorem stub_early_request_refused_witness:
  "\<exists>s1 s2. stub_up_threads demo_stub_kernel 4
      ((demo_stub [])\<lparr>ud := demo_ud USBIP_STUB SDEV_ST_AVAILABLE\<rparr>) = (True, s1) \<and>
    stub_handle_pdu demo_stub_kernel demo_unlink_header s1 = Some s2 \<and> event (ud s2) \<noteq> 0"
proof -
  let ?s = "(demo_stub [])\<lparr>ud := demo_ud USBIP_STUB SDEV_ST_AVAILABLE\<rparr>"
  obtain s1 where s1: "stub_up_threads demo_stub_kernel 4 ?s = (True, s1)"
    by (simp add: stub_up_threads_def demo_stub_def demo_stub_kernel_def list_trx_def demo_ud_def)
  have "status (fst (snd (trx_link (trx_ops demo_stub_kernel) (ud ?s) 4 (env ?s)))) = status (ud ?s)"
    by (simp add: demo_stub_kernel_def list_trx_def)
  from stub_early_request_refused [OF s1 this, of demo_unlink_header] s1 show ?thesis by blast
qed

end
