(* ===== verification/Usbip_Ux.thy ===== *)
theory Usbip_Ux
  imports Usbip_Common
begin

text \<open>
  The user space transport, \<open>usbip_ux.c\<close>: the kernel side of a device hands its messages to a
  process that reads them from a character device, and gets the bytes the process writes there.
  A transfer is a rendezvous over the flags of a \<open>struct usbip_ux\<close>.  The theory models both
  sides, shows that the rendezvous moves the bytes unchanged, and discharges the transport
  contract \<open>trx_reliable\<close> for it.
\<close>

section \<open>State\<close>

abbreviation (input) USBIP_UX_INT :: u32 where "USBIP_UX_INT \<equiv> 3"
abbreviation (input) USBIP_UX_TX_INT :: u32 where "USBIP_UX_TX_INT \<equiv> 1"
abbreviation (input) USBIP_UX_RX_INT :: u32 where "USBIP_UX_RX_INT \<equiv> 2"
abbreviation (input) USBIP_UX_REQ :: u32 where "USBIP_UX_REQ \<equiv> 1"
abbreviation (input) USBIP_UX_RSP :: u32 where "USBIP_UX_RSP \<equiv> 2"

text \<open>\<open>struct usbip_ux\<close> without its wait queues and its semaphore; \<open>ux_ud\<close> is the address of the
  device.  The buffers are lists: \<open>ux_tx_buf\<close> what is sent, \<open>ux_rx_buf\<close> what has been stored in
  the receiver's buffer so far.\<close>

record usbip_ux =
  ux_sockfd :: int
  ux_tcp_socket :: "nat option"
  ux_count :: int
  ux_ud :: "nat option"
  ux_pgid :: int
  ux_interrupted :: u32
  ux_tx_flags :: u32
  ux_tx_error :: int
  ux_tx_bytes :: int
  ux_tx_count :: int
  ux_tx_buf :: "u8 list"
  ux_rx_flags :: u32
  ux_rx_error :: int
  ux_rx_bytes :: int
  ux_rx_count :: int
  ux_rx_buf :: "u8 list"

definition USBIP_UX_SET_INT :: "usbip_ux \<Rightarrow> usbip_ux" where
  "USBIP_UX_SET_INT x = x\<lparr>ux_interrupted := USBIP_UX_INT\<rparr>"
definition USBIP_UX_IS_TX_INT :: "usbip_ux \<Rightarrow> bool" where
  "USBIP_UX_IS_TX_INT x = (ux_interrupted x AND USBIP_UX_TX_INT \<noteq> 0)"
definition USBIP_UX_IS_RX_INT :: "usbip_ux \<Rightarrow> bool" where
  "USBIP_UX_IS_RX_INT x = (ux_interrupted x AND USBIP_UX_RX_INT \<noteq> 0)"
definition USBIP_UX_HAS_TX_REQ :: "usbip_ux \<Rightarrow> bool" where
  "USBIP_UX_HAS_TX_REQ x = (ux_tx_flags x AND USBIP_UX_REQ \<noteq> 0)"
definition USBIP_UX_HAS_TX_RSP :: "usbip_ux \<Rightarrow> bool" where
  "USBIP_UX_HAS_TX_RSP x = (ux_tx_flags x AND USBIP_UX_RSP \<noteq> 0)"
definition USBIP_UX_HAS_RX_REQ :: "usbip_ux \<Rightarrow> bool" where
  "USBIP_UX_HAS_RX_REQ x = (ux_rx_flags x AND USBIP_UX_REQ \<noteq> 0)"
definition USBIP_UX_HAS_RX_RSP :: "usbip_ux \<Rightarrow> bool" where
  "USBIP_UX_HAS_RX_RSP x = (ux_rx_flags x AND USBIP_UX_RSP \<noteq> 0)"

text \<open>Clearing the request flag and setting the response flag, and the other way round.\<close>

definition tx_respond :: "usbip_ux \<Rightarrow> usbip_ux" where
  "tx_respond x = x\<lparr>ux_tx_flags := ux_tx_flags x AND NOT USBIP_UX_REQ OR USBIP_UX_RSP\<rparr>"
definition tx_request :: "usbip_ux \<Rightarrow> usbip_ux" where
  "tx_request x = x\<lparr>ux_tx_flags := ux_tx_flags x AND NOT USBIP_UX_RSP OR USBIP_UX_REQ\<rparr>"
definition rx_respond :: "usbip_ux \<Rightarrow> usbip_ux" where
  "rx_respond x = x\<lparr>ux_rx_flags := ux_rx_flags x AND NOT USBIP_UX_REQ OR USBIP_UX_RSP\<rparr>"
definition rx_request :: "usbip_ux \<Rightarrow> usbip_ux" where
  "rx_request x = x\<lparr>ux_rx_flags := ux_rx_flags x AND NOT USBIP_UX_RSP OR USBIP_UX_REQ\<rparr>"

lemmas ux_flag_defs = USBIP_UX_SET_INT_def USBIP_UX_IS_TX_INT_def USBIP_UX_IS_RX_INT_def
  USBIP_UX_HAS_TX_REQ_def USBIP_UX_HAS_TX_RSP_def USBIP_UX_HAS_RX_REQ_def USBIP_UX_HAS_RX_RSP_def
  tx_respond_def tx_request_def rx_respond_def rx_request_def

text \<open>The kernel functions used: the sockets, the allocator, \<open>down_interruptible\<close> (true when a
  signal interrupts it) and the process group of the caller.\<close>

record 'c ux_kernel =
  ux_sockets :: "'c kernel_sockets"
  ux_kmalloc :: "'c kalloc"
  down_interruptible :: "'c \<Rightarrow> bool \<times> 'c"
  task_pgrp_vnr :: "'c \<Rightarrow> int"

text \<open>All structures by their addresses, with the list that links them, and the processes: for each
  structure the calls of \<open>write\<close> and \<open>read\<close> that wait (the buffer or its size, and what
  \<open>copy_from_user\<close> or \<open>copy_to_user\<close> will return), and the bytes the reader got.\<close>

record 'c ux_env =
  kern :: 'c
  uxs :: "nat \<Rightarrow> usbip_ux option"
  usbip_ux_list :: "nat list"
  ux_next :: nat
  user_writes :: "nat \<Rightarrow> (u8 list \<times> int) list"
  user_reads :: "nat \<Rightarrow> (nat \<times> int) list"
  user_got :: "nat \<Rightarrow> u8 list"

definition the_ux :: "nat \<Rightarrow> 'c ux_env \<Rightarrow> usbip_ux" where
  "the_ux i e = the (uxs e i)"

definition upd_ux :: "nat \<Rightarrow> (usbip_ux \<Rightarrow> usbip_ux) \<Rightarrow> 'c ux_env \<Rightarrow> 'c ux_env" where
  "upd_ux i f e = e\<lparr>uxs := (uxs e)(i \<mapsto> f (the_ux i e))\<rparr>"

section \<open>References\<close>

definition usbip_ux_is_linked :: "usbip_ux \<Rightarrow> bool" where
  "usbip_ux_is_linked x = (ux_ud x \<noteq> None)"

definition down :: "'c ux_kernel \<Rightarrow> 'c ux_env \<Rightarrow> bool \<times> 'c ux_env" where
  "down K e = (let (sig, c) = down_interruptible K (kern e) in (sig, e\<lparr>kern := c\<rparr>))"

definition usbip_ux_get :: "'c ux_kernel \<Rightarrow> nat \<Rightarrow> 'c ux_env \<Rightarrow> int \<times> 'c ux_env" where
  "usbip_ux_get K i e =
     (let (sig, e1) = down K e in
      if sig then (- ERESTARTSYS, e1)
      else if \<not> usbip_ux_is_linked (the_ux i e1) then (- EINTR, e1)
      else (0, upd_ux i (\<lambda>x. x\<lparr>ux_count := ux_count x + 1\<rparr>) e1))"

definition usbip_ux_put :: "nat \<Rightarrow> 'c ux_env \<Rightarrow> 'c ux_env" where
  "usbip_ux_put i e = upd_ux i (\<lambda>x. x\<lparr>ux_count := ux_count x - 1\<rparr>) e"

text \<open>The condition \<open>usbip_ux_wait_unused\<close> waits for.\<close>

definition usbip_ux_unused :: "usbip_ux \<Rightarrow> bool" where
  "usbip_ux_unused x = (ux_count x \<le> 0)"

section \<open>The process side\<close>

text \<open>A wait whose condition does not hold ends with a signal.\<close>

definition wait_interruptible :: "bool \<Rightarrow> int" where
  "wait_interruptible cond = (if cond then 0 else - ERESTARTSYS)"

text \<open>\<open>read\<close> of \<open>blen\<close> bytes, \<open>fault\<close> being the result of \<open>copy_to_user\<close>: the bytes the process
  gets are appended to \<open>user_got\<close>.\<close>

definition usbip_ux_read :: "'c ux_kernel \<Rightarrow> nat \<Rightarrow> nat \<Rightarrow> int \<Rightarrow> 'c ux_env \<Rightarrow> int \<times> 'c ux_env" where
  "usbip_ux_read K i blen fault e =
     (let (ret, e1) = usbip_ux_get K i (upd_ux i (\<lambda>x. x\<lparr>ux_tx_error := 0\<rparr>) e) in
      if ret \<noteq> 0 then (ret, e1)
      else let x = the_ux i e1;
               ret2 = (if USBIP_UX_IS_TX_INT x then - ERESTARTSYS
                       else wait_interruptible (USBIP_UX_HAS_TX_REQ x)) in
      if ret2 \<noteq> 0 then
        (ret2, usbip_ux_put i (upd_ux i (\<lambda>x. tx_respond (x\<lparr>ux_tx_error := ret2\<rparr>)) e1))
      else let bytes = min (int blen) (ux_tx_bytes x - ux_tx_count x) in
      if fault > 0 then
        (- EIO, usbip_ux_put i (upd_ux i (\<lambda>x. tx_respond (x\<lparr>ux_tx_error := - EIO\<rparr>)) e1))
      else let data = slice (nat (ux_tx_count x)) (nat bytes) (ux_tx_buf x);
               x1 = x\<lparr>ux_tx_count := ux_tx_count x + bytes\<rparr>;
               x2 = (if ux_tx_count x1 \<ge> ux_tx_bytes x1 then tx_respond x1 else x1);
               e2 = (upd_ux i (\<lambda>_. x2) e1)\<lparr>user_got := (user_got e1)(i := user_got e1 i @ data)\<rparr>
           in (bytes, usbip_ux_put i e2))"

definition usbip_ux_write ::
  "'c ux_kernel \<Rightarrow> nat \<Rightarrow> u8 list \<Rightarrow> int \<Rightarrow> 'c ux_env \<Rightarrow> int \<times> 'c ux_env" where
  "usbip_ux_write K i buf fault e =
     (let (ret, e1) = usbip_ux_get K i e in
      if ret \<noteq> 0 then (ret, e1)
      else let e2 = upd_ux i (\<lambda>x. x\<lparr>ux_rx_error := 0\<rparr>) e1; x = the_ux i e2;
               ret2 = (if USBIP_UX_IS_RX_INT x then - ERESTARTSYS
                       else wait_interruptible (USBIP_UX_HAS_RX_REQ x)) in
      if ret2 \<noteq> 0 then
        (ret2, usbip_ux_put i (upd_ux i (\<lambda>x. rx_respond (x\<lparr>ux_rx_error := ret2\<rparr>)) e2))
      else let bytes = min (int (length buf)) (ux_rx_bytes x - ux_rx_count x) in
      if fault > 0 then
        (- EIO, usbip_ux_put i (upd_ux i (\<lambda>x. rx_respond (x\<lparr>ux_rx_error := - EIO\<rparr>)) e2))
      else (bytes, usbip_ux_put i (upd_ux i (\<lambda>x. rx_respond (x\<lparr>
              ux_rx_buf := ux_rx_buf x @ take (nat bytes) buf,
              ux_rx_count := ux_rx_count x + bytes\<rparr>)) e2)))"

section \<open>Sending\<close>

text \<open>While the kernel waits for the response, the calls of \<open>read\<close> that wait are served; a call that
  was served is gone.  The wait ends when the response is there or the connection is
  interrupted, and with a signal when no call is left.\<close>

fun serve_reads :: "'c ux_kernel \<Rightarrow> nat \<Rightarrow> (nat \<times> int) list \<Rightarrow> 'c ux_env \<Rightarrow> (nat \<times> int) list \<times> 'c ux_env" where
  "serve_reads K i rs e =
     (if USBIP_UX_HAS_TX_RSP (the_ux i e) \<or> USBIP_UX_IS_TX_INT (the_ux i e) then (rs, e)
      else case rs of
        [] \<Rightarrow> ([], e)
      | (blen, fault) # rs' \<Rightarrow> serve_reads K i rs' (snd (usbip_ux_read K i blen fault e)))"

declare serve_reads.simps [simp del]

definition usbip_ux_sendvec :: "'c ux_kernel \<Rightarrow> nat \<Rightarrow> u8 list \<Rightarrow> 'c ux_env \<Rightarrow> int \<times> 'c ux_env" where
  "usbip_ux_sendvec K i vec e =
     (let e1 = upd_ux i (\<lambda>x. tx_request (x\<lparr>ux_tx_buf := vec, ux_tx_bytes := int (length vec),
              ux_tx_count := 0, ux_tx_error := 0\<rparr>)) e;
          (rs, e2) = serve_reads K i (user_reads e1 i) e1;
          e3 = e2\<lparr>user_reads := (user_reads e2)(i := rs)\<rparr>;
          x = the_ux i e3;
          ret = wait_interruptible (USBIP_UX_HAS_TX_RSP x \<or> USBIP_UX_IS_TX_INT x) in
      if USBIP_UX_IS_TX_INT x then (- ERESTARTSYS, e3)
      else if ret \<noteq> 0 then (ret, e3)
      else (ux_tx_error x, e3))"

fun ux_send_vecs :: "'c ux_kernel \<Rightarrow> nat \<Rightarrow> u8 list list \<Rightarrow> int \<Rightarrow> 'c ux_env \<Rightarrow> int \<times> 'c ux_env" where
  "ux_send_vecs K i [] sent e = (sent, usbip_ux_put i e)"
| "ux_send_vecs K i (v # vs) sent e =
     (let (ret, e1) = usbip_ux_sendvec K i v e in
      if ret \<noteq> 0 then (ret, usbip_ux_put i e1)
      else ux_send_vecs K i vs (sent + ux_tx_count (the_ux i e1)) e1)"

definition usbip_ux_sendmsg ::
  "'c ux_kernel \<Rightarrow> usbip_device \<Rightarrow> u8 list list \<Rightarrow> 'c ux_env \<Rightarrow> int \<times> 'c ux_env" where
  "usbip_ux_sendmsg K d vec e = (case ux d of
     None \<Rightarrow> (0, e)
   | Some i \<Rightarrow>
       let (ret, e1) = usbip_ux_get K i e in
       if ret \<noteq> 0 then (ret, e1) else ux_send_vecs K i vec 0 e1)"

section \<open>Receiving\<close>

text \<open>While the kernel waits, one call of \<open>write\<close> is served; the process calls again with the bytes
  that were not taken.\<close>

definition serve_write :: "'c ux_kernel \<Rightarrow> nat \<Rightarrow> 'c ux_env \<Rightarrow> 'c ux_env" where
  "serve_write K i e =
     (if USBIP_UX_HAS_RX_RSP (the_ux i e) \<or> USBIP_UX_IS_RX_INT (the_ux i e) then e
      else case user_writes e i of
        [] \<Rightarrow> e
      | (buf, fault) # ws \<Rightarrow>
          let (ret, e1) = usbip_ux_write K i buf fault e;
              rest = drop (nat ret) buf;
              ws' = (if ret < 0 then ws else if rest = [] then ws else (rest, fault) # ws)
          in e1\<lparr>user_writes := (user_writes e1)(i := ws')\<rparr>)"

definition usbip_ux_recvvec :: "'c ux_kernel \<Rightarrow> nat \<Rightarrow> int \<Rightarrow> 'c ux_env \<Rightarrow> int \<times> 'c ux_env" where
  "usbip_ux_recvvec K i len e =
     (let e1 = upd_ux i (\<lambda>x. rx_request (x\<lparr>ux_rx_buf := [], ux_rx_bytes := len,
              ux_rx_count := 0, ux_rx_error := 0\<rparr>)) e;
          e2 = serve_write K i e1; x = the_ux i e2;
          ret = wait_interruptible (USBIP_UX_HAS_RX_RSP x \<or> USBIP_UX_IS_RX_INT x) in
      if USBIP_UX_IS_RX_INT x then (- ERESTARTSYS, e2)
      else if ret \<noteq> 0 then (ret, e2)
      else (ux_rx_error x, e2))"

text \<open>The callers receive into one buffer.\<close>

definition usbip_ux_recvmsg ::
  "'c ux_kernel \<Rightarrow> usbip_device \<Rightarrow> int \<Rightarrow> 'c ux_env \<Rightarrow> int \<times> u8 list \<times> 'c ux_env" where
  "usbip_ux_recvmsg K d sz e = (case ux d of
     None \<Rightarrow> (0, [], e)
   | Some i \<Rightarrow>
       let (ret, e1) = usbip_ux_get K i e in
       if ret \<noteq> 0 then (ret, [], e1)
       else let (ret2, e2) = usbip_ux_recvvec K i sz e1; x = the_ux i e2 in
         if ret2 \<noteq> 0 then (ret2, ux_rx_buf x, usbip_ux_put i e2)
         else (ux_rx_count x, ux_rx_buf x, usbip_ux_put i e2))"

section \<open>Life of a structure\<close>

abbreviation (input) sizeof_usbip_ux :: nat where "sizeof_usbip_ux \<equiv> 320"

definition zero_ux :: usbip_ux where
  "zero_ux = \<lparr>ux_sockfd = 0, ux_tcp_socket = None, ux_count = 0, ux_ud = None, ux_pgid = 0,
     ux_interrupted = 0, ux_tx_flags = 0, ux_tx_error = 0, ux_tx_bytes = 0, ux_tx_count = 0,
     ux_tx_buf = [], ux_rx_flags = 0, ux_rx_error = 0, ux_rx_bytes = 0, ux_rx_count = 0,
     ux_rx_buf = []\<rparr>"

definition usbip_ux_new :: "'c ux_kernel \<Rightarrow> 'c ux_env \<Rightarrow> int \<times> nat option \<times> 'c ux_env" where
  "usbip_ux_new K e =
     (let (ok, c) = ux_kmalloc K sizeof_usbip_ux (kern e); e1 = e\<lparr>kern := c\<rparr> in
      if \<not> ok then (- ENOMEM, None, e1)
      else let i = ux_next e1;
               e2 = e1\<lparr>ux_next := Suc i,
                  uxs := (uxs e1)(i \<mapsto> zero_ux\<lparr>ux_pgid := task_pgrp_vnr K c\<rparr>)\<rparr>;
               (sig, e3) = down K e2 in
      if sig then (- ERESTARTSYS, None, e3)
      else (0, Some i, e3\<lparr>usbip_ux_list := usbip_ux_list e3 @ [i]\<rparr>))"

definition usbip_ux_open :: "'c ux_kernel \<Rightarrow> 'c ux_env \<Rightarrow> int \<times> nat option \<times> 'c ux_env" where
  "usbip_ux_open K e = (case usbip_ux_new K e of
     (ret, None, e1) \<Rightarrow> (- ENOMEM, None, e1)
   | (ret, Some i, e1) \<Rightarrow> (0, Some i, e1))"

definition usbip_ux_delete :: "'c ux_kernel \<Rightarrow> nat \<Rightarrow> 'c ux_env \<Rightarrow> int \<times> 'c ux_env" where
  "usbip_ux_delete K i e =
     (let e1 = upd_ux i USBIP_UX_SET_INT e in
      if wait_interruptible (\<not> usbip_ux_is_linked (the_ux i e1)) \<noteq> 0 then (- ERESTARTSYS, e1)
      else let (sig, e2) = down K e1 in
      if sig then (- ERESTARTSYS, e2)
      else let (sig2, e3) = down K e2 in
      if sig2 then (- ERESTARTSYS, e3)
      else (0, e3\<lparr>usbip_ux_list := filter (\<lambda>j. j \<noteq> i) (usbip_ux_list e3),
                  uxs := (uxs e3)(i := None)\<rparr>))"

definition usbip_ux_release :: "'c ux_kernel \<Rightarrow> nat \<Rightarrow> 'c ux_env \<Rightarrow> int \<times> 'c ux_env" where
  "usbip_ux_release K i e = usbip_ux_delete K i e"

definition usbip_ux_link ::
  "'c ux_kernel \<Rightarrow> usbip_device \<Rightarrow> int \<Rightarrow> 'c ux_env \<Rightarrow> int \<times> usbip_device \<times> 'c ux_env" where
  "usbip_ux_link K d sockfd e =
     (let (ret, d1, c) = usbip_kernel_link (ux_sockets K) d sockfd (kern e); e1 = e\<lparr>kern := c\<rparr> in
      if ret \<noteq> 0 then (ret, d1, e1)
      else let (sig, e2) = down K e1 in
      if sig then (- ERESTARTSYS, d1, e2)
      else case find (\<lambda>i. ux_tcp_socket (the_ux i e2) = tcp_socket d1) (usbip_ux_list e2) of
        Some i \<Rightarrow> (0, d1\<lparr>ux := Some i\<rparr>, upd_ux i (\<lambda>x. x\<lparr>ux_ud := Some (ud_id d1)\<rparr>) e2)
      | None \<Rightarrow> (- EINVAL, d1, e2))"

definition usbip_ux_unlink ::
  "'c ux_kernel \<Rightarrow> usbip_device \<Rightarrow> 'c ux_env \<Rightarrow> int \<times> usbip_device \<times> 'c ux_env" where
  "usbip_ux_unlink K d e = (case ux d of
     None \<Rightarrow> (- EINVAL, d, e)
   | Some i \<Rightarrow>
       let e1 = upd_ux i USBIP_UX_SET_INT e; (sig, e2) = down K e1 in
       if sig then (- ERESTARTSYS, d, e2)
       else if wait_interruptible (usbip_ux_unused (the_ux i e2)) \<noteq> 0 then (- ERESTARTSYS, d, e2)
       else (0, d\<lparr>ux := None\<rparr>, upd_ux i (\<lambda>x. x\<lparr>ux_ud := None\<rparr>) e2))"

definition usbip_trx_user_ops :: "'c ux_kernel \<Rightarrow> 'c ux_env usbip_trx_operations" where
  "usbip_trx_user_ops K = \<lparr>trx_sendmsg = usbip_ux_sendmsg K, trx_recvmsg = usbip_ux_recvmsg K,
     trx_link = usbip_ux_link K, trx_unlink = usbip_ux_unlink K\<rparr>"

section \<open>Control requests of the process\<close>

definition usbip_ux_set_sockfd :: "'c ux_kernel \<Rightarrow> nat \<Rightarrow> int \<Rightarrow> 'c ux_env \<Rightarrow> int \<times> 'c ux_env" where
  "usbip_ux_set_sockfd K i sockfd e =
     (if ux_sockfd (the_ux i e) \<noteq> 0 then (- EBUSY, e)
      else let (sk, c) = sockfd_lookup (ux_sockets K) sockfd (kern e);
               e1 = upd_ux i (\<lambda>x. x\<lparr>ux_tcp_socket := sk\<rparr>) (e\<lparr>kern := c\<rparr>) in
      if sk = None then (- EINVAL, e1)
      else (0, upd_ux i (\<lambda>x. x\<lparr>ux_sockfd := sockfd\<rparr>) e1))"

definition usbip_ux_interrupt :: "nat \<Rightarrow> 'c ux_env \<Rightarrow> int \<times> 'c ux_env" where
  "usbip_ux_interrupt i e = (0, upd_ux i USBIP_UX_SET_INT e)"

definition usbip_ux_interrupt_pgrp :: "'c ux_kernel \<Rightarrow> 'c ux_env \<Rightarrow> int \<times> 'c ux_env" where
  "usbip_ux_interrupt_pgrp K e =
     (let pgid = task_pgrp_vnr K (kern e); (sig, e1) = down K e in
      if sig then (- ERESTARTSYS, e1)
      else (0, foldl (\<lambda>e i. if ux_pgid (the_ux i e) = pgid then snd (usbip_ux_interrupt i e) else e)
             e1 (usbip_ux_list e1)))"

datatype ux_ioctl = USBIP_UX_IOCSETSOCKFD int | USBIP_UX_IOCINTR | USBIP_UX_IOCINTRPGRP
  | USBIP_UX_IOCGETKADDR bool | UX_IOC_OTHER

text \<open>\<open>access\<close>: the memory the request names is accessible.  \<open>IOCGETKADDR\<close> carries whether the copy
  to the process succeeds; the addresses it prints are not part of the state.\<close>

definition usbip_ux_ioctl ::
  "'c ux_kernel \<Rightarrow> bool \<Rightarrow> nat \<Rightarrow> ux_ioctl \<Rightarrow> 'c ux_env \<Rightarrow> int \<times> 'c ux_env" where
  "usbip_ux_ioctl K acc i cmd e =
     (if \<not> acc then (- EFAULT, e)
      else let (_, e1) = usbip_ux_get K i e;
               (ret, e2) = (case cmd of
                   USBIP_UX_IOCSETSOCKFD fd \<Rightarrow> usbip_ux_set_sockfd K i fd e1
                 | USBIP_UX_IOCINTR \<Rightarrow> usbip_ux_interrupt i e1
                 | USBIP_UX_IOCINTRPGRP \<Rightarrow> usbip_ux_interrupt_pgrp K e1
                 | USBIP_UX_IOCGETKADDR copied \<Rightarrow> (if copied then 0 else - EFAULT, e1)
                 | UX_IOC_OTHER \<Rightarrow> (- EINVAL, e1))
           in (ret, usbip_ux_put i e2))"

section \<open>Facts on the flags\<close>

lemma rx_request_flags [simp]:
  "USBIP_UX_HAS_RX_REQ (rx_request x)" "\<not> USBIP_UX_HAS_RX_RSP (rx_request x)"
  "USBIP_UX_IS_RX_INT (rx_request x) = USBIP_UX_IS_RX_INT x"
  by (simp_all add: ux_flag_defs and.assoc bit.conj_disj_distrib2)

lemma rx_respond_flags [simp]:
  "USBIP_UX_HAS_RX_RSP (rx_respond x)" "USBIP_UX_IS_RX_INT (rx_respond x) = USBIP_UX_IS_RX_INT x"
  by (simp_all add: ux_flag_defs and.assoc bit.conj_disj_distrib2)

lemma tx_request_flags [simp]:
  "USBIP_UX_HAS_TX_REQ (tx_request x)" "\<not> USBIP_UX_HAS_TX_RSP (tx_request x)"
  "USBIP_UX_IS_TX_INT (tx_request x) = USBIP_UX_IS_TX_INT x"
  by (simp_all add: ux_flag_defs and.assoc bit.conj_disj_distrib2)

lemma tx_respond_flags [simp]:
  "USBIP_UX_HAS_TX_RSP (tx_respond x)" "USBIP_UX_IS_TX_INT (tx_respond x) = USBIP_UX_IS_TX_INT x"
  by (simp_all add: ux_flag_defs and.assoc bit.conj_disj_distrib2)

lemma rx_req_sel [simp]:
  "ux_rx_buf (rx_request x) = ux_rx_buf x" "ux_rx_bytes (rx_request x) = ux_rx_bytes x"
  "ux_rx_count (rx_request x) = ux_rx_count x" "ux_rx_error (rx_request x) = ux_rx_error x"
  "ux_ud (rx_request x) = ux_ud x" "ux_count (rx_request x) = ux_count x"
  "ux_interrupted (rx_request x) = ux_interrupted x"
  by (simp_all add: rx_request_def)

lemma rx_rsp_sel [simp]:
  "ux_rx_buf (rx_respond x) = ux_rx_buf x" "ux_rx_bytes (rx_respond x) = ux_rx_bytes x"
  "ux_rx_count (rx_respond x) = ux_rx_count x" "ux_rx_error (rx_respond x) = ux_rx_error x"
  "ux_ud (rx_respond x) = ux_ud x" "ux_count (rx_respond x) = ux_count x"
  "ux_interrupted (rx_respond x) = ux_interrupted x"
  by (simp_all add: rx_respond_def)

lemma tx_req_sel [simp]:
  "ux_tx_buf (tx_request x) = ux_tx_buf x" "ux_tx_bytes (tx_request x) = ux_tx_bytes x"
  "ux_tx_count (tx_request x) = ux_tx_count x" "ux_tx_error (tx_request x) = ux_tx_error x"
  "ux_ud (tx_request x) = ux_ud x" "ux_count (tx_request x) = ux_count x"
  "ux_interrupted (tx_request x) = ux_interrupted x"
  by (simp_all add: tx_request_def)

lemma tx_rsp_sel [simp]:
  "ux_tx_buf (tx_respond x) = ux_tx_buf x" "ux_tx_bytes (tx_respond x) = ux_tx_bytes x"
  "ux_tx_count (tx_respond x) = ux_tx_count x" "ux_tx_error (tx_respond x) = ux_tx_error x"
  "ux_ud (tx_respond x) = ux_ud x" "ux_count (tx_respond x) = ux_count x"
  "ux_interrupted (tx_respond x) = ux_interrupted x"
  by (simp_all add: tx_respond_def)

lemma the_ux_upd [simp]:
  "the_ux i (upd_ux i f e) = f (the_ux i e)" "kern (upd_ux i f e) = kern e"
  "user_writes (upd_ux i f e) = user_writes e" "user_reads (upd_ux i f e) = user_reads e"
  "user_got (upd_ux i f e) = user_got e"
  by (simp_all add: the_ux_def upd_ux_def)

lemma the_ux_frame [simp]:
  "the_ux i (e\<lparr>kern := c\<rparr>) = the_ux i e" "the_ux i (e\<lparr>user_writes := w\<rparr>) = the_ux i e"
  "the_ux i (e\<lparr>user_reads := r\<rparr>) = the_ux i e" "the_ux i (e\<lparr>user_got := g\<rparr>) = the_ux i e"
  by (simp_all add: the_ux_def)

lemma the_ux_put [simp]:
  "the_ux i (usbip_ux_put i e) = (the_ux i e)\<lparr>ux_count := ux_count (the_ux i e) - 1\<rparr>"
  "user_writes (usbip_ux_put i e) = user_writes e" "user_reads (usbip_ux_put i e) = user_reads e"
  "user_got (usbip_ux_put i e) = user_got e"
  by (simp_all add: usbip_ux_put_def)

text \<open>A reference is taken when no signal comes and the structure is linked.\<close>

lemma usbip_ux_get_cases:
  assumes "usbip_ux_get K i e = (r, e')"
  obtains (fail) c where "r < 0" "e' = e\<lparr>kern := c\<rparr>"
      "fst (down_interruptible K (kern e)) \<or> ux_ud (the_ux i e) = None"
  | (ok) c where "r = 0" "ux_ud (the_ux i e) \<noteq> None"
      "e' = upd_ux i (\<lambda>x. x\<lparr>ux_count := ux_count x + 1\<rparr>) (e\<lparr>kern := c\<rparr>)"
  using assms by (auto simp: usbip_ux_get_def down_def Let_def usbip_ux_is_linked_def
      split: prod.splits if_splits)

section \<open>Receiving moves the bytes\<close>

definition rest_writes :: "u8 list \<Rightarrow> int \<Rightarrow> (u8 list \<times> int) list \<Rightarrow> (u8 list \<times> int) list" where
  "rest_writes rest fault ws = (if rest = [] then ws else (rest, fault) # ws)"

lemma concat_rest_writes: "concat (map fst (rest_writes rest fault ws)) = rest @ concat (map fst ws)"
  by (simp add: rest_writes_def)

lemma usbip_ux_write_waiting:
  assumes w: "usbip_ux_write K i buf fault e = (ret, e')"
    and x: "USBIP_UX_HAS_RX_REQ (the_ux i e)" "\<not> USBIP_UX_HAS_RX_RSP (the_ux i e)"
      "\<not> USBIP_UX_IS_RX_INT (the_ux i e)" "ux_rx_count (the_ux i e) = 0" "ux_rx_buf (the_ux i e) = []"
      "ux_rx_error (the_ux i e) = 0"
  shows "ux_rx_error (the_ux i e') \<le> 0 \<and> user_writes e' = user_writes e \<and> \<not> USBIP_UX_IS_RX_INT (the_ux i e') \<and>
    ux_ud (the_ux i e') = ux_ud (the_ux i e) \<and>
    (USBIP_UX_HAS_RX_RSP (the_ux i e') \<and> ux_rx_error (the_ux i e') = 0 \<longrightarrow>
       ret = min (int (length buf)) (ux_rx_bytes (the_ux i e)) \<and>
       ux_rx_count (the_ux i e') = ret \<and> ux_rx_buf (the_ux i e') = take (nat ret) buf) \<and>
    (\<not> fst (down_interruptible K (kern e)) \<and> ux_ud (the_ux i e) \<noteq> None \<and> \<not> fault > 0 \<longrightarrow>
       USBIP_UX_HAS_RX_RSP (the_ux i e') \<and> ux_rx_error (the_ux i e') = 0)"
proof -
  have int: "USBIP_UX_IS_RX_INT (y\<lparr>ux_rx_error := z\<rparr>) = USBIP_UX_IS_RX_INT y"
    "USBIP_UX_IS_RX_INT (y\<lparr>ux_count := n\<rparr>) = USBIP_UX_IS_RX_INT y"
    "USBIP_UX_HAS_RX_REQ (y\<lparr>ux_rx_error := z\<rparr>) = USBIP_UX_HAS_RX_REQ y"
    "USBIP_UX_HAS_RX_REQ (y\<lparr>ux_count := n\<rparr>) = USBIP_UX_HAS_RX_REQ y"
    "USBIP_UX_HAS_RX_RSP (y\<lparr>ux_count := n\<rparr>) = USBIP_UX_HAS_RX_RSP y"
    "USBIP_UX_IS_RX_INT (y\<lparr>ux_rx_buf := b\<rparr>) = USBIP_UX_IS_RX_INT y"
    "USBIP_UX_IS_RX_INT (y\<lparr>ux_rx_count := n\<rparr>) = USBIP_UX_IS_RX_INT y" for y z n b
    by (simp_all add: ux_flag_defs)
  obtain r e1 where g: "usbip_ux_get K i e = (r, e1)" by fastforce
  from g show ?thesis
  proof (cases rule: usbip_ux_get_cases)
    case (fail c)
    then show ?thesis using w g x by (auto simp: usbip_ux_write_def)
  next
    case (ok c)
    then show ?thesis using w g x
      by (auto simp: usbip_ux_write_def Let_def wait_interruptible_def int split: if_splits)
  qed
qed

lemma usbip_ux_recvmsg_spec:
  assumes rm: "usbip_ux_recvmsg K d n e = (r, bs, e')" and n: "0 < n" and i: "ux d = Some i"
  shows "0 < r \<Longrightarrow> \<exists>buf fault ws. user_writes e i = (buf, fault) # ws \<and>
      r = min (int (length buf)) n \<and> bs = take (nat r) buf \<and>
      user_writes e' i = rest_writes (drop (nat r) buf) fault ws"
    and "user_writes e i = (buf, 0) # ws \<Longrightarrow> buf \<noteq> [] \<Longrightarrow> (\<And>c. \<not> fst (down_interruptible K c)) \<Longrightarrow>
      ux_ud (the_ux i e) \<noteq> None \<Longrightarrow> \<not> USBIP_UX_IS_RX_INT (the_ux i e) \<Longrightarrow>
      0 < r \<and> ux_ud (the_ux i e') \<noteq> None \<and> \<not> USBIP_UX_IS_RX_INT (the_ux i e')"
proof -
  have int: "USBIP_UX_IS_RX_INT (y\<lparr>ux_rx_error := z\<rparr>) = USBIP_UX_IS_RX_INT y"
    "USBIP_UX_IS_RX_INT (y\<lparr>ux_count := m\<rparr>) = USBIP_UX_IS_RX_INT y"
    "USBIP_UX_IS_RX_INT (y\<lparr>ux_rx_buf := b\<rparr>) = USBIP_UX_IS_RX_INT y"
    "USBIP_UX_IS_RX_INT (y\<lparr>ux_rx_bytes := m\<rparr>) = USBIP_UX_IS_RX_INT y"
    "USBIP_UX_IS_RX_INT (y\<lparr>ux_rx_count := m\<rparr>) = USBIP_UX_IS_RX_INT y" for y z m b
    by (simp_all add: ux_flag_defs)
  obtain r0 e0 where g: "usbip_ux_get K i e = (r0, e0)" by fastforce
  let ?req = "\<lambda>x. rx_request (x\<lparr>ux_rx_buf := [], ux_rx_bytes := n, ux_rx_count := 0, ux_rx_error := 0\<rparr>)"
  let ?e1 = "upd_ux i ?req e0"
  let ?e2 = "serve_write K i ?e1"
  have rm0: "if r0 \<noteq> 0 then (r, bs, e') = (r0, [], e0)
      else if USBIP_UX_IS_RX_INT (the_ux i ?e2) \<or> \<not> USBIP_UX_HAS_RX_RSP (the_ux i ?e2) then r < 0
      else if ux_rx_error (the_ux i ?e2) \<noteq> 0 then r = ux_rx_error (the_ux i ?e2)
      else r = ux_rx_count (the_ux i ?e2) \<and> bs = ux_rx_buf (the_ux i ?e2) \<and>
        user_writes e' = user_writes ?e2 \<and> ux_ud (the_ux i e') = ux_ud (the_ux i ?e2) \<and>
        ux_interrupted (the_ux i e') = ux_interrupted (the_ux i ?e2)"
    using rm g i
    by (auto simp: usbip_ux_recvmsg_def usbip_ux_recvvec_def Let_def wait_interruptible_def
        split: if_splits)
  have x1: "USBIP_UX_HAS_RX_REQ (the_ux i ?e1)" "\<not> USBIP_UX_HAS_RX_RSP (the_ux i ?e1)"
    "ux_rx_count (the_ux i ?e1) = 0" "ux_rx_buf (the_ux i ?e1) = []" "ux_rx_bytes (the_ux i ?e1) = n"
    "ux_rx_error (the_ux i ?e1) = 0" by simp_all
  have e0: "r0 = 0 \<Longrightarrow> user_writes ?e1 = user_writes e \<and> ux_ud (the_ux i ?e1) = ux_ud (the_ux i e) \<and>
      USBIP_UX_IS_RX_INT (the_ux i ?e1) = USBIP_UX_IS_RX_INT (the_ux i e)"
    using g by (cases rule: usbip_ux_get_cases) (simp_all add: int)
  show "\<exists>buf fault ws. user_writes e i = (buf, fault) # ws \<and>
      r = min (int (length buf)) n \<and> bs = take (nat r) buf \<and>
      user_writes e' i = rest_writes (drop (nat r) buf) fault ws" if r: "0 < r"
  proof -
    have r0: "r0 = 0" using g rm0 r by (cases rule: usbip_ux_get_cases) (auto split: if_splits)
    have ni: "\<not> USBIP_UX_IS_RX_INT (the_ux i ?e2)" "USBIP_UX_HAS_RX_RSP (the_ux i ?e2)"
      using rm0 r r0 by (auto split: if_splits)
    have ni1: "\<not> USBIP_UX_IS_RX_INT (the_ux i ?e1)"
    proof
      assume "USBIP_UX_IS_RX_INT (the_ux i ?e1)"
      then have "?e2 = ?e1" by (simp only: serve_write_def) simp
      then show False using ni x1 by simp
    qed
    obtain buf fault ws where ws: "user_writes ?e1 i = (buf, fault) # ws"
    proof (cases "user_writes ?e1 i")
      case Nil
      then have "?e2 = ?e1" by (simp only: serve_write_def) simp
      then show thesis using ni x1 by simp
    qed (use that in auto)
    obtain ret e3 where w: "usbip_ux_write K i buf fault ?e1 = (ret, e3)" by fastforce
    note s = usbip_ux_write_waiting [OF w x1(1,2) ni1 x1(3,4,6)]
    have e2: "?e2 = e3\<lparr>user_writes := (user_writes e3)(i := if ret < 0 then ws
        else rest_writes (drop (nat ret) buf) fault ws)\<rparr>"
      using ws w x1(2) ni1 by (simp only: serve_write_def) (simp add: rest_writes_def)
    then have y: "the_ux i ?e2 = the_ux i e3" by (simp del: the_ux_upd)
    have err: "ux_rx_error (the_ux i e3) = 0"
      using rm0 r r0 ni s y by (auto simp del: the_ux_upd split: if_splits)
    have ret: "ret = min (int (length buf)) n" "ux_rx_count (the_ux i e3) = ret"
      "ux_rx_buf (the_ux i e3) = take (nat ret) buf"
      using s err ni y x1(5) by (auto simp del: the_ux_upd)
    have f: "r = ret" "bs = take (nat ret) buf" "user_writes e' = user_writes ?e2"
      using rm0 r0 ni err ret y by (simp_all del: the_ux_upd)
    have "user_writes e' i = rest_writes (drop (nat r) buf) fault ws"
      using f r by (simp add: e2)
    then show ?thesis using f ret ws e0 [OF r0] by auto
  qed
  show "0 < r \<and> ux_ud (the_ux i e') \<noteq> None \<and> \<not> USBIP_UX_IS_RX_INT (the_ux i e')"
    if h: "user_writes e i = (buf, 0) # ws" "buf \<noteq> []" "\<And>c. \<not> fst (down_interruptible K c)"
      "ux_ud (the_ux i e) \<noteq> None" "\<not> USBIP_UX_IS_RX_INT (the_ux i e)"
  proof -
    have r0: "r0 = 0" using g h(3,4) by (cases rule: usbip_ux_get_cases) auto
    note e1 = e0 [OF r0]
    have ni1: "\<not> USBIP_UX_IS_RX_INT (the_ux i ?e1)" using e1 h(5) by blast
    have ws: "user_writes ?e1 i = (buf, 0) # ws" using e1 h(1) by (simp only:)
    obtain ret e3 where w: "usbip_ux_write K i buf 0 ?e1 = (ret, e3)" by fastforce
    note s = usbip_ux_write_waiting [OF w x1(1,2) ni1 x1(3,4,6)]
    have e2: "?e2 = e3\<lparr>user_writes := (user_writes e3)(i := if ret < 0 then ws
        else rest_writes (drop (nat ret) buf) 0 ws)\<rparr>"
      using ws w x1(2) ni1 by (simp only: serve_write_def) (simp add: rest_writes_def)
    then have y: "the_ux i ?e2 = the_ux i e3" by (simp del: the_ux_upd)
    have "ux_ud (the_ux i ?e1) \<noteq> None" using e1 h(4) by metis
    then have t: "USBIP_UX_HAS_RX_RSP (the_ux i e3) \<and> ux_rx_error (the_ux i e3) = 0"
      using s h(3) by (simp del: the_ux_upd)
    then have ret: "ret = min (int (length buf)) n" "ux_rx_count (the_ux i e3) = ret"
      using s x1(5) by (auto simp del: the_ux_upd)
    have "r = ret \<and> ux_ud (the_ux i e') = ux_ud (the_ux i e3) \<and>
        ux_interrupted (the_ux i e') = ux_interrupted (the_ux i e3)"
      using rm0 r0 t s y ret by (simp del: the_ux_upd)
    then show ?thesis using ret n h(2) s e1 h(4,5)
      by (auto simp: USBIP_UX_IS_RX_INT_def simp del: the_ux_upd)
  qed
qed

section \<open>The transport contract\<close>

text \<open>The bytes the process has to write.\<close>

definition ux_stream :: "usbip_device \<Rightarrow> 'c ux_env \<Rightarrow> u8 list" where
  "ux_stream d e = (case ux d of None \<Rightarrow> [] | Some i \<Rightarrow> concat (map fst (user_writes e i)))"

text \<open>A connection is live when it is linked and not interrupted, no signal comes, and the process
  writes from good buffers, none of them empty.\<close>

definition ux_live :: "'c ux_kernel \<Rightarrow> usbip_device \<Rightarrow> 'c ux_env \<Rightarrow> bool" where
  "ux_live K d e = (case ux d of None \<Rightarrow> False | Some i \<Rightarrow>
     (\<forall>c. \<not> fst (down_interruptible K c)) \<and> ux_ud (the_ux i e) \<noteq> None \<and>
     \<not> USBIP_UX_IS_RX_INT (the_ux i e) \<and> (\<forall>w\<in>set (user_writes e i). fst w \<noteq> [] \<and> snd w = 0))"

interpretation ux_trx: trx_reliable "usbip_trx_user_ops K" ux_stream "ux_live K"
  for K :: "'c ux_kernel"
proof unfold_locales
  fix n d r bs and c c' :: "'c ux_env"
  assume n: "0 < n" and rm: "trx_recvmsg (usbip_trx_user_ops K) d n c = (r, bs, c')"
  have rm': "usbip_ux_recvmsg K d n c = (r, bs, c')" using rm by (simp add: usbip_trx_user_ops_def)
  {
    assume r: "0 < r"
    then obtain i where i: "ux d = Some i" using rm' by (auto simp: usbip_ux_recvmsg_def split: option.splits)
    obtain buf fault ws where w: "user_writes c i = (buf, fault) # ws" "r = min (int (length buf)) n"
      "bs = take (nat r) buf" "user_writes c' i = rest_writes (drop (nat r) buf) fault ws"
      using usbip_ux_recvmsg_spec(1) [OF rm' n i r] by blast
    have st: "ux_stream d c = buf @ concat (map fst ws)"
      "ux_stream d c' = drop (nat r) buf @ concat (map fst ws)"
      using i w by (simp_all add: ux_stream_def concat_rest_writes)
    show "r \<le> n \<and> nat r \<le> length (ux_stream d c)" using w(2) st by auto
    show "bs = take (nat r) (ux_stream d c)" using w(2,3) st by auto
    show "ux_stream d c' = drop (nat r) (ux_stream d c)" using w(2) st by auto
  }
  assume l: "ux_live K d c" and len: "n \<le> int (length (ux_stream d c))"
  obtain i where i: "ux d = Some i" using l by (auto simp: ux_live_def split: option.splits)
  have "user_writes c i \<noteq> []" using len n i by (auto simp: ux_stream_def)
  then obtain buf fault ws where w: "user_writes c i = (buf, fault) # ws"
    by (metis list.exhaust surj_pair)
  have lv: "\<And>c. \<not> fst (down_interruptible K c)" "ux_ud (the_ux i c) \<noteq> None"
    "\<not> USBIP_UX_IS_RX_INT (the_ux i c)" "buf \<noteq> []" "fault = 0"
    "\<forall>w\<in>set ws. fst w \<noteq> [] \<and> snd w = 0"
    using l i w by (auto simp: ux_live_def)
  have p: "0 < r \<and> ux_ud (the_ux i c') \<noteq> None \<and> \<not> USBIP_UX_IS_RX_INT (the_ux i c')"
    using usbip_ux_recvmsg_spec(2) [OF rm' n i, of buf ws] w lv by blast
  moreover have "\<forall>w\<in>set (user_writes c' i). fst w \<noteq> [] \<and> snd w = 0"
    using usbip_ux_recvmsg_spec(1) [OF rm' n i] p w lv by (auto simp: rest_writes_def)
  ultimately show "0 < r \<and> ux_live K d c'" using lv(1) i by (simp add: ux_live_def)
qed

section \<open>Sending moves the bytes\<close>

text \<open>The sending side of a structure that is linked and not interrupted.\<close>

definition tx_up :: "usbip_ux \<Rightarrow> bool" where
  "tx_up x = (ux_ud x \<noteq> None \<and> \<not> USBIP_UX_IS_TX_INT x)"

lemma tx_up_simps [simp]:
  "tx_up (x\<lparr>ux_tx_error := a\<rparr>) = tx_up x" "tx_up (x\<lparr>ux_count := n\<rparr>) = tx_up x"
  "tx_up (x\<lparr>ux_tx_count := n\<rparr>) = tx_up x" "tx_up (x\<lparr>ux_tx_buf := b\<rparr>) = tx_up x"
  "tx_up (x\<lparr>ux_tx_bytes := n\<rparr>) = tx_up x" "tx_up (tx_respond x) = tx_up x"
  "tx_up (tx_request x) = tx_up x"
  by (simp_all add: tx_up_def USBIP_UX_IS_TX_INT_def)

lemma has_req_simps [simp]:
  "USBIP_UX_HAS_TX_REQ (x\<lparr>ux_tx_error := a\<rparr>) = USBIP_UX_HAS_TX_REQ x"
  "USBIP_UX_HAS_TX_REQ (x\<lparr>ux_count := n\<rparr>) = USBIP_UX_HAS_TX_REQ x"
  "USBIP_UX_HAS_TX_REQ (x\<lparr>ux_tx_count := n\<rparr>) = USBIP_UX_HAS_TX_REQ x"
  "USBIP_UX_HAS_TX_RSP (x\<lparr>ux_tx_error := a\<rparr>) = USBIP_UX_HAS_TX_RSP x"
  "USBIP_UX_HAS_TX_RSP (x\<lparr>ux_count := n\<rparr>) = USBIP_UX_HAS_TX_RSP x"
  "USBIP_UX_HAS_TX_RSP (x\<lparr>ux_tx_count := n\<rparr>) = USBIP_UX_HAS_TX_RSP x"
  "USBIP_UX_IS_TX_INT (x\<lparr>ux_tx_error := a\<rparr>) = USBIP_UX_IS_TX_INT x"
  "USBIP_UX_IS_TX_INT (x\<lparr>ux_count := n\<rparr>) = USBIP_UX_IS_TX_INT x"
  "USBIP_UX_IS_TX_INT (x\<lparr>ux_tx_count := n\<rparr>) = USBIP_UX_IS_TX_INT x"
  by (simp_all add: ux_flag_defs)

lemma usbip_ux_read_waiting:
  assumes s: "\<And>c. \<not> fst (down_interruptible K c)" and b: "0 < blen"
    and x: "tx_up (the_ux i e)" "USBIP_UX_HAS_TX_REQ (the_ux i e)" "\<not> USBIP_UX_HAS_TX_RSP (the_ux i e)"
      "ux_tx_bytes (the_ux i e) = int (length (ux_tx_buf (the_ux i e)))"
      "ux_tx_count (the_ux i e) = int k" "k \<le> length (ux_tx_buf (the_ux i e))"
  defines "e' \<equiv> snd (usbip_ux_read K i blen 0 e)" and "m \<equiv> min blen (length (ux_tx_buf (the_ux i e)) - k)"
  shows "tx_up (the_ux i e') \<and> ux_tx_error (the_ux i e') = 0 \<and>
    ux_tx_buf (the_ux i e') = ux_tx_buf (the_ux i e) \<and>
    ux_tx_bytes (the_ux i e') = ux_tx_bytes (the_ux i e) \<and> ux_tx_count (the_ux i e') = int (k + m) \<and>
    user_got e' = (user_got e)(i := user_got e i @ slice k m (ux_tx_buf (the_ux i e))) \<and>
    (if k + m = length (ux_tx_buf (the_ux i e)) then USBIP_UX_HAS_TX_RSP (the_ux i e')
     else USBIP_UX_HAS_TX_REQ (the_ux i e') \<and> \<not> USBIP_UX_HAS_TX_RSP (the_ux i e'))"
proof -
  let ?e0 = "upd_ux i (\<lambda>x. x\<lparr>ux_tx_error := 0\<rparr>) e"
  obtain r e1 where g: "usbip_ux_get K i ?e0 = (r, e1)" by fastforce
  have "r = 0 \<and> (\<exists>c. e1 = upd_ux i (\<lambda>x. x\<lparr>ux_count := ux_count x + 1\<rparr>) (?e0\<lparr>kern := c\<rparr>))"
    using g s x(1) by (cases rule: usbip_ux_get_cases) (auto simp: tx_up_def)
  then obtain c where r: "r = 0" and
    e1: "e1 = upd_ux i (\<lambda>x. x\<lparr>ux_count := ux_count x + 1\<rparr>) (?e0\<lparr>kern := c\<rparr>)" by blast
  have ni: "\<not> USBIP_UX_IS_TX_INT (the_ux i e)" using x(1) by (simp add: tx_up_def)
  have m: "min (int blen) (int (length (ux_tx_buf (the_ux i e))) - int k) = int m"
    using x(6) by (simp add: m_def)
  show ?thesis
    unfolding e'_def usbip_ux_read_def g
    using r e1 x ni m
    by (auto simp: Let_def wait_interruptible_def m_def)
qed

lemma slice_append_drop: "slice k m xs @ drop (k + m) xs = drop k xs"
  using append_take_drop_id [of m "drop k xs"] by (simp add: slice_def add.commute)

lemma serve_reads_complete:
  assumes s: "\<And>c. \<not> fst (down_interruptible K c)"
  shows "\<forall>r\<in>set rs. 0 < fst r \<and> snd r = 0 \<Longrightarrow> tx_up (the_ux i e) \<Longrightarrow>
    USBIP_UX_HAS_TX_REQ (the_ux i e) \<Longrightarrow> \<not> USBIP_UX_HAS_TX_RSP (the_ux i e) \<Longrightarrow>
    ux_tx_bytes (the_ux i e) = int (length (ux_tx_buf (the_ux i e))) \<Longrightarrow>
    ux_tx_count (the_ux i e) = int k \<Longrightarrow> k \<le> length (ux_tx_buf (the_ux i e)) \<Longrightarrow>
    max 1 (length (ux_tx_buf (the_ux i e)) - k) \<le> length rs \<Longrightarrow>
    \<exists>rs' e'. serve_reads K i rs e = (rs', e') \<and> tx_up (the_ux i e') \<and>
      USBIP_UX_HAS_TX_RSP (the_ux i e') \<and> ux_tx_error (the_ux i e') = 0 \<and>
      ux_tx_count (the_ux i e') = int (length (ux_tx_buf (the_ux i e))) \<and>
      user_got e' = (user_got e)(i := user_got e i @ drop k (ux_tx_buf (the_ux i e))) \<and>
      set rs' \<subseteq> set rs \<and> length rs \<le> length rs' + max 1 (length (ux_tx_buf (the_ux i e)) - k)"
proof (induction rs arbitrary: e k)
  case Nil
  then show ?case by simp
next
  case (Cons r rs)
  let ?x = "the_ux i e" and ?e' = "snd (usbip_ux_read K i (fst r) 0 e)"
  let ?m = "min (fst r) (length (ux_tx_buf (the_ux i e)) - k)"
  have r: "0 < fst r" "snd r = 0" using Cons.prems(1) by simp_all
  have ni: "\<not> USBIP_UX_IS_TX_INT ?x" using Cons.prems(2) by (simp add: tx_up_def)
  note rd = usbip_ux_read_waiting [OF s r(1) Cons.prems(2-7)]
  have sr: "serve_reads K i (r # rs) e = serve_reads K i rs ?e'"
    using Cons.prems(4) ni r(2) by (cases r) (subst serve_reads.simps, simp)
  have slice_drop: "slice k ?m (ux_tx_buf ?x) @ drop (k + ?m) (ux_tx_buf ?x) = drop k (ux_tx_buf ?x)"
    by (rule slice_append_drop)
  show ?case
  proof (cases "k + ?m = length (ux_tx_buf ?x)")
    case True
    have t: "tx_up (the_ux i ?e')" "USBIP_UX_HAS_TX_RSP (the_ux i ?e')"
      "ux_tx_error (the_ux i ?e') = 0" "ux_tx_count (the_ux i ?e') = int (length (ux_tx_buf ?x))"
      "user_got ?e' = (user_got e)(i := user_got e i @ slice k ?m (ux_tx_buf ?x))"
      using rd True by simp_all
    have u: "serve_reads K i rs ?e' = (rs, ?e')" using t(2) by (subst serve_reads.simps) simp
    have "slice k ?m (ux_tx_buf ?x) = drop k (ux_tx_buf ?x)" using slice_drop True by simp
    then have v: "user_got ?e' = (user_got e)(i := user_got e i @ drop k (ux_tx_buf ?x))"
      using t(5) by simp
    have w: "set rs \<subseteq> set (r # rs)" "length (r # rs) \<le> length rs + max 1 (length (ux_tx_buf ?x) - k)"
      by auto
    show ?thesis unfolding sr using u t(1-4) v w by blast
  next
    case False
    then have m: "?m = fst r" using Cons.prems(7) by linarith
    have len: "max 1 (length (ux_tx_buf (the_ux i ?e')) - (k + ?m)) \<le> length rs"
    proof -
      have "ux_tx_buf (the_ux i ?e') = ux_tx_buf ?x" using rd by blast
      moreover have "k + ?m < length (ux_tx_buf ?x)" "0 < ?m" using False m r(1) Cons.prems(7) by linarith+
      moreover have "length (ux_tx_buf ?x) - k \<le> Suc (length rs)" using Cons.prems(8) by simp
      ultimately show ?thesis by simp
    qed
    have le: "k + ?m \<le> length (ux_tx_buf (the_ux i ?e'))" using Cons.prems(7) rd by simp
    have p': "\<forall>r\<in>set rs. 0 < fst r \<and> snd r = 0" using Cons.prems(1) by simp
    have q: "tx_up (the_ux i ?e')" "USBIP_UX_HAS_TX_REQ (the_ux i ?e')"
      "\<not> USBIP_UX_HAS_TX_RSP (the_ux i ?e')" "ux_tx_buf (the_ux i ?e') = ux_tx_buf ?x"
      "ux_tx_bytes (the_ux i ?e') = int (length (ux_tx_buf (the_ux i ?e')))"
      "ux_tx_count (the_ux i ?e') = int (k + ?m)"
      using rd False Cons.prems(5) by simp_all
    from Cons.IH [OF p' q(1-3,5,6) le len] obtain rs' e' where
      IH: "serve_reads K i rs ?e' = (rs', e')" "tx_up (the_ux i e')" "USBIP_UX_HAS_TX_RSP (the_ux i e')"
      "ux_tx_error (the_ux i e') = 0" "ux_tx_count (the_ux i e') = int (length (ux_tx_buf ?x))"
      "user_got e' = (user_got ?e')(i := user_got ?e' i @ drop (k + ?m) (ux_tx_buf ?x))"
      "set rs' \<subseteq> set rs" "length rs \<le> length rs' + max 1 (length (ux_tx_buf ?x) - (k + ?m))"
      unfolding q(4) by blast
    have "user_got e' = (user_got e)(i := user_got e i @ drop k (ux_tx_buf ?x))"
      using IH(6) rd slice_drop by simp
    moreover have "length (r # rs) \<le> length rs' + max 1 (length (ux_tx_buf ?x) - k)"
    proof -
      have "k + ?m < length (ux_tx_buf ?x)" "0 < ?m" using False m r(1) Cons.prems(7) by linarith+
      with IH(8) show ?thesis by simp
    qed
    moreover have "set rs' \<subseteq> set (r # rs)" using IH(7) by auto
    ultimately show ?thesis unfolding sr using IH(1-5) by blast
  qed
qed

definition reads_ok :: "(nat \<times> int) list \<Rightarrow> bool" where
  "reads_ok rs = (\<forall>r\<in>set rs. 0 < fst r \<and> snd r = 0)"

lemma usbip_ux_sendvec_complete:
  assumes s: "\<And>c. \<not> fst (down_interruptible K c)" and up: "tx_up (the_ux i e)"
    and rs: "reads_ok (user_reads e i)" "max 1 (length v) \<le> length (user_reads e i)"
  shows "\<exists>e'. usbip_ux_sendvec K i v e = (0, e') \<and> tx_up (the_ux i e') \<and>
    ux_tx_count (the_ux i e') = int (length v) \<and>
    user_got e' = (user_got e)(i := user_got e i @ v) \<and> reads_ok (user_reads e' i) \<and>
    length (user_reads e i) \<le> length (user_reads e' i) + max 1 (length v)"
proof -
  let ?f = "\<lambda>x. tx_request (x\<lparr>ux_tx_buf := v, ux_tx_bytes := int (length v), ux_tx_count := 0,
      ux_tx_error := 0\<rparr>)"
  let ?e1 = "upd_ux i ?f e"
  obtain rs' e2 where sr: "serve_reads K i (user_reads e i) ?e1 = (rs', e2)" "tx_up (the_ux i e2)"
    "USBIP_UX_HAS_TX_RSP (the_ux i e2)" "ux_tx_error (the_ux i e2) = 0"
    "ux_tx_count (the_ux i e2) = int (length v)"
    "user_got e2 = (user_got ?e1)(i := user_got ?e1 i @ v)" "set rs' \<subseteq> set (user_reads e i)"
    "length (user_reads e i) \<le> length rs' + max 1 (length v)"
    using serve_reads_complete [OF s, of "user_reads e i" i ?e1 0] rs up by (auto simp: reads_ok_def)
  then have "usbip_ux_sendvec K i v e = (0, e2\<lparr>user_reads := (user_reads e2)(i := rs')\<rparr>)"
    by (simp add: usbip_ux_sendvec_def Let_def wait_interruptible_def tx_up_def)
  then show ?thesis using sr rs(1) by (auto simp: reads_ok_def)
qed

lemma ux_send_vecs_complete:
  assumes s: "\<And>c. \<not> fst (down_interruptible K c)"
  shows "tx_up (the_ux i e) \<Longrightarrow> reads_ok (user_reads e i) \<Longrightarrow>
    sum_list (map (\<lambda>v. max 1 (length v)) vs) \<le> length (user_reads e i) \<Longrightarrow>
    \<exists>e'. ux_send_vecs K i vs n e = (n + int (length (concat vs)), e') \<and>
      user_got e' = (user_got e)(i := user_got e i @ concat vs) \<and> tx_up (the_ux i e')"
proof (induction vs arbitrary: n e)
  case Nil
  then show ?case by (simp add: fun_upd_idem)
next
  case (Cons v vs)
  have "max 1 (length v) \<le> length (user_reads e i)"
    using Cons.prems(3) unfolding list.map sum_list.Cons by linarith
  from usbip_ux_sendvec_complete [OF s Cons.prems(1,2) this] obtain e1 where
    e1: "usbip_ux_sendvec K i v e = (0, e1)" "tx_up (the_ux i e1)"
    "ux_tx_count (the_ux i e1) = int (length v)" "user_got e1 = (user_got e)(i := user_got e i @ v)"
    "reads_ok (user_reads e1 i)" "length (user_reads e i) \<le> length (user_reads e1 i) + max 1 (length v)"
    by blast
  have "sum_list (map (\<lambda>v. max 1 (length v)) vs) \<le> length (user_reads e1 i)"
    using Cons.prems(3) e1(6) unfolding list.map sum_list.Cons by linarith
  from Cons.IH [OF e1(2,5) this, of "n + int (length v)"] obtain e' where
    "ux_send_vecs K i vs (n + int (length v)) e1 = (n + int (length v) + int (length (concat vs)), e')"
    "user_got e' = (user_got e1)(i := user_got e1 i @ concat vs)" "tx_up (the_ux i e')" by blast
  then show ?case using e1 by (auto simp: add.assoc)
qed

section \<open>Properties\<close>

text \<open>C19: a message sent over the user space transport reaches the process byte for byte and in order,
  whatever the sizes of the reads it is fetched with, and the sender is told that all was sent.\<close>

theorem ux_sendmsg_delivers:
  assumes "\<And>c. \<not> fst (down_interruptible K c)" "ux d = Some i" "tx_up (the_ux i e)"
    "reads_ok (user_reads e i)"
    "sum_list (map (\<lambda>v. max 1 (length v)) iov) \<le> length (user_reads e i)"
  shows "\<exists>e'. usbip_ux_sendmsg K d iov e = (int (length (concat iov)), e') \<and>
    user_got e' i = user_got e i @ concat iov"
proof -
  obtain r e1 where g: "usbip_ux_get K i e = (r, e1)" by fastforce
  have "r = 0 \<and> (\<exists>c. e1 = upd_ux i (\<lambda>x. x\<lparr>ux_count := ux_count x + 1\<rparr>) (e\<lparr>kern := c\<rparr>))"
    using g assms(1,3) by (cases rule: usbip_ux_get_cases) (auto simp: tx_up_def)
  then obtain c where r: "r = 0" and
    e1: "e1 = upd_ux i (\<lambda>x. x\<lparr>ux_count := ux_count x + 1\<rparr>) (e\<lparr>kern := c\<rparr>)" by blast
  have "\<exists>e'. ux_send_vecs K i iov 0 e1 = (0 + int (length (concat iov)), e') \<and>
      user_got e' = (user_got e1)(i := user_got e1 i @ concat iov) \<and> tx_up (the_ux i e')"
    using assms by (intro ux_send_vecs_complete) (simp_all add: e1)
  then show ?thesis using g r assms(2) by (auto simp: usbip_ux_sendmsg_def e1)
qed

definition demo_ux_kernel :: "unit ux_kernel" where
  "demo_ux_kernel = \<lparr>ux_sockets = \<lparr>kernel_sendmsg = (\<lambda>sk iov c. (0, c)),
       kernel_recvmsg = (\<lambda>sk n c. (0, [], c)), sockfd_lookup = (\<lambda>fd c. (Some (nat fd), c)),
       kernel_sock_shutdown = (\<lambda>sk c. (0, c))\<rparr>,
     ux_kmalloc = (\<lambda>n c. (True, c)), down_interruptible = (\<lambda>c. (False, c)), task_pgrp_vnr = (\<lambda>c. 1)\<rparr>"

definition demo_ux_env :: "unit ux_env" where
  "demo_ux_env = \<lparr>kern = (), uxs = [4 \<mapsto> zero_ux\<lparr>ux_ud := Some 0\<rparr>], usbip_ux_list = [4], ux_next = 5,
     user_writes = (\<lambda>_. [([1, 2], 0), ([3, 4, 5], 0)]), user_reads = (\<lambda>_. replicate 9 (2, 0)),
     user_got = (\<lambda>_. [])\<rparr>"

theorem ux_sendmsg_delivers_witness:
  "\<exists>e'. usbip_ux_sendmsg demo_ux_kernel ((demo_ud USBIP_STUB SDEV_ST_USED)\<lparr>ux := Some 4\<rparr>)
     [[7, 8, 9], [], [10]] demo_ux_env = (4, e') \<and> user_got e' 4 = [7, 8, 9, 10]"
proof -
  have "\<exists>e'. usbip_ux_sendmsg demo_ux_kernel ((demo_ud USBIP_STUB SDEV_ST_USED)\<lparr>ux := Some 4\<rparr>)
     [[7, 8, 9], [], [10]] demo_ux_env = (int (length (concat [[7, 8, 9], [], [10 :: u8]])), e') \<and>
    user_got e' 4 = user_got demo_ux_env 4 @ concat [[7, 8, 9], [], [10]]"
    by (rule ux_sendmsg_delivers)
       (simp_all add: demo_ux_kernel_def demo_ux_env_def tx_up_def the_ux_def zero_ux_def reads_ok_def
         USBIP_UX_IS_TX_INT_def)
  then show ?thesis by (simp add: demo_ux_env_def)
qed

text \<open>C20: receiving over the user space transport ends and delivers exactly the bytes the process
  writes, however it cuts them into writes.\<close>

theorem ux_recv_delivers:
  assumes "ux_live K d e" "0 < sz" "sz \<le> int (length (ux_stream d e))"
  shows "\<exists>e'. usbip_recv (usbip_trx_user_ops K) d True sz e = (sz, take (nat sz) (ux_stream d e), e') \<and>
    ux_stream d e' = drop (nat sz) (ux_stream d e)"
proof -
  have "ux d \<noteq> None" using assms(1) by (auto simp: ux_live_def split: option.splits)
  then show ?thesis using ux_trx.recv_all [OF assms] by blast
qed

theorem ux_recv_delivers_witness:
  "\<exists>e'. usbip_recv (usbip_trx_user_ops demo_ux_kernel) ((demo_ud USBIP_STUB SDEV_ST_USED)\<lparr>ux := Some 4\<rparr>)
     True 4 demo_ux_env = (4, [1, 2, 3, 4], e')"
proof -
  let ?d = "(demo_ud USBIP_STUB SDEV_ST_USED)\<lparr>ux := Some 4\<rparr>"
  have "ux_live demo_ux_kernel ?d demo_ux_env" "ux_stream ?d demo_ux_env = [1, 2, 3, 4, 5]"
    by (simp_all add: ux_live_def ux_stream_def demo_ux_kernel_def demo_ux_env_def the_ux_def zero_ux_def
        USBIP_UX_IS_RX_INT_def)
  then show ?thesis using ux_recv_delivers [of demo_ux_kernel ?d demo_ux_env 4] by auto
qed

text \<open>The control request every process makes first, setting the socket of a new structure, takes
  no reference (the structure is not linked yet) but drops one: the use count is -1 from then
  on, and unlinking does not wait for a transfer that is in progress.\<close>

theorem ux_ioctl_count_underflow:
  assumes "uxs e i = Some zero_ux" "sockfd_lookup (ux_sockets K) fd c = (Some sk, c')"
    "down_interruptible K (kern e) = (False, c)" "ud_id d = a"
    "usbip_ux_ioctl K True i (USBIP_UX_IOCSETSOCKFD fd) e = (r, e1)"
  shows "r = 0 \<and> ux_count (the_ux i e1) = -1 \<and>
    usbip_ux_unused ((the_ux i e1)\<lparr>ux_ud := Some a, ux_count := ux_count (the_ux i e1) + 1\<rparr>)"
proof -
  have "usbip_ux_get K i e = (- EINTR, e\<lparr>kern := c\<rparr>)"
    using assms(1,3) by (simp add: usbip_ux_get_def down_def the_ux_def usbip_ux_is_linked_def zero_ux_def)
  moreover have "ux_sockfd (the_ux i (e\<lparr>kern := c\<rparr>)) = 0" "ux_count (the_ux i (e\<lparr>kern := c\<rparr>)) = 0"
    using assms(1) by (simp_all add: the_ux_def zero_ux_def)
  ultimately have "r = 0 \<and> ux_count (the_ux i e1) = -1"
    using assms(2,5) by (simp add: usbip_ux_ioctl_def usbip_ux_set_sockfd_def Let_def) auto
  then show ?thesis by (simp add: usbip_ux_unused_def)
qed

theorem ux_ioctl_count_underflow_witness:
  "ux_count (the_ux 4 (snd (usbip_ux_ioctl demo_ux_kernel True 4 (USBIP_UX_IOCSETSOCKFD 3)
     (demo_ux_env\<lparr>uxs := [4 \<mapsto> zero_ux]\<rparr>)))) = -1"
proof -
  obtain r e1 where e1: "usbip_ux_ioctl demo_ux_kernel True 4 (USBIP_UX_IOCSETSOCKFD 3)
     (demo_ux_env\<lparr>uxs := [4 \<mapsto> zero_ux]\<rparr>) = (r, e1)" by fastforce
  have "r = 0 \<and> ux_count (the_ux 4 e1) = -1 \<and>
    usbip_ux_unused ((the_ux 4 e1)\<lparr>ux_ud := Some 0, ux_count := ux_count (the_ux 4 e1) + 1\<rparr>)"
    by (rule ux_ioctl_count_underflow [OF _ _ _ _ e1, where d = "demo_ud USBIP_STUB SDEV_ST_USED"
          and c = "()" and sk = 3 and c' = "()"])
       (simp_all add: demo_ux_kernel_def demo_ux_env_def demo_ud_def)
  then show ?thesis by (simp add: e1)
qed

end
