(* ===== verification/Vhci_Tx.thy ===== *)
theory Vhci_Tx
  imports Usbip_Common
begin

text \<open>
  The state of a port of the virtual host controller (\<open>struct vhci_device\<close> of \<open>vhci.h\<close>) and the
  transmit side of \<open>vhci_tx.c\<close>: the two loops that send the submissions and the unlink requests
  that the USB core put on the queues of the port.
\<close>

section \<open>The state of a port\<close>

text \<open>The URBs of the USB core: beside the common fields the address of the URB, the address of its
  \<open>usb_device\<close> and the number of the port that device is on.\<close>

record vhci_urb = urb +
  vu_id :: nat
  vu_dev :: nat
  vu_portnum :: u8

text \<open>\<open>hcpriv\<close> of a URB is set exactly while a \<open>vhci_priv\<close> with the URB is on a queue; the \<open>vdev\<close> of
  the source's structure is the port whose queue it is on.\<close>

record vhci_priv =
  vp_seqnum :: ulong
  vp_urb :: vhci_urb

record vhci_unlink =
  vl_seqnum :: ulong
  vl_unlink_seqnum :: ulong

text \<open>\<open>struct vhci_device\<close> without its \<open>ud\<close>.\<close>

record vhci_device =
  vd_udev :: "nat option"
  vd_devid :: u32
  vd_speed :: u32
  vd_rhport :: u32
  vd_priv_tx :: "vhci_priv list"
  vd_priv_rx :: "vhci_priv list"
  vd_unlink_tx :: "vhci_unlink list"
  vd_unlink_rx :: "vhci_unlink list"
  vd_using_port :: u32

text \<open>What the functions for one port work on: the port, the counter of sequence numbers of its
  controller, and the URBs that were handed back to the USB core by \<open>usb_hcd_giveback_urb\<close>,
  each as it was then, the latest last.\<close>

record 'c vhci_conn = "'c conn" +
  vdev :: vhci_device
  vseq :: u32
  given :: "vhci_urb list"

text \<open>The functions of the USB core and of the driver core that the controller calls.  URBs are
  named by their addresses, controllers by their numbers.  \<open>usb_create_hcd\<close> and \<open>usb_add_hcd\<close> are
  the core's own part of the two functions, apart from the call of the driver's \<open>start\<close>;
  \<open>probes_now\<close> tells whether registering a platform device runs the driver's \<open>probe\<close>.
  \<open>signal_pending\<close> tells whether a signal ends an interruptible wait.\<close>

record 'c vhci_kernel = "'c driver_platform" +
  usb_hcd_link_urb_to_ep :: "vhci_urb \<Rightarrow> 'c \<Rightarrow> int \<times> 'c"
  usb_hcd_unlink_urb_from_ep :: "nat \<Rightarrow> 'c \<Rightarrow> 'c"
  usb_hcd_check_unlink_urb :: "nat \<Rightarrow> int \<Rightarrow> 'c \<Rightarrow> int \<times> 'c"
  usb_hcd_poll_rh_status :: "nat \<Rightarrow> 'c \<Rightarrow> 'c"
  usb_hcd_resume_root_hub :: "nat \<Rightarrow> 'c \<Rightarrow> 'c"
  usb_create_hcd :: "nat \<Rightarrow> 'c \<Rightarrow> bool \<times> 'c"
  usb_add_hcd :: "nat \<Rightarrow> 'c \<Rightarrow> int \<times> 'c"
  usb_remove_hcd :: "nat \<Rightarrow> 'c \<Rightarrow> 'c"
  platform_device_register_simple :: "int \<Rightarrow> 'c \<Rightarrow> int \<times> 'c"
  probes_now :: "nat \<Rightarrow> 'c \<Rightarrow> bool"
  platform_driver_register :: "'c \<Rightarrow> int \<times> 'c"
  platform_driver_unregister :: "'c \<Rightarrow> 'c"
  sysfs_create_group :: "'c \<Rightarrow> int \<times> 'c"
  sysfs_remove_group :: "'c \<Rightarrow> 'c"
  sysfs_remove_link :: "'c \<Rightarrow> 'c"
  usb_disabled :: "'c \<Rightarrow> bool"
  signal_pending :: "'c \<Rightarrow> bool"
  jiffies :: "'c \<Rightarrow> ulong"
  msecs_to_jiffies :: "nat \<Rightarrow> ulong"
  dev_name :: "nat \<Rightarrow> 'c \<Rightarrow> string"

text \<open>Two states of a port that differ at most in the state of the kernel.\<close>

definition env_only :: "('c, 'y) conn_scheme \<Rightarrow> ('c, 'y) conn_scheme \<Rightarrow> bool" where
  "env_only s s' = (s'\<lparr>env := undefined\<rparr> = s\<lparr>env := undefined\<rparr>)"

lemma env_only_refl [simp]: "env_only s s"
  by (simp add: env_only_def)

lemma env_only_env [simp]: "env_only (s\<lparr>env := c\<rparr>) s' = env_only s s'" "env_only s (s'\<lparr>env := c\<rparr>) = env_only s s'"
  by (simp_all add: env_only_def)

lemma env_only_sel:
  assumes "env_only s s'"
  shows "ud s' = ud s" "event_list s' = event_list s" "conn.more s' = conn.more s"
  using assms by (cases s; cases s'; simp add: env_only_def)+

lemma env_only_vdev: "env_only s s' \<Longrightarrow> vdev s' = vdev s" for s :: "'c vhci_conn"
  by (cases s; cases s') (simp add: env_only_def)

section \<open>Sending submissions\<close>

text \<open>The fault is a setup packet of less than eight bytes.\<close>

definition setup_cmd_submit_pdu ::
  "usbip_header \<Rightarrow> vhci_device \<Rightarrow> vhci_priv \<Rightarrow> usbip_header option" where
  "setup_cmd_submit_pdu pdup vd p =
     (let urb = vp_urb p;
          h1 = pdup\<lparr>base := \<lparr>b_command = USBIP_CMD_SUBMIT, b_seqnum = ucast (vp_seqnum p),
            b_devid = vd_devid vd,
            b_direction = (if usb_pipein (urb_pipe urb) then USBIP_DIR_IN else USBIP_DIR_OUT),
            b_ep = usb_pipeendpoint (urb_pipe urb)\<rparr>\<rparr>;
          h2 = fst (usbip_pack_pdu h1 urb USBIP_CMD_SUBMIT True) in
      case urb_setup_packet urb of
        None \<Rightarrow> Some h2
      | Some bs \<Rightarrow> if length bs < 8 then None
          else Some (h2\<lparr>u := put_cmd_submit ((cmd_submit (u h2))\<lparr>cs_setup := take 8 bs\<rparr>) (u h2)\<rparr>))"

definition vhci_dequeue_from_priv_tx :: "vhci_device \<Rightarrow> (vhci_priv \<times> vhci_device) option" where
  "vhci_dequeue_from_priv_tx vd = (case vd_priv_tx vd of
     [] \<Rightarrow> None
   | p # ps \<Rightarrow> Some (p, vd\<lparr>vd_priv_tx := ps, vd_priv_rx := vd_priv_rx vd @ [p]\<rparr>))"

text \<open>The transfer buffer of an OUT transfer.\<close>

definition cmd_submit_data :: "'z urb_scheme \<Rightarrow> u8 list option" where
  "cmd_submit_data urb =
     (if \<not> usb_pipein (urb_pipe urb) \<and> urb_transfer_buffer_length urb > 0
      then kvec (buffer_of urb) 0 (unat (urb_transfer_buffer_length urb)) else Some [])"

text \<open>What a function of this theory leaves to its caller beside its result: the event that it
  raises by \<open>vhci_event_add\<close> right before it returns, which concerns all controllers
  (theory \<open>Vhci_Hcd\<close>).\<close>

type_synonym raised = "ulong option"

text \<open>The end of the body of both loops: the message is sent; the number of bytes, or \<open>-1\<close>.\<close>

definition vhci_sendmsg ::
  "('c, 'k) vhci_kernel_scheme \<Rightarrow> u8 list list \<Rightarrow> 'c vhci_conn \<Rightarrow> int \<times> raised \<times> 'c vhci_conn" where
  "vhci_sendmsg K iov s =
     (let txsize = length (concat iov);
          (ret, c) = trx_sendmsg (trx_ops K) (ud s) iov (env s); s1 = s\<lparr>env := c\<rparr> in
      if ret \<noteq> int txsize then (-1, Some VDEV_EVENT_ERROR_TCP, s1) else (int txsize, None, s1))"

lemma vhci_sendmsg_conn: "vhci_sendmsg K iov s = (r, ev, s') \<Longrightarrow> env_only s s'"
  by (auto simp: vhci_sendmsg_def Let_def split: prod.splits if_splits)

text \<open>The body of the loop for one dequeued submission: the number of bytes sent, or \<open>-1\<close>.\<close>

definition vhci_send_one ::
  "('c, 'k) vhci_kernel_scheme \<Rightarrow> vhci_priv \<Rightarrow> 'c vhci_conn \<Rightarrow> (int \<times> raised \<times> 'c vhci_conn) option"
where
  "vhci_send_one K p s =
     (let urb = vp_urb p; isoc = (usb_pipetype (urb_pipe urb) = PIPE_ISOCHRONOUS) in
      do { pdu \<leftarrow> setup_cmd_submit_pdu zero_header (vdev s) p;
           data \<leftarrow> cmd_submit_data urb;
           (iso_buffer, c1) \<leftarrow> (if isoc then usbip_alloc_iso_desc_pdu K urb (env s)
                                else Some (Some [], env s));
           let s1 = s\<lparr>env := c1\<rparr> in
           case iso_buffer of
             None \<Rightarrow> Some (-1, Some SDEV_EVENT_ERROR_MALLOC, s1)
           | Some descs \<Rightarrow>
               let hdr = header_bytes (host_le K) (usbip_header_correct_endian (host_le K) pdu True)
               in Some (vhci_sendmsg K [hdr, data, descs] s1) })"

lemma vhci_send_one_vdev: "vhci_send_one K p s = Some (r, ev, s') \<Longrightarrow> env_only s s'"
  by (clarsimp simp: vhci_send_one_def Let_def bind_eq_Some_conv)
     (auto split: option.splits dest!: vhci_sendmsg_conn)

function vhci_send_submit_loop ::
  "('c, 'k) vhci_kernel_scheme \<Rightarrow> nat \<Rightarrow> 'c vhci_conn \<Rightarrow> (int \<times> raised \<times> 'c vhci_conn) option" where
  "vhci_send_submit_loop K tot s = (case vhci_dequeue_from_priv_tx (vdev s) of
     None \<Rightarrow> Some (sint (word_of_nat tot :: u32), None, s)
   | Some (p, vd) \<Rightarrow> (case vhci_send_one K p (s\<lparr>vdev := vd\<rparr>) of
       None \<Rightarrow> None
     | Some (r, ev, s') \<Rightarrow>
         if r < 0 then Some (-1, ev, s') else vhci_send_submit_loop K (tot + nat r) s'))"
  by pat_completeness auto
termination
  by (relation "measure (\<lambda>(K, tot, s). length (vd_priv_tx (vdev s)))")
     (auto simp: vhci_dequeue_from_priv_tx_def split: list.splits
       dest!: vhci_send_one_vdev env_only_vdev)

declare vhci_send_submit_loop.simps [simp del]

definition vhci_send_cmd_submit ::
  "('c, 'k) vhci_kernel_scheme \<Rightarrow> 'c vhci_conn \<Rightarrow> (int \<times> raised \<times> 'c vhci_conn) option" where
  "vhci_send_cmd_submit K s = vhci_send_submit_loop K 0 s"

section \<open>Sending unlink requests\<close>

definition vhci_dequeue_from_unlink_tx :: "vhci_device \<Rightarrow> (vhci_unlink \<times> vhci_device) option" where
  "vhci_dequeue_from_unlink_tx vd = (case vd_unlink_tx vd of
     [] \<Rightarrow> None
   | l # ls \<Rightarrow> Some (l, vd\<lparr>vd_unlink_tx := ls, vd_unlink_rx := vd_unlink_rx vd @ [l]\<rparr>))"

definition setup_cmd_unlink_pdu :: "usbip_header \<Rightarrow> vhci_device \<Rightarrow> vhci_unlink \<Rightarrow> usbip_header" where
  "setup_cmd_unlink_pdu pdu vd l =
     pdu\<lparr>base := (base pdu)\<lparr>b_command := USBIP_CMD_UNLINK, b_seqnum := ucast (vl_seqnum l),
           b_devid := vd_devid vd, b_ep := 0\<rparr>,
         u := put_cmd_unlink \<lparr>cu_seqnum = ucast (vl_unlink_seqnum l)\<rparr> (u pdu)\<rparr>"

definition vhci_send_unlink_one ::
  "('c, 'k) vhci_kernel_scheme \<Rightarrow> vhci_unlink \<Rightarrow> 'c vhci_conn \<Rightarrow> int \<times> raised \<times> 'c vhci_conn" where
  "vhci_send_unlink_one K l s =
     (let hdr = header_bytes (host_le K) (usbip_header_correct_endian (host_le K)
            (setup_cmd_unlink_pdu zero_header (vdev s) l) True)
      in vhci_sendmsg K [hdr] s)"

lemma vhci_send_unlink_one_vdev: "vhci_send_unlink_one K l s = (r, ev, s') \<Longrightarrow> env_only s s'"
  by (simp add: vhci_send_unlink_one_def Let_def vhci_sendmsg_conn)

function vhci_send_unlink_loop ::
  "('c, 'k) vhci_kernel_scheme \<Rightarrow> nat \<Rightarrow> 'c vhci_conn \<Rightarrow> int \<times> raised \<times> 'c vhci_conn" where
  "vhci_send_unlink_loop K tot s = (case vhci_dequeue_from_unlink_tx (vdev s) of
     None \<Rightarrow> (sint (word_of_nat tot :: u32), None, s)
   | Some (l, vd) \<Rightarrow>
       let (r, ev, s') = vhci_send_unlink_one K l (s\<lparr>vdev := vd\<rparr>) in
       if r < 0 then (-1, ev, s') else vhci_send_unlink_loop K (tot + nat r) s')"
  by pat_completeness auto
termination
  by (relation "measure (\<lambda>(K, tot, s). length (vd_unlink_tx (vdev s)))")
     (auto simp: vhci_dequeue_from_unlink_tx_def split: list.splits
       dest!: vhci_send_unlink_one_vdev [OF sym] env_only_vdev)

declare vhci_send_unlink_loop.simps [simp del]

definition vhci_send_cmd_unlink ::
  "('c, 'k) vhci_kernel_scheme \<Rightarrow> 'c vhci_conn \<Rightarrow> int \<times> raised \<times> 'c vhci_conn" where
  "vhci_send_cmd_unlink K s = vhci_send_unlink_loop K 0 s"

text \<open>One round of the thread's loop, between two waits: whether the loop goes on, and the event to
  raise.\<close>

definition vhci_tx_round ::
  "('c, 'k) vhci_kernel_scheme \<Rightarrow> 'c vhci_conn \<Rightarrow> (bool \<times> raised \<times> 'c vhci_conn) option" where
  "vhci_tx_round K s =
     do { (r1, ev1, s1) \<leftarrow> vhci_send_cmd_submit K s;
          if r1 < 0 then Some (False, ev1, s1)
          else let (r2, ev2, s2) = vhci_send_cmd_unlink K s1 in
            if r2 < 0 then Some (False, ev2, s2) else Some (True, None, s2) }"

section \<open>The requests on the wire\<close>

text \<open>The header of a submission as it is meant: what the peer reads from it.\<close>

lemma setup_cmd_submit_pdu_spec:
  assumes "setup_cmd_submit_pdu zero_header vd p = Some h"
  shows "wf_header h" "b_command (base h) = USBIP_CMD_SUBMIT" "b_seqnum (base h) = ucast (vp_seqnum p)"
    "b_devid (base h) = vd_devid vd"
    "b_direction (base h) =
      (if usb_pipein (urb_pipe (vp_urb p)) then USBIP_DIR_IN else USBIP_DIR_OUT)"
    "b_ep (base h) = usb_pipeendpoint (urb_pipe (vp_urb p))"
    "cs_transfer_buffer_length (cmd_submit (u h)) = urb_transfer_buffer_length (vp_urb p)"
    "cs_number_of_packets (cmd_submit (u h)) = urb_number_of_packets (vp_urb p)"
    "cs_start_frame (cmd_submit (u h)) = urb_start_frame (vp_urb p)"
    "cs_interval (cmd_submit (u h)) = urb_interval (vp_urb p)"
    "cs_transfer_flags (cmd_submit (u h)) = tweak_transfer_flags (urb_transfer_flags (vp_urb p))"
    "cs_setup (cmd_submit (u h)) =
      (case urb_setup_packet (vp_urb p) of None \<Rightarrow> replicate 8 0 | Some bs \<Rightarrow> take 8 bs)"
  using assms
  by (auto simp: setup_cmd_submit_pdu_def Let_def usbip_pack_pdu_def usbip_pack_cmd_submit_def
      union_defs zero_header_def wf_header_def split: option.splits if_splits)

end
