(* ===== verification/Vhci_Rx.thy ===== *)
theory Vhci_Rx
  imports Vhci_Tx
begin

text \<open>
  The receive side of a port, \<open>vhci_rx.c\<close>: the answers of the device side are matched with the
  pending URBs by their sequence numbers, and the URBs are handed back to the USB core.
\<close>

section \<open>Matching answers\<close>

text \<open>The source compares the \<open>unsigned long\<close> of the request with the 32 bits of the answer.\<close>

definition pickup_urb_and_free_priv ::
  "u32 \<Rightarrow> vhci_device \<Rightarrow> (vhci_urb \<times> vhci_device) option" where
  "pickup_urb_and_free_priv seqnum vd =
     (case List.extract (\<lambda>p. vp_seqnum p = ucast seqnum) (vd_priv_rx vd) of
        None \<Rightarrow> None
      | Some (ps, p, qs) \<Rightarrow> Some (vp_urb p, vd\<lparr>vd_priv_rx := ps @ qs\<rparr>))"

text \<open>\<open>usb_hcd_unlink_urb_from_ep\<close> and \<open>usb_hcd_giveback_urb\<close>.\<close>

definition vhci_giveback ::
  "('c, 'k) vhci_kernel_scheme \<Rightarrow> vhci_urb \<Rightarrow> 'c vhci_conn \<Rightarrow> 'c vhci_conn" where
  "vhci_giveback K urb s = s\<lparr>env := usb_hcd_unlink_urb_from_ep K (vu_id urb) (env s),
     given := given s @ [urb]\<rparr>"

section \<open>Results of submissions\<close>

text \<open>The URB, out of its queue, is filled with what follows the header.\<close>

definition vhci_fill_urb ::
  "('c, 'k) vhci_kernel_scheme \<Rightarrow> vhci_urb \<Rightarrow> 'c vhci_conn \<Rightarrow> 'c vhci_conn option" where
  "vhci_fill_urb K urb s =
     do { (r1, urb1, s1) \<leftarrow> usbip_recv_xbuff K urb s;
          if r1 < 0 then Some s1
          else do {
            (r2, urb2, s2) \<leftarrow> usbip_recv_iso K urb1 s1;
            if r2 < 0 then Some s2
            else do {
              urb3 \<leftarrow> usbip_pad_iso urb2;
              Some (vhci_giveback K urb3 s2) } } }"

definition vhci_recv_ret_submit ::
  "('c, 'k) vhci_kernel_scheme \<Rightarrow> usbip_header \<Rightarrow> 'c vhci_conn \<Rightarrow> (raised \<times> 'c vhci_conn) option"
where
  "vhci_recv_ret_submit K pdu s =
     (case pickup_urb_and_free_priv (b_seqnum (base pdu)) (vdev s) of
        None \<Rightarrow> Some (Some VDEV_EVENT_ERROR_TCP, s)
      | Some (urb, vd) \<Rightarrow>
          map_option (Pair None) (vhci_fill_urb K (snd (usbip_pack_pdu pdu urb USBIP_RET_SUBMIT False))
            (s\<lparr>vdev := vd\<rparr>)))"

section \<open>Results of unlink requests\<close>

definition dequeue_pending_unlink ::
  "usbip_header \<Rightarrow> vhci_device \<Rightarrow> (vhci_unlink \<times> vhci_device) option" where
  "dequeue_pending_unlink pdu vd =
     (case List.extract (\<lambda>l. vl_seqnum l = ucast (b_seqnum (base pdu))) (vd_unlink_rx vd) of
        None \<Rightarrow> None
      | Some (ls, l, ms) \<Rightarrow> Some (l, vd\<lparr>vd_unlink_rx := ls @ ms\<rparr>))"

definition vhci_recv_ret_unlink ::
  "('c, 'k) vhci_kernel_scheme \<Rightarrow> usbip_header \<Rightarrow> 'c vhci_conn \<Rightarrow> 'c vhci_conn" where
  "vhci_recv_ret_unlink K pdu s = (case dequeue_pending_unlink pdu (vdev s) of
     None \<Rightarrow> s
   | Some (l, vd) \<Rightarrow>
       (case pickup_urb_and_free_priv (ucast (vl_unlink_seqnum l)) vd of
          None \<Rightarrow> s\<lparr>vdev := vd\<rparr>
        | Some (urb, vd') \<Rightarrow>
            vhci_giveback K (urb\<lparr>urb_status := sint (ru_status (ret_unlink (u pdu)))\<rparr>)
              (s\<lparr>vdev := vd'\<rparr>)))"

section \<open>The receive loop\<close>

text \<open>Despite its name the function looks at the queue of the submissions that were sent.\<close>

definition vhci_priv_tx_empty :: "vhci_device \<Rightarrow> bool" where
  "vhci_priv_tx_empty vd = (vd_priv_rx vd = [])"

definition vhci_handle_pdu ::
  "('c, 'k) vhci_kernel_scheme \<Rightarrow> usbip_header \<Rightarrow> 'c vhci_conn \<Rightarrow> (raised \<times> 'c vhci_conn) option"
where
  "vhci_handle_pdu K pdu s =
     (if b_command (base pdu) = USBIP_RET_SUBMIT then vhci_recv_ret_submit K pdu s
      else if b_command (base pdu) = USBIP_RET_UNLINK then Some (None, vhci_recv_ret_unlink K pdu s)
      else Some (Some VDEV_EVENT_ERROR_TCP, s))"

definition vhci_rx_pdu ::
  "('c, 'k) vhci_kernel_scheme \<Rightarrow> 'c vhci_conn \<Rightarrow> (raised \<times> 'c vhci_conn) option" where
  "vhci_rx_pdu K s =
     (let (ret, bs, c) = usbip_recv (trx_ops K) (ud s) True (int sizeof_usbip_header) (env s);
          s1 = s\<lparr>env := c\<rparr> in
      if ret < 0 then
        if ret = - EAGAIN \<and> vhci_priv_tx_empty (vdev s1) then Some (None, s1)
        else Some (Some VDEV_EVENT_ERROR_TCP, s1)
      else if ret = 0 then Some (Some VDEV_EVENT_DOWN, s1)
      else if ret \<noteq> int sizeof_usbip_header then Some (Some VDEV_EVENT_ERROR_TCP, s1)
      else vhci_handle_pdu K
        (usbip_header_correct_endian (host_le K) (bytes_header (host_le K) bs) False) s1)"

section \<open>What matching does\<close>

lemma pickup_Some:
  assumes "pickup_urb_and_free_priv n vd = Some (urb, vd')"
  shows "\<exists>ps p qs. vd_priv_rx vd = ps @ p # qs \<and> vp_seqnum p = ucast n \<and>
      (\<forall>q\<in>set ps. vp_seqnum q \<noteq> ucast n) \<and> urb = vp_urb p \<and> vd' = vd\<lparr>vd_priv_rx := ps @ qs\<rparr>"
proof -
  obtain ps p qs where "List.extract (\<lambda>p. vp_seqnum p = ucast n) (vd_priv_rx vd) = Some (ps, p, qs)"
    "urb = vp_urb p" "vd' = vd\<lparr>vd_priv_rx := ps @ qs\<rparr>"
    using assms by (auto simp: pickup_urb_and_free_priv_def split: option.splits)
  then show ?thesis by (auto simp: extract_Some_iff)
qed

lemma pickup_None:
  "pickup_urb_and_free_priv n vd = None \<longleftrightarrow> (\<forall>p\<in>set (vd_priv_rx vd). vp_seqnum p \<noteq> ucast n)"
  by (auto simp: pickup_urb_and_free_priv_def extract_None_iff split: option.splits
      dest!: extract_SomeE)

lemma pending_unlink_Some:
  assumes "dequeue_pending_unlink pdu vd = Some (l, vd')"
  shows "\<exists>ls ms. vd_unlink_rx vd = ls @ l # ms \<and> vl_seqnum l = ucast (b_seqnum (base pdu)) \<and>
      vd' = vd\<lparr>vd_unlink_rx := ls @ ms\<rparr>"
proof -
  obtain ls ms where
    "List.extract (\<lambda>l. vl_seqnum l = ucast (b_seqnum (base pdu))) (vd_unlink_rx vd) = Some (ls, l, ms)"
    "vd' = vd\<lparr>vd_unlink_rx := ls @ ms\<rparr>"
    using assms by (auto simp: dequeue_pending_unlink_def split: option.splits)
  then show ?thesis by (auto simp: extract_Some_iff)
qed

end
