(* ===== verification/Vhci_Port.thy ===== *)
theory Vhci_Port
  imports Vhci_Rx
begin

text \<open>
  What the USB core does with the URBs of one port (\<open>vhci_urb_enqueue\<close>, \<open>vhci_tx_urb\<close>,
  \<open>vhci_urb_dequeue\<close> and \<open>vhci_device_unlink_cleanup\<close> of \<open>vhci_hcd.c\<close>), and the port as a state
  machine: these operations with the pieces of the receive and transmit threads in any order.
  The invariant is that no URB that was accepted is on two queues or handed back twice, and that as
  long as no event is pending each is on a queue, was handed back, or was dropped for want of a
  buffer for its packet descriptors.
\<close>

section \<open>Taking a URB\<close>

abbreviation (input) USB_REQ_SET_ADDRESS :: u8 where "USB_REQ_SET_ADDRESS \<equiv> 5"
abbreviation (input) USB_REQ_GET_DESCRIPTOR :: u8 where "USB_REQ_GET_DESCRIPTOR \<equiv> 6"
abbreviation (input) sizeof_vhci_priv :: nat where "sizeof_vhci_priv \<equiv> 40"
abbreviation (input) sizeof_vhci_unlink :: nat where "sizeof_vhci_unlink \<equiv> 32"

definition all_vprivs :: "vhci_device \<Rightarrow> vhci_priv list" where
  "all_vprivs vd = vd_priv_tx vd @ vd_priv_rx vd"

definition set_vudev ::
  "('c, 'k) vhci_kernel_scheme \<Rightarrow> nat \<Rightarrow> 'c vhci_conn \<Rightarrow> 'c vhci_conn" where
  "set_vudev K dev s =
     (let c1 = (case vd_udev (vdev s) of None \<Rightarrow> env s | Some old \<Rightarrow> usb_put_dev K old (env s)) in
      s\<lparr>env := usb_get_dev K dev c1, vdev := (vdev s)\<lparr>vd_udev := Some dev\<rparr>\<rparr>)"

text \<open>\<open>vhci_urb_enqueue\<close> up to the call of \<open>vhci_tx_urb\<close>, which the Boolean asks for.  \<open>None\<close> is the
  \<open>BUG_ON\<close>, or a setup packet too short to hold a request.\<close>

definition vhci_urb_admit ::
  "('c, 'k) vhci_kernel_scheme \<Rightarrow> vhci_urb \<Rightarrow> 'c vhci_conn \<Rightarrow> (int \<times> bool \<times> 'c vhci_conn) option"
where
  "vhci_urb_admit K urb s =
     (if urb_transfer_buffer urb = None \<and> urb_transfer_buffer_length urb \<noteq> 0 then None
      else if urb_status urb \<noteq> - EINPROGRESS then Some (urb_status urb, False, s)
      else if status (ud s) = VDEV_ST_NULL \<or> status (ud s) = VDEV_ST_ERROR
      then Some (- ENODEV, False, s)
      else let (ret, c) = usb_hcd_link_urb_to_ep K urb (env s); s1 = s\<lparr>env := c\<rparr>;
               no_need_xmit = s1\<lparr>env := usb_hcd_unlink_urb_from_ep K (vu_id urb) (env s1)\<rparr> in
      if ret \<noteq> 0 then Some (ret, False, s1)
      else if usb_pipedevice (urb_pipe urb) = 0 then
        (case urb_setup_packet urb of
           None \<Rightarrow> Some (- EINVAL, False, no_need_xmit)
         | Some setup \<Rightarrow>
             if usb_pipetype (urb_pipe urb) \<noteq> PIPE_CONTROL
             then Some (- EINVAL, False, no_need_xmit)
             else if length setup < 8 then None
             else if setup ! 1 = USB_REQ_SET_ADDRESS then
               let s2 = set_vudev K (vu_dev urb) s1; s3 = s2\<lparr>ud := (ud s2)\<lparr>status := VDEV_ST_USED\<rparr>\<rparr>
               in Some (0, False, vhci_giveback K (urb\<lparr>urb_status := 0\<rparr>) s3)
             else if setup ! 1 = USB_REQ_GET_DESCRIPTOR
             then Some (0, True, set_vudev K (vu_dev urb) s1)
             else Some (- EINVAL, False, no_need_xmit))
      else Some (0, True, s1))"

text \<open>\<open>vhci_tx_urb\<close> once the port is found.  The counter is an \<open>atomic_t\<close>, a signed \<open>int\<close>, which is
  converted to \<open>unsigned long\<close>.\<close>

definition vhci_tx_urb ::
  "('c, 'k) vhci_kernel_scheme \<Rightarrow> vhci_urb \<Rightarrow> 'c vhci_conn \<Rightarrow> raised \<times> 'c vhci_conn" where
  "vhci_tx_urb K urb s =
     (let (ok, c) = kmalloc K sizeof_vhci_priv (env s); s1 = s\<lparr>env := c\<rparr> in
      if \<not> ok then (Some VDEV_EVENT_ERROR_MALLOC, s1)
      else let n = vseq s1 + 1; p = \<lparr>vp_seqnum = scast n, vp_urb = urb\<rparr> in
        (None, s1\<lparr>vseq := n, vdev := (vdev s1)\<lparr>vd_priv_tx := vd_priv_tx (vdev s1) @ [p]\<rparr>\<rparr>))"

section \<open>Taking a URB back\<close>

definition find_vpriv :: "nat \<Rightarrow> vhci_device \<Rightarrow> vhci_priv option" where
  "find_vpriv i vd = find (\<lambda>p. vu_id (vp_urb p) = i) (all_vprivs vd)"

definition del_vpriv :: "nat \<Rightarrow> vhci_device \<Rightarrow> vhci_device" where
  "del_vpriv i vd =
     (let g = filter (\<lambda>p. vu_id (vp_urb p) \<noteq> i) in
      vd\<lparr>vd_priv_tx := g (vd_priv_tx vd), vd_priv_rx := g (vd_priv_rx vd)\<rparr>)"

text \<open>\<open>vhci_urb_dequeue\<close> for the URB at address \<open>i\<close>.\<close>

definition vhci_dequeue ::
  "('c, 'k) vhci_kernel_scheme \<Rightarrow> nat \<Rightarrow> int \<Rightarrow> 'c vhci_conn \<Rightarrow> int \<times> raised \<times> 'c vhci_conn" where
  "vhci_dequeue K i st s = (case find_vpriv i (vdev s) of
     None \<Rightarrow> (- EIDRM, None, s)
   | Some p \<Rightarrow>
       let (ret, c) = usb_hcd_check_unlink_urb K i st (env s); s1 = s\<lparr>env := c\<rparr> in
       if ret \<noteq> 0 then (ret, None, s1)
       else if tcp_socket (ud s1) = None
       then (0, None, vhci_giveback K (vp_urb p) (s1\<lparr>vdev := del_vpriv i (vdev s1)\<rparr>))
       else let (ok, c2) = kmalloc K sizeof_vhci_unlink (env s1); s2 = s1\<lparr>env := c2\<rparr> in
         if \<not> ok then (- ENOMEM, Some VDEV_EVENT_ERROR_MALLOC, s2)
         else let n = vseq s2 + 1; l = \<lparr>vl_seqnum = scast n, vl_unlink_seqnum = vp_seqnum p\<rparr> in
           (0, None, s2\<lparr>vseq := n, vdev := (vdev s2)\<lparr>vd_unlink_tx := vd_unlink_tx (vdev s2) @ [l]\<rparr>\<rparr>))"

text \<open>The end of a connection: the unlink requests that were not answered.\<close>

function unlink_cleanup_rx ::
  "('c, 'k) vhci_kernel_scheme \<Rightarrow> 'c vhci_conn \<Rightarrow> 'c vhci_conn" where
  "unlink_cleanup_rx K s = (case vd_unlink_rx (vdev s) of
     [] \<Rightarrow> s
   | l # ls \<Rightarrow>
       (case pickup_urb_and_free_priv (ucast (vl_unlink_seqnum l)) (vdev s) of
          None \<Rightarrow> unlink_cleanup_rx K (s\<lparr>vdev := (vdev s)\<lparr>vd_unlink_rx := ls\<rparr>\<rparr>)
        | Some (urb, vd) \<Rightarrow>
            unlink_cleanup_rx K (vhci_giveback K (urb\<lparr>urb_status := - ENODEV\<rparr>)
              (s\<lparr>vdev := vd\<lparr>vd_unlink_rx := ls\<rparr>\<rparr>))))"
  by pat_completeness auto
termination
  by (relation "measure (\<lambda>(K, s). length (vd_unlink_rx (vdev s)))") (auto simp: vhci_giveback_def)

declare unlink_cleanup_rx.simps [simp del]

definition vhci_device_unlink_cleanup ::
  "('c, 'k) vhci_kernel_scheme \<Rightarrow> 'c vhci_conn \<Rightarrow> 'c vhci_conn" where
  "vhci_device_unlink_cleanup K s =
     unlink_cleanup_rx K (s\<lparr>vdev := (vdev s)\<lparr>vd_unlink_tx := []\<rparr>\<rparr>)"

section \<open>The URBs of a port\<close>

definition vids :: "vhci_device \<Rightarrow> nat list" where
  "vids vd = map (\<lambda>p. vu_id (vp_urb p)) (all_vprivs vd)"

definition vseqs :: "vhci_device \<Rightarrow> ulong list" where
  "vseqs vd = map vp_seqnum (all_vprivs vd)"

text \<open>Every URB that the port answers for: on a queue or handed back.\<close>

definition account :: "'c vhci_conn \<Rightarrow> nat multiset" where
  "account s = mset (vids (vdev s)) + mset (map vu_id (given s))"

text \<open>An operation that takes no new URB: it keeps the queues or shortens them, it loses the URBs in
  \<open>L\<close>, and unless an event is pending it loses no others.\<close>

definition vkeeps :: "nat multiset \<Rightarrow> 'c vhci_conn \<Rightarrow> 'c vhci_conn \<Rightarrow> bool" where
  "vkeeps L s s' = (mset (all_vprivs (vdev s')) \<subseteq># mset (all_vprivs (vdev s)) \<and>
     account s' + L \<subseteq># account s \<and>
     (event (ud s') = 0 \<longrightarrow> event (ud s) = 0 \<and> account s = account s' + L))"

lemma vkeeps_refl [simp]: "vkeeps {#} s s"
  by (simp add: vkeeps_def)

lemma vkeeps_trans: "vkeeps L s s' \<Longrightarrow> vkeeps {#} s' s'' \<Longrightarrow> vkeeps L s s''"
proof -
  assume a: "vkeeps L s s'" "vkeeps {#} s' s''"
  then have "account s'' + L \<subseteq># account s' + L" "account s' + L \<subseteq># account s" by (simp_all add: vkeeps_def)
  from subset_mset.order_trans [OF this] show ?thesis using a by (auto simp: vkeeps_def intro: subset_mset.order_trans)
qed

lemma vkeeps_event: "vkeeps L' s s' \<Longrightarrow> event (ud s') \<noteq> 0 \<Longrightarrow> L \<subseteq># L' \<Longrightarrow> vkeeps L s s'"
proof -
  assume a: "vkeeps L' s s'" "event (ud s') \<noteq> 0" "L \<subseteq># L'"
  then have "account s' + L \<subseteq># account s' + L'" "account s' + L' \<subseteq># account s" by (simp_all add: vkeeps_def)
  from subset_mset.order_trans [OF this] show ?thesis using a by (simp add: vkeeps_def)
qed

lemma conn_step_vhci:
  assumes "conn_step s s'"
  shows "vdev s' = vdev s" "vseq s' = vseq s" "given s' = given s"
  using assms by (cases s; cases s'; simp add: conn_step_def)+

lemma vkeeps_conn_step: "conn_step s s' \<Longrightarrow> vkeeps {#} s s'"
  using conn_step_vhci [of s s'] conn_step_ud(9) [of s s'] by (auto simp: vkeeps_def account_def)

lemma env_only_vhci:
  assumes "env_only s s'"
  shows "vdev s' = vdev s" "vseq s' = vseq s" "given s' = given s"
  using assms by (cases s; cases s'; simp add: env_only_def)+

lemma vkeeps_env_only: "env_only s s' \<Longrightarrow> vkeeps {#} s s'"
  using env_only_vhci [of s s'] env_only_sel(1) [of s s'] by (simp add: vkeeps_def account_def)

lemma pickup_account:
  assumes "pickup_urb_and_free_priv n vd = Some (urb, vd')"
  shows "\<exists>p. mset (all_vprivs vd) = add_mset p (mset (all_vprivs vd')) \<and> vp_urb p = urb \<and>
    p \<in> set (vd_priv_rx vd) \<and> vp_seqnum p = ucast n"
  using pickup_Some [OF assms] by (auto simp: all_vprivs_def)

lemma vids_add:
  "mset (all_vprivs vd) = add_mset p (mset (all_vprivs vd')) \<Longrightarrow>
   mset (vids vd) = add_mset (vu_id (vp_urb p)) (mset (vids vd'))"
  by (simp add: vids_def)

text \<open>A URB that is taken off its queue and handed back, and one that is lost.\<close>

lemma vkeeps_giveback:
  "mset (all_vprivs (vdev s)) = add_mset p (mset (all_vprivs vd)) \<Longrightarrow>
   conn_step (s\<lparr>vdev := vd\<rparr>) s' \<Longrightarrow> vu_id urb = vu_id (vp_urb p) \<Longrightarrow>
   vkeeps {#} s (vhci_giveback K urb s')"
  using conn_step_vhci [of "s\<lparr>vdev := vd\<rparr>" s'] conn_step_ud(9) [of "s\<lparr>vdev := vd\<rparr>" s']
  by (auto simp: vkeeps_def vhci_giveback_def account_def vids_add)

lemma vkeeps_lost:
  "mset (all_vprivs (vdev s)) = add_mset p (mset (all_vprivs vd)) \<Longrightarrow>
   conn_step (s\<lparr>vdev := vd\<rparr>) s' \<Longrightarrow> vkeeps {#vu_id (vp_urb p)#} s s'"
  using conn_step_vhci [of "s\<lparr>vdev := vd\<rparr>" s'] conn_step_ud(9) [of "s\<lparr>vdev := vd\<rparr>" s']
  by (auto simp: vkeeps_def account_def vids_add)

section \<open>Receiving keeps the account\<close>

lemma tcp_error_nz [simp]: "tcp_error d \<noteq> 0"
  by (simp add: tcp_error_def event_defs)

lemma error_events_nz [simp]: "SDEV_EVENT_ERROR_TCP \<noteq> 0" "VDEV_EVENT_ERROR_TCP \<noteq> 0"
  "VDEV_EVENT_DOWN \<noteq> 0" "SDEV_EVENT_ERROR_MALLOC \<noteq> 0" "VDEV_EVENT_ERROR_MALLOC \<noteq> 0"
  by (simp_all add: event_defs)

lemma put_buffer_more [simp]: "urb.more (put_buffer b urb) = urb.more urb"
  by (simp add: put_buffer_def)

lemma recv_xbuff_event:
  "usbip_recv_xbuff P urb s = Some (r, urb', s') \<Longrightarrow> r < 0 \<Longrightarrow> event (ud s') \<noteq> 0"
  by (auto simp: usbip_recv_xbuff_def Let_def usbip_event_add_nonzero
      split: if_splits prod.splits option.splits)

lemma recv_xbuff_more:
  "usbip_recv_xbuff P urb s = Some (r, urb', s') \<Longrightarrow> urb.more urb' = urb.more urb"
  by (auto simp: usbip_recv_xbuff_def store_prefix_def Let_def
      split: if_splits prod.splits option.splits)

text \<open>The one failure of \<open>usbip_recv_iso\<close> that raises no event is that of its allocation.  The count
  comes from the peer: a negative one asks for nearly \<open>2 ^ 64\<close> bytes, which no kernel grants.\<close>

definition iso_size :: "'z urb_scheme \<Rightarrow> nat" where
  "iso_size urb =
     nat (sint (urb_number_of_packets urb * word_of_nat sizeof_iso_descriptor) mod 2 ^ 64)"

definition iso_alloc_fails :: "('c, 'p) platform_scheme \<Rightarrow> 'z urb_scheme \<Rightarrow> 'c \<Rightarrow> bool" where
  "iso_alloc_fails P urb c = (usb_pipeisoc (urb_pipe urb) \<and> sint (urb_number_of_packets urb) \<noteq> 0 \<and>
     \<not> fst (kmalloc P (iso_size urb) c))"

definition alloc_bounded :: "('c, 'p) platform_scheme \<Rightarrow> bool" where
  "alloc_bounded P = (\<forall>n c. 2 ^ 63 \<le> n \<longrightarrow> \<not> fst (kmalloc P n c))"

lemma mod_neg_s32: "- (2 ^ 31) \<le> (z :: int) \<Longrightarrow> z < 0 \<Longrightarrow> z mod 2 ^ 64 = z + 2 ^ 64"
  using mod_pos_pos_trivial [of "z + 2 ^ 64" "2 ^ 64"] by simp

lemma iso_size_neg:
  assumes "sint (urb_number_of_packets urb * word_of_nat sizeof_iso_descriptor) < 0"
  shows "2 ^ 63 \<le> iso_size urb"
proof -
  let ?z = "sint (urb_number_of_packets urb * word_of_nat sizeof_iso_descriptor)"
  have "- (2 ^ 31) \<le> ?z"
    using sint_ge [of "urb_number_of_packets urb * word_of_nat sizeof_iso_descriptor"] by simp
  then show ?thesis using mod_neg_s32 [of ?z] assms by (simp add: iso_size_def)
qed

lemma recv_iso_event:
  assumes "usbip_recv_iso P urb s = Some (r, urb', s')" "r < 0" "alloc_bounded P"
    "\<not> iso_alloc_fails P urb (env s)"
  shows "event (ud s') \<noteq> 0"
proof (cases "usb_pipeisoc (urb_pipe urb) \<and> sint (urb_number_of_packets urb) \<noteq> 0")
  case False
  then have "usbip_recv_iso P urb s = Some (0, urb, s)"
    unfolding usbip_recv_iso_def Let_def by meson
  then show ?thesis using assms(1,2) by simp
next
  case True
  then have k: "fst (kmalloc P (iso_size urb) (env s))" using assms(4) by (simp add: iso_alloc_fails_def)
  then have "\<not> 2 ^ 63 \<le> iso_size urb" using assms(3) by (auto simp: alloc_bounded_def)
  then have "0 \<le> sint (urb_number_of_packets urb * word_of_nat sizeof_iso_descriptor)"
    using iso_size_neg [of urb] by linarith
  then show ?thesis using assms(1,2) k [unfolded iso_size_def] True
    by (auto simp: usbip_recv_iso_def Let_def usbip_event_add_nonzero
        split: if_splits prod.splits option.splits)
qed

lemma recv_iso_more:
  "usbip_recv_iso P urb s = Some (r, urb', s') \<Longrightarrow> urb.more urb' = urb.more urb"
  by (auto simp: usbip_recv_iso_def Let_def split: if_splits prod.splits option.splits)

lemma pad_iso_more: "usbip_pad_iso urb = Some urb' \<Longrightarrow> urb.more urb' = urb.more urb"
  by (auto simp: usbip_pad_iso_def Let_def split: if_splits)

lemma pack_pdu_more: "urb.more (snd (usbip_pack_pdu h urb cmd p)) = urb.more urb"
  by (simp add: usbip_pack_pdu_def usbip_pack_cmd_submit_def usbip_pack_ret_submit_def Let_def)

lemma vu_id_more: "urb.more x = urb.more y \<Longrightarrow> vu_id x = vu_id y" for x y :: vhci_urb
  by (cases x; cases y) simp

text \<open>Whether filling the URB fails for want of a buffer.\<close>

definition fill_drops ::
  "('c, 'k) vhci_kernel_scheme \<Rightarrow> vhci_urb \<Rightarrow> 'c vhci_conn \<Rightarrow> bool" where
  "fill_drops K urb s = (case usbip_recv_xbuff K urb s of
     Some (r1, urb1, s1) \<Rightarrow> r1 \<ge> 0 \<and> iso_alloc_fails K urb1 (env s1) | None \<Rightarrow> False)"

lemma fill_urb_keeps:
  assumes f: "vhci_fill_urb K urb (s\<lparr>vdev := vd\<rparr>) = Some s'" and a: "alloc_bounded K"
    and p: "mset (all_vprivs (vdev s)) = add_mset p (mset (all_vprivs vd))"
    and i: "vu_id urb = vu_id (vp_urb p)"
  shows "vkeeps (if fill_drops K urb (s\<lparr>vdev := vd\<rparr>) then {#vu_id urb#} else {#}) s s'"
proof -
  obtain r1 urb1 s1 where x: "usbip_recv_xbuff K urb (s\<lparr>vdev := vd\<rparr>) = Some (r1, urb1, s1)"
    using f by (cases "usbip_recv_xbuff K urb (s\<lparr>vdev := vd\<rparr>)") (auto simp: vhci_fill_urb_def)
  note c1 = usbip_recv_xbuff_conn_step [OF x]
  show ?thesis
  proof (cases "r1 < 0")
    case True
    then have "s' = s1" using f x by (simp add: vhci_fill_urb_def)
    then show ?thesis using vkeeps_event [OF vkeeps_lost [OF p c1]] recv_xbuff_event [OF x True] i by simp
  next
    case False
    then obtain r2 urb2 s2 where o: "usbip_recv_iso K urb1 s1 = Some (r2, urb2, s2)"
      using f x by (cases "usbip_recv_iso K urb1 s1") (auto simp: vhci_fill_urb_def)
    note c2 = conn_step_trans [OF c1 usbip_recv_iso_conn_step [OF o]]
    have d: "fill_drops K urb (s\<lparr>vdev := vd\<rparr>) = iso_alloc_fails K urb1 (env s1)"
      using x False by (simp add: fill_drops_def)
    show ?thesis
    proof (cases "r2 < 0")
      case True
      then have s': "s' = s2" using f x False o by (simp add: vhci_fill_urb_def)
      then show ?thesis
        using vkeeps_lost [OF p c2] vkeeps_event [OF vkeeps_lost [OF p c2]]
          recv_iso_event [OF o True a] i d by auto
    next
      case r2: False
      have nf: "\<not> iso_alloc_fails K urb1 (env s1)"
        using o r2 by (auto simp: usbip_recv_iso_def iso_alloc_fails_def iso_size_def Let_def
            split: if_splits prod.splits option.splits)
      obtain urb3 where u: "usbip_pad_iso urb2 = Some urb3" "s' = vhci_giveback K urb3 s2"
        using f x False o r2 by (cases "usbip_pad_iso urb2") (auto simp: vhci_fill_urb_def)
      have "vu_id urb3 = vu_id urb"
        by (rule vu_id_more)
           (simp add: pad_iso_more [OF u(1)] recv_iso_more [OF o] recv_xbuff_more [OF x])
      then show ?thesis using vkeeps_giveback [OF p c2] i u(2) d nf by simp
    qed
  qed
qed

text \<open>The URBs that a run of \<open>vhci_rx_pdu\<close> loses without an event.\<close>

definition pdu_drops ::
  "('c, 'k) vhci_kernel_scheme \<Rightarrow> usbip_header \<Rightarrow> 'c vhci_conn \<Rightarrow> nat multiset" where
  "pdu_drops K pdu s =
     (if b_command (base pdu) = USBIP_RET_SUBMIT then
        (case pickup_urb_and_free_priv (b_seqnum (base pdu)) (vdev s) of
           Some (urb, vd) \<Rightarrow>
             if fill_drops K (snd (usbip_pack_pdu pdu urb USBIP_RET_SUBMIT False)) (s\<lparr>vdev := vd\<rparr>)
             then {#vu_id urb#} else {#}
         | None \<Rightarrow> {#})
      else {#})"

definition rx_drops :: "('c, 'k) vhci_kernel_scheme \<Rightarrow> 'c vhci_conn \<Rightarrow> nat multiset" where
  "rx_drops K s =
     (let (ret, bs, c) = usbip_recv (trx_ops K) (ud s) True (int sizeof_usbip_header) (env s) in
      if ret = int sizeof_usbip_header
      then pdu_drops K (usbip_header_correct_endian (host_le K) (bytes_header (host_le K) bs) False)
        (s\<lparr>env := c\<rparr>)
      else {#})"

text \<open>Raising the event that an operation reports, as far as the port is concerned.\<close>

definition vraise :: "('c, 'k) vhci_kernel_scheme \<Rightarrow> raised \<Rightarrow> 'c vhci_conn \<Rightarrow> 'c vhci_conn" where
  "vraise K ev s = (case ev of None \<Rightarrow> s | Some e \<Rightarrow> usbip_event_add (kmalloc K) e s)"

lemma conn_step_vraise: "conn_step s (vraise K ev s)"
  by (simp add: vraise_def split: option.split)

lemmas vraise_sel [simp] = conn_step_vhci [OF conn_step_vraise]

lemma event_vraise: "event (ud (vraise K (Some e) s)) = 0 \<Longrightarrow> e = 0"
  using usbip_event_add_nonzero by (force simp: vraise_def)

lemma vkeeps_vraise: "vkeeps L s s' \<Longrightarrow> vkeeps L s (vraise K ev s')"
  using vkeeps_trans vkeeps_conn_step [OF conn_step_vraise] by blast

lemma recv_ret_submit_keeps:
  assumes "vhci_recv_ret_submit K pdu s = Some (ev, s')" "alloc_bounded K"
    "b_command (base pdu) = USBIP_RET_SUBMIT"
  shows "vkeeps (pdu_drops K pdu s) s (vraise K ev s')"
proof (cases "pickup_urb_and_free_priv (b_seqnum (base pdu)) (vdev s)")
  case None
  then have "ev = Some VDEV_EVENT_ERROR_TCP" "s' = s"
    using assms(1) by (simp_all add: vhci_recv_ret_submit_def)
  then show ?thesis using None assms(3) vkeeps_vraise [OF vkeeps_refl] by (simp add: pdu_drops_def)
next
  case (Some x)
  obtain urb vd where x: "x = (urb, vd)" by fastforce
  let ?urb = "snd (usbip_pack_pdu pdu urb USBIP_RET_SUBMIT False)"
  obtain p where p: "mset (all_vprivs (vdev s)) = add_mset p (mset (all_vprivs vd))" "vp_urb p = urb"
    using pickup_account Some x by blast
  have i: "vu_id ?urb = vu_id urb" by (rule vu_id_more) (rule pack_pdu_more)
  have "ev = None" "vhci_fill_urb K ?urb (s\<lparr>vdev := vd\<rparr>) = Some s'"
    using assms(1) Some x by (auto simp: vhci_recv_ret_submit_def)
  then show ?thesis
    using fill_urb_keeps [OF _ assms(2) p(1), of ?urb s'] Some x assms(3) i p(2)
    by (simp add: pdu_drops_def vraise_def split: if_splits)
qed

lemma recv_ret_unlink_keeps: "vkeeps {#} s (vhci_recv_ret_unlink K pdu s)"
proof (cases "dequeue_pending_unlink pdu (vdev s)")
  case None
  then show ?thesis by (simp add: vhci_recv_ret_unlink_def)
next
  case (Some x)
  obtain l vd where x: "x = (l, vd)" by fastforce
  have a: "all_vprivs vd = all_vprivs (vdev s)"
    using pending_unlink_Some [of pdu "vdev s" l vd] Some x by (auto simp: all_vprivs_def)
  show ?thesis
  proof (cases "pickup_urb_and_free_priv (ucast (vl_unlink_seqnum l)) vd")
    case None
    then show ?thesis using Some x a
      by (simp add: vhci_recv_ret_unlink_def vkeeps_def account_def vids_def)
  next
    case (Some y)
    obtain urb vd' where y: "y = (urb, vd')" by fastforce
    obtain p where p: "mset (all_vprivs (vdev s)) = add_mset p (mset (all_vprivs vd'))" "vp_urb p = urb"
      using pickup_account Some y a by metis
    then show ?thesis
      using vkeeps_giveback [OF p(1), of "s\<lparr>vdev := vd'\<rparr>"
          "urb\<lparr>urb_status := sint (ru_status (ret_unlink (u pdu)))\<rparr>" K] Some \<open>dequeue_pending_unlink pdu (vdev s) = Some x\<close> x y
      by (simp add: vhci_recv_ret_unlink_def)
  qed
qed

lemma handle_pdu_keeps:
  assumes "vhci_handle_pdu K pdu s = Some (ev, s')" "alloc_bounded K"
  shows "vkeeps (pdu_drops K pdu s) s (vraise K ev s')"
proof (cases "b_command (base pdu) = USBIP_RET_SUBMIT")
  case True
  then show ?thesis using assms recv_ret_submit_keeps by (simp add: vhci_handle_pdu_def)
next
  case False
  then show ?thesis
    using assms recv_ret_unlink_keeps vkeeps_vraise [of "{#}" s s K "Some VDEV_EVENT_ERROR_TCP"]
    by (auto simp: vhci_handle_pdu_def pdu_drops_def vraise_def split: if_splits)
qed

lemma vkeeps_env: "vkeeps L (s\<lparr>env := c\<rparr>) s' = vkeeps L s s'"
  by (simp add: vkeeps_def account_def)

lemma rx_pdu_keeps:
  assumes "vhci_rx_pdu K s = Some (ev, s')" "alloc_bounded K"
  shows "vkeeps (rx_drops K s) s (vraise K ev s')"
proof -
  obtain ret bs c where u: "usbip_recv (trx_ops K) (ud s) True (int sizeof_usbip_header) (env s) =
      (ret, bs, c)" using prod_cases3 by blast
  have e: "vkeeps {#} s (s\<lparr>env := c\<rparr>)" by (simp add: vkeeps_env_only)
  show ?thesis
  proof (cases "ret = int sizeof_usbip_header")
    case True
    let ?h = "usbip_header_correct_endian (host_le K) (bytes_header (host_le K) bs) False"
    have "vhci_handle_pdu K ?h (s\<lparr>env := c\<rparr>) = Some (ev, s')"
      using True assms(1) u by (simp add: vhci_rx_pdu_def sizeof_usbip_header_def)
    from handle_pdu_keeps [OF this assms(2)] show ?thesis
      using True u by (simp add: rx_drops_def vkeeps_env)
  next
    case False
    then have "s' = s\<lparr>env := c\<rparr> \<and> (ev = None \<or> ev = Some VDEV_EVENT_ERROR_TCP \<or> ev = Some VDEV_EVENT_DOWN)"
      using assms(1) u by (auto simp: vhci_rx_pdu_def Let_def split: if_splits)
    then show ?thesis using False u vkeeps_vraise [OF e] by (simp add: rx_drops_def)
  qed
qed

section \<open>The port as a state machine\<close>

text \<open>\<open>vhci_urb_enqueue\<close> for a URB whose device is that of the port.\<close>

definition vhci_enqueue ::
  "('c, 'k) vhci_kernel_scheme \<Rightarrow> vhci_urb \<Rightarrow> 'c vhci_conn \<Rightarrow> (int \<times> raised \<times> 'c vhci_conn) option"
where
  "vhci_enqueue K urb s =
     do { (r, xmit, s1) \<leftarrow> vhci_urb_admit K urb s;
          if xmit then let (ev, s2) = vhci_tx_urb K urb s1 in Some (r, ev, s2)
          else Some (r, None, s1) }"

text \<open>A state of a run: the port, the URBs it accepted, those it lost without an event, and how many
  sequence numbers its controller gave out.  The USB core submits a URB only when it has it, with the status \<open>-EINPROGRESS\<close>.\<close>

type_synonym 'c vhci_run = "'c vhci_conn \<times> nat multiset \<times> nat multiset \<times> nat"

definition numbers :: "'c vhci_conn \<Rightarrow> 'c vhci_conn \<Rightarrow> nat \<Rightarrow> nat" where
  "numbers s s' n = (if vseq s' = vseq s then n else Suc n)"

inductive vhci_step :: "('c, 'k) vhci_kernel_scheme \<Rightarrow> 'c vhci_run \<Rightarrow> 'c vhci_run \<Rightarrow> bool"
  for K :: "('c, 'k) vhci_kernel_scheme" where
  enqueue: "vu_id urb \<notin> set (vids (vdev s)) \<Longrightarrow> urb_status urb = - EINPROGRESS \<Longrightarrow> vhci_enqueue K urb s = Some (r, ev, s') \<Longrightarrow>
    vhci_step K (s, A, L, n)
      (vraise K ev s', if r = 0 then add_mset (vu_id urb) A else A, L, numbers s s' n)"
| dequeue: "vhci_dequeue K i st s = (r, ev, s') \<Longrightarrow>
    vhci_step K (s, A, L, n) (vraise K ev s', A, L, numbers s s' n)"
| send_submit: "vhci_dequeue_from_priv_tx (vdev s) = Some (p, vd) \<Longrightarrow>
    vhci_send_one K p (s\<lparr>vdev := vd\<rparr>) = Some (r, ev, s') \<Longrightarrow>
    vhci_step K (s, A, L, n) (vraise K ev s', A, L, n)"
| send_unlink: "vhci_dequeue_from_unlink_tx (vdev s) = Some (l, vd) \<Longrightarrow>
    vhci_send_unlink_one K l (s\<lparr>vdev := vd\<rparr>) = (r, ev, s') \<Longrightarrow>
    vhci_step K (s, A, L, n) (vraise K ev s', A, L, n)"
| rx: "\<not> usbip_event_happened (ud s) \<Longrightarrow> vhci_rx_pdu K s = Some (ev, s') \<Longrightarrow>
    vhci_step K (s, A, L, n) (vraise K ev s', A, L + rx_drops K s, n)"
| kernel: "vhci_step K (s, A, L, n) (s\<lparr>env := c\<rparr>, A, L, n)"
| other_port: "vhci_step K (s, A, L, n) (s\<lparr>vseq := vseq s + 1\<rparr>, A, L, Suc n)"

text \<open>The invariant: the URBs on the queues differ, their sequence numbers are numbers that were
  given out and differ until the counter has run through all its values, no URB is counted twice,
  and as long as no event is pending none is unaccounted for.\<close>

definition given_out :: "nat \<Rightarrow> ulong set" where
  "given_out n = (\<lambda>k. scast (word_of_nat k :: u32)) ` {1..n}"

definition vhci_inv :: "'c vhci_run \<Rightarrow> bool" where
  "vhci_inv = (\<lambda>(s, A, L, n). vseq s = word_of_nat n \<and> distinct (vids (vdev s)) \<and>
     set (vseqs (vdev s)) \<subseteq> given_out n \<and> (n < 2 ^ 32 \<longrightarrow> distinct (vseqs (vdev s))) \<and>
     account s + L \<subseteq># A \<and> (event (ud s) = 0 \<longrightarrow> A = account s + L))"

lemma vkeeps_inv:
  assumes "vkeeps X s s'" "vhci_inv (s, A, L, n)" "vseq s' = vseq s"
  shows "vhci_inv (s', A, L + X, n)"
proof -
  have sub: "mset (all_vprivs (vdev s')) \<subseteq># mset (all_vprivs (vdev s))"
    using assms(1) by (simp add: vkeeps_def)
  have "distinct (vids (vdev s)) \<Longrightarrow> distinct (vids (vdev s'))"
    "distinct (vseqs (vdev s)) \<Longrightarrow> distinct (vseqs (vdev s'))"
    using distinct_mset_sub image_mset_subseteq_mono [OF sub] by (metis vids_def vseqs_def mset_map)+
  moreover have "set (vseqs (vdev s')) \<subseteq> set (vseqs (vdev s))"
    using set_mset_mono [OF sub] by (auto simp: vseqs_def)
  moreover have "account s' + (L + X) \<subseteq># A"
  proof -
    have "account s' + X + L \<subseteq># account s + L" "account s + L \<subseteq># A"
      using assms(1,2) by (simp_all add: vkeeps_def vhci_inv_def)
    from subset_mset.order_trans [OF this] show ?thesis by (simp only: union_ac)
  qed
  ultimately show ?thesis using assms by (auto simp: vhci_inv_def vkeeps_def union_ac)
qed

lemma ucast_scast_seqnum [simp]: "ucast (scast (n :: u32) :: ulong) = n"
proof (rule bit_word_eqI)
  fix k assume "k < LENGTH(32)"
  then have "min 31 k = k" by simp
  with \<open>k < LENGTH(32)\<close> show "bit (ucast (scast n :: ulong) :: u32) k = bit n k" by (simp add: bit_simps)
qed

lemma given_out_fresh:
  assumes "Suc n < 2 ^ 32"
  shows "scast (word_of_nat (Suc n) :: u32) \<notin> given_out n"
proof
  assume "scast (word_of_nat (Suc n) :: u32) \<in> given_out n"
  then obtain k where "k \<le> n" "scast (word_of_nat (Suc n) :: u32) = (scast (word_of_nat k :: u32) :: ulong)"
    by (auto simp: given_out_def)
  then have "(word_of_nat (Suc n) :: u32) = word_of_nat k" by (metis ucast_scast_seqnum)
  from arg_cong [OF this, of unat] have "Suc n mod 2 ^ 32 = k mod 2 ^ 32"
    unfolding unat_of_nat by simp
  then show False using \<open>k \<le> n\<close> assms by simp
qed

lemma given_out_mono: "given_out n \<subseteq> given_out (Suc n)"
  by (auto simp: given_out_def)

lemma given_out_new: "scast (word_of_nat (Suc n) :: u32) \<in> given_out (Suc n)"
  unfolding given_out_def by (rule imageI) simp

lemma admit_cases:
  assumes "vhci_urb_admit K urb s = Some (r, xmit, s')" "urb_status urb = - EINPROGRESS"
  shows "all_vprivs (vdev s') = all_vprivs (vdev s)" "vseq s' = vseq s" "event (ud s') = event (ud s)"
    "map vu_id (given s') = map vu_id (given s) @ (if r = 0 \<and> \<not> xmit then [vu_id urb] else [])"
    "xmit \<Longrightarrow> r = 0"
  using assms
  by (auto simp: vhci_urb_admit_def set_vudev_def vhci_giveback_def Let_def all_vprivs_def
      split: if_splits prod.splits option.splits)

lemma tx_urb_cases:
  assumes "vhci_tx_urb K urb s = (ev, s')"
  obtains "ev = Some VDEV_EVENT_ERROR_MALLOC" "env_only s s'"
  | p where "ev = None" "vp_urb p = urb" "vp_seqnum p = scast (vseq s + 1)" "vseq s' = vseq s + 1"
    "mset (all_vprivs (vdev s')) = add_mset p (mset (all_vprivs (vdev s)))"
    "given s' = given s" "ud s' = ud s"
proof (cases "kmalloc K sizeof_vhci_priv (env s)")
  case (Pair ok c)
  show thesis
  proof (cases ok)
    case True
    then show ?thesis using assms Pair that(2) [of "\<lparr>vp_seqnum = scast (vseq s + 1), vp_urb = urb\<rparr>"]
      by (auto simp: vhci_tx_urb_def Let_def all_vprivs_def)
  next
    case False
    then show ?thesis using assms Pair that(1) by (auto simp: vhci_tx_urb_def Let_def)
  qed
qed

lemma numbers_same [simp]: "numbers s s n = n"
  by (simp add: numbers_def)

lemma inv_new:
  assumes "vhci_inv (s, A, L, n)" "vu_id (vp_urb p) \<notin> set (vids (vdev s))"
    "mset (all_vprivs (vdev s')) = add_mset p (mset (all_vprivs (vdev s)))"
    "vp_seqnum p = scast (vseq s + 1)" "vseq s' = vseq s + 1" "given s' = given s" "event (ud s') = event (ud s)"
  shows "vhci_inv (s', add_mset (vu_id (vp_urb p)) A, L, Suc n)"
proof -
  have n: "vp_seqnum p = scast (word_of_nat (Suc n) :: u32)" "vseq s' = word_of_nat (Suc n)"
    using assms(1,4,5) by (simp_all add: vhci_inv_def add.commute)
  have i: "mset (vids (vdev s')) = mset (vu_id (vp_urb p) # vids (vdev s))"
    and q: "mset (vseqs (vdev s')) = mset (vp_seqnum p # vseqs (vdev s))"
    using assms(3) by (simp_all add: vids_def vseqs_def)
  have "distinct (vids (vdev s'))"
    using mset_eq_imp_distinct_iff [OF i] assms(1,2) by (simp add: vhci_inv_def)
  moreover have "distinct (vseqs (vdev s'))" if "Suc n < 2 ^ 32"
    using mset_eq_imp_distinct_iff [OF q] given_out_fresh [OF that] assms(1) n(1) that
    by (auto simp: vhci_inv_def)
  moreover have "set (vseqs (vdev s')) \<subseteq> given_out (Suc n)"
    using mset_eq_setD [OF q] assms(1) given_out_mono [of n] given_out_new [of n] n(1)
    by (fastforce simp: vhci_inv_def)
  moreover have "account s' = add_mset (vu_id (vp_urb p)) (account s)"
    using i assms(6) by (simp add: account_def)
  ultimately show ?thesis using assms(1,7) n(2) by (simp add: vhci_inv_def)
qed

lemma inv_vraise:
  assumes "vhci_inv (s, A, L, n)" shows "vhci_inv (vraise K ev s, A, L, n)"
  using vkeeps_inv [OF vkeeps_conn_step [OF conn_step_vraise] assms] conn_step_vhci(2) [OF conn_step_vraise]
  by fastforce

lemma inv_event:
  assumes "vhci_inv (s, A, L, n)" "all_vprivs (vdev s') = all_vprivs (vdev s)" "vseq s' = vseq s" "event (ud s') \<noteq> 0"
    "given s' = given s"
  shows "vhci_inv (s', add_mset i A, L, n)"
  using assms subset_mset.order_trans [of "account s + L" A "add_mset i A"]
  by (simp add: vhci_inv_def vids_def vseqs_def account_def)

lemma enqueue_inv:
  assumes "vhci_enqueue K urb s = Some (r, ev, s')" "urb_status urb = - EINPROGRESS"
    "vu_id urb \<notin> set (vids (vdev s))" "vhci_inv (s, A, L, n)"
  shows "vhci_inv (vraise K ev s', if r = 0 then add_mset (vu_id urb) A else A, L, numbers s s' n)"
proof -
  obtain xmit s1 where a: "vhci_urb_admit K urb s = Some (r, xmit, s1)"
    and rest: "if xmit then vhci_tx_urb K urb s1 = (ev, s') else ev = None \<and> s' = s1"
    using assms(1) by (auto simp: vhci_enqueue_def bind_eq_Some_conv Let_def split: if_splits prod.splits)
  note c = admit_cases [OF a assms(2)]
  have v: "vids (vdev s1) = vids (vdev s)" "vseqs (vdev s1) = vseqs (vdev s)"
    by (simp_all add: vids_def vseqs_def c(1))
  show ?thesis
  proof (cases xmit)
    case False
    then have i: "vhci_inv (s', if r = 0 then add_mset (vu_id urb) A else A, L, n)" and "vseq s' = vseq s"
      using rest c v assms(4) by (auto simp: vhci_inv_def account_def add.assoc simp flip: mset_map)
    then show ?thesis using inv_vraise [OF i, of K ev] by (simp add: numbers_def)
  next
    case True
    have i: "vhci_inv (s1, A, L, n)"
      using True c v assms(4) by (auto simp: vhci_inv_def account_def simp flip: mset_map)
    have "vhci_tx_urb K urb s1 = (ev, s')" using rest True by simp
    then show ?thesis
    proof (cases rule: tx_urb_cases)
      case 1
      then show ?thesis
        using inv_event [OF i, of "vraise K ev s'"] event_vraise [of K VDEV_EVENT_ERROR_MALLOC s']
          env_only_vhci [of s1 s'] c(2) c(5) [OF True] by (auto simp: numbers_def)
    next
      case (2 p)
      then have "vhci_inv (s', add_mset (vu_id urb) A, L, Suc n)"
        using inv_new [OF i, of p s'] assms(3) v by simp
      then show ?thesis using 2(1,4) c(2,5) True by (simp add: vraise_def numbers_def)
    qed
  qed
qed


lemma del_vpriv_account:
  assumes "distinct (vids vd)" "find_vpriv i vd = Some p"
  shows "mset (all_vprivs vd) = add_mset p (mset (all_vprivs (del_vpriv i vd)))" "vu_id (vp_urb p) = i"
proof -
  have p: "p \<in> set (all_vprivs vd)" and i: "vu_id (vp_urb p) = i"
    using assms(2) by (auto simp: find_vpriv_def find_Some_iff)
  have "all_vprivs (del_vpriv i vd) = filter (\<lambda>q. vu_id (vp_urb q) \<noteq> i) (all_vprivs vd)"
    by (simp add: all_vprivs_def del_vpriv_def Let_def)
  then show "mset (all_vprivs vd) = add_mset p (mset (all_vprivs (del_vpriv i vd)))"
    using mset_filter_key [of "\<lambda>q. vu_id (vp_urb q)" "all_vprivs vd" p] assms(1) p i
    by (simp add: vids_def)
  show "vu_id (vp_urb p) = i" by (rule i)
qed

lemma inv_bump:
  assumes "vhci_inv (s, A, L, n)" "all_vprivs (vdev s') = all_vprivs (vdev s)" "vseq s' = vseq s + 1"
    "event (ud s') = event (ud s)" "given s' = given s"
  shows "vhci_inv (s', A, L, Suc n)"
  using assms given_out_mono [of n]
  by (auto simp: vhci_inv_def vids_def vseqs_def account_def add.commute)

lemma dequeue_inv:
  assumes "vhci_dequeue K i st s = (r, ev, s')" "vhci_inv (s, A, L, n)"
  shows "vhci_inv (vraise K ev s', A, L, numbers s s' n)"
proof (cases "find_vpriv i (vdev s)")
  case None
  then show ?thesis using assms inv_vraise [OF assms(2)] by (auto simp: vhci_dequeue_def)
next
  case (Some p)
  obtain ret c where ch: "usb_hcd_check_unlink_urb K i st (env s) = (ret, c)" by fastforce
  obtain ok c2 where ma: "kmalloc K sizeof_vhci_unlink c = (ok, c2)" by fastforce
  have e: "vhci_inv (s\<lparr>env := c'\<rparr>, A, L, n)" for c' using assms(2) by (simp add: vhci_inv_def account_def)
  consider (refused) "ret \<noteq> 0" | (dead) "ret = 0" "tcp_socket (ud s) = None"
    | (nomem) "ret = 0" "tcp_socket (ud s) \<noteq> None" "\<not> ok"
    | (queued) "ret = 0" "tcp_socket (ud s) \<noteq> None" "ok" by blast
  then show ?thesis
  proof cases
    case dead
    let ?s = "s\<lparr>env := c\<rparr>"
    have "mset (all_vprivs (vdev ?s)) = add_mset p (mset (all_vprivs (del_vpriv i (vdev ?s))))"
      using del_vpriv_account(1) [OF _ Some] assms(2) by (simp add: vhci_inv_def)
    from vkeeps_giveback [OF this conn_step_refl, of "vp_urb p" K]
    have "vkeeps {#} ?s s'" using dead assms(1) Some ch by (simp add: vhci_dequeue_def)
    moreover have "vseq s' = vseq s" "ev = None"
      using dead assms(1) Some ch by (auto simp: vhci_dequeue_def vhci_giveback_def)
    ultimately show ?thesis using vkeeps_inv [of "{#}" ?s s'] e by (simp add: vraise_def numbers_def)
  next
    case queued
    then have "vhci_inv (s', A, L, Suc n)" "vseq s' = vseq s + 1" "ev = None"
      using inv_bump [OF assms(2), of s'] assms(1) Some ch ma
      by (auto simp: vhci_dequeue_def all_vprivs_def Let_def)
    then show ?thesis by (simp add: vraise_def numbers_def)
  qed (use assms(1) Some ch ma inv_vraise [OF e] in \<open>auto simp: vhci_dequeue_def numbers_def\<close>)
qed

lemma dequeue_tx_account:
  assumes "vhci_dequeue_from_priv_tx vd = Some (p, vd')"
  shows "mset (all_vprivs vd') = mset (all_vprivs vd)"
  using assms by (auto simp: vhci_dequeue_from_priv_tx_def all_vprivs_def split: list.splits)

lemma dequeue_unlink_privs:
  "vhci_dequeue_from_unlink_tx vd = Some (l, vd') \<Longrightarrow> all_vprivs vd' = all_vprivs vd"
  by (auto simp: vhci_dequeue_from_unlink_tx_def all_vprivs_def split: list.splits)

text \<open>A request that moves to the queue of those sent.\<close>

lemma vkeeps_moved:
  "mset (all_vprivs vd) = mset (all_vprivs (vdev s)) \<Longrightarrow> env_only (s\<lparr>vdev := vd\<rparr>) s' \<Longrightarrow> vkeeps {#} s s'"
  using env_only_vhci [of "s\<lparr>vdev := vd\<rparr>" s'] env_only_sel(1) [of "s\<lparr>vdev := vd\<rparr>" s']
  by (simp add: vkeeps_def account_def vids_def)

lemma vkeeps_step:
  "vkeeps X s s' \<Longrightarrow> vhci_inv (s, A, L, n) \<Longrightarrow> vseq s' = vseq s \<Longrightarrow> vhci_inv (vraise K ev s', A, L + X, n)"
  using vkeeps_inv [OF vkeeps_vraise] by simp

lemma fill_urb_vseq: "vhci_fill_urb K urb s = Some s' \<Longrightarrow> vseq s' = vseq s"
  by (auto simp: vhci_fill_urb_def vhci_giveback_def bind_eq_Some_conv split: if_splits
      dest!: conn_step_vhci(2) [OF usbip_recv_xbuff_conn_step]
        conn_step_vhci(2) [OF usbip_recv_iso_conn_step])

lemma handle_pdu_vseq: "vhci_handle_pdu K pdu s = Some (ev, s') \<Longrightarrow> vseq s' = vseq s"
  by (auto simp: vhci_handle_pdu_def vhci_recv_ret_submit_def vhci_recv_ret_unlink_def
      vhci_giveback_def dest: fill_urb_vseq split: if_splits option.splits)

lemma rx_pdu_vseq: "vhci_rx_pdu K s = Some (ev, s') \<Longrightarrow> vseq s' = vseq s"
  by (auto simp: vhci_rx_pdu_def Let_def dest: handle_pdu_vseq split: if_splits prod.splits)

lemma vhci_step_inv:
  assumes "vhci_step K x y" "vhci_inv x" "alloc_bounded K"
  shows "vhci_inv y"
  using assms(1,2)
proof cases
  case (enqueue urb s r ev s' A L n)
  then show ?thesis using enqueue_inv assms(2) by blast
next
  case (dequeue i st s r ev s' A L n)
  then show ?thesis using dequeue_inv assms(2) by blast
next
  case (send_submit s p vd r ev s' A L n)
  note e = vhci_send_one_vdev [OF send_submit(4)]
  have "vseq s' = vseq s" using env_only_vhci(2) [OF e] by simp
  then show ?thesis
    using vkeeps_step [OF vkeeps_moved [OF dequeue_tx_account [OF send_submit(3)] e]] assms(2) send_submit(1,2)
    by fastforce
next
  case (send_unlink s l vd r ev s' A L n)
  note e = vhci_send_unlink_one_vdev [OF send_unlink(4)]
  have "vseq s' = vseq s" using env_only_vhci(2) [OF e] by simp
  then show ?thesis
    using vkeeps_step [OF vkeeps_moved [OF arg_cong [where f = mset, OF dequeue_unlink_privs [OF send_unlink(3)]] e]]
      assms(2) send_unlink(1,2) by fastforce
next
  case (rx s ev s' A L n)
  from vkeeps_inv [OF rx_pdu_keeps [OF rx(4) assms(3)]] rx_pdu_vseq [OF rx(4)] rx(1,2) assms(2)
  show ?thesis by simp
next
  case (kernel s A L n c)
  then show ?thesis using assms(2) by (simp add: vhci_inv_def account_def)
next
  case (other_port s A L n)
  then show ?thesis using inv_bump [of s A L n "s\<lparr>vseq := vseq s + 1\<rparr>"] assms(2) by simp
qed

lemma vhci_reach_inv:
  assumes "(vhci_step K)\<^sup>*\<^sup>* x y" "vhci_inv x" "alloc_bounded K" shows "vhci_inv y"
  using assms by (induction rule: rtranclp_induct) (auto intro: vhci_step_inv)

definition vqueues_empty :: "vhci_device \<Rightarrow> bool" where
  "vqueues_empty vd = (vd_priv_tx vd = [] \<and> vd_priv_rx vd = [] \<and> vd_unlink_tx vd = [] \<and>
     vd_unlink_rx vd = [])"

lemma vhci_inv_start: "vqueues_empty (vdev s) \<Longrightarrow> given s = [] \<Longrightarrow> vhci_inv (s, {#}, {#}, unat (vseq s))"
  by (simp add: vhci_inv_def vqueues_empty_def account_def vids_def vseqs_def all_vprivs_def)

lemma scast_small:
  assumes "k < 2 ^ 31" shows "(scast (word_of_nat k :: u32) :: ulong) = word_of_nat k"
proof -
  have "sint (word_of_nat k :: u32) = int k"
    using assms by (simp add: signed_of_nat signed_take_bit_int_eq_self)
  then show ?thesis by (metis of_int_of_nat_eq scast_eq)
qed

lemma given_out_small:
  assumes "x \<in> given_out n" "n < 2 ^ 31"
  shows "ucast (ucast x :: u32) = x"
proof -
  obtain k where "k \<in> {1..n}" "x = scast (word_of_nat k :: u32)"
    using assms(1) unfolding given_out_def by blast
  with assms(2) have k: "k < 2 ^ 31" "x = scast (word_of_nat k :: u32)" by simp_all
  then have "uint (word_of_nat k :: u32) = int k" by (simp add: uint_nat unat_of_nat)
  then have "(ucast (word_of_nat k :: u32) :: ulong) = word_of_nat k" by (metis of_int_of_nat_eq ucast_eq)
  moreover have "ucast x = (word_of_nat k :: u32)" by (simp add: k(2))
  ultimately show ?thesis using k by (simp only: scast_small)
qed

section \<open>Properties of a port\<close>


definition demo_vurb :: vhci_urb where
  "demo_vurb = \<lparr>urb_pipe = 0xC0008280, urb_transfer_flags = 0,
     urb_transfer_buffer = Some [0, 0, 0, 0], urb_transfer_buffer_length = 4, urb_actual_length = 0,
     urb_status = - EINPROGRESS, urb_start_frame = 0, urb_number_of_packets = 0, urb_interval = 0,
     urb_error_count = 0, urb_setup_packet = None, urb_iso_frame_desc = [],
     vu_id = 7, vu_dev = 5, vu_portnum = 1\<rparr>"

definition demo_vhci_kernel :: "u8 list vhci_kernel" where
  "demo_vhci_kernel = \<lparr>host_le = True, kmalloc = (\<lambda>n c. (n < 2 ^ 20, c)), trx_ops = list_trx,
     kthread_get_run = id, kthread_stop_put = id, sockfd_put = (\<lambda>_. id),
     usb_get_dev = (\<lambda>_. id), usb_put_dev = (\<lambda>_. id),
     usb_hcd_link_urb_to_ep = (\<lambda>_ c. (0, c)), usb_hcd_unlink_urb_from_ep = (\<lambda>_. id),
     usb_hcd_check_unlink_urb = (\<lambda>_ _ c. (0, c)), usb_hcd_poll_rh_status = (\<lambda>_. id),
     usb_hcd_resume_root_hub = (\<lambda>_. id), usb_create_hcd = (\<lambda>_ c. (True, c)),
     usb_add_hcd = (\<lambda>_ c. (0, c)), usb_remove_hcd = (\<lambda>_. id),
     platform_device_register_simple = (\<lambda>_ c. (0, c)), probes_now = (\<lambda>_ _. True),
     platform_driver_register = (\<lambda>c. (0, c)), platform_driver_unregister = id,
     sysfs_create_group = (\<lambda>c. (0, c)), sysfs_remove_group = id, sysfs_remove_link = id,
     usb_disabled = (\<lambda>_. False), signal_pending = (\<lambda>_. False), jiffies = (\<lambda>_. 1000),
     msecs_to_jiffies = word_of_nat, dev_name = (\<lambda>_ _. ''1-1'')\<rparr>"

definition demo_vdev :: vhci_device where
  "demo_vdev = \<lparr>vd_udev = Some 5, vd_devid = 0x10002, vd_speed = 3, vd_rhport = 0, vd_priv_tx = [],
     vd_priv_rx = [], vd_unlink_tx = [], vd_unlink_rx = [], vd_using_port = 1\<rparr>"

definition demo_vconn :: "u8 list \<Rightarrow> u8 list vhci_conn" where
  "demo_vconn bs = \<lparr>ud = demo_ud USBIP_VHCI VDEV_ST_USED, event_list = [], env = bs,
     vdev = demo_vdev, vseq = 0, given = []\<rparr>"

lemma demo_vhci_alloc [simp]: "alloc_bounded demo_vhci_kernel"
  by (simp add: alloc_bounded_def demo_vhci_kernel_def)

lemma demo_vconn_start [simp]: "vqueues_empty (vdev (demo_vconn bs))" "given (demo_vconn bs) = []"
  "vseq (demo_vconn bs) = 0" "event (ud (demo_vconn bs)) = 0"
  by (simp_all add: demo_vconn_def demo_vdev_def vqueues_empty_def demo_ud_def)

text \<open>The state after one URB was enqueued, and after it was sent.\<close>

definition demo_vpriv :: vhci_priv where
  "demo_vpriv = \<lparr>vp_seqnum = 1, vp_urb = demo_vurb\<rparr>"

lemma demo_enqueue:
  "vhci_enqueue demo_vhci_kernel demo_vurb (demo_vconn bs) =
     Some (0, None, (demo_vconn bs)\<lparr>vseq := 1, vdev := demo_vdev\<lparr>vd_priv_tx := [demo_vpriv]\<rparr>\<rparr>)"
  by (simp add: vhci_enqueue_def vhci_urb_admit_def vhci_tx_urb_def demo_vhci_kernel_def demo_vconn_def
      demo_vdev_def demo_vpriv_def demo_vurb_def demo_ud_def usb_pipedevice_def Let_def eval_simps)

lemma demo_enqueue_run:
  "(vhci_step demo_vhci_kernel)\<^sup>*\<^sup>* (demo_vconn bs, {#}, {#}, unat (vseq (demo_vconn bs)))
     ((demo_vconn bs)\<lparr>vseq := 1, vdev := demo_vdev\<lparr>vd_priv_tx := [demo_vpriv]\<rparr>\<rparr>, {#7#}, {#}, 1)"
proof -
  have "vu_id demo_vurb \<notin> set (vids (vdev (demo_vconn bs)))" "urb_status demo_vurb = - EINPROGRESS"
    "vu_id demo_vurb = 7"
    by (simp_all add: vids_def all_vprivs_def demo_vconn_def demo_vdev_def demo_vurb_def)
  from vhci_step.enqueue [OF this(1,2) demo_enqueue, of "{#}" "{#}" "unat (vseq (demo_vconn bs))"] this(3)
  show ?thesis by (auto simp: vraise_def numbers_def)
qed


text \<open>C10: an answer completes the URB it answers.  As long as a controller gave out less than
  \<open>2 ^ 31\<close> sequence numbers, an answer that carries the 32 bits that were sent for a pending URB
  is matched with that URB and no other, which leaves its queue.\<close>

theorem vhci_answer_matches:
  assumes "(vhci_step K)\<^sup>*\<^sup>* (s0, {#}, {#}, unat (vseq s0)) (s, A, L, n)"
    "vqueues_empty (vdev s0)" "given s0 = []" "alloc_bounded K"
    "n < 2 ^ 31" "p \<in> set (vd_priv_rx (vdev s))"
  shows "pickup_urb_and_free_priv (ucast (vp_seqnum p)) (vdev s) =
    Some (vp_urb p, (vdev s)\<lparr>vd_priv_rx := remove1 p (vd_priv_rx (vdev s))\<rparr>)"
proof -
  have i: "vhci_inv (s, A, L, n)"
    by (rule vhci_reach_inv [OF assms(1) vhci_inv_start [OF assms(2,3)] assms(4)])
  then have d: "distinct (map vp_seqnum (vd_priv_rx (vdev s)))"
    using assms(5) by (simp add: vhci_inv_def vseqs_def all_vprivs_def)
  have "vp_seqnum p \<in> given_out n"
    using i assms(6) by (auto simp: vhci_inv_def vseqs_def all_vprivs_def)
  then have u: "ucast (ucast (vp_seqnum p) :: u32) = vp_seqnum p"
    using given_out_small [OF _ assms(5)] by blast
  obtain ps qs where s: "vd_priv_rx (vdev s) = ps @ p # qs" using split_list [OF assms(6)] by blast
  then have "vp_seqnum p \<notin> vp_seqnum ` set ps" using d by simp
  then have "\<forall>q\<in>set ps. vp_seqnum q \<noteq> vp_seqnum p" by (metis image_eqI)
  then have "List.extract (\<lambda>q. vp_seqnum q = vp_seqnum p) (vd_priv_rx (vdev s)) = Some (ps, p, qs)"
    using s by (auto simp: extract_Some_iff)
  moreover have "remove1 p (vd_priv_rx (vdev s)) = ps @ qs" using s d by (auto simp: remove1_append)
  ultimately show ?thesis by (simp add: pickup_urb_and_free_priv_def u)
qed


lemma demo_send:
  "vhci_dequeue_from_priv_tx (demo_vdev\<lparr>vd_priv_tx := [demo_vpriv]\<rparr>) =
     Some (demo_vpriv, demo_vdev\<lparr>vd_priv_rx := [demo_vpriv]\<rparr>)"
  by (simp add: vhci_dequeue_from_priv_tx_def demo_vdev_def)

lemma demo_send_one:
  assumes "vdev s = demo_vdev\<lparr>vd_priv_rx := [demo_vpriv]\<rparr>"
  shows "vhci_send_one demo_vhci_kernel demo_vpriv s = Some (48, None, s)"
proof -
  obtain h where h: "setup_cmd_submit_pdu zero_header (vdev s) demo_vpriv = Some h"
    by (simp add: setup_cmd_submit_pdu_def demo_vpriv_def demo_vurb_def)
  have "length (header_bytes True (usbip_header_correct_endian True h True)) = 48"
    using length_header_bytes [of "usbip_header_correct_endian True h True"] setup_cmd_submit_pdu_spec(1) [OF h]
    by (simp add: sizeof_usbip_header_def)
  then show ?thesis
    using h by (simp add: vhci_send_one_def vhci_sendmsg_def demo_vhci_kernel_def list_trx_def
        cmd_submit_data_def demo_vpriv_def demo_vurb_def usb_pipein_def usb_pipetype_def eval_simps)
qed

lemma demo_sent_run:
  "(vhci_step demo_vhci_kernel)\<^sup>*\<^sup>* (demo_vconn bs, {#}, {#}, unat (vseq (demo_vconn bs)))
     ((demo_vconn bs)\<lparr>vseq := 1, vdev := demo_vdev\<lparr>vd_priv_rx := [demo_vpriv]\<rparr>\<rparr>, {#7#}, {#}, 1)"
proof -
  let ?s = "(demo_vconn bs)\<lparr>vseq := 1, vdev := demo_vdev\<lparr>vd_priv_tx := [demo_vpriv]\<rparr>\<rparr>"
  have "vhci_dequeue_from_priv_tx (vdev ?s) = Some (demo_vpriv, demo_vdev\<lparr>vd_priv_rx := [demo_vpriv]\<rparr>)"
    using demo_send by simp
  from vhci_step.send_submit [OF this demo_send_one, of "{#7#}" "{#}" 1]
  have "vhci_step demo_vhci_kernel (?s, {#7#}, {#}, 1)
      ((demo_vconn bs)\<lparr>vseq := 1, vdev := demo_vdev\<lparr>vd_priv_rx := [demo_vpriv]\<rparr>\<rparr>, {#7#}, {#}, 1)"
    by (simp add: vraise_def)
  with demo_enqueue_run show ?thesis by (rule rtranclp.rtrancl_into_rtrancl)
qed

theorem vhci_answer_matches_witness:
  "pickup_urb_and_free_priv 1 (demo_vdev\<lparr>vd_priv_rx := [demo_vpriv]\<rparr>) = Some (demo_vurb, demo_vdev)"
  using vhci_answer_matches [OF demo_sent_run demo_vconn_start(1,2) demo_vhci_alloc, of demo_vpriv "[]"]
  by (simp add: demo_vpriv_def demo_vdev_def)

text \<open>Once a controller gave out \<open>2 ^ 31 - 1\<close> sequence numbers its counter, a signed \<open>int\<close>, turns
  negative, and the number of a request is its 64-bit sign extension.  The 32 bits of an answer
  never match it: the URB stays pending, and the answer shuts the connection down.\<close>

theorem vhci_seqnum_overflow:
  assumes "sint (vseq s + 1) < 0" "vhci_tx_urb K urb s = (None, s')"
    "vd_priv_rx (vdev t) = drop (length (vd_priv_tx (vdev s))) (vd_priv_tx (vdev s'))"
  shows "vhci_recv_ret_submit K pdu t = Some (Some VDEV_EVENT_ERROR_TCP, t) \<and>
    map vp_urb (vd_priv_rx (vdev t)) = [urb]"
proof -
  let ?n = "scast (vseq s + 1) :: ulong"
  have rx: "vd_priv_rx (vdev t) = [\<lparr>vp_seqnum = ?n, vp_urb = urb\<rparr>]"
    using assms(2,3) by (auto simp: vhci_tx_urb_def Let_def split: if_splits prod.splits)
  have "?n \<noteq> ucast m" for m :: u32
  proof
    assume "?n = ucast m"
    from arg_cong [OF this, of "\<lambda>w. bit w 63"] have "\<not> bit ?n 63"
      by (auto simp: bit_simps dest: bit_imp_le_length)
    then have "\<not> bit (vseq s + 1) 31" by (simp add: bit_simps)
    moreover have "sint (vseq s + 1) < 0 \<longleftrightarrow> bit (vseq s + 1) 31"
      by (simp only: sint_uint signed_take_bit_negative_iff bit_uint_iff) simp
    ultimately show False using assms(1) by simp
  qed
  then have "pickup_urb_and_free_priv (b_seqnum (base pdu)) (vdev t) = None"
    by (simp add: pickup_None rx)
  then show ?thesis by (simp add: vhci_recv_ret_submit_def rx)
qed

theorem vhci_seqnum_overflow_witness:
  "vhci_recv_ret_submit demo_vhci_kernel zero_header
     ((demo_vconn [])\<lparr>vdev := demo_vdev\<lparr>vd_priv_rx := [\<lparr>vp_seqnum = 0xffffffff80000000, vp_urb = demo_vurb\<rparr>]\<rparr>\<rparr>) =
   Some (Some VDEV_EVENT_ERROR_TCP,
     (demo_vconn [])\<lparr>vdev := demo_vdev\<lparr>vd_priv_rx := [\<lparr>vp_seqnum = 0xffffffff80000000, vp_urb = demo_vurb\<rparr>]\<rparr>\<rparr>)"
proof -
  let ?s = "(demo_vconn [])\<lparr>vseq := 0x7fffffff\<rparr>"
  have "sint (vseq ?s + 1) < 0" by simp
  moreover obtain s' where s': "vhci_tx_urb demo_vhci_kernel demo_vurb ?s = (None, s')"
    "vd_priv_tx (vdev s') = [\<lparr>vp_seqnum = 0xffffffff80000000, vp_urb = demo_vurb\<rparr>]"
    by (simp add: vhci_tx_urb_def demo_vhci_kernel_def demo_vconn_def demo_vdev_def)
  ultimately show ?thesis
    using vhci_seqnum_overflow [of ?s demo_vhci_kernel demo_vurb s'
        "(demo_vconn [])\<lparr>vdev := demo_vdev\<lparr>vd_priv_rx := [\<lparr>vp_seqnum = 0xffffffff80000000, vp_urb = demo_vurb\<rparr>]\<rparr>\<rparr>"]
    by (simp add: demo_vconn_def demo_vdev_def)
qed

end
