(* ===== verification/Vhci_Hub.thy ===== *)
theory Vhci_Hub
  imports Vhci_Port
begin

text \<open>
  A virtual host controller (\<open>struct vhci_hcd\<close> of \<open>vhci.h\<close>) and its emulated root hub in
  \<open>vhci_hcd.c\<close>: the change bitmap the hub driver polls and the control requests that read,
  reset and power the ports.
\<close>

section \<open>The controller\<close>

definition VHCI_HC_PORTS :: nat where "VHCI_HC_PORTS = 8"
definition VHCI_FREE_HCS :: nat where "VHCI_FREE_HCS = 2"

text \<open>\<open>hw_accessible\<close> and \<open>hcd_suspended\<close> are the flag and the state of the \<open>usb_hcd\<close> that the driver
  sets and tests.\<close>

record vhci_hcd =
  port_status :: "u32 list"
  resuming :: bool
  re_timeout :: ulong
  hcd_seqnum :: u32
  using_ports :: u32
  vdevs :: "(usbip_device \<times> vhci_device) list"
  hw_accessible :: bool
  hcd_suspended :: bool

definition wf_hcd :: "vhci_hcd \<Rightarrow> bool" where
  "wf_hcd h = (length (port_status h) = VHCI_HC_PORTS \<and> length (vdevs h) = VHCI_HC_PORTS)"

definition port_to_rhport :: "u32 \<Rightarrow> u32" where
  "port_to_rhport port = port mod word_of_nat VHCI_HC_PORTS"

definition port_to_pdev_nr :: "u32 \<Rightarrow> int" where
  "port_to_pdev_nr port = sint (port div word_of_nat VHCI_HC_PORTS)"

definition pdev_id2nr :: "int \<Rightarrow> int" where "pdev_id2nr i = (if i < 0 then 0 else i)"
definition pdev_nr2id :: "int \<Rightarrow> int" where "pdev_nr2id nr = (if nr = 0 then -1 else nr)"

section \<open>Port status words\<close>

abbreviation (input) USB_PORT_STAT_CONNECTION :: u32 where "USB_PORT_STAT_CONNECTION \<equiv> 0x1"
abbreviation (input) USB_PORT_STAT_ENABLE :: u32 where "USB_PORT_STAT_ENABLE \<equiv> 0x2"
abbreviation (input) USB_PORT_STAT_SUSPEND :: u32 where "USB_PORT_STAT_SUSPEND \<equiv> 0x4"
abbreviation (input) USB_PORT_STAT_LOW_SPEED :: u32 where "USB_PORT_STAT_LOW_SPEED \<equiv> 0x200"
abbreviation (input) USB_PORT_STAT_HIGH_SPEED :: u32 where "USB_PORT_STAT_HIGH_SPEED \<equiv> 0x400"
abbreviation (input) USB_PORT_FEAT_SUSPEND :: nat where "USB_PORT_FEAT_SUSPEND \<equiv> 2"
abbreviation (input) USB_PORT_FEAT_RESET :: nat where "USB_PORT_FEAT_RESET \<equiv> 4"
abbreviation (input) USB_PORT_FEAT_POWER :: nat where "USB_PORT_FEAT_POWER \<equiv> 8"
abbreviation (input) USB_PORT_FEAT_C_CONNECTION :: nat where "USB_PORT_FEAT_C_CONNECTION \<equiv> 16"
abbreviation (input) USB_PORT_FEAT_C_SUSPEND :: nat where "USB_PORT_FEAT_C_SUSPEND \<equiv> 18"
abbreviation (input) USB_PORT_FEAT_C_RESET :: nat where "USB_PORT_FEAT_C_RESET \<equiv> 20"


definition feat :: "nat \<Rightarrow> u32" where "feat n = push_bit n 1"

text \<open>The bit of a port's speed, which both the connection and the end of a reset set.\<close>

definition speed_stat :: "u32 \<Rightarrow> u32" where
  "speed_stat speed = (if speed = USB_SPEED_HIGH then USB_PORT_STAT_HIGH_SPEED
     else if speed = USB_SPEED_LOW then USB_PORT_STAT_LOW_SPEED else 0)"

definition PORT_C_MASK :: u32 where "PORT_C_MASK = push_bit 16 0x1f"

text \<open>The status changes of \<open>rh_port_connect\<close> and \<open>rh_port_disconnect\<close>; the poll of the root hub
  that follows is in theory \<open>Vhci_Hcd\<close>.\<close>

definition rh_port_connect :: "nat \<Rightarrow> u32 \<Rightarrow> vhci_hcd \<Rightarrow> vhci_hcd" where
  "rh_port_connect rhport speed h = h\<lparr>port_status := (port_status h)[rhport :=
     port_status h ! rhport OR USB_PORT_STAT_CONNECTION OR feat USB_PORT_FEAT_C_CONNECTION OR
       speed_stat speed]\<rparr>"

definition rh_port_disconnect :: "nat \<Rightarrow> vhci_hcd \<Rightarrow> vhci_hcd" where
  "rh_port_disconnect rhport h = h\<lparr>port_status := (port_status h)[rhport :=
     (port_status h ! rhport AND NOT USB_PORT_STAT_CONNECTION) OR feat USB_PORT_FEAT_C_CONNECTION]\<rparr>"

section \<open>The change bitmap\<close>

fun hub_status_loop :: "u32 list \<Rightarrow> nat \<Rightarrow> u8 list \<Rightarrow> bool \<Rightarrow> u8 list \<times> bool" where
  "hub_status_loop [] rhport buf changed = (buf, changed)"
| "hub_status_loop (st # sts) rhport buf changed =
     (if st AND PORT_C_MASK \<noteq> 0
      then hub_status_loop sts (Suc rhport)
        (buf[Suc rhport div 8 := buf ! (Suc rhport div 8) OR push_bit (Suc rhport mod 8) 1]) True
      else hub_status_loop sts (Suc rhport) buf changed)"

text \<open>The result, the bitmap, and whether the root hub is to be resumed.\<close>

definition vhci_hub_status :: "vhci_hcd \<Rightarrow> int \<times> u8 list \<times> bool" where
  "vhci_hub_status h =
     (let retval = (VHCI_HC_PORTS + 1 + 7) div 8; buf = replicate retval 0 in
      if \<not> hw_accessible h then (0, buf, False)
      else let (buf', changed) = hub_status_loop (port_status h) 0 buf False in
        (if changed then int retval else 0, buf', hcd_suspended h \<and> changed))"

section \<open>Control requests\<close>

abbreviation (input) ClearHubFeature :: u16 where "ClearHubFeature \<equiv> 0x2001"
abbreviation (input) ClearPortFeature :: u16 where "ClearPortFeature \<equiv> 0x2301"
abbreviation (input) GetHubDescriptor :: u16 where "GetHubDescriptor \<equiv> 0xA006"
abbreviation (input) GetHubStatus :: u16 where "GetHubStatus \<equiv> 0xA000"
abbreviation (input) GetPortStatus :: u16 where "GetPortStatus \<equiv> 0xA300"
abbreviation (input) SetHubFeature :: u16 where "SetHubFeature \<equiv> 0x2003"
abbreviation (input) SetPortFeature :: u16 where "SetPortFeature \<equiv> 0x2303"

definition hub_descriptor :: "u8 list" where
  "hub_descriptor = [9, 0x29, word_of_nat VHCI_HC_PORTS, 1, 0, 0, 0, 0xff, 0xff] @ replicate 6 0"

text \<open>An entry of the arrays of the controller; \<open>None\<close> is an index outside them.\<close>

definition port_at :: "int \<Rightarrow> vhci_hcd \<Rightarrow> u32 option" where
  "port_at i h = (if 0 \<le> i \<and> nat i < length (port_status h) then Some (port_status h ! nat i) else None)"

definition set_port :: "int \<Rightarrow> u32 \<Rightarrow> vhci_hcd \<Rightarrow> vhci_hcd" where
  "set_port i st h = h\<lparr>port_status := (port_status h)[nat i := st]\<rparr>"

definition vdev_at :: "int \<Rightarrow> vhci_hcd \<Rightarrow> (usbip_device \<times> vhci_device) option" where
  "vdev_at i h = (if 0 \<le> i \<and> nat i < length (vdevs h) then Some (vdevs h ! nat i) else None)"

definition time_after :: "ulong \<Rightarrow> ulong \<Rightarrow> bool" where
  "time_after a b = (sint (b - a) < 0)"

text \<open>\<open>1 << wValue\<close>; \<open>None\<close> is a shift by more than the width.\<close>

definition feat_bit :: "u16 \<Rightarrow> u32 option" where
  "feat_bit wValue = (if unat wValue < 32 then Some (feat (unat wValue)) else None)"

definition clear_port_feature ::
  "('c, 'k) vhci_kernel_scheme \<Rightarrow> 'c \<Rightarrow> u16 \<Rightarrow> int \<Rightarrow> vhci_hcd \<Rightarrow> vhci_hcd option" where
  "clear_port_feature K c wValue rhport h =
     do { st \<leftarrow> port_at rhport h;
          if unat wValue = USB_PORT_FEAT_SUSPEND then
            Some (if st AND USB_PORT_STAT_SUSPEND \<noteq> 0
              then h\<lparr>resuming := True, re_timeout := jiffies K c + msecs_to_jiffies K 20\<rparr> else h)
          else if unat wValue = USB_PORT_FEAT_POWER then Some ((set_port rhport 0 h)\<lparr>resuming := False\<rparr>)
          else do {
            st1 \<leftarrow> (if unat wValue = USB_PORT_FEAT_C_RESET
                    then map_option (\<lambda>(d, vd). st OR speed_stat (vd_speed vd)) (vdev_at rhport h)
                    else Some st);
            b \<leftarrow> feat_bit wValue;
            Some (set_port rhport (st1 AND NOT b) h) } }"

text \<open>The end of a resume and the end of a reset, which a status request completes.\<close>

definition finish_resume :: "ulong \<Rightarrow> int \<Rightarrow> vhci_hcd \<Rightarrow> vhci_hcd option" where
  "finish_resume now rhport h =
     (if resuming h \<and> time_after now (re_timeout h) then
        map_option (\<lambda>st. (set_port rhport ((st OR feat USB_PORT_FEAT_C_SUSPEND) AND
             NOT (feat USB_PORT_FEAT_SUSPEND)) h)\<lparr>resuming := False, re_timeout := 0\<rparr>) (port_at rhport h)
      else Some h)"

definition finish_reset :: "ulong \<Rightarrow> int \<Rightarrow> vhci_hcd \<Rightarrow> vhci_hcd option" where
  "finish_reset now rhport h =
     do { st \<leftarrow> port_at rhport h;
          if st AND feat USB_PORT_FEAT_RESET \<noteq> 0 \<and> time_after now (re_timeout h) then
            do { (d, vd) \<leftarrow> vdev_at rhport h;
                 let st1 = (st OR feat USB_PORT_FEAT_C_RESET) AND NOT (feat USB_PORT_FEAT_RESET) in
                 Some ((set_port rhport
                   (if status d = VDEV_ST_NOTASSIGNED then st1 OR USB_PORT_STAT_ENABLE else st1)
                   h)\<lparr>re_timeout := 0\<rparr>) }
          else Some h }"

definition get_port_status :: "ulong \<Rightarrow> u16 \<Rightarrow> int \<Rightarrow> vhci_hcd \<Rightarrow> (int \<times> u8 list \<times> vhci_hcd) option"
where
  "get_port_status now wIndex rhport h =
     do { h1 \<leftarrow> finish_resume now rhport h;
          h2 \<leftarrow> finish_reset now rhport h1;
          st \<leftarrow> port_at rhport h2;
          Some (if unat wIndex > VHCI_HC_PORTS \<or> unat wIndex < 1 then - EPIPE else 0,
            rev (be_bytes32 st), h2) }"

definition set_port_feature ::
  "('c, 'k) vhci_kernel_scheme \<Rightarrow> 'c \<Rightarrow> u16 \<Rightarrow> int \<Rightarrow> vhci_hcd \<Rightarrow> vhci_hcd option" where
  "set_port_feature K c wValue rhport h =
     (if unat wValue = USB_PORT_FEAT_SUSPEND then Some h
      else do {
        st \<leftarrow> port_at rhport h;
        b \<leftarrow> feat_bit wValue;
        Some (if unat wValue = USB_PORT_FEAT_RESET
          then (set_port rhport ((if st AND USB_PORT_STAT_ENABLE \<noteq> 0
                  then st AND NOT (USB_PORT_STAT_ENABLE OR USB_PORT_STAT_LOW_SPEED OR USB_PORT_STAT_HIGH_SPEED)
                  else st) OR b) h)\<lparr>re_timeout := jiffies K c + msecs_to_jiffies K 50\<rparr>
          else set_port rhport (st OR b) h) })"

text \<open>The port a control request names by its \<open>wIndex\<close>.\<close>

definition hub_port :: "u16 \<Rightarrow> int" where
  "hub_port wIndex = uint (wIndex AND 0xff) - 1"

text \<open>The result, what is written to \<open>buf\<close>, and the controller.\<close>

definition vhci_hub_control ::
  "('c, 'k) vhci_kernel_scheme \<Rightarrow> 'c \<Rightarrow> u16 \<Rightarrow> u16 \<Rightarrow> u16 \<Rightarrow> vhci_hcd \<Rightarrow> (int \<times> u8 list \<times> vhci_hcd) option"
where
  "vhci_hub_control K c typeReq wValue wIndex h =
     (let rhport = hub_port wIndex in
      if \<not> hw_accessible h then Some (- ETIMEDOUT, [], h)
      else if typeReq = ClearHubFeature then Some (0, [], h)
      else if typeReq = ClearPortFeature
      then map_option (\<lambda>h. (0, [], h)) (clear_port_feature K c wValue rhport h)
      else if typeReq = GetHubDescriptor then Some (0, hub_descriptor, h)
      else if typeReq = GetHubStatus then Some (0, replicate 4 0, h)
      else if typeReq = GetPortStatus then get_port_status (jiffies K c) wIndex rhport h
      else if typeReq = SetHubFeature then Some (- EPIPE, [], h)
      else if typeReq = SetPortFeature
      then map_option (\<lambda>h. (0, [], h)) (set_port_feature K c wValue rhport h)
      else Some (- EPIPE, [], h))"

section \<open>Properties of the root hub\<close>

definition buf_bit :: "u8 list \<Rightarrow> nat \<Rightarrow> bool" where
  "buf_bit buf j = bit (buf ! (j div 8)) (j mod 8)"

lemma buf_bit_or:
  assumes "j < 8 * length buf" "k < 8 * length buf"
  shows "buf_bit (buf[k div 8 := buf ! (k div 8) OR push_bit (k mod 8) 1]) j = (buf_bit buf j \<or> j = k)"
proof -
  have l: "j div 8 < length buf" "k div 8 < length buf" using assms by auto
  have "j mod 8 < 8" by simp
  then have "bit (push_bit (k mod 8) 1 :: u8) (j mod 8) \<longleftrightarrow> j mod 8 = k mod 8" by (auto simp: bit_simps)
  moreover have "j = k \<longleftrightarrow> j div 8 = k div 8 \<and> j mod 8 = k mod 8" by (metis div_mult_mod_eq)
  ultimately show ?thesis using l by (auto simp: buf_bit_def nth_list_update bit_or_iff)
qed

lemma hub_status_loop_spec:
  "hub_status_loop sts r buf ch = (buf', ch') \<Longrightarrow> r + length sts < 8 * length buf \<Longrightarrow>
   length buf' = length buf \<and> (ch' \<longleftrightarrow> ch \<or> (\<exists>st\<in>set sts. st AND PORT_C_MASK \<noteq> 0)) \<and>
   (\<forall>j<8 * length buf. buf_bit buf' j \<longleftrightarrow> buf_bit buf j \<or>
     (\<exists>k<length sts. j = Suc (r + k) \<and> sts ! k AND PORT_C_MASK \<noteq> 0))"
proof (induction sts r buf ch rule: hub_status_loop.induct)
  case (2 st sts r buf ch)
  let ?buf = "if st AND PORT_C_MASK \<noteq> 0
    then buf[Suc r div 8 := buf ! (Suc r div 8) OR push_bit (Suc r mod 8) 1] else buf"
  let ?ch = "st AND PORT_C_MASK \<noteq> 0 \<or> ch"
  have run: "hub_status_loop sts (Suc r) ?buf ?ch = (buf', ch')" using 2(3) by (simp split: if_splits)
  have len: "Suc r + length sts < 8 * length ?buf" using 2(4) by simp
  have b: "buf_bit ?buf j \<longleftrightarrow> buf_bit buf j \<or> (j = Suc r \<and> st AND PORT_C_MASK \<noteq> 0)" if "j < 8 * length buf" for j
    using buf_bit_or [OF that, of "Suc r"] 2(4) by simp
  have ex: "(\<exists>k<length (st # sts). j = Suc (r + k) \<and> (st # sts) ! k AND PORT_C_MASK \<noteq> 0) \<longleftrightarrow>
      (j = Suc r \<and> st AND PORT_C_MASK \<noteq> 0) \<or>
      (\<exists>k<length sts. j = Suc (Suc r + k) \<and> sts ! k AND PORT_C_MASK \<noteq> 0)" for j
    by (auto simp: less_Suc_eq_0_disj)
  have "length buf' = length ?buf \<and> (ch' \<longleftrightarrow> ?ch \<or> (\<exists>st\<in>set sts. st AND PORT_C_MASK \<noteq> 0)) \<and>
    (\<forall>j<8 * length ?buf. buf_bit buf' j \<longleftrightarrow> buf_bit ?buf j \<or>
      (\<exists>k<length sts. j = Suc (Suc r + k) \<and> sts ! k AND PORT_C_MASK \<noteq> 0))"
  proof (cases "st AND PORT_C_MASK = 0")
    case True
    then show ?thesis using 2(2) run len by simp
  next
    case False
    then show ?thesis using 2(1) run len by simp
  qed
  then show ?case using b ex by auto
qed auto

text \<open>C33: the change bitmap of the root hub has bit \<open>i + 1\<close> set exactly when a change bit of port \<open>i\<close>
  is set, every other bit is zero, and the result says whether any is set.\<close>

theorem vhci_hub_status_reports:
  assumes "wf_hcd h" "hw_accessible h" "vhci_hub_status h = (r, buf, res)"
  shows "length buf = 2 \<and> (\<forall>j<16. buf_bit buf j \<longleftrightarrow> (\<exists>i<VHCI_HC_PORTS. j = Suc i \<and>
      port_status h ! i AND PORT_C_MASK \<noteq> 0)) \<and>
    r = (if \<exists>i<VHCI_HC_PORTS. port_status h ! i AND PORT_C_MASK \<noteq> 0 then 2 else 0)"
proof -
  obtain ch where l: "hub_status_loop (port_status h) 0 (replicate 2 0) False = (buf, ch)"
    and r: "r = (if ch then 2 else 0)"
    using assms(2,3)
    by (cases "hub_status_loop (port_status h) 0 (replicate 2 0) False")
       (auto simp: vhci_hub_status_def VHCI_HC_PORTS_def split: if_splits)
  have len: "length (port_status h) = 8" using assms(1) by (simp add: wf_hcd_def VHCI_HC_PORTS_def)
  have z: "\<not> buf_bit (replicate 2 0) j" if "j < 16" for j
    using that by (simp add: buf_bit_def less_mult_imp_div_less)
  have sp: "length buf = 2" "ch \<longleftrightarrow> (\<exists>st\<in>set (port_status h). st AND PORT_C_MASK \<noteq> 0)"
    "\<forall>j<16. buf_bit buf j \<longleftrightarrow> buf_bit (replicate 2 0) j \<or>
      (\<exists>k<8. j = Suc k \<and> port_status h ! k AND PORT_C_MASK \<noteq> 0)"
    using hub_status_loop_spec [OF l] len by simp_all
  have "(\<exists>st\<in>set (port_status h). st AND PORT_C_MASK \<noteq> 0) \<longleftrightarrow>
      (\<exists>i<8. port_status h ! i AND PORT_C_MASK \<noteq> 0)"
    unfolding len [symmetric] by (metis in_set_conv_nth)
  then show ?thesis unfolding VHCI_HC_PORTS_def r sp(2) using sp(1,3) z by simp
qed

definition demo_hcd :: vhci_hcd where
  "demo_hcd = \<lparr>port_status = [0x10101, 0x100] @ replicate 5 0 @ [0x100000], resuming = False, re_timeout = 0,
     hcd_seqnum = 0, using_ports = 1,
     vdevs = (demo_ud USBIP_VHCI VDEV_ST_NOTASSIGNED, demo_vdev) #
       replicate 7 (demo_ud USBIP_VHCI VDEV_ST_NULL, demo_vdev),
     hw_accessible = True, hcd_suspended = False\<rparr>"

lemma demo_hcd_wf [simp]: "wf_hcd demo_hcd" "hw_accessible demo_hcd"
  by (simp_all add: demo_hcd_def wf_hcd_def VHCI_HC_PORTS_def)

theorem vhci_hub_status_reports_witness:
  "\<exists>res. vhci_hub_status demo_hcd = (2, [2, 1], res) \<and> length [2 :: u8, 1] = 2 \<and> buf_bit [2, 1] 8"
proof -
  have v: "vhci_hub_status demo_hcd = (2, [2, 1], False)" by code_simp
  have "port_status demo_hcd ! 7 AND PORT_C_MASK \<noteq> 0" by (simp add: demo_hcd_def PORT_C_MASK_def nth_append)
  then show ?thesis using vhci_hub_status_reports [OF demo_hcd_wf v] v by (force simp: VHCI_HC_PORTS_def)
qed


definition valid_hub_port :: "u16 \<Rightarrow> bool" where
  "valid_hub_port wIndex = (0 \<le> hub_port wIndex \<and> hub_port wIndex < int VHCI_HC_PORTS)"

text \<open>What a request on a port may change of the controller.\<close>

definition port_frame :: "nat \<Rightarrow> vhci_hcd \<Rightarrow> vhci_hcd \<Rightarrow> bool" where
  "port_frame p h h' = (length (port_status h') = length (port_status h) \<and> vdevs h' = vdevs h \<and>
     hcd_seqnum h' = hcd_seqnum h \<and> using_ports h' = using_ports h \<and>
     hw_accessible h' = hw_accessible h \<and> hcd_suspended h' = hcd_suspended h \<and>
     (\<forall>q. q \<noteq> p \<longrightarrow> port_status h' ! q = port_status h ! q))"

lemma port_frame_refl [simp]: "port_frame p h h"
  by (simp add: port_frame_def)

lemma port_frame_trans: "port_frame p h h' \<Longrightarrow> port_frame p h' h'' \<Longrightarrow> port_frame p h h''"
  by (simp add: port_frame_def)

lemma port_frame_set [simp]: "port_frame (nat i) h (set_port i st h)"
  "port_frame p h (h'\<lparr>resuming := r\<rparr>) = port_frame p h h'"
  "port_frame p h (h'\<lparr>re_timeout := x\<rparr>) = port_frame p h h'"
  by (simp_all add: port_frame_def set_port_def)

lemma port_frame_wf: "port_frame p h h' \<Longrightarrow> wf_hcd h' = wf_hcd h"
  by (simp add: port_frame_def wf_hcd_def)

lemma port_frame_other:
  "port_frame (nat i) h h' \<Longrightarrow> 0 \<le> i \<Longrightarrow> int q \<noteq> i \<Longrightarrow> port_status h' ! q = port_status h ! q"
  by (auto simp: port_frame_def)

lemma ports_valid:
  assumes "wf_hcd h" "0 \<le> i" "i < int VHCI_HC_PORTS"
  shows "port_at i h = Some (port_status h ! nat i)" "vdev_at i h = Some (vdevs h ! nat i)"
  using assms by (simp_all add: port_at_def vdev_at_def wf_hcd_def)

lemma finish_resume_frame:
  assumes "wf_hcd h" "0 \<le> i" "i < int VHCI_HC_PORTS"
  shows "\<exists>h'. finish_resume now i h = Some h' \<and> port_frame (nat i) h h'"
  using ports_valid [OF assms] by (simp add: finish_resume_def)

lemma finish_reset_frame:
  assumes "wf_hcd h" "0 \<le> i" "i < int VHCI_HC_PORTS"
  shows "\<exists>h'. finish_reset now i h = Some h' \<and> port_frame (nat i) h h'"
  using ports_valid [OF assms] by (simp add: finish_reset_def Let_def split: prod.split)

lemma get_port_status_frame:
  assumes "wf_hcd h" "0 \<le> i" "i < int VHCI_HC_PORTS"
  shows "\<exists>r bs h'. get_port_status now w i h = Some (r, bs, h') \<and> length bs = 4 \<and> port_frame (nat i) h h'"
proof -
  obtain h1 where h1: "finish_resume now i h = Some h1" "port_frame (nat i) h h1"
    using finish_resume_frame [OF assms] by blast
  have w1: "wf_hcd h1" using port_frame_wf h1(2) assms(1) by blast
  obtain h2 where h2: "finish_reset now i h1 = Some h2" "port_frame (nat i) h1 h2"
    using finish_reset_frame [OF w1 assms(2,3)] by blast
  have w2: "wf_hcd h2" using port_frame_wf h2(2) w1 by blast
  show ?thesis
    using ports_valid(1) [OF w2 assms(2,3)] h1(1) h2(1) port_frame_trans [OF h1(2) h2(2)]
    by (simp add: get_port_status_def be_bytes32_def)
qed

lemma clear_port_feature_frame:
  assumes "wf_hcd h" "0 \<le> i" "i < int VHCI_HC_PORTS" "unat wValue < 32"
  shows "\<exists>h'. clear_port_feature K c wValue i h = Some h' \<and> port_frame (nat i) h h'"
  using ports_valid [OF assms(1-3)] assms(4)
  by (cases "vdevs h ! nat i") (simp add: clear_port_feature_def feat_bit_def)

lemma set_port_feature_frame:
  assumes "wf_hcd h" "0 \<le> i" "i < int VHCI_HC_PORTS" "unat wValue < 32"
  shows "\<exists>h'. set_port_feature K c wValue i h = Some h' \<and> port_frame (nat i) h h'"
  using ports_valid [OF assms(1-3)] assms(4) by (simp add: set_port_feature_def feat_bit_def)

lemma hub_control_cases:
  assumes "\<And>r bs. P r bs h"
    "clear_port_feature K c wValue (hub_port wIndex) h = Some h1" "P 0 [] h1"
    "set_port_feature K c wValue (hub_port wIndex) h = Some h2" "P 0 [] h2"
    "get_port_status (jiffies K c) wIndex (hub_port wIndex) h = Some (r3, bs3, h3)" "P r3 bs3 h3"
  shows "\<exists>r bs h'. vhci_hub_control K c typeReq wValue wIndex h = Some (r, bs, h') \<and> P r bs h'"
proof -
  define Q where "Q x \<longleftrightarrow> (\<exists>r bs h'. x = Some (r, bs, h') \<and> P r bs h')" for x
  have q: "Q (Some (r, bs, h)) = P r bs h" for r bs h by (simp add: Q_def)
  have "Q (vhci_hub_control K c typeReq wValue wIndex h)"
    unfolding vhci_hub_control_def Let_def assms(2,4,6) option.map
    using assms(1,3,5,7) by (simp add: q)
  then show ?thesis by (simp add: Q_def)
qed

text \<open>A control request for a port that exists and a feature below 32 is served inside the
  arrays of the controller, and changes the status of no other port and nothing else of the
  controller but the timer of the root hub.\<close>

theorem vhci_hub_control_frame:
  assumes "wf_hcd h" "valid_hub_port wIndex" "unat wValue < 32"
  shows "\<exists>r bs h'. vhci_hub_control K c typeReq wValue wIndex h = Some (r, bs, h') \<and> wf_hcd h' \<and>
    vdevs h' = vdevs h \<and> hcd_seqnum h' = hcd_seqnum h \<and>
    (\<forall>q. int q \<noteq> hub_port wIndex \<longrightarrow> port_status h' ! q = port_status h ! q)"
proof -
  let ?i = "hub_port wIndex"
  have i: "0 \<le> ?i" "?i < int VHCI_HC_PORTS" using assms(2) by (simp_all add: valid_hub_port_def)
  obtain h1 where h1: "clear_port_feature K c wValue ?i h = Some h1" "port_frame (nat ?i) h h1"
    using clear_port_feature_frame [OF assms(1) i assms(3), of K c] by blast
  obtain h2 where h2: "set_port_feature K c wValue ?i h = Some h2" "port_frame (nat ?i) h h2"
    using set_port_feature_frame [OF assms(1) i assms(3), of K c] by blast
  obtain r3 bs3 h3 where h3: "get_port_status (jiffies K c) wIndex ?i h = Some (r3, bs3, h3)"
    "port_frame (nat ?i) h h3"
    using get_port_status_frame [OF assms(1) i, of "jiffies K c" wIndex] by blast
  from hub_control_cases [where P = "\<lambda>r bs h'. port_frame (nat ?i) h h'", OF port_frame_refl h1 h2 h3]
  obtain r bs h' where r: "vhci_hub_control K c typeReq wValue wIndex h = Some (r, bs, h')"
    and f: "port_frame (nat ?i) h h'" by blast
  have "wf_hcd h'" "vdevs h' = vdevs h" "hcd_seqnum h' = hcd_seqnum h"
    using port_frame_wf [OF f] f assms(1) by (simp_all add: port_frame_def)
  with r port_frame_other [OF f i(1)] show ?thesis by blast
qed

theorem vhci_hub_control_frame_witness:
  "\<exists>r bs h'. vhci_hub_control demo_vhci_kernel [] SetPortFeature 4 1 demo_hcd = Some (r, bs, h') \<and> wf_hcd h'"
proof -
  have "valid_hub_port 1" by (simp add: valid_hub_port_def hub_port_def VHCI_HC_PORTS_def)
  then show ?thesis using vhci_hub_control_frame [OF demo_hcd_wf(1), of 1 4 demo_vhci_kernel "[]" SetPortFeature]
    by auto
qed

text \<open>A request for the status of port 0, which does not exist, is logged and answered with
  \<open>-EPIPE\<close> only after \<open>port_status[-1]\<close> was read: the driver leaves the array.\<close>

theorem vhci_hub_control_port_zero:
  assumes "hw_accessible h" "wIndex AND 0xff = 0"
    "typeReq \<in> {GetPortStatus, ClearPortFeature} \<or>
     typeReq = SetPortFeature \<and> unat wValue \<noteq> USB_PORT_FEAT_SUSPEND"
  shows "vhci_hub_control K c typeReq wValue wIndex h = None"
  using assms
  by (auto simp: vhci_hub_control_def hub_port_def get_port_status_def finish_resume_def
      finish_reset_def port_at_def clear_port_feature_def set_port_feature_def)

theorem vhci_hub_control_port_zero_witness:
  "vhci_hub_control demo_vhci_kernel [] GetPortStatus 0 0 demo_hcd = None"
  by (rule vhci_hub_control_port_zero) simp_all

lemma and_mask_bit: "st AND feat n \<noteq> 0 \<longleftrightarrow> bit st n" for st :: u32
proof -
  have "st AND feat n = (if bit st n then feat n else 0)"
    by (rule bit_eqI) (auto simp: feat_def bit_simps)
  moreover have "feat n \<noteq> 0" if "bit st n"
    using that bit_imp_le_length [OF that] by (simp add: feat_def)
  ultimately show ?thesis by auto
qed

text \<open>The status word of a port after \<open>SetPortFeature(RESET)\<close>.\<close>

definition reset_status :: "u32 \<Rightarrow> u32" where
  "reset_status st = (if st AND USB_PORT_STAT_ENABLE \<noteq> 0
     then st AND NOT (USB_PORT_STAT_ENABLE OR USB_PORT_STAT_LOW_SPEED OR USB_PORT_STAT_HIGH_SPEED)
     else st) OR feat USB_PORT_FEAT_RESET"

lemma bit_reset_status: "bit (reset_status st) 4" "\<not> bit (reset_status st) 1"
proof -
  have e: "st AND 2 \<noteq> 0 \<longleftrightarrow> bit st 1" using and_mask_bit [of st 1] by (simp add: feat_def)
  have "bit (2 OR (0x200 OR 0x400) :: u32) 1" by simp
  then have "\<not> bit (st AND NOT (2 OR (0x200 OR 0x400))) 1" by (simp only: bit_and_iff bit_not_iff) simp
  then show "\<not> bit (reset_status st) 1" using e by (simp add: reset_status_def bit_or_iff feat_def or.assoc)
  show "bit (reset_status st) 4" by (simp add: reset_status_def feat_def bit_or_iff)
qed

text \<open>C32: the reset of a port.  When the hub driver resets an accessible port and asks for its status
  after the time is over, the reset is over, its change bit is set, and the port is enabled
  exactly when a remote device is attached to it that has no address yet.\<close>

theorem vhci_port_reset:
  assumes wf: "wf_hcd h" and acc: "hw_accessible h" and v: "valid_hub_port wIndex" "unat wIndex \<le> VHCI_HC_PORTS"
    and nr: "\<not> resuming h" and late: "time_after (jiffies K c') (jiffies K c + msecs_to_jiffies K 50)"
  shows "\<exists>h1 h2 bs st. vhci_hub_control K c SetPortFeature 4 wIndex h = Some (0, [], h1) \<and>
    vhci_hub_control K c' GetPortStatus wValue wIndex h1 = Some (0, bs, h2) \<and>
    st = port_status h2 ! nat (hub_port wIndex) \<and> bs = rev (be_bytes32 st) \<and>
    bit st USB_PORT_FEAT_C_RESET \<and> \<not> bit st USB_PORT_FEAT_RESET \<and>
    (bit st 1 \<longleftrightarrow> status (fst (vdevs h ! nat (hub_port wIndex))) = VDEV_ST_NOTASSIGNED)"
proof -
  let ?i = "hub_port wIndex"
  let ?st = "port_status h ! nat ?i" and ?d = "vdevs h ! nat ?i"
  have i: "0 \<le> ?i" "?i < int VHCI_HC_PORTS" using v(1) by (simp_all add: valid_hub_port_def)
  have w: "1 \<le> unat wIndex" using i(1) by (cases "wIndex = 0") (auto simp: hub_port_def unat_gt_0 Suc_le_eq)
  have len: "nat ?i < length (port_status h)" "nat ?i < length (vdevs h)"
    using wf i by (auto simp: wf_hcd_def)
  define h1 where "h1 = (set_port ?i (reset_status ?st) h)\<lparr>re_timeout := jiffies K c + msecs_to_jiffies K 50\<rparr>"
  have 1: "vhci_hub_control K c SetPortFeature 4 wIndex h = Some (0, [], h1)"
    using acc ports_valid [OF wf i] by (simp add: vhci_hub_control_def set_port_feature_def feat_bit_def
        h1_def reset_status_def Let_def)
  have p1: "port_at ?i h1 = Some (reset_status ?st)" "vdev_at ?i h1 = Some ?d" "hw_accessible h1"
    "\<not> resuming h1" "re_timeout h1 = jiffies K c + msecs_to_jiffies K 50"
    "length (port_status h1) = length (port_status h)"
    using ports_valid [OF wf i] len i(1) acc nr
    by (simp_all add: h1_def set_port_def port_at_def vdev_at_def)
  let ?st1 = "(reset_status ?st OR feat USB_PORT_FEAT_C_RESET) AND NOT (feat USB_PORT_FEAT_RESET)"
  let ?st2 = "if status (fst ?d) = VDEV_ST_NOTASSIGNED then ?st1 OR USB_PORT_STAT_ENABLE else ?st1"
  define h2 where "h2 = (set_port ?i ?st2 h1)\<lparr>re_timeout := 0\<rparr>"
  have "finish_reset (jiffies K c') ?i h1 = Some h2"
    using p1 late and_mask_bit [of "reset_status ?st" 4] bit_reset_status(1) [of ?st]
    by (simp add: finish_reset_def h2_def split: prod.split)
  moreover have "port_at ?i h2 = Some ?st2" "port_status h2 ! nat ?i = ?st2"
    using len p1(6) i(1) by (simp_all add: h2_def set_port_def port_at_def)
  ultimately have 2: "vhci_hub_control K c' GetPortStatus wValue wIndex h1 = Some (0, rev (be_bytes32 ?st2), h2)"
    "port_status h2 ! nat ?i = ?st2"
    using p1 v(2) w by (simp_all add: vhci_hub_control_def get_port_status_def finish_resume_def)
  have b: "bit ?st2 20" "\<not> bit ?st2 4" "bit ?st2 1 \<longleftrightarrow> status (fst ?d) = VDEV_ST_NOTASSIGNED"
    using bit_reset_status [of ?st] by (auto simp: bit_and_iff bit_or_iff bit_not_iff feat_def)
  from 1 2 b show ?thesis by (intro exI conjI) (assumption | simp only: 2)+
qed

theorem vhci_port_reset_witness:
  "\<exists>h1 h2 bs. vhci_hub_control (demo_vhci_kernel\<lparr>jiffies := \<lambda>c. word_of_nat (length c)\<rparr>) [] SetPortFeature 4 1 demo_hcd =
      Some (0, [], h1) \<and>
    vhci_hub_control (demo_vhci_kernel\<lparr>jiffies := \<lambda>c. word_of_nat (length c)\<rparr>) (replicate 60 0) GetPortStatus 0 1 h1 =
      Some (0, bs, h2) \<and> bit (port_status h2 ! 0) 1"
proof -
  let ?K = "demo_vhci_kernel\<lparr>jiffies := \<lambda>c. word_of_nat (length c)\<rparr>"
  have v: "valid_hub_port 1" "unat (1 :: u16) \<le> VHCI_HC_PORTS" "hub_port 1 = 0"
    by (simp_all add: valid_hub_port_def hub_port_def VHCI_HC_PORTS_def)
  have "\<not> resuming demo_hcd" "time_after (jiffies ?K (replicate 60 0)) (jiffies ?K [] + msecs_to_jiffies ?K 50)"
    "status (fst (vdevs demo_hcd ! 0)) = VDEV_ST_NOTASSIGNED"
    by (simp_all add: demo_hcd_def demo_vhci_kernel_def time_after_def demo_ud_def)
  then show ?thesis
    using vhci_port_reset [OF demo_hcd_wf v(1,2), of ?K "replicate 60 0" "[]" 0] v(3) by auto
qed

end
