(* ===== verification/Vhci_Hcd.thy ===== *)
theory Vhci_Hcd
  imports Vhci_Hub
begin

text \<open>
  All controllers of the driver, \<open>vhci_hcd.c\<close>: the ports by their numbers, the operations of the
  event handler on a port, the life of the controllers as platform devices, the counters of ports
  in use by which they are removed again, and the entry points of the USB core on them.
\<close>

section \<open>The state of the driver\<close>

text \<open>\<open>vhci_pdevs\<close> tells which entries of the array are not null, \<open>hcds\<close> is the driver data of the
  platform devices.  The \<open>usbip_device\<close> of port \<open>r\<close> of controller \<open>p\<close> has the address
  \<open>8 * p + r\<close>, the number of the port in user space.  \<open>pdevs_locked\<close>: another thread holds the
  lock of the array.\<close>

record 'c vhci_world =
  vhci_max_controllers :: int
  vhci_init_controllers :: int
  vhci_num_controllers :: int
  vhci_pdevs :: "bool list"
  hcds :: "nat \<Rightarrow> vhci_hcd option"
  vhci_using_ports :: u32
  pdevs_init_completed :: bool
  pdevs_init_count :: int
  pdev_nr_started :: int
  pdevs_locked :: bool
  vw_attrs :: "string list"
  vw_events :: "nat list"
  vw_given :: "vhci_urb list"
  vw_env :: 'c

definition hcd_at :: "nat \<Rightarrow> 'c vhci_world \<Rightarrow> vhci_hcd" where
  "hcd_at p w = the (hcds w p)"

definition upd_hcd :: "nat \<Rightarrow> (vhci_hcd \<Rightarrow> vhci_hcd) \<Rightarrow> 'c vhci_world \<Rightarrow> 'c vhci_world" where
  "upd_hcd p f w = w\<lparr>hcds := (hcds w)(p := map_option f (hcds w p))\<rparr>"

definition pdev_of :: "nat \<Rightarrow> nat" where "pdev_of d = d div VHCI_HC_PORTS"
definition rhport_of :: "nat \<Rightarrow> nat" where "rhport_of d = d mod VHCI_HC_PORTS"
definition vport :: "nat \<Rightarrow> nat \<Rightarrow> nat" where "vport p r = p * VHCI_HC_PORTS + r"

definition known_port :: "nat \<Rightarrow> 'c vhci_world \<Rightarrow> bool" where
  "known_port d w = (case hcds w (pdev_of d) of None \<Rightarrow> False | Some h \<Rightarrow> rhport_of d < length (vdevs h))"

text \<open>One port as the functions of the other theories see it, and back.\<close>

definition vconn_at :: "nat \<Rightarrow> 'c vhci_world \<Rightarrow> 'c vhci_conn" where
  "vconn_at d w =
     (let h = hcd_at (pdev_of d) w; (u, v) = vdevs h ! rhport_of d in
      \<lparr>ud = u, event_list = vw_events w, env = vw_env w, vdev = v, vseq = hcd_seqnum h,
       given = vw_given w\<rparr>)"

definition put_vconn :: "nat \<Rightarrow> 'c vhci_conn \<Rightarrow> 'c vhci_world \<Rightarrow> 'c vhci_world" where
  "put_vconn d s w =
     (upd_hcd (pdev_of d) (\<lambda>h. h\<lparr>vdevs := (vdevs h)[rhport_of d := (ud s, vdev s)],
        hcd_seqnum := vseq s\<rparr>) w)\<lparr>vw_events := event_list s, vw_env := env s, vw_given := given s\<rparr>"

section \<open>The operations of the event handler\<close>

text \<open>The counter is tested before the lock is taken; \<open>atomic_dec_and_test\<close> is true for zero.\<close>

definition vhci_put_device :: "nat \<Rightarrow> 'c vhci_world \<Rightarrow> 'c vhci_world" where
  "vhci_put_device d w =
     (let s = vconn_at d w; n = vd_using_port (vdev s) - 1;
          w1 = put_vconn d (s\<lparr>vdev := (vdev s)\<lparr>vd_using_port := n\<rparr>\<rparr>) w in
      if n \<noteq> 0 then w1
      else (upd_hcd (pdev_of d) (\<lambda>h. h\<lparr>using_ports := using_ports h - 1\<rparr>) w1)
        \<lparr>vhci_using_ports := vhci_using_ports w1 - 1\<rparr>)"

definition vhci_close ::
  "('c, 'k) vhci_kernel_scheme \<Rightarrow> 'c vhci_conn \<Rightarrow> 'c vhci_conn" where
  "vhci_close K s =
     (let (_, d1, c1) = trx_unlink (trx_ops K) (ud s) (env s);
          c2 = stop_thread (tcp_rx d1) K c1; d2 = d1\<lparr>tcp_rx := False\<rparr>;
          c3 = stop_thread (tcp_tx d2) K c2; d3 = d2\<lparr>tcp_tx := False\<rparr> in
      case tcp_socket d3 of
        Some sk \<Rightarrow> s\<lparr>ud := d3\<lparr>tcp_socket := None\<rparr>, env := sockfd_put K sk c3\<rparr>
      | None \<Rightarrow> s\<lparr>ud := (if ux d3 \<noteq> None then d3\<lparr>ux := None\<rparr> else d3), env := c3\<rparr>)"

definition poll_rh :: "('c, 'k) vhci_kernel_scheme \<Rightarrow> nat \<Rightarrow> 'c vhci_world \<Rightarrow> 'c vhci_world" where
  "poll_rh K p w = w\<lparr>vw_env := usb_hcd_poll_rh_status K p (vw_env w)\<rparr>"

definition vhci_shutdown_connection ::
  "('c, 'k) vhci_kernel_scheme \<Rightarrow> nat \<Rightarrow> 'c vhci_world \<Rightarrow> 'c vhci_world" where
  "vhci_shutdown_connection K d w =
     (let w1 = put_vconn d (vhci_device_unlink_cleanup K (vhci_close K (vconn_at d w))) w;
          w2 = upd_hcd (pdev_of d) (rh_port_disconnect (rhport_of d)) w1
      in poll_rh K (pdev_of d) w2)"

definition vhci_reset_conn ::
  "('c, 'k) vhci_kernel_scheme \<Rightarrow> 'c vhci_conn \<Rightarrow> 'c vhci_conn" where
  "vhci_reset_conn K s =
     (let c1 = (case vd_udev (vdev s) of None \<Rightarrow> env s | Some dev \<Rightarrow> usb_put_dev K dev (env s));
          c2 = (case tcp_socket (ud s) of None \<Rightarrow> c1 | Some sk \<Rightarrow> sockfd_put K sk c1) in
      s\<lparr>env := c2, vdev := (vdev s)\<lparr>vd_speed := 0, vd_devid := 0, vd_udev := None\<rparr>,
        ud := (ud s)\<lparr>tcp_socket := None, status := VDEV_ST_NULL\<rparr>\<rparr>)"

definition vhci_device_reset ::
  "('c, 'k) vhci_kernel_scheme \<Rightarrow> nat \<Rightarrow> 'c vhci_world \<Rightarrow> 'c vhci_world" where
  "vhci_device_reset K d w = vhci_put_device d (put_vconn d (vhci_reset_conn K (vconn_at d w)) w)"

definition vhci_device_unusable :: "nat \<Rightarrow> 'c vhci_world \<Rightarrow> 'c vhci_world" where
  "vhci_device_unusable d w =
     (let s = vconn_at d w in
      vhci_put_device d (put_vconn d (s\<lparr>ud := (ud s)\<lparr>status := VDEV_ST_ERROR\<rparr>\<rparr>) w))"

definition vhci_eh_ops :: "('c, 'k) vhci_kernel_scheme \<Rightarrow> 'c vhci_world eh_ops" where
  "vhci_eh_ops K = \<lparr>
     dev_of = (\<lambda>d w. ud (vconn_at d w)),
     put_dev = (\<lambda>d x w. put_vconn d ((vconn_at d w)\<lparr>ud := x\<rparr>) w),
     events_of = vw_events,
     put_events = (\<lambda>ds w. w\<lparr>vw_events := ds\<rparr>),
     eh_shutdown = vhci_shutdown_connection K,
     eh_reset = vhci_device_reset K,
     eh_unusable = vhci_device_unusable\<rparr>"

section \<open>Starting and stopping a controller\<close>

definition vhci_device_init :: "nat \<Rightarrow> nat \<Rightarrow> usbip_device \<times> vhci_device" where
  "vhci_device_init p rhport =
     (usbip_start_eh \<lparr>ud_id = vport p rhport, side = USBIP_VHCI, status = VDEV_ST_NULL,
        tcp_socket = None, ux = None, tcp_rx = False, tcp_tx = False, event = 0\<rparr>,
      \<lparr>vd_udev = None, vd_devid = 0, vd_speed = 0, vd_rhport = word_of_nat rhport, vd_priv_tx = [],
       vd_priv_rx = [], vd_unlink_tx = [], vd_unlink_rx = [], vd_using_port = 0\<rparr>)"

text \<open>The name of the platform device with a number, as the driver core forms it.\<close>

definition hcd_name :: "nat \<Rightarrow> string" where
  "hcd_name p = (if pdev_nr2id (int p) < 0 then ''vhci_hcd'' else ''vhci_hcd.'' @ decimal p)"

text \<open>The result of \<open>kstrtol\<close> is a \<open>long\<close> and is returned as an \<open>int\<close>.\<close>

definition hcd_name_to_pdev_nr :: "string \<Rightarrow> int" where
  "hcd_name_to_pdev_nr name = (case dropWhile (\<lambda>c. c \<noteq> CHR ''.'') name of
     [] \<Rightarrow> 0
   | c # cs \<Rightarrow> (case kstrtol cs of Inl e \<Rightarrow> e | Inr v \<Rightarrow> sint (word_of_int v :: u32)))"

definition status_attr_name :: "nat \<Rightarrow> string" where
  "status_attr_name i = (if i = 0 then ''status'' else take 16 (''status.'' @ decimal i))"

abbreviation (input) sizeof_status_attr :: nat where "sizeof_status_attr \<equiv> 56"

definition vhci_init_attr_group ::
  "('c, 'k) vhci_kernel_scheme \<Rightarrow> 'c vhci_world \<Rightarrow> int \<times> 'c vhci_world" where
  "vhci_init_attr_group K w =
     (let n = nat (vhci_max_controllers w);
          (ok, c1) = kmalloc K ((n + 5) * 8) (vw_env w); w1 = w\<lparr>vw_env := c1\<rparr> in
      if \<not> ok then (- ENOMEM, w1)
      else let (ok2, c2) = kmalloc K (n * sizeof_status_attr) (vw_env w1); w2 = w1\<lparr>vw_env := c2\<rparr> in
        if \<not> ok2 then (- ENOMEM, w2)
        else (0, w2\<lparr>vw_attrs := [''nports'', ''detach'', ''attach'', ''usbip_debug''] @
               map status_attr_name [0..<n]\<rparr>))"

definition vhci_finish_attr_group :: "'c vhci_world \<Rightarrow> 'c vhci_world" where
  "vhci_finish_attr_group w = w\<lparr>vw_attrs := []\<rparr>"

definition vhci_start ::
  "('c, 'k) vhci_kernel_scheme \<Rightarrow> nat \<Rightarrow> 'c vhci_world \<Rightarrow> int \<times> 'c vhci_world" where
  "vhci_start K p w =
     (let w1 = upd_hcd p (\<lambda>h. h\<lparr>vdevs := map (vhci_device_init p) [0..<VHCI_HC_PORTS], hcd_seqnum := 0,
            using_ports := 0\<rparr>) w;
          pdev_nr = hcd_name_to_pdev_nr (hcd_name p) in
      if pdev_nr < 0 then (- EINVAL, w1)
      else let (err, w2) =
        (if pdev_nr = 0 then
           let (e1, w2) = vhci_init_attr_group K w1 in
           if e1 \<noteq> 0 then (e1, w2)
           else let (e2, c) = sysfs_create_group K (vw_env w2); w3 = w2\<lparr>vw_env := c\<rparr> in
             if e2 \<noteq> 0 then (e2, vhci_finish_attr_group w3) else (0, w3)
         else (0, w1)) in
      if err \<noteq> 0 then (err, w2)
      else let n = pdevs_init_count w2 - 1; completed = (n = 0 \<or> pdevs_init_completed w2) in
        (0, w2\<lparr>pdevs_init_completed := completed, pdevs_init_count := (if completed then -1 else n),
          pdev_nr_started := pdev_nr\<rparr>))"

text \<open>The loop of \<open>vhci_stop\<close> over the ports from \<open>rhport\<close> on; the event is \<open>VDEV_EVENT_REMOVED\<close>,
  for which \<open>vhci_event_add\<close> is \<open>usbip_event_add\<close>.\<close>

fun stop_ports ::
  "('c, 'k) vhci_kernel_scheme \<Rightarrow> nat \<Rightarrow> nat list \<Rightarrow> 'c vhci_world \<Rightarrow> 'c vhci_world option" where
  "stop_ports K p [] w = Some w"
| "stop_ports K p (r # rs) w =
     (let d = vport p r;
          w1 = put_vconn d (usbip_event_add (kmalloc K) VDEV_EVENT_REMOVED (vconn_at d w)) w in
      usbip_stop_eh (vhci_eh_ops K) d w1 \<bind> stop_ports K p rs)"

definition vhci_stop ::
  "('c, 'k) vhci_kernel_scheme \<Rightarrow> nat \<Rightarrow> 'c vhci_world \<Rightarrow> 'c vhci_world option" where
  "vhci_stop K p w =
     (let w1 = (if hcd_name_to_pdev_nr (hcd_name p) = 0
            then vhci_finish_attr_group (w\<lparr>vw_env := sysfs_remove_group K (vw_env w)\<rparr>) else w)
      in stop_ports K p [0..<VHCI_HC_PORTS] w1)"

section \<open>Platform devices\<close>

text \<open>The memory of a new controller is zero; registering it makes it accessible.\<close>

definition zero_hcd :: vhci_hcd where
  "zero_hcd = \<lparr>port_status = replicate VHCI_HC_PORTS 0, resuming = False, re_timeout = 0,
     hcd_seqnum = 0, using_ports = 0, vdevs = map (vhci_device_init 0) [0..<VHCI_HC_PORTS],
     hw_accessible = True, hcd_suspended = False\<rparr>"

definition vhci_hcd_probe ::
  "('c, 'k) vhci_kernel_scheme \<Rightarrow> nat \<Rightarrow> 'c vhci_world \<Rightarrow> int \<times> 'c vhci_world" where
  "vhci_hcd_probe K p w =
     (let (ok, c1) = usb_create_hcd K p (vw_env w); w1 = w\<lparr>vw_env := c1\<rparr> in
      if \<not> ok then (- ENOMEM, w1)
      else let w2 = w1\<lparr>hcds := (hcds w1)(p \<mapsto> zero_hcd)\<rparr>;
               (e1, c2) = usb_add_hcd K p (vw_env w2); w3 = w2\<lparr>vw_env := c2\<rparr>;
               (ret, w4) = (if e1 \<noteq> 0 then (e1, w3) else vhci_start K p w3) in
        if ret \<noteq> 0 then (ret, w4\<lparr>hcds := (hcds w4)(p := None)\<rparr>) else (0, w4))"

definition vhci_hcd_remove ::
  "('c, 'k) vhci_kernel_scheme \<Rightarrow> nat \<Rightarrow> 'c vhci_world \<Rightarrow> 'c vhci_world option" where
  "vhci_hcd_remove K p w = (case hcds w p of
     None \<Rightarrow> Some w
   | Some h \<Rightarrow> map_option (\<lambda>w'. w'\<lparr>hcds := (hcds w')(p := None)\<rparr>)
       (vhci_stop K p (w\<lparr>vw_env := usb_remove_hcd K p (vw_env w)\<rparr>)))"

definition add_platform_device ::
  "('c, 'k) vhci_kernel_scheme \<Rightarrow> nat \<Rightarrow> 'c vhci_world \<Rightarrow> int \<times> 'c vhci_world" where
  "add_platform_device K p w =
     (let (err, c) = platform_device_register_simple K (pdev_nr2id (int p)) (vw_env w);
          w1 = w\<lparr>vw_env := c\<rparr> in
      if err \<noteq> 0 then (err, w1)
      else let w2 = (if probes_now K p c then snd (vhci_hcd_probe K p w1) else w1) in
        (0, w2\<lparr>vhci_pdevs := (vhci_pdevs w2)[p := True],
          vhci_num_controllers := vhci_num_controllers w2 + 1\<rparr>))"

definition del_platform_device ::
  "('c, 'k) vhci_kernel_scheme \<Rightarrow> nat \<Rightarrow> 'c vhci_world \<Rightarrow> 'c vhci_world option" where
  "del_platform_device K p w =
     (if \<not> vhci_pdevs w ! p then Some w
      else vhci_hcd_remove K p (w\<lparr>vhci_pdevs := (vhci_pdevs w)[p := False],
        vhci_num_controllers := vhci_num_controllers w - 1\<rparr>))"

fun del_platform_devices_loop ::
  "('c, 'k) vhci_kernel_scheme \<Rightarrow> nat list \<Rightarrow> 'c vhci_world \<Rightarrow> 'c vhci_world option" where
  "del_platform_devices_loop K [] w = Some w"
| "del_platform_devices_loop K (p # ps) w =
     del_platform_device K p w \<bind> del_platform_devices_loop K ps"

definition del_platform_devices ::
  "('c, 'k) vhci_kernel_scheme \<Rightarrow> 'c vhci_world \<Rightarrow> 'c vhci_world option" where
  "del_platform_devices K w =
     map_option (\<lambda>w'. w'\<lparr>vw_env := sysfs_remove_link K (vw_env w')\<rparr>)
       (del_platform_devices_loop K [0..<nat (vhci_max_controllers w)] w)"

section \<open>Ports in use\<close>

text \<open>\<open>None\<close> is the dereference of missing driver data.\<close>

definition get_device ::
  "nat \<Rightarrow> nat \<Rightarrow> 'c vhci_world \<Rightarrow> 'c vhci_world option" where
  "get_device p rhport w = (case hcds w p of
     None \<Rightarrow> None
   | Some h \<Rightarrow>
       let d = vport p rhport; s = vconn_at d w;
           w1 = upd_hcd p (\<lambda>h. h\<lparr>using_ports := using_ports h + 1\<rparr>)
             (put_vconn d (s\<lparr>vdev := (vdev s)\<lparr>vd_using_port := 1\<rparr>\<rparr>) w)
       in Some (w1\<lparr>vhci_using_ports := vhci_using_ports w1 + 1\<rparr>))"

text \<open>The inner result is zero or the error.  \<open>None\<close> is a fault or a wait without end.\<close>

definition vhci_get_device ::
  "('c, 'k) vhci_kernel_scheme \<Rightarrow> nat \<Rightarrow> nat \<Rightarrow> 'c vhci_world \<Rightarrow> (int \<times> 'c vhci_world) option" where
  "vhci_get_device K p rhport w =
     (if \<not> pdevs_init_completed w then
        (if signal_pending K (vw_env w) then Some (- ERESTARTSYS, w) else None)
      else if vhci_pdevs w ! p then map_option (Pair 0) (get_device p rhport w)
      else let (ret, w1) = add_platform_device K p (w\<lparr>pdev_nr_started := -1\<rparr>) in
        if ret \<noteq> 0 then Some (ret, w1)
        else if pdev_nr_started w1 \<noteq> int p then
          (if signal_pending K (vw_env w1) then Some (- ERESTARTSYS, w1) else None)
        else map_option (Pair 0) (get_device p rhport w1))"

text \<open>The controllers \<open>p\<close> down to 1; the result of the source tells whether one was deleted.\<close>

fun try_del_loop ::
  "('c, 'k) vhci_kernel_scheme \<Rightarrow> nat \<Rightarrow> 'c vhci_world \<Rightarrow> (bool \<times> 'c vhci_world) option" where
  "try_del_loop K 0 w = Some (False, w)"
| "try_del_loop K (Suc p) w =
     (if \<not> vhci_pdevs w ! Suc p then try_del_loop K p w
      else (case hcds w (Suc p) of
        None \<Rightarrow> None
      | Some h \<Rightarrow> if using_ports h = 0 then map_option (Pair True) (del_platform_device K (Suc p) w)
          else try_del_loop K p w))"

definition try_del_platform_device ::
  "('c, 'k) vhci_kernel_scheme \<Rightarrow> 'c vhci_world \<Rightarrow> 'c vhci_world option" where
  "try_del_platform_device K w =
     (if pdevs_locked w then Some w
      else if vhci_num_controllers w > vhci_init_controllers w \<and>
        word_of_int (vhci_num_controllers w * int VHCI_HC_PORTS) - vhci_using_ports w
          \<ge> word_of_nat (VHCI_HC_PORTS * VHCI_FREE_HCS)
      then map_option snd (try_del_loop K (nat (vhci_max_controllers w - 1)) w)
      else Some w)"

text \<open>\<open>in_eh\<close>: the caller is the event worker.  The device may belong to the controller that was
  deleted, which is then a fault.\<close>

definition vhci_event_add ::
  "('c, 'k) vhci_kernel_scheme \<Rightarrow> bool \<Rightarrow> nat \<Rightarrow> ulong \<Rightarrow> 'c vhci_world \<Rightarrow> 'c vhci_world option" where
  "vhci_event_add K in_eh d ev w =
     do { w1 \<leftarrow> (if ev \<noteq> VDEV_EVENT_REMOVED \<and> \<not> in_eh then try_del_platform_device K w else Some w);
          if known_port d w1
          then Some (put_vconn d (usbip_event_add (kmalloc K) ev (vconn_at d w1)) w1)
          else None }"

text \<open>Raising what a function on one port reported.\<close>

definition raise_on ::
  "('c, 'k) vhci_kernel_scheme \<Rightarrow> nat \<Rightarrow> raised \<Rightarrow> 'c vhci_world \<Rightarrow> 'c vhci_world option" where
  "raise_on K d ev w = (case ev of None \<Rightarrow> Some w | Some e \<Rightarrow> vhci_event_add K False d e w)"

section \<open>The threads of a port\<close>

fun vhci_tx_loop ::
  "('c, 'k) vhci_kernel_scheme \<Rightarrow> nat \<Rightarrow> bool list \<Rightarrow> 'c vhci_world \<Rightarrow> 'c vhci_world option" where
  "vhci_tx_loop K d [] w = Some w"
| "vhci_tx_loop K d (stop # stops) w =
     (if stop then Some w
      else do { (go_on, ev, s) \<leftarrow> vhci_tx_round K (vconn_at d w);
                w1 \<leftarrow> raise_on K d ev (put_vconn d s w);
                if go_on then vhci_tx_loop K d stops w1 else Some w1 })"

fun vhci_rx_loop ::
  "('c, 'k) vhci_kernel_scheme \<Rightarrow> nat \<Rightarrow> bool list \<Rightarrow> 'c vhci_world \<Rightarrow> 'c vhci_world option" where
  "vhci_rx_loop K d [] w = Some w"
| "vhci_rx_loop K d (stop # stops) w =
     (if stop then Some w
      else if usbip_event_happened (ud (vconn_at d w)) then Some w
      else do { (ev, s) \<leftarrow> vhci_rx_pdu K (vconn_at d w);
                w1 \<leftarrow> raise_on K d ev (put_vconn d s w);
                vhci_rx_loop K d stops w1 })"

section \<open>The entry points of the USB core\<close>

text \<open>The ports in the order in which \<open>get_vdev\<close> searches them.\<close>

definition all_ports :: "'c vhci_world \<Rightarrow> nat list" where
  "all_ports w = concat (map (\<lambda>p. if vhci_pdevs w ! p \<and> hcds w p \<noteq> None
     then map (vport p) [0..<VHCI_HC_PORTS] else []) [0..<nat (vhci_max_controllers w)])"

definition get_vdev :: "nat \<Rightarrow> 'c vhci_world \<Rightarrow> nat option" where
  "get_vdev dev w = find (\<lambda>d. vd_udev (vdev (vconn_at d w)) = Some dev) (all_ports w)"

text \<open>\<open>vhci_tx_urb\<close> with the search for the port; a URB without port is dropped.\<close>

definition vhci_tx_urb_any ::
  "('c, 'k) vhci_kernel_scheme \<Rightarrow> vhci_urb \<Rightarrow> 'c vhci_world \<Rightarrow> 'c vhci_world option" where
  "vhci_tx_urb_any K urb w = (case get_vdev (vu_dev urb) w of
     None \<Rightarrow> Some w
   | Some d \<Rightarrow> let (ev, s) = vhci_tx_urb K urb (vconn_at d w) in raise_on K d ev (put_vconn d s w))"

text \<open>\<open>None\<close> is, beside the faults of its parts, port number 0, for which \<open>vdev[-1]\<close> is read.\<close>

definition vhci_urb_enqueue ::
  "('c, 'k) vhci_kernel_scheme \<Rightarrow> nat \<Rightarrow> vhci_urb \<Rightarrow> 'c vhci_world \<Rightarrow> (int \<times> 'c vhci_world) option" where
  "vhci_urb_enqueue K p urb w =
     (if unat (vu_portnum urb) > VHCI_HC_PORTS then Some (- ENODEV, w)
      else if vu_portnum urb = 0 then None
      else let d = vport p (unat (vu_portnum urb) - 1) in
        do { (ret, xmit, s) \<leftarrow> vhci_urb_admit K urb (vconn_at d w);
             let w1 = put_vconn d s w in
             if xmit then map_option (Pair 0) (vhci_tx_urb_any K urb w1) else Some (ret, w1) })"

definition vhci_urb_dequeue ::
  "('c, 'k) vhci_kernel_scheme \<Rightarrow> nat \<Rightarrow> nat \<Rightarrow> int \<Rightarrow> 'c vhci_world \<Rightarrow> (int \<times> 'c vhci_world) option" where
  "vhci_urb_dequeue K p i st w =
     (case find (\<lambda>d. find_vpriv i (vdev (vconn_at d w)) \<noteq> None) (map (vport p) [0..<VHCI_HC_PORTS]) of
        None \<Rightarrow> Some (- EIDRM, w)
      | Some d \<Rightarrow> let (ret, ev, s) = vhci_dequeue K i st (vconn_at d w) in
          map_option (Pair ret) (raise_on K d ev (put_vconn d s w)))"

definition vhci_hub_status_data ::
  "('c, 'k) vhci_kernel_scheme \<Rightarrow> nat \<Rightarrow> 'c vhci_world \<Rightarrow> int \<times> u8 list \<times> 'c vhci_world" where
  "vhci_hub_status_data K p w =
     (let (r, buf, resume) = vhci_hub_status (hcd_at p w) in
      (r, buf, if resume then w\<lparr>vw_env := usb_hcd_resume_root_hub K p (vw_env w)\<rparr> else w))"

definition vhci_bus_suspend :: "vhci_hcd \<Rightarrow> int \<times> vhci_hcd" where
  "vhci_bus_suspend h = (0, h\<lparr>hcd_suspended := True\<rparr>)"

definition vhci_bus_resume :: "vhci_hcd \<Rightarrow> int \<times> vhci_hcd" where
  "vhci_bus_resume h = (if \<not> hw_accessible h then (- ESHUTDOWN, h) else (0, h\<lparr>hcd_suspended := False\<rparr>))"

definition vhci_hcd_suspend :: "nat \<Rightarrow> 'c vhci_world \<Rightarrow> int \<times> 'c vhci_world" where
  "vhci_hcd_suspend p w = (case hcds w p of
     None \<Rightarrow> (0, w)
   | Some h \<Rightarrow>
       if length (filter (\<lambda>st. st AND USB_PORT_STAT_CONNECTION \<noteq> 0) (port_status h)) > 0
       then (- EBUSY, w) else (0, upd_hcd p (\<lambda>h. h\<lparr>hw_accessible := False\<rparr>) w))"

definition vhci_hcd_resume ::
  "('c, 'k) vhci_kernel_scheme \<Rightarrow> nat \<Rightarrow> 'c vhci_world \<Rightarrow> int \<times> 'c vhci_world" where
  "vhci_hcd_resume K p w = (case hcds w p of
     None \<Rightarrow> (0, w)
   | Some h \<Rightarrow> (0, poll_rh K p (upd_hcd p (\<lambda>h. h\<lparr>hw_accessible := True\<rparr>) w)))"

section \<open>Loading and unloading the module\<close>

fun add_platform_devices ::
  "('c, 'k) vhci_kernel_scheme \<Rightarrow> nat list \<Rightarrow> 'c vhci_world \<Rightarrow> int \<times> 'c vhci_world" where
  "add_platform_devices K [] w = (0, w)"
| "add_platform_devices K (p # ps) w =
     (let (ret, w1) = add_platform_device K p w in
      if ret \<noteq> 0 then (ret, w1) else add_platform_devices K ps w1)"

definition vhci_hcd_init ::
  "('c, 'k) vhci_kernel_scheme \<Rightarrow> 'c vhci_world \<Rightarrow> (int \<times> 'c vhci_world) option" where
  "vhci_hcd_init K w =
     (if usb_disabled K (vw_env w) then Some (- ENODEV, w)
      else let mx = max 1 (vhci_max_controllers w); ini = min mx (max 1 (vhci_init_controllers w));
               (ok, c1) = kmalloc K (nat mx * 8) (vw_env w);
               w1 = w\<lparr>vhci_max_controllers := mx, vhci_init_controllers := ini,
                 pdevs_init_count := ini, vw_env := c1\<rparr> in
        if \<not> ok then Some (- ENOMEM, w1)
        else let w2 = w1\<lparr>vhci_pdevs := replicate (nat mx) False\<rparr>;
                 (ret, c2) = platform_driver_register K (vw_env w2); w3 = w2\<lparr>vw_env := c2\<rparr> in
        if ret \<noteq> 0 then Some (ret, w3\<lparr>vhci_pdevs := []\<rparr>)
        else let (ret2, w4) = add_platform_devices K [0..<nat ini] w3 in
          if ret2 = 0 then Some (0, w4)
          else map_option (\<lambda>w'. (ret2, w'\<lparr>vw_env := platform_driver_unregister K (vw_env w'), vhci_pdevs := []\<rparr>))
            (del_platform_devices K w4))"

definition vhci_hcd_exit ::
  "('c, 'k) vhci_kernel_scheme \<Rightarrow> 'c vhci_world \<Rightarrow> 'c vhci_world option" where
  "vhci_hcd_exit K w =
     map_option (\<lambda>w'. w'\<lparr>vw_env := platform_driver_unregister K (vw_env w'), vhci_pdevs := []\<rparr>)
       (del_platform_devices K w)"

section \<open>Ports are independent\<close>

lemma port_split: "d = d' \<longleftrightarrow> pdev_of d = pdev_of d' \<and> rhport_of d = rhport_of d'"
  unfolding pdev_of_def rhport_of_def by (metis div_mult_mod_eq)

lemma vport_of [simp]: "r < VHCI_HC_PORTS \<Longrightarrow> pdev_of (vport p r) = p" "r < VHCI_HC_PORTS \<Longrightarrow> rhport_of (vport p r) = r"
  by (simp_all add: pdev_of_def rhport_of_def vport_def)

lemma known_portE:
  assumes "known_port d w"
  obtains h where "hcds w (pdev_of d) = Some h" "rhport_of d < length (vdevs h)"
  using assms by (auto simp: known_port_def split: option.splits)

lemma known_upd_hcd [simp]:
  "(\<And>h. length (vdevs (f h)) = length (vdevs h)) \<Longrightarrow> known_port d (upd_hcd p f w) = known_port d w"
  by (auto simp: known_port_def upd_hcd_def split: option.splits)

lemma known_put_vconn [simp]: "known_port d' (put_vconn d s w) = known_port d' w"
  by (auto simp: known_port_def put_vconn_def upd_hcd_def split: option.splits)

lemma vconn_put_same [simp]: "known_port d w \<Longrightarrow> vconn_at d (put_vconn d s w) = s"
  by (erule known_portE) (simp add: vconn_at_def put_vconn_def upd_hcd_def hcd_at_def)

lemma vconn_put_other:
  assumes "known_port d' w" "d' \<noteq> d"
  shows "ud (vconn_at d' (put_vconn d s w)) = ud (vconn_at d' w)"
    "vdev (vconn_at d' (put_vconn d s w)) = vdev (vconn_at d' w)"
  using assms port_split [of d' d]
  by (auto elim!: known_portE simp: vconn_at_def put_vconn_def upd_hcd_def hcd_at_def split: prod.split)

lemma put_vconn_sel [simp]:
  "vw_events (put_vconn d s w) = event_list s" "vw_env (put_vconn d s w) = env s"
  "vw_given (put_vconn d s w) = given s" "vhci_using_ports (put_vconn d s w) = vhci_using_ports w"
  "vhci_pdevs (put_vconn d s w) = vhci_pdevs w"
  "vhci_max_controllers (put_vconn d s w) = vhci_max_controllers w"
  by (simp_all add: put_vconn_def upd_hcd_def)

lemma upd_hcd_sel [simp]:
  "vw_events (upd_hcd p f w) = vw_events w" "vw_env (upd_hcd p f w) = vw_env w"
  "vw_given (upd_hcd p f w) = vw_given w" "vhci_using_ports (upd_hcd p f w) = vhci_using_ports w"
  by (simp_all add: upd_hcd_def)

lemma vconn_upd_hcd:
  assumes "\<And>h. vdevs (f h) = vdevs h" "\<And>h. hcd_seqnum (f h) = hcd_seqnum h" "known_port d w"
  shows "vconn_at d (upd_hcd p f w) = vconn_at d w"
  using assms by (auto elim!: known_portE simp: vconn_at_def upd_hcd_def hcd_at_def)

lemma vconn_sel [simp]: "event_list (vconn_at d w) = vw_events w" "env (vconn_at d w) = vw_env w"
  "given (vconn_at d w) = vw_given w"
  by (simp_all add: vconn_at_def Let_def split: prod.split)

lemma vconn_world [simp]:
  "vconn_at d (w\<lparr>vhci_using_ports := x\<rparr>) = vconn_at d w"
  "ud (vconn_at d (w\<lparr>vw_events := ds\<rparr>)) = ud (vconn_at d w)"
  "ud (vconn_at d (w\<lparr>vw_env := c\<rparr>)) = ud (vconn_at d w)"
  "known_port d (w\<lparr>vhci_using_ports := x\<rparr>) = known_port d w"
  "known_port d (w\<lparr>vw_events := ds\<rparr>) = known_port d w"
  "known_port d (w\<lparr>vw_env := c\<rparr>) = known_port d w"
  by (simp_all add: vconn_at_def hcd_at_def known_port_def Let_def split: prod.split)

section \<open>The event handler's contract\<close>

text \<open>What an operation on port \<open>d\<close> leaves alone.\<close>

definition vframe :: "nat \<Rightarrow> 'c vhci_world \<Rightarrow> 'c vhci_world \<Rightarrow> bool" where
  "vframe d w w' = ((\<forall>d'. known_port d' w' = known_port d' w) \<and> vw_events w' = vw_events w \<and>
     (\<forall>d'. known_port d' w \<longrightarrow> d' \<noteq> d \<longrightarrow> ud (vconn_at d' w') = ud (vconn_at d' w)))"

lemma vframe_trans: "vframe d w w' \<Longrightarrow> vframe d w' w'' \<Longrightarrow> vframe d w w''"
  by (simp add: vframe_def)

lemma vframe_put: "event_list s = vw_events w \<Longrightarrow> vframe d w (put_vconn d s w)"
  by (simp add: vframe_def vconn_put_other)

lemma put_device_frame:
  assumes "known_port d w"
  shows "vframe d w (vhci_put_device d w)" "ud (vconn_at d (vhci_put_device d w)) = ud (vconn_at d w)"
proof -
  show "vframe d w (vhci_put_device d w)"
    by (simp add: vhci_put_device_def Let_def vframe_def vconn_upd_hcd vconn_put_other)
  show "ud (vconn_at d (vhci_put_device d w)) = ud (vconn_at d w)"
    using assms by (simp add: vhci_put_device_def Let_def vconn_upd_hcd)
qed

lemma cleanup_frame:
  "ud (vhci_device_unlink_cleanup K s) = ud s" "event_list (vhci_device_unlink_cleanup K s) = event_list s"
proof -
  have "ud (unlink_cleanup_rx K s) = ud s \<and> event_list (unlink_cleanup_rx K s) = event_list s" for s
  proof (induction K s rule: unlink_cleanup_rx.induct)
    case (1 K s)
    then show ?case
      by (subst unlink_cleanup_rx.simps, subst (3) unlink_cleanup_rx.simps)
         (auto simp: vhci_giveback_def split: list.split option.split)
  qed
  then show "ud (vhci_device_unlink_cleanup K s) = ud s" "event_list (vhci_device_unlink_cleanup K s) = event_list s"
    by (simp_all add: vhci_device_unlink_cleanup_def)
qed

lemma vhci_close_frame:
  assumes "trx_unlink (trx_ops K) = usbip_kernel_unlink ks"
  shows "event (ud (vhci_close K s)) = event (ud s)" "event_list (vhci_close K s) = event_list s"
    "closed (ud (vhci_close K s))" "status (ud (vhci_close K s)) = status (ud s)"
proof -
  obtain r c where "usbip_kernel_unlink ks (ud s) (env s) = (r, ud s, c)"
    using kernel_unlink_dev [of ks "ud s" "env s"] by (cases "usbip_kernel_unlink ks (ud s) (env s)") auto
  then show "event (ud (vhci_close K s)) = event (ud s)" "event_list (vhci_close K s) = event_list s"
    "closed (ud (vhci_close K s))" "status (ud (vhci_close K s)) = status (ud s)"
    using assms by (simp_all add: vhci_close_def Let_def closed_def split: option.split)
qed

lemma shutdown_frame:
  assumes "trx_unlink (trx_ops K) = usbip_kernel_unlink ks" "known_port d w"
  shows "vframe d w (vhci_shutdown_connection K d w)"
    "ud (vconn_at d (vhci_shutdown_connection K d w)) = ud (vhci_close K (vconn_at d w))"
proof -
  let ?s = "vhci_device_unlink_cleanup K (vhci_close K (vconn_at d w))"
  have "vframe d w (put_vconn d ?s w)"
    by (rule vframe_put) (simp add: cleanup_frame vhci_close_frame [OF assms(1)])
  then show "vframe d w (vhci_shutdown_connection K d w)"
    by (simp add: vhci_shutdown_connection_def Let_def poll_rh_def vframe_def vconn_upd_hcd rh_port_disconnect_def)
  show "ud (vconn_at d (vhci_shutdown_connection K d w)) = ud (vhci_close K (vconn_at d w))"
    using assms(2)
    by (simp add: vhci_shutdown_connection_def Let_def poll_rh_def vconn_upd_hcd rh_port_disconnect_def cleanup_frame)
qed

lemma reset_frame:
  assumes "known_port d w"
  shows "vframe d w (vhci_device_reset K d w)"
    "ud (vconn_at d (vhci_device_reset K d w)) = (ud (vconn_at d w))\<lparr>tcp_socket := None, status := VDEV_ST_NULL\<rparr>"
proof -
  let ?w = "put_vconn d (vhci_reset_conn K (vconn_at d w)) w"
  have "vframe d w ?w" by (rule vframe_put) (simp add: vhci_reset_conn_def Let_def)
  then show "vframe d w (vhci_device_reset K d w)"
    using put_device_frame(1) [of d ?w] assms vframe_trans by (simp add: vhci_device_reset_def) blast
  show "ud (vconn_at d (vhci_device_reset K d w)) = (ud (vconn_at d w))\<lparr>tcp_socket := None, status := VDEV_ST_NULL\<rparr>"
    using put_device_frame(2) [of d ?w] assms by (simp add: vhci_device_reset_def vhci_reset_conn_def Let_def)
qed

lemma unusable_frame:
  assumes "known_port d w"
  shows "vframe d w (vhci_device_unusable d w)"
    "ud (vconn_at d (vhci_device_unusable d w)) = (ud (vconn_at d w))\<lparr>status := VDEV_ST_ERROR\<rparr>"
proof -
  let ?w = "put_vconn d ((vconn_at d w)\<lparr>ud := (ud (vconn_at d w))\<lparr>status := VDEV_ST_ERROR\<rparr>\<rparr>) w"
  have "vframe d w ?w" by (rule vframe_put) simp
  then show "vframe d w (vhci_device_unusable d w)"
    using put_device_frame(1) [of d ?w] assms vframe_trans by (simp add: vhci_device_unusable_def Let_def) blast
  show "ud (vconn_at d (vhci_device_unusable d w)) = (ud (vconn_at d w))\<lparr>status := VDEV_ST_ERROR\<rparr>"
    using put_device_frame(2) [of d ?w] assms by (simp add: vhci_device_unusable_def Let_def)
qed

interpretation vhci_eh: eh_lifecycle "vhci_eh_ops (kernel_trx K ks)" known_port "\<lambda>d w. True"
  "\<lambda>d w. True" VDEV_ST_NULL VDEV_ST_ERROR
  for K :: "('c, 'k) vhci_kernel_scheme" and ks :: "'c kernel_sockets"
proof (unfold_locales, goal_cases)
  case (8 f d w d')
  then show ?case
    using shutdown_frame(1) [of "kernel_trx K ks" ks d w] reset_frame(1) [of d w "kernel_trx K ks"]
      unusable_frame(1) [of d w] by (auto simp: vhci_eh_ops_def vframe_def)
next
  case (9 f d w d')
  then show ?case
    using shutdown_frame [of "kernel_trx K ks" ks d w] reset_frame [of d w "kernel_trx K ks"]
      unusable_frame [of d w] vhci_close_frame(1) [of "kernel_trx K ks" ks "vconn_at d w"]
    by (cases "d' = d") (auto simp: vhci_eh_ops_def vframe_def)
next
  case (10 f d w)
  then show ?case
    using shutdown_frame(1) [of "kernel_trx K ks" ks d w] reset_frame(1) [of d w "kernel_trx K ks"]
      unusable_frame(1) [of d w] by (auto simp: vhci_eh_ops_def vframe_def)
next
  case (11 d w)
  then show ?case
    using shutdown_frame(2) [of "kernel_trx K ks" ks d w] vhci_close_frame(3) [of "kernel_trx K ks" ks "vconn_at d w"]
    by (simp add: vhci_eh_ops_def)
next
  case (12 d w)
  then show ?case
    using shutdown_frame(2) [of "kernel_trx K ks" ks d w] vhci_close_frame(4) [of "kernel_trx K ks" ks "vconn_at d w"]
    by (simp add: vhci_eh_ops_def)
qed (auto simp: vhci_eh_ops_def vconn_put_other reset_frame(2) unusable_frame(2) closed_def)

section \<open>Properties of the ports' life\<close>

text \<open>C12: a port whose error, removal or detachment was reported is taken out of service by the event
  worker: its socket and its threads are gone, and of the event word only the mark of removal is
  left.  Then it is in error if memory ran out, free again after a reset, and a port that was
  removed keeps its status.\<close>

theorem vhci_event_recovery:
  assumes "known_port d w" "event (ud (vconn_at d w)) AND USBIP_EH_SHUTDOWN \<noteq> 0"
    "d' = ud (vconn_at d (handle_device (vhci_eh_ops (kernel_trx K ks)) d w))"
  shows "closed d' \<and>
    event d' = event (ud (vconn_at d w)) AND NOT (USBIP_EH_SHUTDOWN OR USBIP_EH_RESET OR USBIP_EH_UNUSABLE) \<and>
    status d' =
      (if event (ud (vconn_at d w)) AND USBIP_EH_UNUSABLE \<noteq> 0 then VDEV_ST_ERROR
       else if event (ud (vconn_at d w)) AND USBIP_EH_RESET \<noteq> 0 then VDEV_ST_NULL
       else status (ud (vconn_at d w)))"
proof -
  have "dev_of (vhci_eh_ops (kernel_trx K ks)) d x = ud (vconn_at d x)" for x
    by (simp add: vhci_eh_ops_def)
  then show ?thesis using vhci_eh.handle_device_lifecycle [of d w K ks] assms by simp
qed

definition demo_vworld :: "ulong \<Rightarrow> u8 list vhci_world" where
  "demo_vworld ev = \<lparr>vhci_max_controllers = 2, vhci_init_controllers = 1, vhci_num_controllers = 1,
     vhci_pdevs = [True, False],
     hcds = [0 \<mapsto> zero_hcd\<lparr>using_ports := 1, vdevs :=
       ((demo_ud USBIP_VHCI VDEV_ST_USED)\<lparr>event := ev\<rparr>, demo_vdev) # map (vhci_device_init 0) [1..<8]\<rparr>],
     vhci_using_ports = 1, pdevs_init_completed = True, pdevs_init_count = -1, pdev_nr_started = 0,
     pdevs_locked = False, vw_attrs = [], vw_events = [], vw_given = [], vw_env = []\<rparr>"

lemma demo_vworld_port:
  "known_port 0 (demo_vworld ev)"
  "vconn_at 0 (demo_vworld ev) = \<lparr>ud = (demo_ud USBIP_VHCI VDEV_ST_USED)\<lparr>event := ev\<rparr>, event_list = [],
     env = [], vdev = demo_vdev, vseq = 0, given = []\<rparr>"
  by (simp_all add: demo_vworld_def known_port_def vconn_at_def hcd_at_def pdev_of_def rhport_of_def zero_hcd_def)

theorem vhci_event_recovery_witness:
  "status (ud (vconn_at 0 (handle_device (vhci_eh_ops (kernel_trx demo_vhci_kernel demo_sockets)) 0
     (demo_vworld VDEV_EVENT_DOWN)))) = VDEV_ST_NULL"
  using vhci_event_recovery [OF demo_vworld_port(1) _ refl, of VDEV_EVENT_DOWN demo_vhci_kernel demo_sockets]
  by (simp add: demo_vworld_port(2) event_defs)

section \<open>The end of a connection\<close>

text \<open>The sequence numbers whose unlink requests were sent and not answered, and what the code compares
  with the queue in their place: it passes each through a \<open>__u32\<close>.\<close>

definition unanswered :: "vhci_device \<Rightarrow> ulong set" where
  "unanswered vd = vl_unlink_seqnum ` set (vd_unlink_rx vd)"

definition unanswered32 :: "vhci_device \<Rightarrow> ulong set" where
  "unanswered32 vd = (\<lambda>n. ucast (ucast n :: u32)) ` unanswered vd"

lemma ucast32_id: "ucast (ucast (x :: ulong) :: u32) = x" if "x < 2 ^ 32"
proof -
  have "unat x < 2 ^ 32" using that by (simp add: word_less_nat_alt)
  then have "take_bit 32 x = x" by (simp add: word_unat_eq_iff unsigned_take_bit_eq take_bit_nat_eq_self)
  moreover have "ucast (ucast x :: u32) = take_bit 32 x"
    by (rule bit_word_eqI) (auto simp: bit_simps dest: bit_imp_le_length)
  ultimately show ?thesis by simp
qed

lemma filter_insert_absent:
  "\<forall>q\<in>set xs. f q \<noteq> n \<Longrightarrow> filter (\<lambda>q. f q \<notin> insert n U) xs = filter (\<lambda>q. f q \<notin> U) xs"
  "\<forall>q\<in>set xs. f q \<noteq> n \<Longrightarrow> filter (\<lambda>q. f q \<in> insert n U) xs = filter (\<lambda>q. f q \<in> U) xs"
  by (induction xs) auto

lemma unlink_cleanup_rx_spec:
  assumes "distinct (map vp_seqnum (vd_priv_rx (vdev s)))"
  shows "vdev (unlink_cleanup_rx K s) = (vdev s)\<lparr>vd_unlink_rx := [],
      vd_priv_rx := filter (\<lambda>p. vp_seqnum p \<notin> unanswered32 (vdev s)) (vd_priv_rx (vdev s))\<rparr> \<and>
    mset (given (unlink_cleanup_rx K s)) = mset (given s) +
      mset (map (\<lambda>p. (vp_urb p)\<lparr>urb_status := - ENODEV\<rparr>)
        (filter (\<lambda>p. vp_seqnum p \<in> unanswered32 (vdev s)) (vd_priv_rx (vdev s))))"
  using assms
proof (induction K s rule: unlink_cleanup_rx.induct)
  case (1 K s)
  show ?case
  proof (cases "vd_unlink_rx (vdev s)")
    case Nil
    then have "(vdev s)\<lparr>vd_unlink_rx := [], vd_priv_rx := vd_priv_rx (vdev s)\<rparr> = vdev s" by simp
    with Nil show ?thesis by (simp add: unlink_cleanup_rx.simps unanswered32_def unanswered_def)
  next
    case (Cons l ls)
    let ?n = "ucast (ucast (vl_unlink_seqnum l) :: u32) :: ulong"
    show ?thesis
    proof (cases "pickup_urb_and_free_priv (ucast (vl_unlink_seqnum l)) (vdev s)")
      case None
      let ?s = "s\<lparr>vdev := (vdev s)\<lparr>vd_unlink_rx := ls\<rparr>\<rparr>"
      have u: "unanswered32 (vdev s) = insert ?n (unanswered32 (vdev ?s))" by (simp add: unanswered32_def unanswered_def Cons)
      have "\<forall>p\<in>set (vd_priv_rx (vdev s)). vp_seqnum p \<noteq> ?n" using None by (simp add: pickup_None)
      note f = filter_insert_absent [OF this, of "unanswered32 (vdev ?s)", folded u]
      have r: "unlink_cleanup_rx K s = unlink_cleanup_rx K ?s"
        using Cons None by (subst unlink_cleanup_rx.simps) simp
      show ?thesis using "1.IH"(1) [OF Cons None] "1.prems" unfolding f r by simp
    next
      case (Some x)
      obtain urb vd where x: "x = (urb, vd)" by fastforce
      obtain ps p qs where p: "vd_priv_rx (vdev s) = ps @ p # qs" "vp_seqnum p = ?n"
        "urb = vp_urb p" "vd = (vdev s)\<lparr>vd_priv_rx := ps @ qs\<rparr>"
        using pickup_Some [of "ucast (vl_unlink_seqnum l)" "vdev s" urb vd] Some x by blast
      let ?s = "vhci_giveback K (urb\<lparr>urb_status := - ENODEV\<rparr>) (s\<lparr>vdev := vd\<lparr>vd_unlink_rx := ls\<rparr>\<rparr>)"
      have u: "unanswered32 (vdev s) = insert ?n (unanswered32 (vdev ?s))"
        by (simp add: unanswered32_def unanswered_def Cons vhci_giveback_def)
      have "\<forall>q\<in>set (ps @ qs). vp_seqnum q \<noteq> ?n" using "1.prems" p by (auto simp: image_iff)
      note f = filter_insert_absent [OF this, of "unanswered32 (vdev ?s)", folded u]
      have m: "vp_seqnum p \<in> unanswered32 (vdev s)" using p(2) u by simp
      have r: "unlink_cleanup_rx K s = unlink_cleanup_rx K ?s"
        using Cons Some x by (subst unlink_cleanup_rx.simps) simp
      have "distinct (map vp_seqnum (vd_priv_rx (vdev ?s)))" using "1.prems" p by (simp add: vhci_giveback_def)
      note ih = "1.IH"(2) [OF Cons Some x [symmetric] this]
      have sel: "vdev ?s = (vdev s)\<lparr>vd_priv_rx := ps @ qs, vd_unlink_rx := ls\<rparr>"
        "given ?s = given s @ [(vp_urb p)\<lparr>urb_status := - ENODEV\<rparr>]"
        by (simp_all add: vhci_giveback_def p(3,4))
      have g: "filter (\<lambda>q. vp_seqnum q \<notin> unanswered32 (vdev s)) (vd_priv_rx (vdev s)) =
          filter (\<lambda>q. vp_seqnum q \<notin> unanswered32 (vdev ?s)) (ps @ qs)"
        "mset (filter (\<lambda>q. vp_seqnum q \<in> unanswered32 (vdev s)) (vd_priv_rx (vdev s))) =
          add_mset p (mset (filter (\<lambda>q. vp_seqnum q \<in> unanswered32 (vdev ?s)) (ps @ qs)))"
        unfolding f [symmetric] p(1) using m by simp_all
      show ?thesis unfolding r using ih g by (simp add: sel del: filter_append)
    qed
  qed
qed

lemma cleanup_spec:
  assumes "distinct (map vp_seqnum (vd_priv_rx (vdev s)))"
    "\<forall>l\<in>set (vd_unlink_rx (vdev s)). vl_unlink_seqnum l < 2 ^ 32"
  shows "vdev (vhci_device_unlink_cleanup K s) = (vdev s)\<lparr>vd_unlink_tx := [], vd_unlink_rx := [],
      vd_priv_rx := filter (\<lambda>p. vp_seqnum p \<notin> unanswered (vdev s)) (vd_priv_rx (vdev s))\<rparr> \<and>
    mset (given (vhci_device_unlink_cleanup K s)) = mset (given s) +
      mset (map (\<lambda>p. (vp_urb p)\<lparr>urb_status := - ENODEV\<rparr>)
        (filter (\<lambda>p. vp_seqnum p \<in> unanswered (vdev s)) (vd_priv_rx (vdev s))))"
proof -
  have "unanswered32 (vdev s) = unanswered (vdev s)"
    using assms(2) by (force simp: unanswered32_def unanswered_def image_image ucast32_id)
  then show ?thesis
    using unlink_cleanup_rx_spec [of "s\<lparr>vdev := (vdev s)\<lparr>vd_unlink_tx := []\<rparr>\<rparr>" K] assms(1)
    by (simp add: vhci_device_unlink_cleanup_def unanswered32_def unanswered_def)
qed

text \<open>C34: when a connection ends, every URB whose unlink request was sent but not answered is handed
  back with \<open>-ENODEV\<close>, every other stays on its queue, and no unlink request is left.  The URBs that
  wait for an answer have different sequence numbers, and the unlink requests are for numbers
  below \<open>2 ^ 32\<close>, which are those the code can find again.\<close>

theorem vhci_unlink_cleanup_hands_back:
  assumes "distinct (map vp_seqnum (vd_priv_rx (vdev s)))"
    "\<forall>l\<in>set (vd_unlink_rx (vdev s)). vl_unlink_seqnum l < 2 ^ 32"
  shows "vdev (vhci_device_unlink_cleanup K s) = (vdev s)\<lparr>vd_unlink_tx := [], vd_unlink_rx := [],
      vd_priv_rx := filter (\<lambda>p. vp_seqnum p \<notin> unanswered (vdev s)) (vd_priv_rx (vdev s))\<rparr> \<and>
    mset (given (vhci_device_unlink_cleanup K s)) = mset (given s) +
      mset (map (\<lambda>p. (vp_urb p)\<lparr>urb_status := - ENODEV\<rparr>)
        (filter (\<lambda>p. vp_seqnum p \<in> unanswered (vdev s)) (vd_priv_rx (vdev s))))"
  using assms by (rule cleanup_spec)

theorem vhci_unlink_cleanup_hands_back_witness:
  "given (vhci_device_unlink_cleanup demo_vhci_kernel ((demo_vconn [])\<lparr>vdev := demo_vdev\<lparr>
     vd_priv_rx := [demo_vpriv], vd_unlink_rx := [\<lparr>vl_seqnum = 2, vl_unlink_seqnum = 1\<rparr>]\<rparr>\<rparr>)) =
   [demo_vurb\<lparr>urb_status := - ENODEV\<rparr>]"
proof -
  let ?s = "(demo_vconn [])\<lparr>vdev := demo_vdev\<lparr>
     vd_priv_rx := [demo_vpriv], vd_unlink_rx := [\<lparr>vl_seqnum = 2, vl_unlink_seqnum = 1\<rparr>]\<rparr>\<rparr>"
  have "mset (given (vhci_device_unlink_cleanup demo_vhci_kernel ?s)) = {#demo_vurb\<lparr>urb_status := - ENODEV\<rparr>#}"
    using vhci_unlink_cleanup_hands_back [of ?s demo_vhci_kernel]
    by (simp add: unanswered_def demo_vpriv_def)
  then show ?thesis by simp
qed

lemma cleanup_no_rx:
  assumes "vd_unlink_rx (vdev s) = []"
  shows "vhci_device_unlink_cleanup K s = s\<lparr>vdev := (vdev s)\<lparr>vd_unlink_tx := []\<rparr>\<rparr>"
  unfolding vhci_device_unlink_cleanup_def using assms by (subst unlink_cleanup_rx.simps) simp

lemma vhci_close_sel: "vdev (vhci_close K s) = vdev s" "given (vhci_close K s) = given s"
  by (simp_all add: vhci_close_def Let_def split: prod.split option.split)

text \<open>A port whose connection was shut down and that was not attached again: the USB core submits URBs
  and takes them back, but does not unlink the URB at \<open>i\<close> again once it has been unlinked, and the
  event worker runs its operations.\<close>

inductive down_step :: "('c, 'k) vhci_kernel_scheme \<Rightarrow> nat \<Rightarrow> 'c vhci_conn \<Rightarrow> 'c vhci_conn \<Rightarrow> bool"
  for K :: "('c, 'k) vhci_kernel_scheme" and i :: nat where
  dequeue: "i' = i \<longrightarrow> fst (usb_hcd_check_unlink_urb K i st (env s)) \<noteq> 0 \<Longrightarrow>
    vhci_dequeue K i' st s = (r, ev, s') \<Longrightarrow> down_step K i s (vraise K ev s')"
| enqueue: "vu_id urb \<notin> set (vids (vdev s)) \<Longrightarrow> urb_status urb = - EINPROGRESS \<Longrightarrow>
    vhci_enqueue K urb s = Some (r, ev, s') \<Longrightarrow> down_step K i s (vraise K ev s')"
| shutdown: "down_step K i s (vhci_device_unlink_cleanup K (vhci_close K s))"
| reset: "down_step K i s (vhci_reset_conn K s)"
| unusable: "down_step K i s (s\<lparr>ud := (ud s)\<lparr>status := VDEV_ST_ERROR\<rparr>\<rparr>)"
| kernel: "down_step K i s (s\<lparr>env := c\<rparr>)"

definition times_given :: "nat \<Rightarrow> 'c vhci_conn \<Rightarrow> nat" where
  "times_given i s = count (mset (map vu_id (given s))) i"

text \<open>What keeps the request \<open>p\<close> on its queue.\<close>

definition stranded :: "vhci_priv \<Rightarrow> nat \<Rightarrow> 'c vhci_conn \<Rightarrow> bool" where
  "stranded p g s = (p \<in> set (all_vprivs (vdev s)) \<and> tcp_socket (ud s) = None \<and> vd_unlink_rx (vdev s) = [] \<and>
     distinct (vids (vdev s)) \<and> times_given (vu_id (vp_urb p)) s = g)"

lemma stranded_vraise [simp]: "stranded p g (vraise K ev s) = stranded p g s"
  using conn_step_vhci(1,3) [OF conn_step_vraise [of s K ev]]
  by (simp add: stranded_def times_given_def vraise_def split: option.splits)

lemma stranded_env [simp]: "stranded p g (s\<lparr>env := c\<rparr>) = stranded p g s"
  by (simp add: stranded_def times_given_def)

lemma stranded_dequeue:
  assumes "stranded p g s" "vhci_dequeue K i' st s = (r, ev, s')"
    "i' = vu_id (vp_urb p) \<longrightarrow> fst (usb_hcd_check_unlink_urb K i' st (env s)) \<noteq> 0"
  shows "stranded p g s'"
proof (cases "find_vpriv i' (vdev s)")
  case None
  then show ?thesis using assms(1,2) by (simp add: vhci_dequeue_def)
next
  case (Some q)
  obtain ret c where ch: "usb_hcd_check_unlink_urb K i' st (env s) = (ret, c)" by fastforce
  show ?thesis
  proof (cases "ret = 0")
    case False
    then show ?thesis using assms(1,2) Some ch by (auto simp: vhci_dequeue_def)
  next
    case True
    then have i: "i' \<noteq> vu_id (vp_urb p)" using assms(3) ch by auto
    have q: "vu_id (vp_urb q) = i'" using Some by (auto simp: find_vpriv_def find_Some_iff)
    have d: "all_vprivs (del_vpriv i' (vdev s)) = filter (\<lambda>q. vu_id (vp_urb q) \<noteq> i') (all_vprivs (vdev s))"
      "vd_unlink_rx (del_vpriv i' (vdev s)) = vd_unlink_rx (vdev s)"
      by (simp_all add: all_vprivs_def del_vpriv_def Let_def)
    have s': "s' = vhci_giveback K (vp_urb q) (s\<lparr>env := c, vdev := del_vpriv i' (vdev s)\<rparr>)"
      using assms(1,2) Some ch True by (simp add: vhci_dequeue_def stranded_def)
    show ?thesis
      using assms(1) i q
      by (simp add: s' stranded_def vhci_giveback_def d vids_def times_given_def distinct_map_filter)
  qed
qed

lemma admit_frame:
  assumes "vhci_urb_admit K urb s = Some (r, xmit, s')"
  shows "tcp_socket (ud s') = tcp_socket (ud s)" "vd_unlink_rx (vdev s') = vd_unlink_rx (vdev s)"
  using assms
  by (auto simp: vhci_urb_admit_def set_vudev_def vhci_giveback_def Let_def
      split: if_splits prod.splits option.splits)

lemma stranded_enqueue:
  assumes "stranded p g s" "vhci_enqueue K urb s = Some (r, ev, s')" "urb_status urb = - EINPROGRESS"
    "vu_id urb \<notin> set (vids (vdev s))"
  shows "stranded p g s'"
proof -
  obtain xmit s1 where a: "vhci_urb_admit K urb s = Some (r, xmit, s1)"
    and rest: "if xmit then vhci_tx_urb K urb s1 = (ev, s') else s' = s1"
    using assms(2) by (auto simp: vhci_enqueue_def bind_eq_Some_conv Let_def split: if_splits prod.splits)
  have "vu_id (vp_urb p) \<in> set (vids (vdev s))" using assms(1) by (simp add: stranded_def vids_def)
  then have i: "vu_id urb \<noteq> vu_id (vp_urb p)" using assms(4) by auto
  note c = admit_cases [OF a assms(3)] and f = admit_frame [OF a]
  have s1: "stranded p g s1" "vu_id urb \<notin> set (vids (vdev s1))"
    using assms(1,4) i by (auto simp: stranded_def vids_def times_given_def c f simp del: mset_map)
  show ?thesis
  proof (cases xmit)
    case True
    obtain ok k where m: "kmalloc K sizeof_vhci_priv (env s1) = (ok, k)" by fastforce
    show ?thesis
    proof (cases ok)
      case ok: True
      let ?q = "\<lparr>vp_seqnum = scast (vseq s1 + 1), vp_urb = urb\<rparr>"
      let ?vd = "(vdev s1)\<lparr>vd_priv_tx := vd_priv_tx (vdev s1) @ [?q]\<rparr>"
      have s': "s' = s1\<lparr>env := k, vseq := vseq s1 + 1, vdev := ?vd\<rparr>"
        using rest m ok True by (simp add: vhci_tx_urb_def Let_def)
      have "mset (vids ?vd) = mset (vu_id urb # vids (vdev s1))" by (simp add: vids_def all_vprivs_def)
      from mset_eq_imp_distinct_iff [OF this] have "distinct (vids ?vd)" using s1 by (simp add: stranded_def)
      moreover have "p \<in> set (all_vprivs ?vd)" using s1(1) by (auto simp: stranded_def all_vprivs_def)
      ultimately show ?thesis using s1(1) by (simp add: s' stranded_def times_given_def)
    qed (use rest m s1(1) True in \<open>auto simp: vhci_tx_urb_def Let_def\<close>)
  qed (use rest s1 in simp)
qed

lemma stranded_step:
  assumes "down_step K (vu_id (vp_urb p)) s s'" "stranded p g s" shows "stranded p g s'"
  using assms(1)
proof cases
  case (dequeue i' st r ev t)
  have "stranded p g t" by (rule stranded_dequeue [OF assms(2) dequeue(3)]) (use dequeue(2) in auto)
  then show ?thesis using dequeue(1) by simp
next
  case (enqueue urb r ev t)
  then show ?thesis using stranded_enqueue [OF assms(2)] by simp
next
  case shutdown
  have "tcp_socket (ud (vhci_close K s)) = None" by (simp add: vhci_close_def Let_def split: prod.split option.split)
  then show ?thesis using assms(2)
    by (simp add: shutdown stranded_def cleanup_no_rx vhci_close_sel times_given_def vids_def all_vprivs_def)
qed (use assms(2) in \<open>simp_all add: stranded_def times_given_def vhci_reset_conn_def Let_def vids_def all_vprivs_def\<close>)

text \<open>C40: a URB that is unlinked just before its connection ends can be stranded.  If the unlink
  request is still waiting to be sent when the connection is shut down, and no other was sent for
  the URB, the request is dropped and the URB stays on its queue: whatever the USB core does with
  the port and whatever the event worker does, as long as the port is not attached again and the
  core does not unlink the URB a second time, it is not handed back.\<close>

theorem vhci_unlinked_urb_stranded:
  assumes deq: "vhci_dequeue K i st s = (0, None, s1)" and sock: "tcp_socket (ud s) \<noteq> None"
    and p: "find_vpriv i (vdev s) = Some p" "vp_seqnum p \<notin> unanswered (vdev s)"
    and inv: "distinct (vids (vdev s))" "distinct (vseqs (vdev s))"
      "\<forall>l\<in>set (vd_unlink_rx (vdev s)). vl_unlink_seqnum l < 2 ^ 32"
    and run: "(down_step K i)\<^sup>*\<^sup>* (vhci_device_unlink_cleanup K (vhci_close K s1)) s2"
  shows "p \<in> set (all_vprivs (vdev s2)) \<and> times_given i s2 = times_given i s"
proof -
  let ?c = "vhci_device_unlink_cleanup K (vhci_close K s1)"
  have s1: "vd_priv_rx (vdev s1) = vd_priv_rx (vdev s)" "vd_priv_tx (vdev s1) = vd_priv_tx (vdev s)"
    "vd_unlink_rx (vdev s1) = vd_unlink_rx (vdev s)" "given s1 = given s"
    using deq sock p by (auto simp: vhci_dequeue_def Let_def split: prod.splits if_splits)
  have m: "p \<in> set (all_vprivs (vdev s))" and i: "vu_id (vp_urb p) = i"
    using p by (auto simp: find_vpriv_def find_Some_iff)
  have d: "distinct (map vp_seqnum (vd_priv_rx (vdev s)))" using inv(2) by (simp add: vseqs_def all_vprivs_def)
  have c: "vdev ?c = (vdev s1)\<lparr>vd_unlink_tx := [], vd_unlink_rx := [],
      vd_priv_rx := filter (\<lambda>q. vp_seqnum q \<notin> unanswered (vdev s)) (vd_priv_rx (vdev s))\<rparr>"
    "mset (given ?c) = mset (given s) + mset (map (\<lambda>q. (vp_urb q)\<lparr>urb_status := - ENODEV\<rparr>)
        (filter (\<lambda>q. vp_seqnum q \<in> unanswered (vdev s)) (vd_priv_rx (vdev s))))"
    using cleanup_spec [of "vhci_close K s1" K] d inv(3) s1 by (simp_all add: vhci_close_sel unanswered_def)
  have q: "vu_id (vp_urb q) \<noteq> i" if "q \<in> set (vd_priv_rx (vdev s))" "vp_seqnum q \<in> unanswered (vdev s)" for q
  proof
    assume "vu_id (vp_urb q) = i"
    moreover have "q \<in> set (all_vprivs (vdev s))" using that by (simp add: all_vprivs_def)
    moreover have "inj_on (\<lambda>p. vu_id (vp_urb p)) (set (all_vprivs (vdev s)))"
      using inv(1) by (simp add: vids_def distinct_map)
    ultimately have "q = p" using m i by (auto dest: inj_onD)
    then show False using that p(2) by simp
  qed
  have "count (mset (map vu_id (map (\<lambda>q. (vp_urb q)\<lparr>urb_status := - ENODEV\<rparr>)
      (filter (\<lambda>q. vp_seqnum q \<in> unanswered (vdev s)) (vd_priv_rx (vdev s)))))) i = 0"
    using q by (auto simp: count_eq_zero_iff image_iff)
  then have "times_given i ?c = times_given i s" by (simp add: times_given_def c(2) multiset.map_comp o_def)
  moreover have "tcp_socket (ud ?c) = None"
    by (simp add: cleanup_frame vhci_close_def Let_def split: prod.split option.split)
  moreover have "p \<in> set (all_vprivs (vdev ?c))" "distinct (vids (vdev ?c))"
    using m p(2) inv(1) s1(2) by (auto simp: c(1) all_vprivs_def vids_def distinct_map_filter)
  ultimately have st: "stranded p (times_given i s) ?c" by (simp add: stranded_def c(1) i)
  from run have "stranded p (times_given i s) s2"
  proof (induction rule: rtranclp_induct)
    case (step x y)
    then show ?case using stranded_step [of K p x y] i by simp
  qed (rule st)
  then show ?thesis by (simp add: stranded_def i)
qed

text \<open>A USB core that unlinks a URB once.\<close>

definition demo_once_kernel :: "u8 list vhci_kernel" where
  "demo_once_kernel = demo_vhci_kernel\<lparr>usb_hcd_check_unlink_urb :=
     \<lambda>_ _ c. if c = [] then (0, [1]) else (- EBUSY, c)\<rparr>"

theorem vhci_unlinked_urb_stranded_witness:
  "\<exists>s1. vhci_dequeue demo_once_kernel 7 0 ((demo_vconn [])\<lparr>vdev := demo_vdev\<lparr>vd_priv_rx := [demo_vpriv]\<rparr>\<rparr>) =
      (0, None, s1) \<and>
    demo_vpriv \<in> set (all_vprivs (vdev (vhci_reset_conn demo_once_kernel
      (vhci_device_unlink_cleanup demo_once_kernel (vhci_close demo_once_kernel s1)))))"
proof -
  let ?s = "(demo_vconn [])\<lparr>vdev := demo_vdev\<lparr>vd_priv_rx := [demo_vpriv]\<rparr>\<rparr>"
  have f: "find_vpriv 7 (vdev ?s) = Some demo_vpriv" "tcp_socket (ud ?s) \<noteq> None" "vd_unlink_rx (vdev ?s) = []"
    "distinct (vids (vdev ?s))" "distinct (vseqs (vdev ?s))"
    by (simp_all add: find_vpriv_def all_vprivs_def demo_vdev_def demo_vpriv_def demo_vurb_def demo_vconn_def
        demo_ud_def vids_def vseqs_def)
  obtain s1 where s1: "vhci_dequeue demo_once_kernel 7 0 ?s = (0, None, s1)"
    using f by (simp add: vhci_dequeue_def demo_vconn_def demo_once_kernel_def demo_vhci_kernel_def Let_def demo_ud_def
        demo_vdev_def)
  let ?c = "vhci_device_unlink_cleanup demo_once_kernel (vhci_close demo_once_kernel s1)"
  have run: "(down_step demo_once_kernel 7)\<^sup>*\<^sup>* ?c (vhci_reset_conn demo_once_kernel ?c)"
    by (rule r_into_rtranclp) (rule down_step.reset)
  have "vp_seqnum demo_vpriv \<notin> unanswered (vdev ?s)" "\<forall>l\<in>set (vd_unlink_rx (vdev ?s)). vl_unlink_seqnum l < 2 ^ 32"
    using f(3) by (simp_all add: unanswered_def)
  from vhci_unlinked_urb_stranded [OF s1 f(2,1) this(1) f(4,5) this(2) run]
  show ?thesis using s1 by blast
qed

end
