(* ===== verification/Vhci_Sysfs.thy ===== *)
theory Vhci_Sysfs
  imports Vhci_Hcd
begin

text \<open>
  The attributes of \<open>vhci_sysfs.c\<close> through which user space attaches remote devices to the ports of
  the controllers, detaches them, and reads the state of the ports.
\<close>

section \<open>Showing the ports\<close>

definition pad :: "nat \<Rightarrow> char \<Rightarrow> string \<Rightarrow> string" where
  "pad n c s = replicate (n - length s) c @ s"

definition hex_digit :: "nat \<Rightarrow> char" where
  "hex_digit n = (if n < 10 then char_of (48 + n) else char_of (87 + n))"

fun hex :: "nat \<Rightarrow> string" where
  "hex n = (if n < 16 then [hex_digit n] else hex (n div 16) @ [hex_digit (n mod 16)])"

declare hex.simps [simp del]

text \<open>\<open>ptr\<close> is what \<open>%p\<close> prints for the address of the socket.  The fault is a port in use without
  \<open>usb_device\<close>.\<close>

definition status_line ::
  "('c, 'k) vhci_kernel_scheme \<Rightarrow> (nat option \<Rightarrow> string) \<Rightarrow> nat \<Rightarrow> 'c vhci_world \<Rightarrow> string option" where
  "status_line K ptr d w =
     (let s = vconn_at d w;
          sta = pad 4 (CHR ''0'') (decimal d) @ '' '' @
            pad 3 (CHR ''0'') (decimal (status_number (status (ud s)))) @ '' '' in
      if status (ud s) = VDEV_ST_USED
      then map_option (\<lambda>dev. sta @ pad 3 (CHR ''0'') (decimal (unat (vd_speed (vdev s)))) @ '' '' @
             pad 8 (CHR ''0'') (hex (unat (vd_devid (vdev s)))) @ '' '' @
             pad 16 (CHR '' '') (ptr (tcp_socket (ud s))) @ '' '' @ dev_name K dev (vw_env w) @ [CHR 0x0A])
           (vd_udev (vdev s))
      else Some (sta @ ''000 00000000 0000000000000000 0-0'' @ [CHR 0x0A]))"

definition status_show_vhci ::
  "('c, 'k) vhci_kernel_scheme \<Rightarrow> (nat option \<Rightarrow> string) \<Rightarrow> nat \<Rightarrow> 'c vhci_world \<Rightarrow> string option" where
  "status_show_vhci K ptr p w =
     (if hcds w p = None then None
      else map_option concat (those (map (\<lambda>i. status_line K ptr (vport p i) w) [0..<VHCI_HC_PORTS])))"

definition status_show_idle :: "nat \<Rightarrow> string" where
  "status_show_idle p = concat (map (\<lambda>i. pad 4 (CHR ''0'') (decimal (vport p i)) @ '' '' @
     pad 3 (CHR ''0'') (decimal (status_number VDEV_ST_NULL)) @
     '' 000 00000000 0000000000000000 0-0'' @ [CHR 0x0A]) [0..<VHCI_HC_PORTS])"

definition status_name_to_id :: "string \<Rightarrow> int" where
  "status_name_to_id name = (case dropWhile (\<lambda>c. c \<noteq> CHR ''.'') name of
     [] \<Rightarrow> 0
   | c # cs \<Rightarrow> (case kstrtol cs of Inl e \<Rightarrow> e | Inr v \<Rightarrow> sint (word_of_int v :: u32)))"

definition status_header :: string where
  "status_header = ''port sta spd dev      socket           local_busid'' @ [CHR 0x0A]"

text \<open>What is read; \<open>None\<close> is a fault: a controller without driver data, or a name beyond the
  array of controllers.\<close>

definition status_show ::
  "('c, 'k) vhci_kernel_scheme \<Rightarrow> (nat option \<Rightarrow> string) \<Rightarrow> string \<Rightarrow> 'c vhci_world \<Rightarrow> string option" where
  "status_show K ptr name w =
     (let pdev_nr = status_name_to_id name in
      if pdev_nr < 0 then Some []
      else if nat pdev_nr \<ge> length (vhci_pdevs w) then None
      else map_option ((@) status_header)
        (if vhci_pdevs w ! nat pdev_nr then status_show_vhci K ptr (nat pdev_nr) w
         else Some (status_show_idle (nat pdev_nr))))"

definition nports_show :: "'c vhci_world \<Rightarrow> string" where
  "nports_show w = decimal (VHCI_HC_PORTS * nat (vhci_max_controllers w)) @ [CHR 0x0A]"

section \<open>Detaching\<close>

definition valid_port :: "u32 \<Rightarrow> u32 \<Rightarrow> 'c vhci_world \<Rightarrow> bool" where
  "valid_port pdev_nr rhport w =
     (pdev_nr < word_of_int (vhci_max_controllers w) \<and> rhport < word_of_nat VHCI_HC_PORTS)"

definition vhci_port_disconnect ::
  "('c, 'k) vhci_kernel_scheme \<Rightarrow> nat \<Rightarrow> 'c vhci_world \<Rightarrow> (int \<times> 'c vhci_world) option" where
  "vhci_port_disconnect K d w =
     (if status (ud (vconn_at d w)) = VDEV_ST_NULL then Some (- EINVAL, w)
      else map_option (Pair 0) (vhci_event_add K False d VDEV_EVENT_DOWN w))"

text \<open>\<open>None\<close> is, beside the faults of its parts, a controller that does not exist, whose null
  pointer is dereferenced.\<close>

definition store_detach ::
  "('c, 'k) vhci_kernel_scheme \<Rightarrow> string \<Rightarrow> 'c vhci_world \<Rightarrow> (int \<times> 'c vhci_world) option" where
  "store_detach K buf w = (case kstrtoint (cstr buf) of
     Inl _ \<Rightarrow> Some (- EINVAL, w)
   | Inr v \<Rightarrow>
       let port = word_of_int v :: u32; pdev_nr = word_of_int (port_to_pdev_nr port);
           rhport = port_to_rhport port in
       if \<not> valid_port pdev_nr rhport w then Some (- EINVAL, w)
       else if \<not> vhci_pdevs w ! unat pdev_nr then None
       else if hcds w (unat pdev_nr) = None then Some (- EAGAIN, w)
       else map_option (\<lambda>(ret, w'). (if ret < 0 then ret else int (length buf), w'))
         (vhci_port_disconnect K (vport (unat pdev_nr) (unat rhport)) w))"

section \<open>Attaching\<close>

definition valid_args :: "u32 \<Rightarrow> u32 \<Rightarrow> u32 \<Rightarrow> 'c vhci_world \<Rightarrow> bool" where
  "valid_args pdev_nr rhport speed w = (valid_port pdev_nr rhport w \<and>
     speed \<in> {USB_SPEED_LOW, USB_SPEED_FULL, USB_SPEED_HIGH, USB_SPEED_WIRELESS})"

text \<open>\<open>sscanf(buf, "%u %u %u %u", ...)\<close>: the four numbers, if all are there.\<close>

definition scan_attach :: "string \<Rightarrow> (u32 \<times> u32 \<times> u32 \<times> u32) option" where
  "scan_attach buf =
     do { (port, r1) \<leftarrow> scan_unsigned buf;
          (sockfd, r2) \<leftarrow> scan_unsigned r1;
          (dev, r3) \<leftarrow> scan_unsigned r2;
          (speed, r4) \<leftarrow> scan_unsigned r3;
          Some (port, sockfd, dev, speed) }"

text \<open>The attachment once the port was taken: the connection is linked and its threads started.\<close>

definition attach_port ::
  "('c, 'k) vhci_kernel_scheme \<Rightarrow> nat \<Rightarrow> int \<Rightarrow> u32 \<Rightarrow> u32 \<Rightarrow> 'c vhci_world \<Rightarrow> int \<times> 'c vhci_world" where
  "attach_port K d sockfd dev speed w =
     (let s = vconn_at d w in
      if status (ud s) \<noteq> VDEV_ST_NULL then (- EBUSY, vhci_put_device d w)
      else let (err, u1, c1) = trx_link (trx_ops K) (ud s) sockfd (env s); s1 = s\<lparr>ud := u1, env := c1\<rparr> in
        if err \<noteq> 0 then (- EINVAL, vhci_put_device d (put_vconn d s1 w))
        else let s2 = s1\<lparr>vdev := (vdev s1)\<lparr>vd_devid := dev, vd_speed := speed\<rparr>,
                   ud := (ud s1)\<lparr>status := VDEV_ST_NOTASSIGNED\<rparr>\<rparr>;
                 s3 = s2\<lparr>ud := (ud s2)\<lparr>tcp_rx := True, tcp_tx := True\<rparr>,
                   env := kthread_get_run K (kthread_get_run K (env s2))\<rparr>
             in (0, poll_rh K (pdev_of d) (upd_hcd (pdev_of d) (rh_port_connect (rhport_of d) speed)
                  (put_vconn d s3 w))))"

definition store_attach ::
  "('c, 'k) vhci_kernel_scheme \<Rightarrow> string \<Rightarrow> 'c vhci_world \<Rightarrow> (int \<times> 'c vhci_world) option" where
  "store_attach K buf w = (case scan_attach (cstr buf) of
     None \<Rightarrow> Some (- EINVAL, w)
   | Some (port, sockfd, dev, speed) \<Rightarrow>
       let pdev_nr = word_of_int (port_to_pdev_nr port); rhport = port_to_rhport port in
       if \<not> valid_args pdev_nr rhport speed w then Some (- EINVAL, w)
       else (case vhci_get_device K (unat pdev_nr) (unat rhport) w of
         None \<Rightarrow> None
       | Some (err, w1) \<Rightarrow>
           if err \<noteq> 0 then Some (- EAGAIN, w1)
           else let (r, w2) = attach_port K (vport (unat pdev_nr) (unat rhport)) (sint sockfd) dev speed w1
             in Some (if r = 0 then int (length buf) else r, w2)))"

section \<open>Counting the ports in use\<close>

lemma vport_split [simp]: "vport (unat (port div word_of_nat VHCI_HC_PORTS)) (unat (port_to_rhport port)) = unat port"
  "word_of_int (port_to_pdev_nr port) = port div word_of_nat VHCI_HC_PORTS"
  "unat (port_to_rhport port) = rhport_of (unat port)"
  "unat (port div word_of_nat VHCI_HC_PORTS) = pdev_of (unat port)"
  by (simp_all add: vport_def port_to_rhport_def port_to_pdev_nr_def VHCI_HC_PORTS_def unat_div unat_mod
      pdev_of_def rhport_of_def)

lemma hcd_at_put [simp]: "using_ports (hcd_at q (put_vconn d s w)) = using_ports (hcd_at q w)"
  by (cases "hcds w q") (auto simp: hcd_at_def put_vconn_def upd_hcd_def)

lemma hcd_at_world [simp]: "hcd_at q (w\<lparr>vhci_using_ports := n\<rparr>) = hcd_at q w" "hcd_at q (w\<lparr>vw_env := c\<rparr>) = hcd_at q w"
  by (simp_all add: hcd_at_def)

lemma hcd_at_upd:
  "known_port d w \<Longrightarrow> hcd_at (pdev_of d) (upd_hcd (pdev_of d) f w) = f (hcd_at (pdev_of d) w)"
  by (auto simp: hcd_at_def upd_hcd_def elim: known_portE)

lemma vdev_env [simp]: "vdev (vconn_at d (w\<lparr>vw_env := c\<rparr>)) = vdev (vconn_at d w)"
  by (simp add: vconn_at_def hcd_at_def Let_def split: prod.split)

text \<open>The three counters of a port: its own, that of its controller, that of the driver.\<close>

definition port_counts :: "nat \<Rightarrow> 'c vhci_world \<Rightarrow> u32 \<times> u32 \<times> u32" where
  "port_counts d w = (vd_using_port (vdev (vconn_at d w)), using_ports (hcd_at (pdev_of d) w), vhci_using_ports w)"

lemma put_device_counts:
  assumes "known_port d w" "port_counts d w = (a, b, c)"
  shows "port_counts d (vhci_put_device d w) = (if a = 1 then (0, b - 1, c - 1) else (a - 1, b, c))"
  using assms
  by (auto simp: port_counts_def vhci_put_device_def Let_def vconn_upd_hcd hcd_at_upd)

lemma cleanup_using:
  "vd_using_port (vdev (vhci_device_unlink_cleanup K s)) = vd_using_port (vdev s)"
proof -
  have "vd_using_port (vdev (unlink_cleanup_rx K s)) = vd_using_port (vdev s)" for s
  proof (induction K s rule: unlink_cleanup_rx.induct)
    case (1 K s)
    have p: "vd_using_port vd = vd_using_port (vdev s)" if "pickup_urb_and_free_priv n (vdev s) = Some (urb, vd)" for n urb vd
      using pickup_Some [OF that] by auto
    have g: "vdev (vhci_giveback K urb t) = vdev t" for urb t by (simp add: vhci_giveback_def)
    show ?case
      by (subst unlink_cleanup_rx.simps) (auto simp: g 1 p split: list.split option.split)
  qed
  then show ?thesis by (simp add: vhci_device_unlink_cleanup_def)
qed

lemma shutdown_counts:
  assumes "known_port d w"
  shows "port_counts d (vhci_shutdown_connection K d w) = port_counts d w"
  using assms
  by (simp add: port_counts_def vhci_shutdown_connection_def Let_def poll_rh_def hcd_at_upd vconn_upd_hcd
      rh_port_disconnect_def cleanup_using vhci_close_sel)

lemma put_dev_counts:
  "known_port d w \<Longrightarrow> port_counts d (put_vconn d ((vconn_at d w)\<lparr>ud := x\<rparr>) w) = port_counts d w"
  by (simp add: port_counts_def)

lemma reset_counts:
  assumes "known_port d w" "port_counts d w = (a, b, c)"
  shows "port_counts d (vhci_device_reset K d w) = (if a = 1 then (0, b - 1, c - 1) else (a - 1, b, c))"
proof -
  let ?w = "put_vconn d (vhci_reset_conn K (vconn_at d w)) w"
  have "port_counts d ?w = (a, b, c)"
    using assms by (simp add: port_counts_def vhci_reset_conn_def Let_def)
  from put_device_counts [OF _ this] assms(1) show ?thesis by (simp add: vhci_device_reset_def)
qed

text \<open>What the event worker does to the counters of a port that is shut down and reset.\<close>

lemma down_counts:
  assumes k: "known_port d w" and ev: "event (ud (vconn_at d w)) = VDEV_EVENT_DOWN"
    and c: "port_counts d w = (a, b, c)"
  shows "port_counts d (handle_device (vhci_eh_ops (kernel_trx K ks)) d w) =
      (if a = 1 then (0, b - 1, c - 1) else (a - 1, b, c)) \<and>
    status (ud (vconn_at d (handle_device (vhci_eh_ops (kernel_trx K ks)) d w))) = VDEV_ST_NULL"
proof -
  let ?ops = "vhci_eh_ops (kernel_trx K ks)"
  have o: "dev_of ?ops = (\<lambda>d w. ud (vconn_at d w))" "put_dev ?ops = (\<lambda>d x w. put_vconn d ((vconn_at d w)\<lparr>ud := x\<rparr>) w)"
    "eh_shutdown ?ops = vhci_shutdown_connection (kernel_trx K ks)"
    "eh_reset ?ops = vhci_device_reset (kernel_trx K ks)"
    by (simp_all add: vhci_eh_ops_def)
  define w1 where "w1 = run_eh_op ?ops USBIP_EH_SHUTDOWN (eh_shutdown ?ops) d w"
  define w2 where "w2 = run_eh_op ?ops USBIP_EH_RESET (eh_reset ?ops) d w1"
  let ?sd = "vhci_shutdown_connection (kernel_trx K ks) d w" and ?rs = "vhci_device_reset (kernel_trx K ks) d w1"
  have k1: "known_port d w1" using k by (simp add: w1_def vhci_eh.run_eh_op_known)
  have e1: "event (ud (vconn_at d w1)) = 4" "event (ud (vconn_at d w2)) = 0"
    using vhci_eh.run_eh_op_event [of _ K ks d w USBIP_EH_SHUTDOWN] vhci_eh.run_eh_op_event [of _ K ks d w1 USBIP_EH_RESET] k k1 ev
    by (simp_all add: w1_def w2_def o(1) event_defs)
  have ks: "known_port d ?sd" "known_port d ?rs"
    using k shutdown_frame(1) [OF kernel_trx_unlink k, of K ks] k1 reset_frame(1) [OF k1, of "kernel_trx K ks"]
    by (simp_all add: vframe_def)
  have w1: "w1 = put_vconn d ((vconn_at d ?sd)\<lparr>ud := unset_event 1 (ud (vconn_at d ?sd))\<rparr>) ?sd"
    using ev by (simp add: w1_def run_eh_op_def o Let_def event_defs)
  have w2: "w2 = put_vconn d ((vconn_at d ?rs)\<lparr>ud := unset_event 4 (ud (vconn_at d ?rs))\<rparr>) ?rs"
    using e1(1) by (simp add: w2_def run_eh_op_def o Let_def)
  have c1: "port_counts d w1 = (a, b, c)"
    unfolding w1 using put_dev_counts [OF ks(1)] shutdown_counts [OF k] c by simp
  have c2: "port_counts d w2 = (if a = 1 then (0, b - 1, c - 1) else (a - 1, b, c))"
    unfolding w2 put_dev_counts [OF ks(2)] by (rule reset_counts [OF k1 c1])
  have st: "status (ud (vconn_at d w2)) = VDEV_ST_NULL"
    unfolding w2 using reset_frame(2) [OF k1, of "kernel_trx K ks"] ks(2) by simp
  have "handle_device ?ops d w = w2"
    using e1(2) by (simp add: handle_device_def run_eh_op_def [of _ USBIP_EH_UNUSABLE] o(1) flip: w1_def w2_def)
  then show ?thesis using c2 st by simp
qed

section \<open>Properties of attaching and detaching\<close>

lemma vport_pdev [simp]: "vport (pdev_of d) (rhport_of d) = d"
  by (simp add: vport_def pdev_of_def rhport_of_def)

lemma get_device_counts:
  assumes "known_port d w" "port_counts d w = (a, b, c)"
  shows "\<exists>w'. get_device (pdev_of d) (rhport_of d) w = Some w' \<and> port_counts d w' = (1, b + 1, c + 1) \<and>
    known_port d w' \<and> vconn_at d w' = (vconn_at d w)\<lparr>vdev := (vdev (vconn_at d w))\<lparr>vd_using_port := 1\<rparr>\<rparr>"
proof -
  obtain h where "hcds w (pdev_of d) = Some h" using assms(1) by (auto elim: known_portE)
  then show ?thesis using assms
    by (auto simp: get_device_def Let_def port_counts_def vconn_upd_hcd hcd_at_upd)
qed

text \<open>The numbers user space writes to attach a device to port \<open>d\<close>.\<close>

definition attach_request :: "string \<Rightarrow> nat \<Rightarrow> int \<Rightarrow> u32 \<Rightarrow> u32 \<Rightarrow> 'c vhci_world \<Rightarrow> bool" where
  "attach_request buf d sockfd dev speed w = (\<exists>port fd. scan_attach (cstr buf) = Some (port, fd, dev, speed) \<and>
     unat port = d \<and> sint fd = sockfd \<and> pdevs_init_completed w \<and> vhci_pdevs w ! pdev_of d \<and>
     valid_args (port div word_of_nat VHCI_HC_PORTS) (port_to_rhport port) speed w)"

lemma store_attach_port:
  assumes "attach_request buf d sockfd dev speed w" "known_port d w" "port_counts d w = (a, b, c)"
  shows "\<exists>w1. port_counts d w1 = (1, b + 1, c + 1) \<and> known_port d w1 \<and>
    vconn_at d w1 = (vconn_at d w)\<lparr>vdev := (vdev (vconn_at d w))\<lparr>vd_using_port := 1\<rparr>\<rparr> \<and>
    store_attach K buf w = (let (r, w2) = attach_port K d sockfd dev speed w1 in
      Some (if r = 0 then int (length buf) else r, w2))"
proof -
  obtain port fd where p: "scan_attach (cstr buf) = Some (port, fd, dev, speed)" "unat port = d" "sint fd = sockfd"
    "pdevs_init_completed w" "vhci_pdevs w ! pdev_of d"
    "valid_args (port div word_of_nat VHCI_HC_PORTS) (port_to_rhport port) speed w"
    using assms(1) by (auto simp: attach_request_def)
  obtain w1 where w1: "get_device (pdev_of d) (rhport_of d) w = Some w1" "port_counts d w1 = (1, b + 1, c + 1)"
    "known_port d w1" "vconn_at d w1 = (vconn_at d w)\<lparr>vdev := (vdev (vconn_at d w))\<lparr>vd_using_port := 1\<rparr>\<rparr>"
    using get_device_counts [OF assms(2,3)] by blast
  have "vhci_get_device K (pdev_of d) (rhport_of d) w = Some (0, w1)"
    using p(4,5) w1(1) by (simp add: vhci_get_device_def)
  then have "store_attach K buf w = (let (r, w2) = attach_port K d sockfd dev speed w1 in
      Some (if r = 0 then int (length buf) else r, w2))"
    using p(1,6) p(2,3) by (simp add: store_attach_def Let_def split: prod.split)
  with w1 show ?thesis by blast
qed


definition demo_attach :: string where
  "demo_attach = ''1 5 65538 3'' @ [CHR 0x0A]"

lemma demo_attach_scan: "scan_attach (cstr demo_attach) = Some (1, 5, 65538, 3)"
  by (simp add: demo_attach_def scan_attach_def scan_unsigned_def cstr_def is_digit_def is_space_def digit_val_def)

lemma demo_attach_request: "attach_request demo_attach 1 5 65538 3 (demo_vworld ev)"
proof -
  have "valid_args (1 div word_of_nat VHCI_HC_PORTS) (port_to_rhport 1) 3 (demo_vworld ev)"
    by (simp add: valid_args_def valid_port_def VHCI_HC_PORTS_def port_to_rhport_def demo_vworld_def)
  then show ?thesis unfolding attach_request_def
    by (intro exI [of _ 1] exI [of _ 5]) (simp add: demo_attach_scan demo_vworld_def pdev_of_def VHCI_HC_PORTS_def)
qed

lemma demo_vworld_free:
  "known_port 1 (demo_vworld ev)" "status (ud (vconn_at 1 (demo_vworld ev))) = VDEV_ST_NULL"
  "port_counts 1 (demo_vworld ev) = (0, 1, 1)" "vw_env (demo_vworld ev) = []"
  by (simp_all add: demo_vworld_def known_port_def vconn_at_def hcd_at_def pdev_of_def rhport_of_def zero_hcd_def
      VHCI_HC_PORTS_def port_counts_def vhci_device_init_def usbip_start_eh_def upt_rec)


text \<open>C30: detaching gives the port back.  When the event worker has served a detach request, the port
  is free and no longer counted as used by its controller and by the driver.\<close>

theorem vhci_detach_releases:
  assumes "known_port d w" "event (ud (vconn_at d w)) = VDEV_EVENT_DOWN" "port_counts d w = (1, b, c)"
  shows "port_counts d (handle_device (vhci_eh_ops (kernel_trx K ks)) d w) = (0, b - 1, c - 1) \<and>
    status (ud (vconn_at d (handle_device (vhci_eh_ops (kernel_trx K ks)) d w))) = VDEV_ST_NULL"
  using down_counts [OF assms, of K ks] by simp

lemma demo_vworld_used:
  "port_counts 0 (demo_vworld ev) = (1, 1, 1)" "status (ud (vconn_at 0 (demo_vworld ev))) \<noteq> VDEV_ST_NULL"
  "event (ud (vconn_at 0 (demo_vworld ev))) = ev"
proof -
  have "vd_using_port (vdev (vconn_at 0 (demo_vworld ev))) = 1" "status (ud (vconn_at 0 (demo_vworld ev))) \<noteq> VDEV_ST_NULL"
    "event (ud (vconn_at 0 (demo_vworld ev))) = ev"
    by (simp_all add: demo_vworld_port(2) demo_vdev_def demo_ud_def)
  moreover have "using_ports (hcd_at (pdev_of 0) (demo_vworld ev)) = 1" "vhci_using_ports (demo_vworld ev) = 1"
    by (simp_all add: demo_vworld_def hcd_at_def pdev_of_def)
  ultimately show "port_counts 0 (demo_vworld ev) = (1, 1, 1)"
    "status (ud (vconn_at 0 (demo_vworld ev))) \<noteq> VDEV_ST_NULL" "event (ud (vconn_at 0 (demo_vworld ev))) = ev"
    by (simp_all add: port_counts_def)
qed

theorem vhci_detach_releases_witness:
  "port_counts 0 (handle_device (vhci_eh_ops (kernel_trx demo_vhci_kernel demo_sockets)) 0
     (demo_vworld VDEV_EVENT_DOWN)) = (0, 0, 0)"
  using vhci_detach_releases [OF demo_vworld_port(1) demo_vworld_used(3,1), of demo_vhci_kernel demo_sockets] by simp

text \<open>An attach request for a port in use is refused with \<open>-EBUSY\<close>, but the refusal takes the mark
  of use from the port: when the port is detached afterwards, the counters of its controller and
  of the driver are not decremented, and the port counts as used for ever.\<close>

theorem vhci_busy_attach_leaks:
  assumes req: "attach_request buf d sockfd dev speed w" and k: "known_port d w"
    and busy: "status (ud (vconn_at d w)) \<noteq> VDEV_ST_NULL" and cnt: "port_counts d w = (1, b, c)"
    and ev: "event (ud (vconn_at d w)) = VDEV_EVENT_DOWN"
  shows "\<exists>w1 x. store_attach K buf w = Some (- EBUSY, w1) \<and> port_counts d w1 = (0, b, c) \<and>
    port_counts d (handle_device (vhci_eh_ops (kernel_trx K' ks)) d w1) = (x, b, c) \<and>
    status (ud (vconn_at d (handle_device (vhci_eh_ops (kernel_trx K' ks)) d w1))) = VDEV_ST_NULL"
proof -
  obtain w0 where w0: "port_counts d w0 = (1, b + 1, c + 1)" "known_port d w0"
    "vconn_at d w0 = (vconn_at d w)\<lparr>vdev := (vdev (vconn_at d w))\<lparr>vd_using_port := 1\<rparr>\<rparr>"
    "store_attach K buf w = (let (r, w2) = attach_port K d sockfd dev speed w0 in
      Some (if r = 0 then int (length buf) else r, w2))"
    using store_attach_port [OF req k cnt] by blast
  let ?w1 = "vhci_put_device d w0"
  have a: "store_attach K buf w = Some (- EBUSY, ?w1)"
    using w0(3,4) busy by (simp add: attach_port_def Let_def)
  have c1: "port_counts d ?w1 = (0, b, c)" using put_device_counts [OF w0(2,1)] by simp
  have k1: "known_port d ?w1" using put_device_frame(1) [OF w0(2)] w0(2) by (simp add: vframe_def)
  have e1: "event (ud (vconn_at d ?w1)) = VDEV_EVENT_DOWN"
    using put_device_frame(2) [OF w0(2)] w0(3) ev by simp
  show ?thesis using down_counts [OF k1 e1 c1, of K' ks] a c1 by simp
qed

theorem vhci_busy_attach_leaks_witness:
  "\<exists>w1 x. store_attach demo_vhci_kernel (''0 5 65538 3'' @ [CHR 0x0A]) (demo_vworld VDEV_EVENT_DOWN) = Some (- EBUSY, w1) \<and>
    port_counts 0 (handle_device (vhci_eh_ops (kernel_trx demo_vhci_kernel demo_sockets)) 0 w1) = (x, 1, 1)"
proof -
  have s: "scan_attach (cstr (''0 5 65538 3'' @ [CHR 0x0A])) = Some (0, 5, 65538, 3)"
    by (simp add: scan_attach_def scan_unsigned_def cstr_def is_digit_def is_space_def digit_val_def)
  have "valid_args (0 div word_of_nat VHCI_HC_PORTS) (port_to_rhport 0) 3 (demo_vworld VDEV_EVENT_DOWN)"
    by (simp add: valid_args_def valid_port_def VHCI_HC_PORTS_def port_to_rhport_def demo_vworld_def)
  then have r: "attach_request (''0 5 65538 3'' @ [CHR 0x0A]) 0 5 65538 3 (demo_vworld VDEV_EVENT_DOWN)"
    unfolding attach_request_def using s
    by (intro exI [of _ 0] exI [of _ 5]) (simp add: demo_vworld_def pdev_of_def VHCI_HC_PORTS_def)
  from vhci_busy_attach_leaks [OF r demo_vworld_port(1) demo_vworld_used(2,1,3), of demo_vhci_kernel demo_vhci_kernel demo_sockets]
  show ?thesis by blast
qed

text \<open>Detaching a port of a controller that was not created yet dereferences the null pointer in
  its entry of the array of controllers.\<close>

theorem vhci_detach_absent_faults:
  assumes "kstrtoint (cstr buf) = Inr (int d)" "d < 2 ^ 31" "pdev_of d < nat (vhci_max_controllers w)"
    "vhci_max_controllers w < 2 ^ 31" "\<not> vhci_pdevs w ! pdev_of d"
  shows "store_detach K buf w = None"
proof -
  define port where "port = (word_of_int (int d) :: u32)"
  have d: "unat port = d" using assms(2) by (simp add: port_def unat_of_nat)
  have i: "uint (word_of_int (port_to_pdev_nr port) :: u32) = int (pdev_of d)" "unat (word_of_int (port_to_pdev_nr port) :: u32) = pdev_of d"
    using vport_split(2,4) [of port] d by (simp_all only: uint_nat)
  have m: "uint (word_of_int (vhci_max_controllers w) :: u32) = vhci_max_controllers w"
    using assms(3,4) by (simp add: uint_word_of_int)
  have "word_of_int (port_to_pdev_nr port) < (word_of_int (vhci_max_controllers w) :: u32)"
    unfolding word_less_def i m using assms(3) by linarith
  moreover have "port_to_rhport port < word_of_nat VHCI_HC_PORTS"
    by (simp add: port_to_rhport_def VHCI_HC_PORTS_def word_mod_less_divisor)
  ultimately have "valid_port (word_of_int (port_to_pdev_nr port)) (port_to_rhport port) w" unfolding valid_port_def by blast
  then show ?thesis unfolding store_detach_def assms(1) sum.case port_def [symmetric] Let_def i
    using assms(5) by (simp only: if_True if_False not_True_eq_False not_False_eq_True)
qed

theorem vhci_detach_absent_faults_witness:
  "store_detach demo_vhci_kernel ''9'' (demo_vworld 0) = None"
proof -
  have "kstrtoint (cstr ''9'') = Inr (int 9)"
    by (simp add: kstrtoint_def kstrto_def cstr_def is_digit_def digit_val_def)
  then show ?thesis
    by (rule vhci_detach_absent_faults) (simp_all add: demo_vworld_def pdev_of_def VHCI_HC_PORTS_def)
qed

end
