(* ===== verification/Vudc_Dev.thy ===== *)
theory Vudc_Dev
  imports Stub_Rx "HOL-Library.Signed_Division"
begin

text \<open>
  The emulated device controller of \<open>vudc.h\<close> and \<open>vudc_dev.c\<close>: the structures of the controller, the
  operations a gadget driver calls on the controller and on its endpoints, and the operations of
  the event handler.
\<close>

section \<open>The controller\<close>

text \<open>A request of the gadget driver at address \<open>vr_id\<close>, with the memory at \<open>req.buf\<close>; \<open>vr_udc\<close> tells
  whether its pointer \<open>udc\<close> is set.\<close>

record vrequest =
  vr_id :: nat
  vr_udc :: bool
  vr_length :: u32
  vr_actual :: u32
  vr_status :: int
  vr_zero :: bool
  vr_buf :: "u8 list"

record usb_endpoint_descriptor = usb_endpoint +
  ed_type :: u8
  ed_maxp :: u16

record vep =
  ve_name :: string
  ve_maxpacket :: u16
  ve_control :: bool
  ve_dir_in :: bool
  ve_dir_out :: bool
  ve_type :: u8
  ve_desc :: "usb_endpoint_descriptor option"
  ve_reqs :: "vrequest list"
  ve_halted :: bool
  ve_wedged :: bool
  ve_seen :: bool
  ve_setup :: bool

record gadget_driver =
  gd_max_speed :: u32
  gd_has_disconnect :: bool

text \<open>The part of \<open>struct vudc\<close> the gadget driver works on.  Endpoints are named by their index.\<close>

record vudc =
  uc_driver :: "gadget_driver option"
  uc_speed :: u32
  uc_b_hnp_enable :: bool
  uc_a_hnp_support :: bool
  uc_a_alt_hnp_support :: bool
  uc_dev_desc :: "u8 list"
  uc_start_time :: "int \<times> int"
  uc_ep :: "vep list"
  uc_address :: u32
  uc_devstatus :: u16
  uc_pullup :: bool
  uc_connected :: bool
  uc_desc_cached :: bool

text \<open>The URBs the host submitted; \<open>ur_id\<close> is the address of the structure.\<close>

record v_urb = urb +
  urb_unlinked :: int

record urbp =
  ur_id :: nat
  ur_urb :: "v_urb option"
  ur_ep :: "nat option"
  ur_seqnum :: ulong
  ur_type :: u8
  ur_new :: bool

record v_unlink =
  vn_seqnum :: ulong
  vn_status :: u32

datatype tx_item = TX_SUBMIT urbp | TX_UNLINK v_unlink

datatype tr_state = VUDC_TR_RUNNING | VUDC_TR_IDLE | VUDC_TR_STOPPED

text \<open>The queues of the connection and the transfer timer, with the time for which it is armed;
  \<open>ur_next\<close> is the address the next URB gets.\<close>

record transfers =
  urb_queue :: "urbp list"
  tx_queue :: "tx_item list"
  tr_state :: tr_state
  frame_start :: ulong
  frame_limit :: int
  tr_expires :: "ulong option"
  ur_next :: nat

record 'c vudc_conn = "'c conn" +
  udc :: vudc
  tr :: transfers

text \<open>The kernel and the gadget driver.  The functions of the gadget driver (\<open>setup\<close>, the completion of
  a request, \<open>disconnect\<close> and the reset) work on the controller through the operations below, which
  concern the part \<open>vudc\<close> only.  Completion gets the endpoint and the request that was taken off
  its queue.\<close>

record 'c vudc_kernel = "'c driver_platform" +
  gd_setup :: "u8 list \<Rightarrow> vudc \<Rightarrow> 'c \<Rightarrow> int \<times> vudc \<times> 'c"
  usb_gadget_giveback_request :: "nat \<Rightarrow> vrequest \<Rightarrow> vudc \<Rightarrow> 'c \<Rightarrow> vudc \<times> 'c"
  gd_disconnect :: "vudc \<Rightarrow> 'c \<Rightarrow> vudc \<times> 'c"
  usb_gadget_udc_reset :: "vudc \<Rightarrow> 'c \<Rightarrow> vudc \<times> 'c"
  v_alloc_urb :: "int \<Rightarrow> 'c \<Rightarrow> usb_iso_packet_descriptor list option \<times> 'c"
  jiffies :: "'c \<Rightarrow> ulong"
  msec_jiffies :: ulong
  gettimeofday :: "'c \<Rightarrow> int \<times> int"
  sockfd_get :: "int \<Rightarrow> 'c \<Rightarrow> nat option \<times> 'c"
  sock_shutdown :: "nat \<Rightarrow> 'c \<Rightarrow> 'c"
  usb_endpoint_maxp :: "usb_endpoint_descriptor \<Rightarrow> u16"
  usb_add_gadget_udc :: "nat \<Rightarrow> 'c \<Rightarrow> int \<times> 'c"
  usb_del_gadget_udc :: "nat \<Rightarrow> 'c \<Rightarrow> 'c"
  sysfs_create_group :: "nat \<Rightarrow> 'c \<Rightarrow> int \<times> 'c"
  sysfs_remove_group :: "nat \<Rightarrow> 'c \<Rightarrow> 'c"
  platform_device_alloc :: "nat \<Rightarrow> 'c \<Rightarrow> bool \<times> 'c"
  platform_device_add :: "nat \<Rightarrow> 'c \<Rightarrow> int \<times> 'c"
  platform_device_del :: "nat \<Rightarrow> 'c \<Rightarrow> 'c"
  platform_driver_register :: "'c \<Rightarrow> int \<times> 'c"
  platform_driver_unregister :: "'c \<Rightarrow> 'c"

definition VIRTUAL_ENDPOINTS :: nat where "VIRTUAL_ENDPOINTS = 1 + 15 + 15"

definition upd_ep :: "nat \<Rightarrow> (vep \<Rightarrow> vep) \<Rightarrow> vudc \<Rightarrow> vudc" where
  "upd_ep i f v = v\<lparr>uc_ep := (uc_ep v)[i := f (uc_ep v ! i)]\<rparr>"

definition alloc_urbp :: "('c, 'k) vudc_kernel_scheme \<Rightarrow> 'c vudc_conn \<Rightarrow> urbp option \<times> 'c vudc_conn" where
  "alloc_urbp K s =
     (let (ok, c) = kmalloc K 64 (env s); i = ur_next (tr s) in
      if \<not> ok then (None, s\<lparr>env := c\<rparr>)
      else (Some \<lparr>ur_id = i, ur_urb = None, ur_ep = None, ur_seqnum = 0, ur_type = 0, ur_new = False\<rparr>,
        s\<lparr>env := c, tr := (tr s)\<lparr>ur_next := Suc i\<rparr>\<rparr>))"

section \<open>Requests of the gadget driver\<close>

text \<open>The loop ends when the queue is empty, which it never is when the gadget driver queues the
  request it gets back again and again; \<open>None\<close> is a run without end.\<close>

partial_function (option) nuke ::
  "('c, 'k) vudc_kernel_scheme \<Rightarrow> nat \<Rightarrow> vudc \<Rightarrow> 'c \<Rightarrow> (vudc \<times> 'c) option" where
  "nuke K i v c = (case ve_reqs (uc_ep v ! i) of
     [] \<Rightarrow> Some (v, c)
   | r # rs \<Rightarrow>
       let (v', c') = usb_gadget_giveback_request K i (r\<lparr>vr_status := - ESHUTDOWN\<rparr>)
             (upd_ep i (\<lambda>e. e\<lparr>ve_reqs := rs\<rparr>) v) c
       in nuke K i v' c')"

fun nuke_from ::
  "('c, 'k) vudc_kernel_scheme \<Rightarrow> nat list \<Rightarrow> vudc \<Rightarrow> 'c \<Rightarrow> (vudc \<times> 'c) option" where
  "nuke_from K [] v c = Some (v, c)"
| "nuke_from K (i # is) v c = do { (v', c') \<leftarrow> nuke K i v c; nuke_from K is v' c' }"

definition stop_activity ::
  "('c, 'k) vudc_kernel_scheme \<Rightarrow> 'c vudc_conn \<Rightarrow> 'c vudc_conn option" where
  "stop_activity K s = do {
     (v, c) \<leftarrow> nuke_from K [0..<VIRTUAL_ENDPOINTS] ((udc s)\<lparr>uc_address := 0\<rparr>) (env s);
     Some (s\<lparr>udc := v, env := c, tr := (tr s)\<lparr>urb_queue := []\<rparr>\<rparr>) }"

definition vudc_find_endpoint :: "vudc \<Rightarrow> u8 \<Rightarrow> nat option" where
  "vudc_find_endpoint v address =
     (if address AND NOT 0x80 = 0 then Some 0
      else find (\<lambda>i. case ve_desc (uc_ep v ! i) of None \<Rightarrow> False
          | Some d \<Rightarrow> ep_address d = address) [1..<VIRTUAL_ENDPOINTS])"

section \<open>Operations of the controller\<close>

definition vgadget_get_frame :: "('c, 'k) vudc_kernel_scheme \<Rightarrow> vudc \<Rightarrow> 'c \<Rightarrow> int" where
  "vgadget_get_frame K v c =
     (let (sec, usec) = gettimeofday K c; (sec0, usec0) = uc_start_time v in
      ((sec - sec0) * 1000 + (usec - usec0) sdiv 1000) smod 0x7FF)"

definition vgadget_set_selfpowered :: "bool \<Rightarrow> vudc \<Rightarrow> vudc" where
  "vgadget_set_selfpowered value v =
     (if value then v\<lparr>uc_devstatus := uc_devstatus v OR 1\<rparr>
      else v\<lparr>uc_devstatus := uc_devstatus v AND NOT 1\<rparr>)"

definition vgadget_udc_start :: "gadget_driver \<Rightarrow> vudc \<Rightarrow> vudc" where
  "vgadget_udc_start driver v = v\<lparr>uc_driver := Some driver, uc_pullup := False, uc_connected := False,
     uc_desc_cached := False\<rparr>"

definition vgadget_udc_stop :: "vudc \<Rightarrow> vudc" where
  "vgadget_udc_stop v = v\<lparr>uc_driver := None\<rparr>"

section \<open>Operations of an endpoint\<close>

abbreviation (input) USB_DT_ENDPOINT :: u8 where "USB_DT_ENDPOINT \<equiv> 5"

definition vep_enable ::
  "('c, 'k) vudc_kernel_scheme \<Rightarrow> nat \<Rightarrow> usb_endpoint_descriptor option \<Rightarrow> vudc \<Rightarrow> int \<times> vudc" where
  "vep_enable K i desc v = (case desc of
     None \<Rightarrow> (- EINVAL, v)
   | Some d \<Rightarrow>
       if ve_desc (uc_ep v ! i) \<noteq> None \<or> ve_control (uc_ep v ! i) \<or> ed_type d \<noteq> USB_DT_ENDPOINT
       then (- EINVAL, v)
       else if uc_driver v = None then (- ESHUTDOWN, v)
       else (0, upd_ep i (\<lambda>e. e\<lparr>ve_maxpacket := usb_endpoint_maxp K d, ve_desc := Some d,
           ve_type := ep_attributes d AND 3, ve_halted := False, ve_wedged := False\<rparr>) v))"

definition vep_disable ::
  "('c, 'k) vudc_kernel_scheme \<Rightarrow> nat \<Rightarrow> vudc \<Rightarrow> 'c \<Rightarrow> (int \<times> vudc \<times> 'c) option" where
  "vep_disable K i v c =
     (if ve_desc (uc_ep v ! i) = None \<or> ve_control (uc_ep v ! i) then Some (- EINVAL, v, c)
      else map_option (Pair 0) (nuke K i (upd_ep i (\<lambda>e. e\<lparr>ve_desc := None\<rparr>) v) c))"

text \<open>A new request is zero but for its address.\<close>

definition vep_alloc_request ::
  "('c, 'k) vudc_kernel_scheme \<Rightarrow> nat \<Rightarrow> 'c \<Rightarrow> vrequest option \<times> 'c" where
  "vep_alloc_request K a c =
     (let (ok, c') = kmalloc K 128 c in
      (if ok then Some \<lparr>vr_id = a, vr_udc = False, vr_length = 0, vr_actual = 0, vr_status = 0,
         vr_zero = False, vr_buf = []\<rparr> else None, c'))"

definition vep_queue :: "nat \<Rightarrow> vrequest \<Rightarrow> vudc \<Rightarrow> int \<times> vudc" where
  "vep_queue i r v = (0, upd_ep i (\<lambda>e. e\<lparr>ve_reqs := ve_reqs e @
     [r\<lparr>vr_actual := 0, vr_status := - EINPROGRESS\<rparr>]\<rparr>) v)"

text \<open>The request \<open>r\<close> names its controller itself, and a null pointer is the fault.\<close>

definition vep_dequeue ::
  "('c, 'k) vudc_kernel_scheme \<Rightarrow> nat \<Rightarrow> vrequest \<Rightarrow> vudc \<Rightarrow> 'c \<Rightarrow> (int \<times> vudc \<times> 'c) option" where
  "vep_dequeue K i r v c =
     (if \<not> vr_udc r then None
      else if uc_driver v = None then Some (- ESHUTDOWN, v, c)
      else case find (\<lambda>q. vr_id q = vr_id r) (ve_reqs (uc_ep v ! i)) of
        None \<Rightarrow> Some (- EINVAL, v, c)
      | Some q \<Rightarrow> Some (0, usb_gadget_giveback_request K i (q\<lparr>vr_status := - ECONNRESET\<rparr>)
          (upd_ep i (\<lambda>e. e\<lparr>ve_reqs := filter (\<lambda>q. vr_id q \<noteq> vr_id r) (ve_reqs e)\<rparr>) v) c))"

definition vep_set_halt_and_wedge :: "nat \<Rightarrow> bool \<Rightarrow> bool \<Rightarrow> vudc \<Rightarrow> int \<times> vudc" where
  "vep_set_halt_and_wedge i value wedged v =
     (if uc_driver v = None then (- ESHUTDOWN, v)
      else if \<not> value then (0, upd_ep i (\<lambda>e. e\<lparr>ve_halted := False, ve_wedged := False\<rparr>) v)
      else if (case ve_desc (uc_ep v ! i) of None \<Rightarrow> False | Some d \<Rightarrow> ep_address d AND 0x80 \<noteq> 0) \<and>
              ve_reqs (uc_ep v ! i) \<noteq> [] then (- EAGAIN, v)
      else (0, upd_ep i (\<lambda>e. e\<lparr>ve_halted := True, ve_wedged := wedged \<or> ve_wedged e\<rparr>) v))"

definition vep_set_halt :: "nat \<Rightarrow> bool \<Rightarrow> vudc \<Rightarrow> int \<times> vudc" where
  "vep_set_halt i value v = vep_set_halt_and_wedge i value False v"

definition vep_set_wedge :: "nat \<Rightarrow> vudc \<Rightarrow> int \<times> vudc" where
  "vep_set_wedge i v = vep_set_halt_and_wedge i True True v"

section \<open>The operations of the event handler\<close>

definition vudc_close ::
  "('c, 'k) vudc_kernel_scheme \<Rightarrow> 'c vudc_conn \<Rightarrow> 'c vudc_conn" where
  "vudc_close K s =
     (let (_, d1, c1) = trx_unlink (trx_ops K) (ud s) (env s);
          c2 = (case tcp_socket d1 of None \<Rightarrow> c1 | Some sk \<Rightarrow> sock_shutdown K sk c1);
          c3 = stop_thread (tcp_rx d1) K c2; d2 = d1\<lparr>tcp_rx := False\<rparr>;
          c4 = stop_thread (tcp_tx d2) K c3; d3 = d2\<lparr>tcp_tx := False\<rparr>;
          c5 = (case tcp_socket d3 of None \<Rightarrow> c4 | Some sk \<Rightarrow> sockfd_put K sk c4) in
      s\<lparr>ud := d3\<lparr>tcp_socket := None\<rparr>, env := c5\<rparr>)"

text \<open>A connected controller without driver faults, as the driver's \<open>disconnect\<close> is looked up
  first.\<close>

definition vudc_shutdown ::
  "('c, 'k) vudc_kernel_scheme \<Rightarrow> 'c vudc_conn \<Rightarrow> 'c vudc_conn option" where
  "vudc_shutdown K s = do {
     s1 \<leftarrow> stop_activity K (vudc_close K s);
     let v = (udc s1)\<lparr>uc_connected := False\<rparr> in
     if \<not> uc_connected (udc s1) then Some (s1\<lparr>udc := v\<rparr>)
     else (case uc_driver (udc s1) of
       None \<Rightarrow> None
     | Some d \<Rightarrow> if gd_has_disconnect d
         then let (v', c) = gd_disconnect K v (env s1) in Some (s1\<lparr>udc := v', env := c\<rparr>)
         else Some (s1\<lparr>udc := v\<rparr>)) }"

definition vudc_device_reset ::
  "('c, 'k) vudc_kernel_scheme \<Rightarrow> 'c vudc_conn \<Rightarrow> 'c vudc_conn option" where
  "vudc_device_reset K s = do {
     s1 \<leftarrow> stop_activity K s;
     let (v, c) = (if uc_driver (udc s1) = None then (udc s1, env s1)
         else usb_gadget_udc_reset K (udc s1) (env s1)) in
     Some (s1\<lparr>udc := v, env := c, ud := (ud s1)\<lparr>status := SDEV_ST_AVAILABLE\<rparr>\<rparr>) }"

definition vudc_device_unusable :: "'c vudc_conn \<Rightarrow> 'c vudc_conn" where
  "vudc_device_unusable s = s\<lparr>ud := (ud s)\<lparr>status := SDEV_ST_ERROR\<rparr>\<rparr>"

text \<open>All controllers by their addresses, and for the devices of the platform the driver data and the
  number of references to the device.  \<open>uw_crashed\<close> is set when a handler of the event worker faults or
  does not return.\<close>

record 'c vudc_world =
  vudcs :: "nat \<Rightarrow> (usbip_device \<times> vudc \<times> transfers) option"
  uw_drvdata :: "nat \<Rightarrow> nat option"
  uw_refs :: "nat \<Rightarrow> nat"
  vudc_devices :: "nat list"
  uw_events :: "nat list"
  uw_env :: 'c
  uw_next :: nat
  uw_crashed :: bool

definition vudc_at :: "nat \<Rightarrow> 'c vudc_world \<Rightarrow> 'c vudc_conn" where
  "vudc_at d w = (case the (vudcs w d) of (x, v, t) \<Rightarrow>
     \<lparr>ud = x, event_list = uw_events w, env = uw_env w, udc = v, tr = t\<rparr>)"

definition put_vudc :: "nat \<Rightarrow> 'c vudc_conn \<Rightarrow> 'c vudc_world \<Rightarrow> 'c vudc_world" where
  "put_vudc d s w = w\<lparr>vudcs := (vudcs w)(d \<mapsto> (ud s, udc s, tr s)), uw_events := event_list s,
     uw_env := env s\<rparr>"

definition vudc_or_crash :: "nat \<Rightarrow> 'c vudc_conn option \<Rightarrow> 'c vudc_world \<Rightarrow> 'c vudc_world" where
  "vudc_or_crash d r w = (case r of None \<Rightarrow> w\<lparr>uw_crashed := True\<rparr> | Some s \<Rightarrow> put_vudc d s w)"

definition vudc_eh_ops :: "('c, 'k) vudc_kernel_scheme \<Rightarrow> 'c vudc_world eh_ops" where
  "vudc_eh_ops K = \<lparr>
     dev_of = (\<lambda>d w. ud (vudc_at d w)),
     put_dev = (\<lambda>d x w. put_vudc d ((vudc_at d w)\<lparr>ud := x\<rparr>) w),
     events_of = uw_events,
     put_events = (\<lambda>ds w. w\<lparr>uw_events := ds\<rparr>),
     eh_shutdown = (\<lambda>d w. vudc_or_crash d (vudc_shutdown K (vudc_at d w)) w),
     eh_reset = (\<lambda>d w. vudc_or_crash d (vudc_device_reset K (vudc_at d w)) w),
     eh_unusable = (\<lambda>d w. put_vudc d (vudc_device_unusable (vudc_at d w)) w)\<rparr>"

section \<open>Well-formed controllers\<close>

text \<open>A queued request of the gadget driver is in progress and comes with as much memory as it is long.\<close>

definition request_ok :: "vrequest \<Rightarrow> bool" where
  "request_ok r = (vr_status r = - EINPROGRESS \<and> vr_actual r \<le> vr_length r \<and>
     unat (vr_length r) \<le> length (vr_buf r))"

definition ep_ok :: "nat \<Rightarrow> vep \<Rightarrow> bool" where
  "ep_ok i e = (ve_maxpacket e \<noteq> 0 \<and> ve_control e = (i = 0) \<and> (i = 0 \<longrightarrow> ve_desc e = None) \<and>
     (\<forall>r\<in>set (ve_reqs e). request_ok r))"

definition vudc_ok :: "vudc \<Rightarrow> bool" where
  "vudc_ok v = (length (uc_ep v) = VIRTUAL_ENDPOINTS \<and> (\<forall>i<VIRTUAL_ENDPOINTS. ep_ok i (uc_ep v ! i)))"

text \<open>What the controller relies on: the functions of the gadget driver work through the operations of
  the controller, and a request that is handed back because of a shutdown is not queued again.\<close>

definition gadget_ok :: "('c, 'k) vudc_kernel_scheme \<Rightarrow> bool" where
  "gadget_ok K = (\<forall>v c. vudc_ok v \<longrightarrow>
     (\<forall>req. vudc_ok (fst (snd (gd_setup K req v c))) \<and>
       uc_driver (fst (snd (gd_setup K req v c))) = uc_driver v) \<and>
     vudc_ok (fst (gd_disconnect K v c)) \<and> vudc_ok (fst (usb_gadget_udc_reset K v c)) \<and>
     (\<forall>i r. vudc_ok (fst (usb_gadget_giveback_request K i r v c)) \<and>
       uc_driver (fst (usb_gadget_giveback_request K i r v c)) = uc_driver v \<and>
       (vr_status r = - ESHUTDOWN \<longrightarrow>
          length (ve_reqs (uc_ep (fst (usb_gadget_giveback_request K i r v c)) ! i)) \<le> length (ve_reqs (uc_ep v ! i)))))"

lemma gadget_okD:
  assumes "gadget_ok K" "vudc_ok v"
  shows "vudc_ok (fst (snd (gd_setup K req v c)))" "vudc_ok (fst (gd_disconnect K v c))"
    "vudc_ok (fst (usb_gadget_udc_reset K v c))" "vudc_ok (fst (usb_gadget_giveback_request K i r v c))"
    "vr_status r = - ESHUTDOWN \<Longrightarrow>
      length (ve_reqs (uc_ep (fst (usb_gadget_giveback_request K i r v c)) ! i)) \<le> length (ve_reqs (uc_ep v ! i))"
    "uc_driver (fst (usb_gadget_giveback_request K i r v c)) = uc_driver v"
    "uc_driver (fst (snd (gd_setup K req v c))) = uc_driver v"
  using assms by (simp_all add: gadget_ok_def)

lemma vudc_ok_ep: "vudc_ok v \<Longrightarrow> i < VIRTUAL_ENDPOINTS \<Longrightarrow> ep_ok i (uc_ep v ! i)"
  by (simp add: vudc_ok_def)

lemma vudc_ok_upd_ep:
  "vudc_ok v \<Longrightarrow> (i < VIRTUAL_ENDPOINTS \<Longrightarrow> ep_ok i (f (uc_ep v ! i))) \<Longrightarrow> vudc_ok (upd_ep i f v)"
  unfolding vudc_ok_def upd_ep_def by (cases "i < VIRTUAL_ENDPOINTS") (auto simp: nth_list_update)

lemma uc_ep_upd_ep:
  "vudc_ok v \<Longrightarrow> i < VIRTUAL_ENDPOINTS \<Longrightarrow> uc_ep (upd_ep i f v) ! i = f (uc_ep v ! i)"
  by (simp add: vudc_ok_def upd_ep_def)

lemma vudc_ok_fields [simp]:
  "vudc_ok (v\<lparr>uc_address := a\<rparr>) = vudc_ok v" "vudc_ok (v\<lparr>uc_connected := b\<rparr>) = vudc_ok v"
  "vudc_ok (v\<lparr>uc_driver := d\<rparr>) = vudc_ok v" "vudc_ok (v\<lparr>uc_pullup := b\<rparr>) = vudc_ok v"
  "vudc_ok (v\<lparr>uc_desc_cached := b\<rparr>) = vudc_ok v" "vudc_ok (v\<lparr>uc_devstatus := s\<rparr>) = vudc_ok v"
  "vudc_ok (v\<lparr>uc_b_hnp_enable := b\<rparr>) = vudc_ok v" "vudc_ok (v\<lparr>uc_a_hnp_support := b\<rparr>) = vudc_ok v"
  "vudc_ok (v\<lparr>uc_a_alt_hnp_support := b\<rparr>) = vudc_ok v" "vudc_ok (v\<lparr>uc_speed := sp\<rparr>) = vudc_ok v"
  "vudc_ok (v\<lparr>uc_dev_desc := dd\<rparr>) = vudc_ok v" "vudc_ok (v\<lparr>uc_start_time := tm\<rparr>) = vudc_ok v"
  by (simp_all add: vudc_ok_def)

text \<open>The queue of an endpoint is emptied.\<close>

lemma nuke_ends:
  assumes "gadget_ok K" "vudc_ok v" "i < VIRTUAL_ENDPOINTS"
  shows "\<exists>v' c'. nuke K i v c = Some (v', c') \<and> vudc_ok v' \<and> ve_reqs (uc_ep v' ! i) = [] \<and>
    uc_driver v' = uc_driver v"
  using assms(2)
proof (induction "length (ve_reqs (uc_ep v ! i))" arbitrary: v c rule: less_induct)
  case less
  show ?case
  proof (cases "ve_reqs (uc_ep v ! i)")
    case Nil
    then show ?thesis using less.prems by (subst nuke.simps) simp
  next
    case (Cons r rs)
    let ?v1 = "upd_ep i (\<lambda>e. e\<lparr>ve_reqs := rs\<rparr>) v" and ?r = "r\<lparr>vr_status := - ESHUTDOWN\<rparr>"
    obtain v2 c2 where g: "usb_gadget_giveback_request K i ?r ?v1 c = (v2, c2)" by fastforce
    have ok1: "vudc_ok ?v1"
      using vudc_ok_ep [OF less.prems assms(3)] Cons less.prems by (intro vudc_ok_upd_ep) (auto simp: ep_ok_def)
    have l: "uc_ep ?v1 ! i = (uc_ep v ! i)\<lparr>ve_reqs := rs\<rparr>" by (rule uc_ep_upd_ep [OF less.prems assms(3)])
    have "vudc_ok v2" "uc_driver v2 = uc_driver v"
      using gadget_okD(4,6) [OF assms(1) ok1, of i ?r c] g by (simp_all add: upd_ep_def)
    moreover have "length (ve_reqs (uc_ep v2 ! i)) < length (ve_reqs (uc_ep v ! i))"
      using gadget_okD(5) [OF assms(1) ok1, of ?r i c] g l Cons by simp
    ultimately show ?thesis using less.hyps [of v2 c2] Cons g by (subst nuke.simps) simp
  qed
qed

lemma nuke_from_ends:
  assumes "gadget_ok K" "vudc_ok v" "set is \<subseteq> {..<VIRTUAL_ENDPOINTS}"
  shows "\<exists>v' c'. nuke_from K is v c = Some (v', c') \<and> vudc_ok v' \<and> uc_driver v' = uc_driver v"
  using assms(2,3)
proof (induction "is" arbitrary: v c)
  case (Cons i "is")
  then obtain v1 c1 where "nuke K i v c = Some (v1, c1)" "vudc_ok v1" "uc_driver v1 = uc_driver v"
    using nuke_ends [OF assms(1), of v i c] by auto
  with Cons.IH [of v1 c1] Cons.prems(2) show ?case by simp
qed simp

lemma stop_activity_ends:
  assumes "gadget_ok K" "vudc_ok (udc s)"
  shows "\<exists>v c. stop_activity K s = Some (s\<lparr>udc := v, env := c, tr := (tr s)\<lparr>urb_queue := []\<rparr>\<rparr>) \<and> vudc_ok v \<and>
    uc_driver v = uc_driver (udc s)"
proof -
  have "vudc_ok ((udc s)\<lparr>uc_address := 0\<rparr>)" using assms(2) by simp
  then obtain v c where "nuke_from K [0..<VIRTUAL_ENDPOINTS] ((udc s)\<lparr>uc_address := 0\<rparr>) (env s) = Some (v, c)" "vudc_ok v"
    "uc_driver v = uc_driver (udc s)"
    using nuke_from_ends [OF assms(1), of "(udc s)\<lparr>uc_address := 0\<rparr>" "[0..<VIRTUAL_ENDPOINTS]" "env s"] by (auto simp: atLeast0LessThan)
  then show ?thesis by (auto simp: stop_activity_def)
qed

section \<open>The life of a connection\<close>

definition known_vudc :: "('c, 'k) vudc_kernel_scheme \<Rightarrow> nat \<Rightarrow> 'c vudc_world \<Rightarrow> bool" where
  "known_vudc K d w = (gadget_ok K \<and> (case vudcs w d of None \<Rightarrow> False | Some (x, v, t) \<Rightarrow> vudc_ok v))"

lemma known_vudcE:
  assumes "known_vudc K d w" obtains x v t where "vudcs w d = Some (x, v, t)" "vudc_ok v" "gadget_ok K"
  using assms by (auto simp: known_vudc_def split: option.splits)

lemma known_vudc_ok: "known_vudc K d w \<Longrightarrow> gadget_ok K \<and> vudc_ok (udc (vudc_at d w))"
  by (auto simp: vudc_at_def elim: known_vudcE)

lemma vudc_at_put [simp]: "vudc_at d (put_vudc d s w) = \<lparr>ud = ud s, event_list = event_list s, env = env s, udc = udc s, tr = tr s\<rparr>"
  by (simp add: vudc_at_def put_vudc_def)

lemma ud_put_other: "d' \<noteq> d \<Longrightarrow> ud (vudc_at d' (put_vudc d s w)) = ud (vudc_at d' w)"
  by (simp add: vudc_at_def put_vudc_def split: prod.split)

lemma vudc_at_crashed [simp]: "vudc_at d (w\<lparr>uw_crashed := b\<rparr>) = vudc_at d w"
  by (simp add: vudc_at_def)

lemma known_put:
  "gadget_ok K \<Longrightarrow> vudc_ok (udc s) \<Longrightarrow> known_vudc K d w \<Longrightarrow> known_vudc K d' (put_vudc d s w) = known_vudc K d' w"
  by (auto simp: known_vudc_def put_vudc_def)

text \<open>What the shutdown does: the controller keeps its event word, is closed, and its queue of answers
  stays as it was.\<close>

definition vudc_frame :: "('c, 'k) vudc_kernel_scheme \<Rightarrow> 'c vudc_conn \<Rightarrow> 'c vudc_conn \<Rightarrow> bool" where
  "vudc_frame K s s' = (event (ud s') = event (ud s) \<and> ud_id (ud s') = ud_id (ud s) \<and> event_list s' = event_list s \<and> vudc_ok (udc s') \<and>
     tr s' = (tr s)\<lparr>urb_queue := []\<rparr>)"

lemma vudc_close_frame:
  "closed (ud (vudc_close (kernel_trx K ks) s))" "event (ud (vudc_close (kernel_trx K ks) s)) = event (ud s)"
  "event_list (vudc_close (kernel_trx K ks) s) = event_list s" "udc (vudc_close (kernel_trx K ks) s) = udc s"
  "tr (vudc_close (kernel_trx K ks) s) = tr s" "status (ud (vudc_close (kernel_trx K ks) s)) = status (ud s)"
  "ud_id (ud (vudc_close (kernel_trx K ks) s)) = ud_id (ud s)"
proof -
  obtain r c where "usbip_kernel_unlink ks (ud s) (env s) = (r, ud s, c)"
    using kernel_unlink_dev [of ks "ud s" "env s"] by (cases "usbip_kernel_unlink ks (ud s) (env s)") auto
  then show "closed (ud (vudc_close (kernel_trx K ks) s))" "event (ud (vudc_close (kernel_trx K ks) s)) = event (ud s)"
    "event_list (vudc_close (kernel_trx K ks) s) = event_list s" "udc (vudc_close (kernel_trx K ks) s) = udc s"
    "tr (vudc_close (kernel_trx K ks) s) = tr s" "status (ud (vudc_close (kernel_trx K ks) s)) = status (ud s)"
    "ud_id (ud (vudc_close (kernel_trx K ks) s)) = ud_id (ud s)"
    by (simp_all add: vudc_close_def closed_def Let_def)
qed

lemma vudc_shutdown_Some:
  assumes "gadget_ok (kernel_trx K ks)" "vudc_ok (udc s)" "vudc_shutdown (kernel_trx K ks) s = Some s'"
  shows "vudc_frame (kernel_trx K ks) s s'" "closed (ud s')" "status (ud s') = status (ud s)"
proof -
  let ?K = "kernel_trx K ks" and ?s = "vudc_close (kernel_trx K ks) s"
  obtain v c where v: "stop_activity ?K ?s = Some (?s\<lparr>udc := v, env := c, tr := (tr ?s)\<lparr>urb_queue := []\<rparr>\<rparr>)" "vudc_ok v"
    using stop_activity_ends [OF assms(1), of ?s] assms(2) vudc_close_frame(4) [of K ks s] by auto
  have "vudc_ok (fst (gd_disconnect ?K (v\<lparr>uc_connected := False\<rparr>) c))" for c
    using gadget_okD(2) [OF assms(1)] v(2) by simp
  from this [of c] have s': "ud s' = ud ?s" "event_list s' = event_list ?s" "vudc_ok (udc s')"
    "tr s' = (tr ?s)\<lparr>urb_queue := []\<rparr>"
    using assms(3) v
    by (cases "gd_disconnect ?K (v\<lparr>uc_connected := False\<rparr>) c";
        auto simp: vudc_shutdown_def Let_def split: option.splits if_splits)+
  then show "vudc_frame ?K s s'" "closed (ud s')" "status (ud s') = status (ud s)"
    using vudc_close_frame [of K ks s] by (simp_all add: vudc_frame_def)
qed

lemma vudc_shutdown_ends:
  assumes "gadget_ok (kernel_trx K ks)" "vudc_ok (udc s)" "uc_driver (udc s) \<noteq> None"
  shows "\<exists>s'. vudc_shutdown (kernel_trx K ks) s = Some s'"
proof -
  let ?K = "kernel_trx K ks" and ?s = "vudc_close (kernel_trx K ks) s"
  obtain v c where v: "stop_activity ?K ?s = Some (?s\<lparr>udc := v, env := c, tr := (tr ?s)\<lparr>urb_queue := []\<rparr>\<rparr>)"
    "uc_driver v = uc_driver (udc s)"
    using stop_activity_ends [OF assms(1), of ?s] assms(2) vudc_close_frame(4) [of K ks s] by auto
  then show ?thesis using assms(3) by (auto simp: vudc_shutdown_def Let_def split: prod.split option.split)
qed

lemma vudc_reset_Some:
  assumes "gadget_ok K" "vudc_ok (udc s)"
  shows "\<exists>s'. vudc_device_reset K s = Some s' \<and> vudc_frame K s s' \<and> closed (ud s') = closed (ud s) \<and>
    status (ud s') = SDEV_ST_AVAILABLE"
proof -
  obtain v c where v: "stop_activity K s = Some (s\<lparr>udc := v, env := c, tr := (tr s)\<lparr>urb_queue := []\<rparr>\<rparr>)" "vudc_ok v"
    using stop_activity_ends [OF assms] by blast
  have "vudc_ok (fst (usb_gadget_udc_reset K v c))" by (rule gadget_okD(3) [OF assms(1) v(2)])
  then show ?thesis using v
    by (auto simp: vudc_device_reset_def Let_def vudc_frame_def closed_def split: prod.split)
qed

lemma uw_events_put [simp]: "uw_events (put_vudc d s w) = event_list s" by (simp add: put_vudc_def)

lemma event_list_vudc_at [simp]: "event_list (vudc_at d w) = uw_events w"
  by (simp add: vudc_at_def split: prod.split)

text \<open>The three operations, as the event handler sees them.\<close>

lemma vudc_op_frame:
  assumes "f \<in> {eh_shutdown (vudc_eh_ops (kernel_trx K ks)), eh_reset (vudc_eh_ops (kernel_trx K ks)),
    eh_unusable (vudc_eh_ops (kernel_trx K ks))}" and k: "known_vudc (kernel_trx K ks) d w"
  shows "(\<exists>s. f d w = put_vudc d s w \<and> event (ud s) = event (ud (vudc_at d w)) \<and> event_list s = uw_events w \<and>
    vudc_ok (udc s) \<and> tx_queue (tr s) = tx_queue (tr (vudc_at d w)) \<and> ud_id (ud s) = ud_id (ud (vudc_at d w)) \<and>
    set (urb_queue (tr s)) \<subseteq> set (urb_queue (tr (vudc_at d w)))) \<or> f d w = w\<lparr>uw_crashed := True\<rparr>"
proof -
  let ?K = "kernel_trx K ks" and ?s = "vudc_at d w"
  have g: "gadget_ok ?K" "vudc_ok (udc ?s)" using known_vudc_ok [OF k] by auto
  have "f d w = vudc_or_crash d (vudc_shutdown ?K ?s) w \<or> f d w = vudc_or_crash d (vudc_device_reset ?K ?s) w \<or>
    f d w = put_vudc d (vudc_device_unusable ?s) w"
    using assms(1) by (auto simp: vudc_eh_ops_def)
  moreover have ?thesis if "f d w = vudc_or_crash d (vudc_shutdown ?K ?s) w"
    using that vudc_shutdown_Some(1) [OF g]
    by (cases "vudc_shutdown ?K ?s") (auto simp: vudc_or_crash_def vudc_frame_def)
  moreover have ?thesis if "f d w = vudc_or_crash d (vudc_device_reset ?K ?s) w"
    using that vudc_reset_Some [OF g] by (auto simp: vudc_or_crash_def vudc_frame_def)
  moreover have ?thesis if "f d w = put_vudc d (vudc_device_unusable ?s) w"
    unfolding that by (intro disjI1 exI [of _ "vudc_device_unusable ?s"]) (simp add: vudc_device_unusable_def g)
  ultimately show ?thesis by blast
qed

lemma known_crashed [simp]: "known_vudc K d (w\<lparr>uw_crashed := b\<rparr>) = known_vudc K d w"
  by (simp add: known_vudc_def)

lemma put_events_vudc [simp]:
  "ud (vudc_at d (w\<lparr>uw_events := ds\<rparr>)) = ud (vudc_at d w)"
  "known_vudc K d (w\<lparr>uw_events := ds\<rparr>) = known_vudc K d w"
  by (simp_all add: vudc_at_def known_vudc_def split: prod.split)

interpretation vudc_eh: eh_lifecycle "vudc_eh_ops (kernel_trx K ks)" "known_vudc (kernel_trx K ks)"
  "\<lambda>d w. uc_driver (udc (vudc_at d w)) \<noteq> None" "\<lambda>d w. True" SDEV_ST_AVAILABLE SDEV_ST_ERROR
  for K :: "('c, 'k) vudc_kernel_scheme" and ks :: "'c kernel_sockets"
proof (unfold_locales, goal_cases)
  case (6 d w d' x)
  then show ?case using known_vudc_ok [OF 6] by (simp add: vudc_eh_ops_def known_put)
next
  case (8 f d w d')
  from vudc_op_frame [OF this] known_vudc_ok [OF 8(2)] 8(2) show ?case by (auto simp: known_put)
next
  case (9 f d w d')
  have o: "dev_of (vudc_eh_ops (kernel_trx K ks)) = (\<lambda>d w. ud (vudc_at d w))" by (simp add: vudc_eh_ops_def)
  from vudc_op_frame [OF 9(1,2)] show ?case
    unfolding o by (cases "d' = d") (auto simp: ud_put_other)
next
  case (10 f d w)
  have o: "events_of (vudc_eh_ops (kernel_trx K ks)) = uw_events" by (simp add: vudc_eh_ops_def)
  from vudc_op_frame [OF 10] show ?case unfolding o by auto
next
  case (11 d w)
  then show ?case
    using known_vudc_ok [OF 11(1)] vudc_shutdown_Some(2) [of K ks "vudc_at d w"] vudc_shutdown_ends [of K ks "vudc_at d w"]
    by (auto simp: vudc_eh_ops_def vudc_or_crash_def)
next
  case (12 d w)
  then show ?case
    using known_vudc_ok [OF 12(1)] vudc_shutdown_Some(3) [of K ks "vudc_at d w"] vudc_shutdown_ends [of K ks "vudc_at d w"]
    by (auto simp: vudc_eh_ops_def vudc_or_crash_def)
next
  case (13 d w)
  then show ?case using known_vudc_ok [OF 13(1)] vudc_reset_Some [of "kernel_trx K ks" "vudc_at d w"]
    by (auto simp: vudc_eh_ops_def vudc_or_crash_def)
next
  case (14 d w)
  then show ?case using known_vudc_ok [OF 14] vudc_reset_Some [of "kernel_trx K ks" "vudc_at d w"]
    by (auto simp: vudc_eh_ops_def vudc_or_crash_def)
qed (auto simp: vudc_eh_ops_def ud_put_other vudc_device_unusable_def closed_def)

section \<open>Properties of the controller's life\<close>

definition demo_request :: vrequest where
  "demo_request = \<lparr>vr_id = 0, vr_udc = False, vr_length = 4, vr_actual = 0, vr_status = 0, vr_zero = False,
     vr_buf = [1, 2, 3, 4]\<rparr>"

text \<open>A gadget driver that queues four bytes for every control request.\<close>

definition demo_vudc_kernel :: "u8 list vudc_kernel" where
  "demo_vudc_kernel = \<lparr>host_le = True, kmalloc = (\<lambda>n c. (True, c)), trx_ops = list_trx,
     kthread_get_run = (\<lambda>c. c), kthread_stop_put = (\<lambda>c. c), sockfd_put = (\<lambda>sk c. c), usb_get_dev = (\<lambda>d c. c),
     usb_put_dev = (\<lambda>d c. c), gd_setup = (\<lambda>req v c. (0, snd (vep_queue 0 demo_request v), c)),
     usb_gadget_giveback_request = (\<lambda>i r v c. (v, c)), gd_disconnect = Pair, usb_gadget_udc_reset = Pair,
     v_alloc_urb = (\<lambda>n c. (Some (replicate (nat n) \<lparr>iso_offset = 0, iso_length = 0, iso_actual_length = 0,
       iso_status = 0\<rparr>), c)),
     jiffies = (\<lambda>c. 0), msec_jiffies = 1, gettimeofday = (\<lambda>c. (0, 0)), sockfd_get = (\<lambda>fd c. (Some (nat fd), c)),
     sock_shutdown = (\<lambda>sk c. c), usb_endpoint_maxp = ed_maxp, usb_add_gadget_udc = (\<lambda>p c. (0, c)),
     usb_del_gadget_udc = (\<lambda>p c. c), sysfs_create_group = (\<lambda>p c. (0, c)), sysfs_remove_group = (\<lambda>p c. c),
     platform_device_alloc = (\<lambda>p c. (True, c)), platform_device_add = (\<lambda>p c. (0, c)),
     platform_device_del = (\<lambda>p c. c), platform_driver_register = (\<lambda>c. (0, c)),
     platform_driver_unregister = (\<lambda>c. c)\<rparr>"

lemma demo_gadget_ok: "gadget_ok demo_vudc_kernel" "gadget_ok (kernel_trx demo_vudc_kernel ks)"
  using vudc_ok_ep
  by (auto simp: gadget_ok_def demo_vudc_kernel_def kernel_trx_def vep_queue_def demo_request_def ep_ok_def
      request_ok_def upd_ep_def [of 0] intro!: vudc_ok_upd_ep [unfolded upd_ep_def])

definition demo_ep :: "nat \<Rightarrow> vep" where
  "demo_ep i = \<lparr>ve_name = ''ep'', ve_maxpacket = 64, ve_control = (i = 0), ve_dir_in = True, ve_dir_out = True,
     ve_type = 2, ve_desc = (if i = 2 then Some \<lparr>ep_attributes = 2, ep_address = 0x81, ed_type = 5, ed_maxp = 64\<rparr>
       else None),
     ve_reqs = (if i = 2 then [demo_request\<lparr>vr_status := - EINPROGRESS\<rparr>] else []),
     ve_halted = False, ve_wedged = False, ve_seen = False, ve_setup = False\<rparr>"

definition demo_vudc :: vudc where
  "demo_vudc = \<lparr>uc_driver = Some \<lparr>gd_max_speed = USB_SPEED_HIGH, gd_has_disconnect = True\<rparr>,
     uc_speed = USB_SPEED_HIGH, uc_b_hnp_enable = False, uc_a_hnp_support = False,
     uc_a_alt_hnp_support = False, uc_dev_desc = replicate 18 0, uc_start_time = (0, 0),
     uc_ep = map demo_ep [0..<VIRTUAL_ENDPOINTS], uc_address = 0, uc_devstatus = 0, uc_pullup = True,
     uc_connected = True, uc_desc_cached = True\<rparr>"

lemma demo_vudc_ok: "vudc_ok demo_vudc"
  by (simp add: vudc_ok_def demo_vudc_def ep_ok_def demo_ep_def request_ok_def demo_request_def)

definition demo_transfers :: transfers where
  "demo_transfers = \<lparr>urb_queue = [], tx_queue = [TX_UNLINK \<lparr>vn_seqnum = 7, vn_status = 0\<rparr>],
     tr_state = VUDC_TR_RUNNING, frame_start = 0, frame_limit = 53248, tr_expires = None, ur_next = 0\<rparr>"

definition demo_uworld :: "ulong \<Rightarrow> u8 list vudc_world" where
  "demo_uworld ev = \<lparr>vudcs = [0 \<mapsto> ((demo_ud USBIP_VUDC SDEV_ST_USED)\<lparr>event := ev\<rparr>, demo_vudc, demo_transfers)],
     uw_drvdata = [0 \<mapsto> 0], uw_refs = (\<lambda>p. 1), vudc_devices = [0], uw_events = [], uw_env = [], uw_next = 1,
     uw_crashed = False\<rparr>"

lemma demo_uworld_at:
  "vudc_at 0 (demo_uworld ev) = \<lparr>ud = (demo_ud USBIP_VUDC SDEV_ST_USED)\<lparr>event := ev\<rparr>, event_list = [], env = [],
     udc = demo_vudc, tr = demo_transfers\<rparr>"
  by (simp add: vudc_at_def demo_uworld_def)

lemma demo_uworld_known: "gadget_ok K \<Longrightarrow> known_vudc K 0 (demo_uworld ev)"
  by (simp add: known_vudc_def demo_uworld_def demo_vudc_ok)

text \<open>C13: a controller whose error, disconnection or removal was reported is taken out of service by the
  event worker: its socket and threads are gone, and of the event word only the mark of removal is
  left.  Then it is in error if memory ran out, and available again after a reset; otherwise it
  keeps its status.  A gadget driver is bound to it, without which the shutdown faults.\<close>

theorem vudc_event_recovery:
  assumes "known_vudc (kernel_trx K ks) d w" "uc_driver (udc (vudc_at d w)) \<noteq> None"
    "event (ud (vudc_at d w)) AND USBIP_EH_SHUTDOWN \<noteq> 0"
    "d' = ud (vudc_at d (handle_device (vudc_eh_ops (kernel_trx K ks)) d w))"
  shows "closed d' \<and>
    event d' = event (ud (vudc_at d w)) AND NOT (USBIP_EH_SHUTDOWN OR USBIP_EH_RESET OR USBIP_EH_UNUSABLE) \<and>
    status d' =
      (if event (ud (vudc_at d w)) AND USBIP_EH_UNUSABLE \<noteq> 0 then SDEV_ST_ERROR
       else if event (ud (vudc_at d w)) AND USBIP_EH_RESET \<noteq> 0 then SDEV_ST_AVAILABLE
       else status (ud (vudc_at d w)))"
proof -
  have "dev_of (vudc_eh_ops (kernel_trx K ks)) d x = ud (vudc_at d x)" for x by (simp add: vudc_eh_ops_def)
  then show ?thesis using vudc_eh.handle_device_lifecycle [of K ks d w] assms by simp
qed

theorem vudc_event_recovery_witness:
  "status (ud (vudc_at 0 (handle_device (vudc_eh_ops (kernel_trx demo_vudc_kernel demo_sockets)) 0
     (demo_uworld VUDC_EVENT_DOWN)))) = SDEV_ST_AVAILABLE"
  using vudc_event_recovery [OF demo_uworld_known [OF demo_gadget_ok(2)] _ _ refl, of VUDC_EVENT_DOWN demo_sockets]
  by (simp add: demo_uworld_at demo_vudc_def event_defs)

text \<open>A request from \<open>vep_alloc_request\<close> has no pointer to its controller, and nothing sets it later: the
  gadget driver cannot take it back.\<close>

lemma vep_dequeue_faults:
  "vep_alloc_request K a c = (Some r, c') \<Longrightarrow>
   vep_dequeue K i (r\<lparr>vr_length := n, vr_zero := z, vr_buf := b\<rparr>) v c'' = None"
  by (auto simp: vep_alloc_request_def vep_dequeue_def split: prod.splits if_splits)

end
