(* ===== verification/Vudc_Tx.thy ===== *)
theory Vudc_Tx
  imports Vudc_Dev
begin

text \<open>
  The transmit side of the emulated controller, \<open>vudc_tx.c\<close>: the answers wait on one queue, from
  which the transmit thread sends them.
\<close>

section \<open>Queueing answers\<close>

abbreviation (input) sizeof_tx_item :: nat where "sizeof_tx_item \<equiv> 32"
abbreviation (input) sizeof_v_unlink :: nat where "sizeof_v_unlink \<equiv> 16"

definition add_tx :: "tx_item \<Rightarrow> 'c vudc_conn \<Rightarrow> 'c vudc_conn" where
  "add_tx x s = s\<lparr>tr := (tr s)\<lparr>tx_queue := tx_queue (tr s) @ [x]\<rparr>\<rparr>"

definition v_enqueue_ret_unlink ::
  "('c, 'k) vudc_kernel_scheme \<Rightarrow> u32 \<Rightarrow> u32 \<Rightarrow> 'c vudc_conn \<Rightarrow> 'c vudc_conn" where
  "v_enqueue_ret_unlink K seqnum st s =
     (let (ok, c1) = kmalloc K sizeof_tx_item (env s); s1 = s\<lparr>env := c1\<rparr> in
      if \<not> ok then usbip_event_add (kmalloc K) VDEV_EVENT_ERROR_MALLOC s1
      else let (ok2, c2) = kmalloc K sizeof_v_unlink (env s1); s2 = s1\<lparr>env := c2\<rparr> in
        if \<not> ok2 then usbip_event_add (kmalloc K) VDEV_EVENT_ERROR_MALLOC s2
        else add_tx (TX_UNLINK \<lparr>vn_seqnum = ucast seqnum, vn_status = st\<rparr>) s2)"

definition v_enqueue_ret_submit ::
  "('c, 'k) vudc_kernel_scheme \<Rightarrow> urbp \<Rightarrow> 'c vudc_conn \<Rightarrow> 'c vudc_conn" where
  "v_enqueue_ret_submit K p s =
     (let (ok, c) = kmalloc K sizeof_tx_item (env s); s1 = s\<lparr>env := c\<rparr> in
      if \<not> ok then usbip_event_add (kmalloc K) VDEV_EVENT_ERROR_MALLOC s1
      else add_tx (TX_SUBMIT p) s1)"

section \<open>Sending answers\<close>

text \<open>The headers; \<open>setup_base_pdu\<close> is the same as in \<open>stub_tx.c\<close>.\<close>

definition v_setup_ret_submit_pdu :: "usbip_header \<Rightarrow> urbp \<Rightarrow> v_urb \<Rightarrow> usbip_header" where
  "v_setup_ret_submit_pdu rpdu p urb =
     fst (usbip_pack_pdu (rpdu\<lparr>base := setup_base_pdu USBIP_RET_SUBMIT (ucast (ur_seqnum p))\<rparr>) urb
       USBIP_RET_SUBMIT True)"

definition v_setup_ret_unlink_pdu :: "usbip_header \<Rightarrow> v_unlink \<Rightarrow> usbip_header" where
  "v_setup_ret_unlink_pdu rpdu ul =
     rpdu\<lparr>base := setup_base_pdu USBIP_RET_UNLINK (ucast (vn_seqnum ul)),
       u := put_ret_unlink \<lparr>ru_status = vn_status ul\<rparr> (u rpdu)\<rparr>"

text \<open>The number of bytes that were to be sent, or the error after the event was raised.\<close>

definition v_sendmsg ::
  "('c, 'k) vudc_kernel_scheme \<Rightarrow> u8 list list \<Rightarrow> 'c vudc_conn \<Rightarrow> int \<times> 'c vudc_conn" where
  "v_sendmsg K iov s =
     (let txsize = int (length (concat iov)); (ret, c) = trx_sendmsg (trx_ops K) (ud s) iov (env s);
          s1 = s\<lparr>env := c\<rparr> in
      if ret \<noteq> txsize
      then (if ret \<ge> 0 then - EPIPE else ret, usbip_event_add (kmalloc K) VUDC_EVENT_ERROR_TCP s1)
      else (txsize, s1))"

definition v_send_ret_unlink ::
  "('c, 'k) vudc_kernel_scheme \<Rightarrow> v_unlink \<Rightarrow> 'c vudc_conn \<Rightarrow> int \<times> 'c vudc_conn" where
  "v_send_ret_unlink K ul s =
     v_sendmsg K [header_bytes (host_le K) (usbip_header_correct_endian (host_le K)
       (v_setup_ret_unlink_pdu zero_header ul) True)] s"

text \<open>Step 2 of sending: the transfer buffer of an IN transfer, by the type the endpoint had when
  the URB arrived.\<close>

definition v_ret_submit_data :: "urbp \<Rightarrow> v_urb \<Rightarrow> u8 list list option" where
  "v_ret_submit_data p urb =
     (if ur_type p \<noteq> USB_ENDPOINT_XFER_ISOC \<and> usb_pipein (urb_pipe urb) \<and> urb_actual_length urb > 0
      then map_option (\<lambda>v. [v]) (kvec (buffer_of urb) 0 (unat (urb_actual_length urb)))
      else if ur_type p = USB_ENDPOINT_XFER_ISOC \<and> usb_pipein (urb_pipe urb)
      then iso_kvecs urb 0 (nat (sint (urb_number_of_packets urb)))
      else Some [])"

definition v_fail ::
  "('c, 'k) vudc_kernel_scheme \<Rightarrow> int \<Rightarrow> ulong \<Rightarrow> 'c vudc_conn \<Rightarrow> (int \<times> 'c vudc_conn) option" where
  "v_fail K e ev s = Some (e, usbip_event_add (kmalloc K) ev s)"

definition v_send_ret_submit ::
  "('c, 'k) vudc_kernel_scheme \<Rightarrow> urbp \<Rightarrow> 'c vudc_conn \<Rightarrow> (int \<times> 'c vudc_conn) option" where
  "v_send_ret_submit K p s = (case ur_urb p of
     None \<Rightarrow> None
   | Some urb \<Rightarrow>
       let isoc = (ur_type p = USB_ENDPOINT_XFER_ISOC);
           iovnum = sint (if isoc then 2 + urb_number_of_packets urb else 2);
           (ok, c1) = (if iovnum < 0 then (False, env s) else kmalloc K (nat iovnum * sizeof_kvec) (env s));
           s1 = s\<lparr>env := c1\<rparr> in
       if \<not> ok then v_fail K (- ENOMEM) VUDC_EVENT_ERROR_MALLOC s1
       else let hdr = header_bytes (host_le K) (usbip_header_correct_endian (host_le K)
                  (v_setup_ret_submit_pdu zero_header p urb) True) in
       (case v_ret_submit_data p urb of
          None \<Rightarrow> None
        | Some data \<Rightarrow>
            if isoc \<and> usb_pipein (urb_pipe urb) \<and>
               length hdr + length (concat data) \<noteq> length hdr + unat (urb_actual_length urb)
            then v_fail K (- EPIPE) VUDC_EVENT_ERROR_TCP s1
            else (case (if isoc then usbip_alloc_iso_desc_pdu K urb (env s1) else Some (Some [], env s1)) of
              None \<Rightarrow> None
            | Some (None, c2) \<Rightarrow> v_fail K (- ENOMEM) VUDC_EVENT_ERROR_MALLOC (s1\<lparr>env := c2\<rparr>)
            | Some (Some descs, c2) \<Rightarrow>
                Some (v_sendmsg K ([hdr] @ data @ (if isoc then [descs] else [])) (s1\<lparr>env := c2\<rparr>)))))"

definition v_send_item ::
  "('c, 'k) vudc_kernel_scheme \<Rightarrow> tx_item \<Rightarrow> 'c vudc_conn \<Rightarrow> (int \<times> 'c vudc_conn) option" where
  "v_send_item K x s = (case x of
     TX_SUBMIT p \<Rightarrow> v_send_ret_submit K p s
   | TX_UNLINK ul \<Rightarrow> Some (v_send_ret_unlink K ul s))"

lemma v_sendmsg_tr: "v_sendmsg K iov s = (r, s') \<Longrightarrow> tr s' = tr s \<and> udc s' = udc s"
  by (auto simp: v_sendmsg_def usbip_event_add_def Let_def split: prod.splits if_splits)

lemma v_fail_tr: "v_fail K e ev s = Some (r, s') \<Longrightarrow> tr s' = tr s \<and> udc s' = udc s"
  by (auto simp: v_fail_def usbip_event_add_def Let_def split: prod.splits if_splits)

lemma v_send_item_tr: "v_send_item K x s = Some (r, s') \<Longrightarrow> tr s' = tr s \<and> udc s' = udc s"
  by (auto simp: v_send_item_def v_send_ret_submit_def v_send_ret_unlink_def Let_def
      split: tx_item.splits option.splits prod.splits if_splits dest!: v_sendmsg_tr v_fail_tr)

function v_send_loop ::
  "('c, 'k) vudc_kernel_scheme \<Rightarrow> nat \<Rightarrow> 'c vudc_conn \<Rightarrow> (int \<times> 'c vudc_conn) option" where
  "v_send_loop K tot s = (case tx_queue (tr s) of
     [] \<Rightarrow> Some (sint (word_of_nat tot :: u32), s)
   | x # xs \<Rightarrow> (case v_send_item K x (s\<lparr>tr := (tr s)\<lparr>tx_queue := xs\<rparr>\<rparr>) of
       None \<Rightarrow> None
     | Some (r, s') \<Rightarrow> if r < 0 then Some (r, s') else v_send_loop K (tot + nat r) s'))"
  by pat_completeness auto
termination
  by (relation "measure (\<lambda>(K, tot, s). length (tx_queue (tr s)))") (auto dest!: v_send_item_tr)

declare v_send_loop.simps [simp del]

definition v_send_ret ::
  "('c, 'k) vudc_kernel_scheme \<Rightarrow> 'c vudc_conn \<Rightarrow> (int \<times> 'c vudc_conn) option" where
  "v_send_ret K s = v_send_loop K 0 s"

fun v_tx_loop ::
  "('c, 'k) vudc_kernel_scheme \<Rightarrow> bool list \<Rightarrow> 'c vudc_conn \<Rightarrow> 'c vudc_conn option" where
  "v_tx_loop K [] s = Some s"
| "v_tx_loop K (stop # stops) s =
     (if stop then Some s
      else if usbip_event_happened (ud s) then Some s
      else case v_send_ret K s of
        None \<Rightarrow> None
      | Some (r, s1) \<Rightarrow> if r < 0 then Some s1 else v_tx_loop K stops s1)"

end
