(* ===== verification/Vudc_Transfer.thy ===== *)
theory Vudc_Transfer
  imports Vudc_Tx "HOL-Library.Sublist"
begin

text \<open>
  The transfer timer of the emulated controller, \<open>vudc_transfer.c\<close>: once per frame it moves data
  between the URBs of the host and the requests of the gadget driver, answers the control requests a
  controller answers itself, and queues the answers of the URBs that are done.
\<close>

section \<open>Control requests the controller handles\<close>

abbreviation (input) USB_REQ_GET_STATUS :: u8 where "USB_REQ_GET_STATUS \<equiv> 0"
abbreviation (input) USB_REQ_SET_ADDRESS :: u8 where "USB_REQ_SET_ADDRESS \<equiv> 5"
abbreviation (input) DEV_REQUEST :: u8 where "DEV_REQUEST \<equiv> 0"
abbreviation (input) EP_REQUEST :: u8 where "EP_REQUEST \<equiv> 2"
abbreviation (input) DEV_INREQUEST :: u8 where "DEV_INREQUEST \<equiv> 0x80"
abbreviation (input) INTF_INREQUEST :: u8 where "INTF_INREQUEST \<equiv> 0x81"
abbreviation (input) EP_INREQUEST :: u8 where "EP_INREQUEST \<equiv> 0x82"
abbreviation (input) USB_DEVICE_REMOTE_WAKEUP :: u16 where "USB_DEVICE_REMOTE_WAKEUP \<equiv> 1"
abbreviation (input) USB_DEVICE_B_HNP_ENABLE :: u16 where "USB_DEVICE_B_HNP_ENABLE \<equiv> 3"
abbreviation (input) USB_DEVICE_A_HNP_SUPPORT :: u16 where "USB_DEVICE_A_HNP_SUPPORT \<equiv> 4"
abbreviation (input) USB_DEVICE_A_ALT_HNP_SUPPORT :: u16 where "USB_DEVICE_A_ALT_HNP_SUPPORT \<equiv> 5"

definition get_frame_limit :: "u32 \<Rightarrow> int" where
  "get_frame_limit speed =
     (if speed = USB_SPEED_LOW then 8 * 12
      else if speed = USB_SPEED_FULL then 64 * 19
      else if speed = USB_SPEED_HIGH then 512 * 13 * 8
      else if speed = USB_SPEED_SUPER then 490000
      else -1)"

text \<open>The result is the one of \<open>handle_control_request\<close>, 0 for a request that was handled and 1 for
  one that was not, with the URB and the controller.\<close>

definition set_feature_request :: "u8 list \<Rightarrow> v_urb \<Rightarrow> vudc \<Rightarrow> int \<times> v_urb \<times> vudc" where
  "set_feature_request setup urb v =
     (let w_value = wValue setup in
      if bRequestType setup = DEV_REQUEST then
        if w_value \<in> {USB_DEVICE_REMOTE_WAKEUP, USB_DEVICE_B_HNP_ENABLE, USB_DEVICE_A_HNP_SUPPORT,
             USB_DEVICE_A_ALT_HNP_SUPPORT}
        then (0, urb\<lparr>urb_status := 0\<rparr>,
          v\<lparr>uc_b_hnp_enable := w_value = USB_DEVICE_B_HNP_ENABLE \<or> uc_b_hnp_enable v,
            uc_a_hnp_support := w_value = USB_DEVICE_A_HNP_SUPPORT \<or> uc_a_hnp_support v,
            uc_a_alt_hnp_support := w_value = USB_DEVICE_A_ALT_HNP_SUPPORT \<or> uc_a_alt_hnp_support v,
            uc_devstatus := uc_devstatus v OR push_bit (unat w_value) 1\<rparr>)
        else (- EOPNOTSUPP, urb, v)
      else if bRequestType setup = EP_REQUEST then
        (case vudc_find_endpoint v (ucast (wIndex setup)) of
           None \<Rightarrow> (- EOPNOTSUPP, urb, v)
         | Some i \<Rightarrow> if i = 0 then (- EOPNOTSUPP, urb, v)
             else (0, urb\<lparr>urb_status := 0\<rparr>, upd_ep i (\<lambda>e. e\<lparr>ve_halted := True\<rparr>) v))
      else (1, urb, v))"

definition clear_feature_request :: "u8 list \<Rightarrow> v_urb \<Rightarrow> vudc \<Rightarrow> int \<times> v_urb \<times> vudc" where
  "clear_feature_request setup urb v =
     (let w_value = wValue setup in
      if bRequestType setup = DEV_REQUEST then
        if w_value = USB_DEVICE_REMOTE_WAKEUP
        then (0, urb\<lparr>urb_status := 0\<rparr>,
          v\<lparr>uc_devstatus := uc_devstatus v AND NOT (push_bit (unat w_value) 1)\<rparr>)
        else (- EOPNOTSUPP, urb, v)
      else if bRequestType setup = EP_REQUEST then
        (case vudc_find_endpoint v (ucast (wIndex setup)) of
           None \<Rightarrow> (- EOPNOTSUPP, urb, v)
         | Some i \<Rightarrow> (0, urb\<lparr>urb_status := 0\<rparr>,
             if ve_wedged (uc_ep v ! i) then v else upd_ep i (\<lambda>e. e\<lparr>ve_halted := False\<rparr>) v))
      else (1, urb, v))"

definition store_byte :: "nat \<Rightarrow> u8 \<Rightarrow> v_urb \<Rightarrow> v_urb option" where
  "store_byte k b urb = (if k < length (buffer_of urb) then Some (put_buffer ((buffer_of urb)[k := b]) urb)
     else None)"

text \<open>The first byte of the status of a device, an interface or an endpoint.\<close>

definition status_byte :: "u8 list \<Rightarrow> vudc \<Rightarrow> u8 option" where
  "status_byte setup v =
     (if bRequestType setup = EP_INREQUEST
      then map_option (\<lambda>i. if ve_halted (uc_ep v ! i) then 1 else 0)
        (vudc_find_endpoint v (ucast (wIndex setup)))
      else Some (if bRequestType setup = DEV_INREQUEST then ucast (uc_devstatus v) else 0))"

text \<open>The fault is a write beyond the buffer.\<close>

definition get_status_request ::
  "u8 list \<Rightarrow> v_urb \<Rightarrow> vudc \<Rightarrow> (int \<times> v_urb \<times> vudc) option" where
  "get_status_request setup urb v =
     (if bRequestType setup \<notin> {DEV_INREQUEST, INTF_INREQUEST, EP_INREQUEST} then Some (1, urb, v)
      else let len = urb_transfer_buffer_length urb in
        if len > 0 \<and> status_byte setup v = None then Some (- EOPNOTSUPP, urb, v)
        else do {
          urb1 \<leftarrow> (if len > 0 then store_byte 0 (the (status_byte setup v)) urb else Some urb);
          urb2 \<leftarrow> (if len > 1 then store_byte 1 0 urb1 else Some urb1);
          Some (0, urb2\<lparr>urb_actual_length := min 2 len, urb_status := 0\<rparr>, v) })"

definition handle_control_request ::
  "u8 list \<Rightarrow> v_urb \<Rightarrow> vudc \<Rightarrow> (int \<times> v_urb \<times> vudc) option" where
  "handle_control_request setup urb v =
     (if bRequest setup = USB_REQ_SET_ADDRESS then
        if bRequestType setup \<noteq> DEV_REQUEST then Some (1, urb, v)
        else Some (0, urb\<lparr>urb_status := 0\<rparr>, v\<lparr>uc_address := ucast (wValue setup)\<rparr>)
      else if bRequest setup = USB_REQ_SET_FEATURE then Some (set_feature_request setup urb v)
      else if bRequest setup = USB_REQ_CLEAR_FEATURE then Some (clear_feature_request setup urb v)
      else if bRequest setup = USB_REQ_GET_STATUS then get_status_request setup urb v
      else Some (1, urb, v))"

section \<open>Moving data\<close>

definition write_at :: "u8 list \<Rightarrow> nat \<Rightarrow> u8 list \<Rightarrow> u8 list option" where
  "write_at buf off bs = (if off + length bs \<le> length buf then Some (overwrite off bs buf) else None)"

text \<open>\<open>len\<close> bytes, from the request to the URB of an IN transfer, else from the URB to the request.\<close>

definition move_data :: "u32 \<Rightarrow> v_urb \<Rightarrow> vrequest \<Rightarrow> (v_urb \<times> vrequest) option" where
  "move_data len urb r =
     (let upos = unat (urb_actual_length urb); rpos = unat (vr_actual r);
          urb' = urb\<lparr>urb_actual_length := urb_actual_length urb + len\<rparr>;
          r' = r\<lparr>vr_actual := vr_actual r + len\<rparr> in
      if usb_pipein (urb_pipe urb)
      then do { bs \<leftarrow> kvec (vr_buf r) rpos (unat len); b \<leftarrow> write_at (buffer_of urb) upos bs;
                Some (put_buffer b urb', r') }
      else do { bs \<leftarrow> kvec (buffer_of urb) upos (unat len); b \<leftarrow> write_at (vr_buf r) rpos bs;
                Some (urb', r'\<lparr>vr_buf := b\<rparr>) })"

text \<open>The whole packets first, then a short one.  The result tells the number of bytes, whether the
  packet is short, and whether a rest is left.  The fault is, beside the memory accesses, the
  division by a packet size of 0.\<close>

definition move_packets ::
  "u16 \<Rightarrow> v_urb \<Rightarrow> vrequest \<Rightarrow> (u32 \<times> bool \<times> bool \<times> v_urb \<times> vrequest) option" where
  "move_packets maxpacket urb r =
     (let host_len = urb_transfer_buffer_length urb - urb_actual_length urb;
          dev_len = vr_length r - vr_actual r; len = min host_len dev_len; mp = ucast maxpacket in
      if len = 0 then Some (0, True, False, urb, r)
      else if mp = 0 then None
      else let is_short = (len < mp); len' = (if is_short then len else len - len mod mp) in
        do { (urb', r') \<leftarrow> move_data len' urb r;
             Some (len', is_short, \<not> is_short \<and> len mod mp > 0, urb', r') })"

text \<open>What a short packet means for both sides.\<close>

definition short_status :: "u32 \<Rightarrow> u32 \<Rightarrow> v_urb \<Rightarrow> vrequest \<Rightarrow> v_urb \<times> vrequest" where
  "short_status host_len dev_len urb r =
     (if host_len = dev_len then (urb\<lparr>urb_status := 0\<rparr>, r\<lparr>vr_status := 0\<rparr>)
      else if usb_pipein (urb_pipe urb)
      then (urb\<lparr>urb_status := if dev_len > host_len then - EOVERFLOW else 0\<rparr>, r\<lparr>vr_status := 0\<rparr>)
      else (urb\<lparr>urb_status := 0\<rparr>, r\<lparr>vr_status := if host_len > dev_len then - EOVERFLOW else 0\<rparr>))"

text \<open>After whole packets a side is done when nothing is left of it, unless it wants an empty packet
  at the end.\<close>

definition whole_status :: "v_urb \<Rightarrow> vrequest \<Rightarrow> bool \<times> v_urb \<times> vrequest" where
  "whole_status urb r =
     (let to_host = usb_pipein (urb_pipe urb);
          dev_end = (vr_length r = vr_actual r); dev_zlp = (vr_zero r \<and> to_host);
          host_end = (urb_transfer_buffer_length urb = urb_actual_length urb);
          host_zlp = (urb_transfer_flags urb AND URB_ZERO_PACKET \<noteq> 0 \<and> \<not> to_host) in
      (dev_end \<and> dev_zlp \<or> host_end \<and> host_zlp,
       if host_end \<and> \<not> host_zlp then urb\<lparr>urb_status := 0\<rparr> else urb,
       if dev_end \<and> \<not> dev_zlp then r\<lparr>vr_status := 0\<rparr> else r))"

text \<open>One request: the bytes moved, whether to scan again, and both sides.\<close>

definition transfer_one ::
  "u16 \<Rightarrow> v_urb \<Rightarrow> vrequest \<Rightarrow> (u32 \<times> bool \<times> v_urb \<times> vrequest) option" where
  "transfer_one maxpacket urb r = do {
     (len, is_short, rest, urb1, r1) \<leftarrow> move_packets maxpacket urb r;
     let host_len = urb_transfer_buffer_length urb - urb_actual_length urb;
         dev_len = vr_length r - vr_actual r in
     if is_short then let (urb2, r2) = short_status host_len dev_len urb1 r1 in Some (len, rest, urb2, r2)
     else let (again, urb2, r2) = whole_status urb1 r1 in Some (len, rest \<or> again, urb2, r2) }"

lemma move_data_lengths:
  "move_data len urb r = Some (urb', r') \<Longrightarrow>
   urb_transfer_buffer_length urb' = urb_transfer_buffer_length urb \<and>
   urb_actual_length urb' = urb_actual_length urb + len"
  by (auto simp: move_data_def Let_def put_buffer_def bind_eq_Some_conv split: if_splits)

lemma transfer_one_progress:
  assumes "transfer_one mp urb r = Some (len, again, urb', r')" "urb_status urb' = - EINPROGRESS"
  shows "unat (urb_transfer_buffer_length urb' - urb_actual_length urb') <
    unat (urb_transfer_buffer_length urb - urb_actual_length urb)"
proof -
  let ?h = "urb_transfer_buffer_length urb - urb_actual_length urb" and ?d = "vr_length r - vr_actual r"
  let ?l = "min ?h ?d" and ?m = "ucast mp :: u32"
  obtain len' sh rest urb1 r1 where mv: "move_packets mp urb r = Some (len', sh, rest, urb1, r1)"
    using assms(1) by (auto simp: transfer_one_def bind_eq_Some_conv)
  have sh: "\<not> sh" using assms mv
    by (auto simp: transfer_one_def short_status_def split: if_splits)
  from mv sh have l: "?l \<noteq> 0" "?m \<noteq> 0" "\<not> ?l < ?m" "len' = ?l - ?l mod ?m"
    "move_data (?l - ?l mod ?m) urb r = Some (urb1, r1)"
    by (auto simp: move_packets_def Let_def bind_eq_Some_conv split: if_splits)
  have u: "urb_transfer_buffer_length urb' - urb_actual_length urb' = ?h - len'"
    using assms(1) mv sh move_data_lengths [OF l(5)] l(4)
    by (auto simp: transfer_one_def whole_status_def Let_def split: if_splits)
  have m: "unat ?m > 0" "unat ?m \<le> unat ?l" using l(2,3) by (auto simp: unat_gt_0 word_le_nat_alt not_less)
  have r: "unat ?l mod unat ?m < unat ?m" using m(1) by simp
  then have "unat len' = unat ?l - unat ?l mod unat ?m"
    unfolding l(4) using m by (subst unat_sub) (simp_all add: word_le_nat_alt unat_mod)
  then have "unat len' = unat ?l - unat ?l mod unat ?m" "0 < unat len'" using r m by linarith+
  moreover have "unat ?l \<le> unat ?h" by (simp add: min_def word_le_nat_alt)
  ultimately have "0 < unat len'" "unat len' \<le> unat ?h" by linarith+
  then show ?thesis unfolding u by (subst unat_sub) (simp_all add: word_le_nat_alt)
qed

text \<open>The scan of the requests of endpoint \<open>i\<close> from position \<open>pos\<close> on; \<open>sent\<close> is a C \<open>int\<close>.  The
  bandwidth limit the source passes is not used by it.\<close>

function transfer_loop ::
  "('c, 'k) vudc_kernel_scheme \<Rightarrow> nat \<Rightarrow> nat \<Rightarrow> u32 \<Rightarrow> v_urb \<Rightarrow> vudc \<Rightarrow> 'c \<Rightarrow>
     (u32 \<times> v_urb \<times> vudc \<times> 'c) option" where
  "transfer_loop K i pos sent urb v c =
     (if \<not> pos < length (ve_reqs (uc_ep v ! i)) then Some (sent, urb, v, c)
      else case transfer_one (ve_maxpacket (uc_ep v ! i)) urb (ve_reqs (uc_ep v ! i) ! pos) of
        None \<Rightarrow> None
      | Some (len, again, urb', r') \<Rightarrow>
          let rs = ve_reqs (uc_ep v ! i);
              (again', v', c') = (if vr_status r' \<noteq> - EINPROGRESS
                then (True, usb_gadget_giveback_request K i r'
                  (upd_ep i (\<lambda>e. e\<lparr>ve_reqs := take pos rs @ drop (Suc pos) rs\<rparr>) v) c)
                else (again, upd_ep i (\<lambda>e. e\<lparr>ve_reqs := rs[pos := r']\<rparr>) v, c)) in
          if urb_status urb' \<noteq> - EINPROGRESS then Some (sent + len, urb', v', c')
          else transfer_loop K i (if again' then 0 else Suc pos) (sent + len) urb' v' c')"
  by pat_completeness auto
termination
  by (relation "measure (\<lambda>(K, i, pos, sent, urb, v, c).
      unat (urb_transfer_buffer_length urb - urb_actual_length urb))") (auto dest: transfer_one_progress)

declare transfer_loop.simps [simp del]

definition transfer ::
  "('c, 'k) vudc_kernel_scheme \<Rightarrow> v_urb \<Rightarrow> nat \<Rightarrow> vudc \<Rightarrow> 'c \<Rightarrow> (u32 \<times> v_urb \<times> vudc \<times> 'c) option" where
  "transfer K urb i v c = transfer_loop K i 0 0 urb v c"

section \<open>The timer\<close>

definition v_init_timer :: "transfers \<Rightarrow> transfers" where
  "v_init_timer t = t\<lparr>tr_state := VUDC_TR_STOPPED, tr_expires := None\<rparr>"

definition v_kick_timer :: "ulong \<Rightarrow> transfers \<Rightarrow> transfers" where
  "v_kick_timer time t = (case tr_state t of
     VUDC_TR_RUNNING \<Rightarrow> t
   | VUDC_TR_IDLE \<Rightarrow> t\<lparr>tr_state := VUDC_TR_RUNNING, tr_expires := Some time\<rparr>
   | VUDC_TR_STOPPED \<Rightarrow> t\<lparr>tr_expires := Some time\<rparr>)"

definition v_start_timer :: "ulong \<Rightarrow> u32 \<Rightarrow> transfers \<Rightarrow> transfers" where
  "v_start_timer now speed t = (case tr_state t of
     VUDC_TR_RUNNING \<Rightarrow> t
   | VUDC_TR_IDLE \<Rightarrow> v_kick_timer now t
   | VUDC_TR_STOPPED \<Rightarrow> v_kick_timer now
       (t\<lparr>tr_state := VUDC_TR_IDLE, frame_start := now, frame_limit := get_frame_limit speed\<rparr>))"

definition v_stop_timer :: "transfers \<Rightarrow> transfers" where
  "v_stop_timer t = t\<lparr>tr_state := VUDC_TR_STOPPED\<rparr>"

text \<open>What happens to one URB of the queue: it stays (\<open>False\<close>), or it goes to \<open>return_urb\<close>.  The
  bandwidth left, \<open>tot\<close>, is a C \<open>int\<close>.\<close>

definition set_urb :: "v_urb \<Rightarrow> urbp \<Rightarrow> urbp" where
  "set_urb urb p = p\<lparr>ur_urb := Some urb\<rparr>"

definition run_transfer ::
  "('c, 'k) vudc_kernel_scheme \<Rightarrow> v_urb \<Rightarrow> nat \<Rightarrow> urbp \<Rightarrow> u32 \<Rightarrow> 'c vudc_conn \<Rightarrow>
     (bool \<times> urbp \<times> u32 \<times> 'c vudc_conn) option" where
  "run_transfer K urb i p tot s = do {
     (sent, urb', v, c) \<leftarrow> transfer K urb i (udc s) (env s);
     Some (urb_status urb' \<noteq> - EINPROGRESS, set_urb urb' p, tot - sent, s\<lparr>udc := v, env := c\<rparr>) }"

text \<open>The setup stage of a control transfer.  The faults are a missing gadget driver and a missing
  setup packet.\<close>

definition setup_stage ::
  "('c, 'k) vudc_kernel_scheme \<Rightarrow> v_urb \<Rightarrow> urbp \<Rightarrow> u32 \<Rightarrow> 'c vudc_conn \<Rightarrow>
     (bool \<times> urbp \<times> u32 \<times> 'c vudc_conn) option" where
  "setup_stage K urb p tot s = do {
     req \<leftarrow> urb_setup_packet urb;
     let v = upd_ep 0 (\<lambda>e. e\<lparr>ve_setup := False, ve_halted := False\<rparr>) (udc s);
     (ret, urb1, v1) \<leftarrow> handle_control_request req urb v;
     (ret', v2, c2) \<leftarrow> (if ret > 0 then (if uc_driver v1 = None then None else Some (gd_setup K req v1 (env s)))
       else Some (ret, v1, env s));
     let s' = s\<lparr>udc := v2, env := c2\<rparr>;
     if ret' \<ge> 0 then run_transfer K urb1 0 p tot s'
     else Some (True, set_urb (urb1\<lparr>urb_status := - EPIPE, urb_actual_length := 0\<rparr>) p, tot, s') }"

definition visit_urb ::
  "('c, 'k) vudc_kernel_scheme \<Rightarrow> urbp \<Rightarrow> u32 \<Rightarrow> 'c vudc_conn \<Rightarrow>
     (bool \<times> urbp \<times> u32 \<times> 'c vudc_conn) option" where
  "visit_urb K p tot s = (case ur_urb p of
     None \<Rightarrow> None
   | Some urb \<Rightarrow>
       if urb_unlinked urb \<noteq> 0 then Some (True, p, tot, s)
       else if tr_state (tr s) \<noteq> VUDC_TR_RUNNING then Some (False, p, tot, s)
       else (case ur_ep p of
         None \<Rightarrow> Some (True, set_urb (urb\<lparr>urb_status := - EPROTO\<rparr>) p, tot, s)
       | Some i \<Rightarrow>
           let e = uc_ep (udc s) ! i in
           if sint tot \<le> 0 \<and> ve_type e = USB_ENDPOINT_XFER_BULK then Some (False, p, tot, s)
           else if ve_seen e then Some (False, p, tot, s)
           else
             let first = (i = 0 \<and> ur_new p); setup = (ve_setup e \<or> first);
                 p1 = (if first then p\<lparr>ur_new := False\<rparr> else p);
                 s1 = s\<lparr>udc := upd_ep i (\<lambda>e. e\<lparr>ve_seen := True, ve_setup := setup\<rparr>) (udc s)\<rparr> in
             if ve_halted e \<and> \<not> setup
             then Some (True, set_urb (urb\<lparr>urb_status := - EPIPE\<rparr>) p1, tot, s1)
             else if i = 0 \<and> setup then setup_stage K urb p1 tot s1
             else if ve_type e = USB_ENDPOINT_XFER_ISOC
             then Some (True, set_urb (urb\<lparr>urb_status := - EXDEV\<rparr>) p1, tot, s1)
             else run_transfer K urb i p1 tot s1))"

text \<open>The URB leaves the queue, as an answer to its submission or to the request that unlinked it.\<close>

definition return_urb ::
  "('c, 'k) vudc_kernel_scheme \<Rightarrow> urbp \<Rightarrow> 'c vudc_conn \<Rightarrow> 'c vudc_conn" where
  "return_urb K p s =
     (let s1 = (case ur_ep p of None \<Rightarrow> s
          | Some i \<Rightarrow> s\<lparr>udc := upd_ep i (\<lambda>e. e\<lparr>ve_seen := False, ve_setup := False\<rparr>) (udc s)\<rparr>);
          n = (case ur_urb p of None \<Rightarrow> 0 | Some urb \<Rightarrow> urb_unlinked urb) in
      if n = 0 then v_enqueue_ret_submit K p s1
      else v_enqueue_ret_unlink K (ucast (ur_seqnum p)) (word_of_int n) s1)"

text \<open>\<open>pre\<close> are the URBs of the queue before the current one, which stayed; a URB that leaves starts the
  scan again.\<close>

function v_timer_loop ::
  "('c, 'k) vudc_kernel_scheme \<Rightarrow> urbp list \<Rightarrow> urbp list \<Rightarrow> u32 \<Rightarrow> 'c vudc_conn \<Rightarrow>
     (urbp list \<times> 'c vudc_conn) option" where
  "v_timer_loop K pre [] tot s = Some (pre, s)"
| "v_timer_loop K pre (p # ps) tot s = (case visit_urb K p tot s of
     None \<Rightarrow> None
   | Some (ret, p', tot', s') \<Rightarrow>
       if ret then v_timer_loop K [] (pre @ ps) tot' (return_urb K p' s')
       else v_timer_loop K (pre @ [p']) ps tot' s')"
  by pat_completeness auto
termination
  by (relation "measures [\<lambda>(K, pre, ps, tot, s). length pre + length ps, \<lambda>(K, pre, ps, tot, s). length ps]")
     auto

text \<open>\<open>time_after\<close> of the kernel compares times that wrap around.\<close>

definition time_after :: "ulong \<Rightarrow> ulong \<Rightarrow> bool" where
  "time_after a b = (sint (b - a) < 0)"

definition v_timer ::
  "('c, 'k) vudc_kernel_scheme \<Rightarrow> 'c vudc_conn \<Rightarrow> 'c vudc_conn option" where
  "v_timer K s =
     (let limit = get_frame_limit (uc_speed (udc s)); now = jiffies K (env s); t = (tr s)\<lparr>tr_expires := None\<rparr> in
      if limit < 0 then Some (s\<lparr>tr := t\<lparr>tr_state := VUDC_TR_IDLE\<rparr>\<rparr>)
      else let next_frame = time_after now (frame_start t + msec_jiffies K);
               t1 = (if next_frame then t\<lparr>frame_limit := limit, frame_start := now\<rparr> else t);
               v = (udc s)\<lparr>uc_ep := map (\<lambda>e. e\<lparr>ve_seen := False\<rparr>) (uc_ep (udc s))\<rparr> in
        do { (q, s1) \<leftarrow> v_timer_loop K [] (urb_queue t1) (word_of_int (frame_limit t1)) (s\<lparr>udc := v, tr := t1\<rparr>);
             let t2 = (tr s1)\<lparr>urb_queue := q\<rparr>;
             Some (s1\<lparr>tr := if q = [] then t2\<lparr>tr_state := VUDC_TR_IDLE\<rparr>
               else t2\<lparr>tr_expires := Some (frame_start t2 + msec_jiffies K)\<rparr>\<rparr>) })"

section \<open>Moving data stays in the buffers\<close>

definition v_urb_ok :: "v_urb \<Rightarrow> bool" where
  "v_urb_ok urb = (length (buffer_of urb) = unat (urb_transfer_buffer_length urb) \<and>
     urb_actual_length urb \<le> urb_transfer_buffer_length urb)"

text \<open>The bytes of a request that were not moved yet.\<close>

definition pending :: "vrequest \<Rightarrow> u8 list" where
  "pending r = slice (unat (vr_actual r)) (unat (vr_length r) - unat (vr_actual r)) (vr_buf r)"

lemma length_pending: "request_ok r \<Longrightarrow> length (pending r) = unat (vr_length r) - unat (vr_actual r)"
  by (auto simp: request_ok_def pending_def word_le_nat_alt)

lemma unat_add_le: "(a :: u32) \<le> b \<Longrightarrow> l \<le> b - a \<Longrightarrow> unat (a + l) = unat a + unat l \<and> a + l \<le> b"
proof -
  assume a: "a \<le> b" "l \<le> b - a"
  have "unat (b - a) = unat b - unat a" using a(1) by (rule unat_sub)
  then have "unat a + unat l \<le> unat b" using a by (simp add: word_le_nat_alt)
  moreover from this have "unat (a + l) = unat a + unat l" using unsigned_less [of b, where 'a = nat]
    by (subst unat_add_lem [symmetric]) simp
  ultimately show ?thesis by (simp add: word_le_nat_alt)
qed

lemma slice_take_drop: "n \<le> m \<Longrightarrow> slice a n xs = take n (slice a m xs)" "slice (a + n) (m - n) xs = drop n (slice a m xs)"
  by (simp_all add: slice_def min_def drop_take add.commute)

lemma buffer_put_buffer: "length (buffer_of urb) = length b \<Longrightarrow> buffer_of (put_buffer b urb) = b"
  by (cases "urb_transfer_buffer urb") (auto simp: buffer_of_def put_buffer_def)

lemma put_buffer_sel [simp]:
  "urb_transfer_buffer_length (put_buffer b urb) = urb_transfer_buffer_length urb"
  "urb_setup_packet (put_buffer b urb) = urb_setup_packet urb"
  "urb_actual_length (put_buffer b urb) = urb_actual_length urb" "urb_status (put_buffer b urb) = urb_status urb"
  "urb_pipe (put_buffer b urb) = urb_pipe urb" "urb_transfer_flags (put_buffer b urb) = urb_transfer_flags urb"
  "urb_unlinked (put_buffer b urb) = urb_unlinked urb"
  by (simp_all add: put_buffer_def)

lemma buffer_of_more [simp]:
  "buffer_of (urb\<lparr>urb_status := st\<rparr>) = buffer_of urb" "buffer_of (urb\<lparr>urb_actual_length := n\<rparr>) = buffer_of urb"
  by (simp_all add: buffer_of_def)

text \<open>What moving \<open>len\<close> bytes does, where both sides have them.\<close>

lemma move_data_spec:
  assumes "request_ok r" "v_urb_ok urb" "len \<le> urb_transfer_buffer_length urb - urb_actual_length urb"
    "len \<le> vr_length r - vr_actual r"
  shows "\<exists>urb' r'. move_data len urb r = Some (urb', r') \<and> v_urb_ok urb' \<and> request_ok r' \<and>
    vr_zero r' = vr_zero r \<and> urb_status urb' = urb_status urb \<and> urb_pipe urb' = urb_pipe urb \<and>
    (urb_unlinked urb' = urb_unlinked urb \<and> urb_setup_packet urb' = urb_setup_packet urb) \<and>
    urb_transfer_flags urb' = urb_transfer_flags urb \<and>
    unat (urb_actual_length urb') = unat (urb_actual_length urb) + unat len \<and>
    vr_length r' = vr_length r \<and> vr_actual r' = vr_actual r + len \<and>
    urb_transfer_buffer_length urb' = urb_transfer_buffer_length urb \<and>
    urb_actual_length urb' = urb_actual_length urb + len \<and>
    (usb_pipein (urb_pipe urb) \<longrightarrow> pending r' = drop (unat len) (pending r) \<and>
       buffer_of urb' = overwrite (unat (urb_actual_length urb)) (take (unat len) (pending r)) (buffer_of urb))"
proof -
  let ?a = "urb_actual_length urb" and ?b = "vr_actual r"
  have au: "unat (?a + len) = unat ?a + unat len" "?a + len \<le> urb_transfer_buffer_length urb"
    using unat_add_le [OF _ assms(3)] assms(2) by (auto simp: v_urb_ok_def)
  have ar: "unat (?b + len) = unat ?b + unat len" "?b + len \<le> vr_length r"
    using unat_add_le [OF _ assms(4)] assms(1) by (auto simp: request_ok_def)
  have lu: "unat ?a + unat len \<le> length (buffer_of urb)" using au assms(2) by (simp add: v_urb_ok_def word_le_nat_alt)
  have lr: "unat ?b + unat len \<le> unat (vr_length r)" "unat (vr_length r) \<le> length (vr_buf r)"
    using ar assms(1) by (auto simp: request_ok_def word_le_nat_alt)
  have kr: "kvec (vr_buf r) (unat ?b) (unat len) = Some (slice (unat ?b) (unat len) (vr_buf r))"
    and ku: "kvec (buffer_of urb) (unat ?a) (unat len) = Some (slice (unat ?a) (unat len) (buffer_of urb))"
    using lu lr by (auto simp: kvec_def)
  have p: "slice (unat ?b) (unat len) (vr_buf r) = take (unat len) (pending r)"
    unfolding pending_def using lr by (intro slice_take_drop(1)) simp
  have wr: "write_at (buffer_of urb) (unat ?a) (slice (unat ?b) (unat len) (vr_buf r)) =
      Some (overwrite (unat ?a) (slice (unat ?b) (unat len) (vr_buf r)) (buffer_of urb))"
    and ww: "write_at (vr_buf r) (unat ?b) (slice (unat ?a) (unat len) (buffer_of urb)) =
      Some (overwrite (unat ?b) (slice (unat ?a) (unat len) (buffer_of urb)) (vr_buf r))"
    using lu lr by (auto simp: write_at_def)
  show ?thesis
  proof (cases "usb_pipein (urb_pipe urb)")
    case True
    let ?o = "overwrite (unat ?a) (slice (unat ?b) (unat len) (vr_buf r)) (buffer_of urb)"
    let ?u = "put_buffer ?o (urb\<lparr>urb_actual_length := ?a + len\<rparr>)" and ?r = "r\<lparr>vr_actual := ?b + len\<rparr>"
    have lo: "length ?o = length (buffer_of urb)" using lu lr by (intro length_overwrite) simp
    have "move_data len urb r = Some (?u, ?r)" using True kr wr by (simp add: move_data_def Let_def)
    moreover have "v_urb_ok ?u" "buffer_of ?u = ?o"
      using assms(2) au lo by (simp_all add: v_urb_ok_def buffer_put_buffer)
    moreover have "request_ok ?r" using ar assms(1) by (simp add: request_ok_def)
    moreover have "pending ?r = drop (unat len) (pending r)"
      using ar by (simp add: pending_def flip: slice_take_drop(2))
    ultimately show ?thesis using True au p by simp
  next
    case False
    let ?o = "overwrite (unat ?b) (slice (unat ?a) (unat len) (buffer_of urb)) (vr_buf r)"
    let ?u = "urb\<lparr>urb_actual_length := ?a + len\<rparr>" and ?r = "r\<lparr>vr_actual := ?b + len, vr_buf := ?o\<rparr>"
    have "length ?o = length (vr_buf r)" using lu lr by (intro length_overwrite) simp
    then have "v_urb_ok ?u" "request_ok ?r" using assms(1,2) au ar by (simp_all add: v_urb_ok_def request_ok_def)
    moreover have "move_data len urb r = Some (?u, ?r)" using False ku ww by (simp add: move_data_def Let_def)
    ultimately show ?thesis using False au by simp
  qed
qed

text \<open>One request: both sides stay well-formed, and an IN transfer takes the next bytes of the request.
  While the URB is in progress the request was either given back, with nothing of it left, or the
  scan starts again.\<close>

definition in_moved :: "nat \<Rightarrow> v_urb \<Rightarrow> u8 list \<Rightarrow> v_urb \<Rightarrow> u8 list \<Rightarrow> bool" where
  "in_moved n urb p urb' p' = (usb_pipein (urb_pipe urb) \<longrightarrow> n \<le> length p \<and> p' = drop n p \<and>
     buffer_of urb' = overwrite (unat (urb_actual_length urb)) (take n p) (buffer_of urb))"

definition same_urb :: "v_urb \<Rightarrow> v_urb \<Rightarrow> bool" where
  "same_urb urb urb' = (urb_pipe urb' = urb_pipe urb \<and> urb_unlinked urb' = urb_unlinked urb \<and>
     urb_setup_packet urb' = urb_setup_packet urb \<and>
     urb_transfer_buffer_length urb' = urb_transfer_buffer_length urb)"

lemma v_urb_ok_status [simp]: "v_urb_ok (urb\<lparr>urb_status := st\<rparr>) = v_urb_ok urb"
  by (simp add: v_urb_ok_def)

lemma pending_status [simp]: "pending (r\<lparr>vr_status := st\<rparr>) = pending r"
  by (simp add: pending_def)

lemma ucast_u16_nonzero: "(mp :: u16) \<noteq> 0 \<Longrightarrow> (ucast mp :: u32) \<noteq> 0"
proof
  assume "mp \<noteq> 0" and z: "(ucast mp :: u32) = 0"
  then obtain n where n: "bit mp n" "n < 16" by (auto simp: bit_eq_iff)
  then have "bit (ucast mp :: u32) n" by (simp add: bit_simps)
  then show False by (simp add: z)
qed

lemma move_packets_spec:
  assumes "request_ok r" "v_urb_ok urb" "mp \<noteq> 0"
  shows "\<exists>len sh rest urb' r'. move_packets mp urb r = Some (len, sh, rest, urb', r') \<and>
    v_urb_ok urb' \<and> request_ok r' \<and> same_urb urb urb' \<and> urb_status urb' = urb_status urb \<and>
    vr_zero r' = vr_zero r \<and> urb_transfer_flags urb' = urb_transfer_flags urb \<and>
    unat (urb_actual_length urb') = unat (urb_actual_length urb) + unat len \<and>
    in_moved (unat len) urb (pending r) urb' (pending r') \<and>
    (\<not> sh \<longrightarrow> rest \<or> vr_length r' = vr_actual r' \<or> urb_transfer_buffer_length urb' = urb_actual_length urb')"
proof -
  let ?h = "urb_transfer_buffer_length urb - urb_actual_length urb" and ?d = "vr_length r - vr_actual r"
  let ?l = "min ?h ?d" and ?m = "ucast mp :: u32"
  have m0: "?m \<noteq> 0" using assms(3) by (rule ucast_u16_nonzero)
  show ?thesis
  proof (cases "?l = 0")
    case True
    then show ?thesis using assms by (auto simp: move_packets_def Let_def in_moved_def same_urb_def overwrite_def)
  next
    case False
    define sh len where "sh = (?l < ?m)" and "len = (if sh then ?l else ?l - ?l mod ?m)"
    have "?l mod ?m \<le> ?l" by (simp add: word_le_nat_alt unat_mod)
    from word_sub_le [OF this] have "len \<le> ?l" by (simp add: len_def)
    then have le: "len \<le> ?h" "len \<le> ?d" by auto
    obtain urb' r' where mv: "move_data len urb r = Some (urb', r')" "v_urb_ok urb'" "request_ok r'"
      "vr_zero r' = vr_zero r" "urb_status urb' = urb_status urb" "urb_pipe urb' = urb_pipe urb"
      "urb_unlinked urb' = urb_unlinked urb \<and> urb_setup_packet urb' = urb_setup_packet urb" "urb_transfer_flags urb' = urb_transfer_flags urb"
      "unat (urb_actual_length urb') = unat (urb_actual_length urb) + unat len"
      "vr_length r' = vr_length r" "vr_actual r' = vr_actual r + len"
      "urb_transfer_buffer_length urb' = urb_transfer_buffer_length urb"
      "urb_actual_length urb' = urb_actual_length urb + len"
      "usb_pipein (urb_pipe urb) \<Longrightarrow> pending r' = drop (unat len) (pending r)"
      "usb_pipein (urb_pipe urb) \<Longrightarrow>
        buffer_of urb' = overwrite (unat (urb_actual_length urb)) (take (unat len) (pending r)) (buffer_of urb)"
      using move_data_spec [OF assms(1,2) le] by blast
    have "unat len \<le> length (pending r)"
      using le(2) assms(1) by (simp add: length_pending word_le_nat_alt request_ok_def unat_sub)
    then have i: "in_moved (unat len) urb (pending r) urb' (pending r')" using mv(14,15) by (simp add: in_moved_def)
    have "\<not> ?l mod ?m > 0 \<Longrightarrow> \<not> sh \<Longrightarrow> len = ?l" by (simp add: len_def word_gt_0)
    then have e: "\<not> sh \<longrightarrow> (\<not> sh \<and> ?l mod ?m > 0) \<or> vr_length r' = vr_actual r' \<or>
        urb_transfer_buffer_length urb' = urb_actual_length urb'"
      using mv(10-13) by (auto simp: min_def split: if_splits)
    have "move_packets mp urb r = Some (len, sh, \<not> sh \<and> ?l mod ?m > 0, urb', r')"
      using False m0 mv(1) by (simp add: move_packets_def Let_def sh_def len_def)
    then show ?thesis using mv i e by (simp add: same_urb_def)
  qed
qed

lemma transfer_one_spec:
  assumes "request_ok r" "v_urb_ok urb" "mp \<noteq> 0"
  shows "\<exists>len again urb' r'. transfer_one mp urb r = Some (len, again, urb', r') \<and>
    v_urb_ok urb' \<and> (vr_status r' = - EINPROGRESS \<longrightarrow> request_ok r') \<and> same_urb urb urb' \<and>
    unat (urb_actual_length urb') = unat (urb_actual_length urb) + unat len \<and>
    in_moved (unat len) urb (pending r) urb' (pending r') \<and>
    (urb_status urb' = - EINPROGRESS \<longrightarrow>
       (if vr_status r' = - EINPROGRESS then again else pending r' = []))"
proof -
  obtain len sh rest urb1 r1 where mv: "move_packets mp urb r = Some (len, sh, rest, urb1, r1)"
    "v_urb_ok urb1" "request_ok r1" "same_urb urb urb1" "urb_status urb1 = urb_status urb"
    "vr_zero r1 = vr_zero r" "urb_transfer_flags urb1 = urb_transfer_flags urb"
    "unat (urb_actual_length urb1) = unat (urb_actual_length urb) + unat len"
    "in_moved (unat len) urb (pending r) urb1 (pending r1)"
    "\<not> sh \<Longrightarrow> rest \<or> vr_length r1 = vr_actual r1 \<or> urb_transfer_buffer_length urb1 = urb_actual_length urb1"
    using move_packets_spec [OF assms] by blast
  have p: "vr_length r1 = vr_actual r1 \<Longrightarrow> pending r1 = []" by (simp add: pending_def)
  show ?thesis
  proof (cases sh)
    case True
    obtain urb2 r2 where s: "short_status (urb_transfer_buffer_length urb - urb_actual_length urb)
        (vr_length r - vr_actual r) urb1 r1 = (urb2, r2)" by fastforce
    then have "urb_status urb2 \<noteq> - EINPROGRESS" "v_urb_ok urb2" "vr_status r2 \<noteq> - EINPROGRESS" "same_urb urb urb2"
      "urb_actual_length urb2 = urb_actual_length urb1" "buffer_of urb2 = buffer_of urb1" "pending r2 = pending r1"
      using mv(2,4) by (auto simp: short_status_def same_urb_def split: if_splits)
    then show ?thesis using True mv(1,8,9) s by (simp add: transfer_one_def in_moved_def)
  next
    case False
    obtain again urb2 r2 where s: "whole_status urb1 r1 = (again, urb2, r2)" by (cases "whole_status urb1 r1") auto
    then have "v_urb_ok urb2" "same_urb urb urb2" "vr_status r2 = - EINPROGRESS \<longrightarrow> request_ok r2"
      "urb_actual_length urb2 = urb_actual_length urb1" "buffer_of urb2 = buffer_of urb1" "pending r2 = pending r1"
      "urb_status urb2 = - EINPROGRESS \<longrightarrow> (if vr_status r2 = - EINPROGRESS then rest \<or> again else pending r2 = [])"
      using mv(2,3,4) mv(10) [OF False] p
      by (auto simp: whole_status_def same_urb_def Let_def request_ok_def split: if_splits)
    then show ?thesis using False mv(1,8,9) s by (simp add: transfer_one_def in_moved_def)
  qed
qed

lemma unat_sum_word: "unat (x :: u32) = unat a + unat b \<Longrightarrow> x = a + b"
  by (drule arg_cong [of _ _ "word_of_nat :: nat \<Rightarrow> u32"]) simp

lemma overwrite_overwrite:
  "length xs = k \<Longrightarrow> a + k + length ys \<le> length b \<Longrightarrow>
   overwrite (a + k) ys (overwrite a xs b) = overwrite a (xs @ ys) b"
  by (simp add: overwrite_def ac_simps)

text \<open>The state of endpoint \<open>i\<close> after one request at the head of its queue.\<close>

definition after_one ::
  "('c, 'k) vudc_kernel_scheme \<Rightarrow> nat \<Rightarrow> nat \<Rightarrow> vrequest \<Rightarrow> vudc \<Rightarrow> 'c \<Rightarrow> vudc \<times> 'c" where
  "after_one K i pos r v c =
     (let rs = ve_reqs (uc_ep v ! i) in
      if vr_status r \<noteq> - EINPROGRESS
      then usb_gadget_giveback_request K i r (upd_ep i (\<lambda>e. e\<lparr>ve_reqs := take pos rs @ drop (Suc pos) rs\<rparr>) v) c
      else (upd_ep i (\<lambda>e. e\<lparr>ve_reqs := rs[pos := r]\<rparr>) v, c))"

lemma transfer_loop_step:
  assumes "pos < length (ve_reqs (uc_ep v ! i))"
    "transfer_one (ve_maxpacket (uc_ep v ! i)) urb (ve_reqs (uc_ep v ! i) ! pos) = Some (len, again, urb', r')"
    "after_one K i pos r' v c = (v', c')"
  shows "transfer_loop K i pos sent urb v c =
    (if urb_status urb' \<noteq> - EINPROGRESS then Some (sent + len, urb', v', c')
     else transfer_loop K i (if vr_status r' \<noteq> - EINPROGRESS \<or> again then 0 else Suc pos) (sent + len) urb' v' c')"
  using assms by (subst transfer_loop.simps) (auto simp: after_one_def Let_def split: prod.splits if_splits)

lemma after_one_ok:
  assumes "gadget_ok K" "vudc_ok v" "i < VIRTUAL_ENDPOINTS" "pos < length (ve_reqs (uc_ep v ! i))"
    "vr_status r = - EINPROGRESS \<Longrightarrow> request_ok r" "after_one K i pos r v c = (v', c')"
  shows "vudc_ok v'" "uc_driver v' = uc_driver v"
proof -
  have e: "ep_ok i (uc_ep v ! i)" by (rule vudc_ok_ep [OF assms(2,3)])
  have "vudc_ok v' \<and> uc_driver v' = uc_driver v"
  proof (cases "vr_status r = - EINPROGRESS")
    case True
    have "ep_ok i ((uc_ep v ! i)\<lparr>ve_reqs := (ve_reqs (uc_ep v ! i))[pos := r]\<rparr>)"
      using e assms(5) [OF True] set_update_subset_insert [of "ve_reqs (uc_ep v ! i)" pos r] by (auto simp: ep_ok_def)
    then have "vudc_ok (upd_ep i (\<lambda>e. e\<lparr>ve_reqs := (ve_reqs (uc_ep v ! i))[pos := r]\<rparr>) v)"
      by (intro vudc_ok_upd_ep [OF assms(2)]) simp
    then show ?thesis using assms(6) True by (auto simp: after_one_def upd_ep_def)
  next
    case False
    let ?v = "upd_ep i (\<lambda>e. e\<lparr>ve_reqs := take pos (ve_reqs (uc_ep v ! i)) @ drop (Suc pos) (ve_reqs (uc_ep v ! i))\<rparr>) v"
    have "ep_ok i ((uc_ep v ! i)\<lparr>ve_reqs := take pos (ve_reqs (uc_ep v ! i)) @ drop (Suc pos) (ve_reqs (uc_ep v ! i))\<rparr>)"
      using e by (auto simp: ep_ok_def dest: in_set_takeD in_set_dropD)
    then have "vudc_ok ?v" by (intro vudc_ok_upd_ep [OF assms(2)]) simp
    from gadget_okD(4,6) [OF assms(1) this, of i r c] show ?thesis
      using assms(6) False by (auto simp: after_one_def Let_def upd_ep_def)
  qed
  then show "vudc_ok v'" "uc_driver v' = uc_driver v" by auto
qed

lemma same_urb_trans: "same_urb a b \<Longrightarrow> same_urb b c \<Longrightarrow> same_urb a c" by (simp add: same_urb_def)

text \<open>No transfer leaves the buffers, and the controller stays well-formed.\<close>

lemma transfer_loop_ok:
  assumes "gadget_ok K" "i < VIRTUAL_ENDPOINTS" "vudc_ok v" "v_urb_ok urb"
  shows "\<exists>sent' urb' v' c'. transfer_loop K i pos sent urb v c = Some (sent', urb', v', c') \<and>
    v_urb_ok urb' \<and> vudc_ok v' \<and> same_urb urb urb' \<and> uc_driver v' = uc_driver v \<and>
    sent' - sent = urb_actual_length urb' - urb_actual_length urb"
  using assms(3,4)
proof (induction "unat (urb_transfer_buffer_length urb - urb_actual_length urb)" arbitrary: pos sent urb v c
    rule: less_induct)
  case less
  let ?rs = "ve_reqs (uc_ep v ! i)"
  show ?case
  proof (cases "pos < length ?rs")
    case False
    then show ?thesis using less.prems by (subst transfer_loop.simps) (simp add: same_urb_def)
  next
    case True
    have e: "ep_ok i (uc_ep v ! i)" by (rule vudc_ok_ep [OF less.prems(1) assms(2)])
    then have r: "request_ok (?rs ! pos)" "ve_maxpacket (uc_ep v ! i) \<noteq> 0" using True by (auto simp: ep_ok_def)
    obtain len again urb1 r1 where o: "transfer_one (ve_maxpacket (uc_ep v ! i)) urb (?rs ! pos) = Some (len, again, urb1, r1)"
      "v_urb_ok urb1" "vr_status r1 = - EINPROGRESS \<Longrightarrow> request_ok r1" "same_urb urb urb1"
      "unat (urb_actual_length urb1) = unat (urb_actual_length urb) + unat len"
      using transfer_one_spec [OF r(1) less.prems(2) r(2)] by blast
    obtain v1 c1 where a: "after_one K i pos r1 v c = (v1, c1)" by fastforce
    note ok = after_one_ok [OF assms(1) less.prems(1) assms(2) True o(3) a]
    note st = transfer_loop_step [OF True o(1) a, of sent]
    note len = unat_sum_word [OF o(5)]
    show ?thesis
    proof (cases "urb_status urb1 = - EINPROGRESS")
      case False
      then show ?thesis using st o(2,4) ok len by simp
    next
      case c: True
      from less.hyps [OF transfer_one_progress [OF o(1) c] ok(1) o(2)] obtain sent' urb' v' c' where
        ih: "transfer_loop K i (if vr_status r1 \<noteq> - EINPROGRESS \<or> again then 0 else Suc pos) (sent + len) urb1 v1 c1 = Some (sent', urb', v', c')"
        "v_urb_ok urb'" "vudc_ok v'" "same_urb urb1 urb'" "uc_driver v' = uc_driver v1"
        "sent' - (sent + len) = urb_actual_length urb' - urb_actual_length urb1" by blast
      have "sent' - sent = urb_actual_length urb' - urb_actual_length urb"
        using ih(6) unfolding len by (simp add: algebra_simps)
      then show ?thesis using st c ih(1-5) ok(2) same_urb_trans [OF o(4) ih(4)] by simp
    qed
  qed
qed

section \<open>How much an IN transfer moves\<close>

text \<open>What is left to move of a request, and the room in the buffer of a URB.\<close>

definition left :: "vrequest \<Rightarrow> nat" where
  "left r = unat (vr_length r) - unat (vr_actual r)"

definition room :: "v_urb \<Rightarrow> nat" where
  "room urb = unat (urb_transfer_buffer_length urb) - unat (urb_actual_length urb)"

text \<open>How many bytes a URB with room for \<open>h\<close> bytes gets from requests that are given by what is left
  of them and by whether they want an empty packet at the end: the next request is used up as long as
  it fits with room to spare, ends on a packet boundary and wants no empty packet; the first other one
  ends the transfer, with the bytes that fit.\<close>

fun served :: "nat \<Rightarrow> nat \<Rightarrow> (nat \<times> bool) list \<Rightarrow> nat" where
  "served mp h [] = 0"
| "served mp h ((d, zero) # rs) =
     (if 0 < d \<and> d < h \<and> d mod mp = 0 \<and> \<not> zero then d + served mp (h - d) rs else min h d)"

lemma served_rest: "0 < mp \<Longrightarrow> min h d mod mp \<noteq> 0 \<Longrightarrow> k = min h d - min h d mod mp \<Longrightarrow>
  served mp h ((d, z) # rs) = k + served mp (h - k) ((d - k, z) # rs)"
proof -
  assume a: "0 < mp" "min h d mod mp \<noteq> 0" "k = min h d - min h d mod mp"
  let ?m = "min h d mod mp"
  have m: "?m < mp" using a by simp
  have l: "?m \<le> min h d" by (rule mod_less_eq_dividend)
  have e: "min (h - k) (d - k) = ?m" using l a(3) by linarith
  show ?thesis
  proof (cases "d < h")
    case True
    then have "d - k = ?m" "min h d = d" using l a(3) by linarith+
    then show ?thesis using True a m e by (simp add: min_def split: if_splits)
  next
    case False
    then show ?thesis using a m e l by auto
  qed
qed

lemma unat_min: "unat (min (a :: u32) b) = min (unat a) (unat b)"
  by (simp add: min_def word_le_nat_alt)

lemma unat_ucast_mp: "unat (ucast (mp :: u16) :: u32) = unat mp"
proof -
  have "unat mp < 2 ^ 16" using unsigned_less [of mp, where 'a = nat] by simp
  then have "unat mp < 2 ^ 32" by simp
  then show ?thesis by (simp add: unsigned_ucast_eq take_bit_nat_eq_self)
qed

lemma transfer_one_served:
  assumes r: "request_ok r" and u: "v_urb_ok urb" and mp: "mp \<noteq> 0" and i: "usb_pipein (urb_pipe urb)"
    and st: "urb_status urb = - EINPROGRESS"
    and o: "transfer_one mp urb r = Some (len, again, urb', r')"
  shows "if urb_status urb' \<noteq> - EINPROGRESS
    then served (unat mp) (room urb) ((left r, vr_zero r) # rs) = unat len
    else room urb' = room urb - unat len \<and> served (unat mp) (room urb) ((left r, vr_zero r) # rs) = unat len +
      (if vr_status r' = - EINPROGRESS
       then served (unat mp) (room urb - unat len) ((left r - unat len, vr_zero r) # rs)
       else served (unat mp) (room urb - unat len) rs)"
proof -
  let ?h = "urb_transfer_buffer_length urb - urb_actual_length urb" and ?d = "vr_length r - vr_actual r"
  let ?l = "min ?h ?d" and ?m = "ucast mp :: u32"
  have h: "unat ?h = room urb" using u by (simp add: room_def v_urb_ok_def unat_sub)
  have d: "unat ?d = left r" using r by (simp add: left_def request_ok_def unat_sub)
  have l: "unat ?l = min (room urb) (left r)" by (simp add: unat_min h d)
  have m: "unat ?m = unat mp" "?m \<noteq> 0" "0 < unat mp" 
    using mp by (simp_all add: unat_ucast_mp ucast_u16_nonzero unat_gt_0)
  have mv: "\<exists>urb1 r1. move_data k urb r = Some (urb1, r1) \<and> vr_zero r1 = vr_zero r \<and> urb_status urb1 = - EINPROGRESS \<and>
      vr_status r1 = - EINPROGRESS \<and> urb_pipe urb1 = urb_pipe urb \<and>
      vr_length r1 = vr_length r \<and> vr_actual r1 = vr_actual r + k \<and>
      urb_transfer_buffer_length urb1 = urb_transfer_buffer_length urb \<and>
      urb_actual_length urb1 = urb_actual_length urb + k" if "k \<le> ?l" for k
    using move_data_spec [OF r u, of k] that st by (fastforce simp: request_ok_def)
  show ?thesis
  proof (cases "?l < ?m")
    case True
    then have small: "min (room urb) (left r) < unat mp" using l m by (simp add: word_less_nat_alt)
    obtain urb1 r1 where v: "move_packets mp urb r = Some (?l, True, False, urb1, r1)"
      using mv [of ?l] True m(2) by (cases "?l = 0") (auto simp: move_packets_def Let_def)
    then have "urb_status urb' \<noteq> - EINPROGRESS" "len = ?l"
      using o by (auto simp: transfer_one_def short_status_def split: if_splits)
    moreover have "served (unat mp) (room urb) ((left r, vr_zero r) # rs) = min (room urb) (left r)"
      using small by auto
    ultimately show ?thesis by (simp add: l)
  next
    case False
    then have l0: "?l \<noteq> 0" using m(1,3) by (auto simp: word_less_nat_alt)
    let ?k = "?l - ?l mod ?m"
    have kl: "?k \<le> ?l" by (rule word_sub_le) (simp add: word_le_nat_alt unat_mod)
    obtain urb1 r1 where v: "move_data ?k urb r = Some (urb1, r1)" "vr_zero r1 = vr_zero r"
      "urb_status urb1 = - EINPROGRESS" "vr_status r1 = - EINPROGRESS" "urb_pipe urb1 = urb_pipe urb"
      "vr_length r1 = vr_length r" "vr_actual r1 = vr_actual r + ?k"
      "urb_transfer_buffer_length urb1 = urb_transfer_buffer_length urb"
      "urb_actual_length urb1 = urb_actual_length urb + ?k"
      using mv [OF kl] by blast
    have p: "move_packets mp urb r = Some (?k, False, ?l mod ?m > 0, urb1, r1)"
      using False l0 m(2) v(1) by (simp add: move_packets_def Let_def)
    have uk: "unat ?k = min (room urb) (left r) - min (room urb) (left r) mod unat mp"
      using l m(1) mod_less_eq_dividend [of "min (room urb) (left r)" "unat mp"]
      by (subst unat_sub) (simp_all add: word_le_nat_alt unat_mod)
    have kh: "?k \<le> ?h" "?k \<le> ?d" using kl by auto
    have he: "urb_transfer_buffer_length urb1 = urb_actual_length urb1 \<longleftrightarrow> room urb = unat ?k"
    proof -
      have "urb_transfer_buffer_length urb1 = urb_actual_length urb1 \<longleftrightarrow> ?h = ?k"
        by (auto simp: v algebra_simps)
      then show ?thesis by (simp add: word_unat_eq_iff h)
    qed
    have de: "vr_length r1 = vr_actual r1 \<longleftrightarrow> left r = unat ?k"
    proof -
      have "vr_length r1 = vr_actual r1 \<longleftrightarrow> ?d = ?k" by (auto simp: v algebra_simps)
      then show ?thesis by (simp add: word_unat_eq_iff d)
    qed
    have rm: "room urb1 = room urb - unat ?k"
    proof -
      have "unat (urb_actual_length urb + ?k) = unat (urb_actual_length urb) + unat ?k"
        using unat_add_le [OF _ kh(1)] u by (simp add: v_urb_ok_def)
      then show ?thesis by (simp add: room_def v)
    qed
    obtain ag where w: "whole_status urb1 r1 = (ag, urb', r')" "len = ?k"
      using o p by (auto simp: transfer_one_def Let_def split: prod.splits)
    have us: "urb_status urb' = (if room urb = unat ?k then 0 else - EINPROGRESS)" "room urb' = room urb1"
      "vr_status r' = (if left r = unat ?k \<and> \<not> vr_zero r then 0 else - EINPROGRESS)"
      using w(1) i v(2-5) he de by (auto simp: whole_status_def Let_def room_def split: if_splits)
    show ?thesis
    proof (cases "min (room urb) (left r) mod unat mp = 0")
      case True
      then have k: "unat ?k = min (room urb) (left r)" using uk by simp
      show ?thesis
      proof (cases "room urb = unat ?k")
        case h: True
        then show ?thesis using us(1) w(2) k by auto
      next
        case False
        then have "unat ?k = left r" "left r < room urb" using k by (auto simp: min_def split: if_splits)
        moreover have "0 < left r" using l0 l calculation by (auto simp: unat_eq_0 [symmetric] simp del: unat_eq_0)
        moreover have "left r mod unat mp = 0" using True calculation by (simp add: min_def split: if_splits)
        ultimately show ?thesis using us rm w(2) by auto
      qed
    next
      case False
      note s = served_rest [OF m(3) False uk, of "vr_zero r" rs]
      have "min (room urb) (left r) mod unat mp \<le> min (room urb) (left r)" by (rule mod_less_eq_dividend)
      then have "unat ?k < min (room urb) (left r)" using False uk by linarith
      then show ?thesis using us rm w(2) s by auto
    qed
  qed
qed

text \<open>What the gadget driver does to the queue of an endpoint when a request of it completes: it may queue
  requests there, or it leaves the queue alone.\<close>

definition append_only :: "('c, 'k) vudc_kernel_scheme \<Rightarrow> nat \<Rightarrow> bool" where
  "append_only K i = (\<forall>r v c. let e = uc_ep v ! i; e' = uc_ep (fst (usb_gadget_giveback_request K i r v c)) ! i in
     ve_maxpacket e' = ve_maxpacket e \<and> (\<exists>new. ve_reqs e' = ve_reqs e @ new))"

definition queue_stable :: "('c, 'k) vudc_kernel_scheme \<Rightarrow> nat \<Rightarrow> bool" where
  "queue_stable K i = (\<forall>r v c. ve_reqs (uc_ep (fst (usb_gadget_giveback_request K i r v c)) ! i) = ve_reqs (uc_ep v ! i))"

lemma append_onlyD:
  assumes "append_only K i"
  shows "ve_maxpacket (uc_ep (fst (usb_gadget_giveback_request K i r v c)) ! i) = ve_maxpacket (uc_ep v ! i)"
    "\<exists>new. ve_reqs (uc_ep (fst (usb_gadget_giveback_request K i r v c)) ! i) = ve_reqs (uc_ep v ! i) @ new"
  using assms unfolding append_only_def Let_def by blast+

lemma queue_stableD:
  "queue_stable K i \<Longrightarrow> ve_reqs (uc_ep (fst (usb_gadget_giveback_request K i r v c)) ! i) = ve_reqs (uc_ep v ! i)"
  by (simp add: queue_stable_def)

text \<open>The bytes of the requests, one after the other.\<close>

definition stream_of :: "vrequest list \<Rightarrow> u8 list" where
  "stream_of rs = concat (map pending rs)"

definition sizes_of :: "vrequest list \<Rightarrow> (nat \<times> bool) list" where
  "sizes_of rs = map (\<lambda>r. (left r, vr_zero r)) rs"

lemma stream_of_simps [simp]: "stream_of [] = []" "stream_of (r # rs) = pending r @ stream_of rs"
  "stream_of (rs @ ss) = stream_of rs @ stream_of ss" by (simp_all add: stream_of_def)

lemma sizes_of_simps [simp]: "sizes_of [] = []" "sizes_of (r # rs) = (left r, vr_zero r) # sizes_of rs"
  "sizes_of (rs @ ss) = sizes_of rs @ sizes_of ss" by (simp_all add: sizes_of_def)

lemma length_stream_of: "\<forall>r\<in>set rs. request_ok r \<Longrightarrow> length (stream_of rs) = sum_list (map fst (sizes_of rs))"
  by (induction rs) (simp_all add: length_pending left_def)

lemma served_le: "served mp h rs \<le> sum_list (map fst rs)" "served mp h rs \<le> h"
proof -
  show "served mp h rs \<le> sum_list (map fst rs)"
    by (induction mp h rs rule: served.induct) auto
  show "served mp h rs \<le> h" by (induction mp h rs rule: served.induct) auto
qed


lemma transfer_one_left:
  assumes r: "request_ok r" and u: "v_urb_ok urb" and mp: "mp \<noteq> 0"
    and o: "transfer_one mp urb r = Some (len, again, urb', r')"
  shows "left r' = left r - unat len" "vr_zero r' = vr_zero r"
proof -
  obtain len0 sh rest urb1 r1 where v0: "move_packets mp urb r = Some (len0, sh, rest, urb1, r1)"
    using o by (auto simp: transfer_one_def bind_eq_Some_conv)
  have st: "vr_actual (snd (short_status h d u x)) = vr_actual x" "vr_length (snd (short_status h d u x)) = vr_length x"
    "vr_zero (snd (short_status h d u x)) = vr_zero x" "vr_actual (snd (snd (whole_status u x))) = vr_actual x"
    "vr_length (snd (snd (whole_status u x))) = vr_length x" "vr_zero (snd (snd (whole_status u x))) = vr_zero x" for h d u x
    by (simp_all add: short_status_def whole_status_def Let_def)
  have "len = len0 \<and> r' = (if sh then snd (short_status (urb_transfer_buffer_length urb - urb_actual_length urb)
      (vr_length r - vr_actual r) urb1 r1) else snd (snd (whole_status urb1 r1)))"
    using o v0 by (auto simp: transfer_one_def Let_def split: prod.splits if_splits)
  then have v: "move_packets mp urb r = Some (len, sh, rest, urb1, r1)"
    and r': "vr_actual r' = vr_actual r1" "vr_length r' = vr_length r1" "vr_zero r' = vr_zero r1"
    using v0 by (simp_all add: st)
  let ?h = "urb_transfer_buffer_length urb - urb_actual_length urb" and ?d = "vr_length r - vr_actual r"
  have sub: "x - x mod y \<le> x" for x y :: u32 by (rule word_sub_le) (simp add: word_le_nat_alt unat_mod)
  have "len \<le> min ?h ?d"
    using v by (simp only: move_packets_def Let_def) (auto simp: bind_eq_Some_conv sub simp del: min_le_iff_disj min.bounded_iff split: if_splits)
  moreover have "min ?h ?d \<le> ?d" by simp
  ultimately have le: "len \<le> ?d" by (rule order_trans)
  have "vr_actual r1 = vr_actual r + len \<and> vr_length r1 = vr_length r \<and> vr_zero r1 = vr_zero r"
    using v by (auto simp: move_packets_def move_data_def Let_def bind_eq_Some_conv split: if_splits)
  moreover have "unat (vr_actual r + len) = unat (vr_actual r) + unat len"
    using unat_add_le [OF _ le] r by (simp add: request_ok_def)
  ultimately show "left r' = left r - unat len" "vr_zero r' = vr_zero r" using r' by (simp_all add: left_def)
qed

lemma transfer_loop_served:
  assumes "gadget_ok K" "append_only K i" "i < VIRTUAL_ENDPOINTS" "vudc_ok v" "v_urb_ok urb"
    "usb_pipein (urb_pipe urb)" "urb_status urb = - EINPROGRESS"
    "transfer_loop K i 0 sent urb v c = Some (sent', urb', v', c')"
  shows "\<exists>new n. n = served (unat (ve_maxpacket (uc_ep v ! i))) (room urb) (sizes_of (ve_reqs (uc_ep v ! i) @ new)) \<and>
    (queue_stable K i \<longrightarrow> new = []) \<and> n \<le> length (stream_of (ve_reqs (uc_ep v ! i) @ new)) \<and>
    unat (urb_actual_length urb') = unat (urb_actual_length urb) + n \<and>
    buffer_of urb' = overwrite (unat (urb_actual_length urb)) (take n (stream_of (ve_reqs (uc_ep v ! i) @ new))) (buffer_of urb)"
  using assms(4-8)
proof (induction "unat (urb_transfer_buffer_length urb - urb_actual_length urb)" arbitrary: sent urb v c
    rule: less_induct)
  case less
  let ?rs = "ve_reqs (uc_ep v ! i)" and ?a = "unat (urb_actual_length urb)"
    and ?mp = "ve_maxpacket (uc_ep v ! i)"
  show ?case
  proof (cases ?rs)
    case Nil
    then have "urb' = urb" using less.prems(5) by (subst (asm) transfer_loop.simps) simp
    then show ?thesis using less.prems(2) Nil by (intro exI [of _ "[]"] exI [of _ 0]) (simp add: overwrite_def)
  next
    case (Cons r rs)
    have e: "ep_ok i (uc_ep v ! i)" by (rule vudc_ok_ep [OF less.prems(1) assms(3)])
    then have r: "request_ok r" "?mp \<noteq> 0" using Cons by (auto simp: ep_ok_def)
    obtain len again urb1 r1 where o: "transfer_one ?mp urb (?rs ! 0) = Some (len, again, urb1, r1)"
      "v_urb_ok urb1" "vr_status r1 = - EINPROGRESS \<Longrightarrow> request_ok r1" "same_urb urb urb1"
      "unat (urb_actual_length urb1) = ?a + unat len" "in_moved (unat len) urb (pending r) urb1 (pending r1)"
      "urb_status urb1 = - EINPROGRESS \<Longrightarrow> (if vr_status r1 = - EINPROGRESS then again else pending r1 = [])"
      using transfer_one_spec [OF r(1) less.prems(2) r(2)] Cons by auto
    have o1: "transfer_one ?mp urb r = Some (len, again, urb1, r1)" using o(1) Cons by simp
    note lf = transfer_one_left [OF r(1) less.prems(2) r(2) o1]
    note sv = transfer_one_served [OF r(1) less.prems(2) r(2) less.prems(3,4) o1]
    have pos: "0 < length ?rs" using Cons by simp
    obtain v1 c1 where a: "after_one K i 0 r1 v c = (v1, c1)" by fastforce
    note ok = after_one_ok [OF assms(1) less.prems(1) assms(3) pos o(3) a]
    have b: "unat len \<le> length (pending r)" "pending r1 = drop (unat len) (pending r)"
      "buffer_of urb1 = overwrite ?a (take (unat len) (pending r)) (buffer_of urb)"
      using o(6) less.prems(3) by (auto simp: in_moved_def)
    note st = transfer_loop_step [OF pos o(1) a, of sent]
    show ?thesis
    proof (cases "urb_status urb1 = - EINPROGRESS")
      case False
      then have "urb' = urb1" using st less.prems(5) by simp
      then show ?thesis using b o(5) Cons sv [of "sizes_of rs"] False
        by (intro exI [of _ "[]"] exI [of _ "unat len"]) simp
    next
      case c: True
      then have l: "transfer_loop K i 0 (sent + len) urb1 v1 c1 = Some (sent', urb', v', c')"
        using st less.prems(5) o(7) by (auto split: if_splits)
      obtain new1 where s1: "stream_of (ve_reqs (uc_ep v1 ! i)) = drop (unat len) (stream_of (?rs @ new1))"
        "ve_maxpacket (uc_ep v1 ! i) = ?mp" "queue_stable K i \<longrightarrow> new1 = []"
        "\<And>new. served (unat ?mp) (room urb) (sizes_of (?rs @ new1 @ new)) =
           unat len + served (unat ?mp) (room urb1) (sizes_of (ve_reqs (uc_ep v1 ! i) @ new))"
      proof (cases "vr_status r1 = - EINPROGRESS")
        case True
        then have v1: "v1 = upd_ep i (\<lambda>e. e\<lparr>ve_reqs := r1 # rs\<rparr>) v" using a Cons by (simp add: after_one_def)
        have "\<And>new. served (unat ?mp) (room urb) (sizes_of (?rs @ [] @ new)) =
           unat len + served (unat ?mp) (room urb1) (sizes_of (ve_reqs (uc_ep v1 ! i) @ new))"
          using sv True c lf by (simp add: v1 Cons uc_ep_upd_ep [OF less.prems(1) assms(3)])
        then show ?thesis using that [of "[]"] b v1 Cons uc_ep_upd_ep [OF less.prems(1) assms(3)] by simp
      next
        case False
        let ?v = "upd_ep i (\<lambda>e. e\<lparr>ve_reqs := rs\<rparr>) v"
        have v1: "v1 = fst (usb_gadget_giveback_request K i r1 ?v c)"
          using a Cons False by (simp add: after_one_def)
        have eq: "uc_ep ?v ! i = (uc_ep v ! i)\<lparr>ve_reqs := rs\<rparr>" by (rule uc_ep_upd_ep [OF less.prems(1) assms(3)])
        obtain new1 where n: "ve_reqs (uc_ep v1 ! i) = rs @ new1" "ve_maxpacket (uc_ep v1 ! i) = ?mp"
          using append_onlyD [OF assms(2), of r1 ?v c] eq unfolding v1 by auto
        have "queue_stable K i \<longrightarrow> new1 = []" using n(1) eq queue_stableD [of K i r1 ?v c] unfolding v1 by auto
        moreover have "unat len = length (pending r)" using o(7) [OF c] False b by simp
        moreover have "\<And>new. served (unat ?mp) (room urb) (sizes_of (?rs @ new1 @ new)) =
           unat len + served (unat ?mp) (room urb1) (sizes_of (ve_reqs (uc_ep v1 ! i) @ new))"
          using sv False c by (simp add: n Cons)
        ultimately show ?thesis using that [of new1] n Cons by simp
      qed
      have "usb_pipein (urb_pipe urb1)" using o(4) less.prems(3) by (simp add: same_urb_def)
      from less.hyps [OF transfer_one_progress [OF o(1) c] ok(1) o(2) this c l] obtain new2 n where
        n: "n = served (unat ?mp) (room urb1) (sizes_of (ve_reqs (uc_ep v1 ! i) @ new2))"
          "queue_stable K i \<longrightarrow> new2 = []" "n \<le> length (stream_of (ve_reqs (uc_ep v1 ! i) @ new2))"
          "unat (urb_actual_length urb') = unat (urb_actual_length urb1) + n"
          "buffer_of urb' = overwrite (unat (urb_actual_length urb1))
             (take n (stream_of (ve_reqs (uc_ep v1 ! i) @ new2))) (buffer_of urb1)" unfolding s1(2) by blast
      let ?S = "stream_of (?rs @ new1 @ new2)"
      have S: "stream_of (ve_reqs (uc_ep v1 ! i) @ new2) = drop (unat len) ?S"
        "unat len \<le> length (stream_of (?rs @ new1))"
        using s1(1) b(1) Cons by simp_all
      obtain x y z where "transfer_loop K i 0 (sent + len) urb1 v1 c1 = Some (x, urb', y, z)" "v_urb_ok urb'" "same_urb urb1 urb'"
        using transfer_loop_ok [OF assms(1,3) ok(1) o(2), of 0 "sent + len" c1] l by auto
      then have "unat (urb_actual_length urb') \<le> length (buffer_of urb)"
        using less.prems(2) o(4) by (simp add: v_urb_ok_def same_urb_def word_le_nat_alt)
      moreover define T where "T = drop (unat len) ?S"
      have nT: "n \<le> length T" using n(3) S(1) by (simp only: T_def)
      ultimately have "buffer_of urb' = overwrite ?a (take (unat len) (pending r) @ take n T) (buffer_of urb)"
        unfolding n(5) o(5) b(3) S(1) T_def [symmetric] using n(4) o(5) b(1)
        by (intro overwrite_overwrite) simp_all
      moreover have "take (unat len) ?S = take (unat len) (pending r)" using b(1) Cons by simp
      then have "take (unat len) (pending r) @ take n T = take (unat len + n) ?S" by (simp only: take_add T_def)
      moreover have "unat len + n \<le> length ?S" using nT S(2) by (simp add: T_def)
      ultimately show ?thesis
        using n o(5) b(1) S s1(3) s1(4) [of new2] by (intro exI [of _ "new1 @ new2"] exI [of _ "unat len + n"]) auto
    qed
  qed
qed

section \<open>Properties of transfers\<close>

text \<open>C17: whatever lengths the host asks for and the gadget driver queued, a transfer ends, touches no
  byte outside the buffer of the URB and the buffers of the requests, counts what it moved, and
  leaves the URB and the controller well-formed.\<close>

theorem vudc_transfer_in_bounds:
  assumes "gadget_ok K" "i < VIRTUAL_ENDPOINTS" "vudc_ok v" "v_urb_ok urb"
  shows "\<exists>sent urb' v' c'. transfer K urb i v c = Some (sent, urb', v', c') \<and> v_urb_ok urb' \<and> vudc_ok v' \<and>
    urb_transfer_buffer_length urb' = urb_transfer_buffer_length urb \<and>
    sent = urb_actual_length urb' - urb_actual_length urb"
  using transfer_loop_ok [OF assms, of 0 0 c] by (auto simp: transfer_def same_urb_def)

definition demo_in_urb :: v_urb where
  "demo_in_urb = \<lparr>urb_pipe = 0x80, urb_transfer_flags = 0, urb_transfer_buffer = Some (replicate 8 0),
     urb_transfer_buffer_length = 8, urb_actual_length = 0, urb_status = - EINPROGRESS, urb_start_frame = 0,
     urb_number_of_packets = 0, urb_interval = 0, urb_error_count = 0, urb_setup_packet = Some (replicate 8 0),
     urb_iso_frame_desc = [], urb_unlinked = 0\<rparr>"

lemma demo_in_urb_ok: "v_urb_ok demo_in_urb" "usb_pipein (urb_pipe demo_in_urb)"
  by (simp_all add: v_urb_ok_def demo_in_urb_def buffer_of_def usb_pipein_def)

theorem vudc_transfer_in_bounds_witness:
  "\<exists>sent urb' v' c'. transfer demo_vudc_kernel demo_in_urb 2 demo_vudc [] = Some (sent, urb', v', c') \<and> v_urb_ok urb'"
  using vudc_transfer_in_bounds [OF demo_gadget_ok(1) _ demo_vudc_ok demo_in_urb_ok(1), of 2 "[]"]
  by (auto simp: VIRTUAL_ENDPOINTS_def)

text \<open>C18: an IN transfer is a stream: the buffer of the URB gets the next bytes of the requests of the
  gadget driver, in the order they were queued, exactly as many as \<open>served\<close> says.  A gadget driver
  may queue further requests when one completes, \<open>new\<close>, which come after those that wait; that is
  all its completion does to the queue of the endpoint.  The URB is in progress.\<close>

theorem vudc_in_transfer_stream:
  assumes "gadget_ok K" "append_only K i" "i < VIRTUAL_ENDPOINTS" "vudc_ok v" "v_urb_ok urb"
    "usb_pipein (urb_pipe urb)" "urb_status urb = - EINPROGRESS" "transfer K urb i v c = Some (sent, urb', v', c')"
  shows "\<exists>new n. n = served (unat (ve_maxpacket (uc_ep v ! i))) (room urb) (sizes_of (ve_reqs (uc_ep v ! i) @ new)) \<and>
    (queue_stable K i \<longrightarrow> new = []) \<and> n \<le> length (stream_of (ve_reqs (uc_ep v ! i) @ new)) \<and>
    unat (urb_actual_length urb') = unat (urb_actual_length urb) + n \<and>
    buffer_of urb' = overwrite (unat (urb_actual_length urb)) (take n (stream_of (ve_reqs (uc_ep v ! i) @ new))) (buffer_of urb)"
  using transfer_loop_served [OF assms(1-7)] assms(8) by (simp add: transfer_def)

lemma demo_queue_stable: "queue_stable demo_vudc_kernel i" "append_only demo_vudc_kernel i"
  by (simp_all add: queue_stable_def append_only_def demo_vudc_kernel_def)

lemma demo_transfer:
  "transfer demo_vudc_kernel demo_in_urb 2 demo_vudc [] = Some (4, demo_in_urb\<lparr>urb_transfer_buffer :=
     Some [1, 2, 3, 4, 0, 0, 0, 0], urb_actual_length := 4, urb_status := 0\<rparr>,
     upd_ep 2 (\<lambda>e. e\<lparr>ve_reqs := []\<rparr>) demo_vudc, [])"
proof -
  have l: "uc_ep demo_vudc ! 2 = demo_ep 2" by (simp add: demo_vudc_def VIRTUAL_ENDPOINTS_def numeral_2_eq_2)
  have r: "ve_reqs (demo_ep 2) = [demo_request\<lparr>vr_status := - EINPROGRESS\<rparr>]" "ve_maxpacket (demo_ep 2) = 64"
    by (simp_all add: demo_ep_def)
  have "transfer_one 64 demo_in_urb (demo_request\<lparr>vr_status := - EINPROGRESS\<rparr>) = Some (4, False,
     demo_in_urb\<lparr>urb_transfer_buffer := Some [1, 2, 3, 4, 0, 0, 0, 0], urb_actual_length := 4, urb_status := 0\<rparr>,
     demo_request\<lparr>vr_actual := 4, vr_status := 0\<rparr>)"
    by code_simp
  then show ?thesis
    unfolding transfer_def
    by (subst transfer_loop.simps) (simp add: l r demo_vudc_kernel_def demo_in_urb_def upd_ep_def)
qed

theorem vudc_in_transfer_stream_witness:
  "served 64 8 [(4, False)] = 4 \<and> [1, 2, 3, 4, 0, 0, 0, 0] = overwrite 0 (take 4 (stream_of (ve_reqs (uc_ep demo_vudc ! 2)))) (replicate 8 0)"
proof -
  have v: "2 < VIRTUAL_ENDPOINTS" "urb_status demo_in_urb = - EINPROGRESS"
    by (simp_all add: VIRTUAL_ENDPOINTS_def demo_in_urb_def)
  have l: "uc_ep demo_vudc ! 2 = demo_ep 2" by (simp add: demo_vudc_def VIRTUAL_ENDPOINTS_def numeral_2_eq_2)
  have e: "ve_maxpacket (demo_ep 2) = 64" "sizes_of (ve_reqs (demo_ep 2)) = [(4, False)]" "room demo_in_urb = 8"
    by (simp_all add: demo_ep_def sizes_of_def left_def demo_request_def room_def demo_in_urb_def)
  from vudc_in_transfer_stream [OF demo_gadget_ok(1) demo_queue_stable(2) v(1) demo_vudc_ok demo_in_urb_ok v(2) demo_transfer]
  have "4 = served 64 8 [(4, False)]" "buffer_of (demo_in_urb\<lparr>urb_transfer_buffer := Some [1, 2, 3, 4, 0, 0, 0, 0],
      urb_actual_length := 4, urb_status := 0\<rparr>) =
    overwrite 0 (take 4 (stream_of (ve_reqs (uc_ep demo_vudc ! 2)))) (buffer_of demo_in_urb)"
    unfolding l using demo_queue_stable(1) e by (auto simp: demo_in_urb_def)
  then show ?thesis by (simp add: buffer_of_def demo_in_urb_def)
qed

section \<open>One run of the timer\<close>

definition urb_seq :: "urbp \<Rightarrow> u32" where "urb_seq p = ucast (ur_seqnum p)"

definition unlinked :: "urbp \<Rightarrow> bool" where
  "unlinked p = (case ur_urb p of None \<Rightarrow> False | Some urb \<Rightarrow> urb_unlinked urb \<noteq> 0)"

fun tx_seq :: "tx_item \<Rightarrow> u32" where
  "tx_seq (TX_SUBMIT p) = urb_seq p"
| "tx_seq (TX_UNLINK ul) = ucast (vn_seqnum ul)"

fun is_unlink :: "tx_item \<Rightarrow> bool" where
  "is_unlink (TX_SUBMIT p) = False"
| "is_unlink (TX_UNLINK ul) = True"

lemma transfer_one_unlinked:
  "transfer_one mp urb r = Some (len, again, urb', r') \<Longrightarrow> urb_unlinked urb' = urb_unlinked urb"
proof -
  assume o: "transfer_one mp urb r = Some (len, again, urb', r')"
  have md: "move_data l urb r = Some (u1, r1) \<Longrightarrow> urb_unlinked u1 = urb_unlinked urb" for l u1 r1
    by (auto simp: move_data_def Let_def bind_eq_Some_conv split: if_splits)
  have mp: "move_packets mp urb r = Some (l, sh, rest, u1, r1) \<Longrightarrow> urb_unlinked u1 = urb_unlinked urb" for l sh rest u1 r1
    by (auto simp: move_packets_def Let_def bind_eq_Some_conv split: if_splits dest: md)
  have "urb_unlinked (fst (short_status h d u1 r1)) = urb_unlinked u1"
    "urb_unlinked (fst (snd (whole_status u1 r1))) = urb_unlinked u1" for h d u1 r1
    by (simp_all add: short_status_def whole_status_def Let_def)
  then show ?thesis using o mp
    by (auto simp: transfer_one_def bind_eq_Some_conv split: if_splits prod.splits) (metis fst_conv snd_conv)+
qed

lemma transfer_loop_unlinked:
  "transfer_loop K i pos sent urb v c = Some (sent', urb', v', c') \<Longrightarrow> urb_unlinked urb' = urb_unlinked urb"
proof (induction "unat (urb_transfer_buffer_length urb - urb_actual_length urb)" arbitrary: pos sent urb v c
    rule: less_induct)
  case less
  show ?case
  proof (cases "pos < length (ve_reqs (uc_ep v ! i))")
    case False
    then show ?thesis using less.prems by (subst (asm) transfer_loop.simps) simp
  next
    case True
    obtain len again urb1 r1 where o: "transfer_one (ve_maxpacket (uc_ep v ! i)) urb (ve_reqs (uc_ep v ! i) ! pos) = Some (len, again, urb1, r1)"
      using less.prems True by (subst (asm) transfer_loop.simps) (auto split: option.splits)
    obtain v1 c1 where a: "after_one K i pos r1 v c = (v1, c1)" by fastforce
    note st = transfer_loop_step [OF True o a, of sent]
    show ?thesis
      using less.prems st less.hyps [OF transfer_one_progress [OF o]] transfer_one_unlinked [OF o]
      by (auto split: if_splits)
  qed
qed

lemma handle_control_unlinked:
  "handle_control_request req urb v = Some (r, urb', v') \<Longrightarrow> urb_unlinked urb' = urb_unlinked urb"
  by (auto simp: handle_control_request_def set_feature_request_def clear_feature_request_def get_status_request_def
      store_byte_def Let_def bind_eq_Some_conv split: if_splits option.splits)

text \<open>What a visit keeps of a URB and of the connection.\<close>

definition visit_frame :: "urbp \<Rightarrow> 'c vudc_conn \<Rightarrow> urbp \<Rightarrow> 'c vudc_conn \<Rightarrow> bool" where
  "visit_frame p s p' s' = (ur_seqnum p' = ur_seqnum p \<and> unlinked p' = unlinked p \<and> tr s' = tr s \<and> ud s' = ud s \<and>
     event_list s' = event_list s)"

lemma run_transfer_frame:
  "run_transfer K urb i p tot s = Some (ret, p', tot', s') \<Longrightarrow> urb_unlinked urb = 0 \<Longrightarrow> \<not> unlinked p \<Longrightarrow>
   visit_frame p s p' s'"
  by (auto simp: run_transfer_def transfer_def bind_eq_Some_conv visit_frame_def set_urb_def unlinked_def
      dest!: transfer_loop_unlinked)

lemma setup_stage_frame:
  assumes "setup_stage K urb p tot s = Some (ret, p', tot', s')" "urb_unlinked urb = 0" "\<not> unlinked p"
  shows "visit_frame p s p' s'"
proof -
  obtain req r urb1 v1 r2 v2 c2 where h: "handle_control_request req urb (upd_ep 0 (\<lambda>e. e\<lparr>ve_setup := False, ve_halted := False\<rparr>) (udc s)) = Some (r, urb1, v1)"
    and t: "(if r2 \<ge> (0 :: int) then run_transfer K urb1 0 p tot (s\<lparr>udc := v2, env := c2\<rparr>)
     else Some (True, set_urb (urb1\<lparr>urb_status := - EPIPE, urb_actual_length := 0\<rparr>) p, tot, s\<lparr>udc := v2, env := c2\<rparr>)) =
      Some (ret, p', tot', s')"
    using assms(1)
    by (auto simp: setup_stage_def bind_eq_Some_conv Let_def)
  have u: "urb_unlinked urb1 = 0" using handle_control_unlinked [OF h] assms(2) by simp
  show ?thesis
  proof (cases "r2 \<ge> 0")
    case True
    then show ?thesis using t run_transfer_frame [OF _ u assms(3)] by (fastforce simp: visit_frame_def)
  next
    case False
    then show ?thesis using t u assms(3) by (auto simp: visit_frame_def set_urb_def unlinked_def)
  qed
qed

lemma visit_urb_frame:
  assumes "visit_urb K p tot s = Some (ret, p', tot', s')"
  shows "visit_frame p s p' s'" "\<not> ret \<Longrightarrow> \<not> unlinked p"
proof -
  obtain urb where u: "ur_urb p = Some urb" using assms by (auto simp: visit_urb_def split: option.splits)
  have "visit_frame p s p' s' \<and> (\<not> ret \<longrightarrow> \<not> unlinked p)"
  proof (cases "urb_unlinked urb = 0")
    case False
    then show ?thesis using assms u by (auto simp: visit_urb_def visit_frame_def)
  next
    case True
    have n: "\<not> unlinked p" using u True by (simp add: unlinked_def)
    consider "tr_state (tr s) \<noteq> VUDC_TR_RUNNING" | "tr_state (tr s) = VUDC_TR_RUNNING" "ur_ep p = None"
      | i where "tr_state (tr s) = VUDC_TR_RUNNING" "ur_ep p = Some i" by (cases "ur_ep p") auto
    then show ?thesis
    proof cases
      case 1
      then show ?thesis using assms u True n by (simp add: visit_urb_def visit_frame_def)
    next
      case 2
      then show ?thesis using assms u True n by (auto simp: visit_urb_def visit_frame_def set_urb_def unlinked_def)
    next
      case 3
      define first where "first = (i = 0 \<and> ur_new p)"
      define stp where "stp = (ve_setup (uc_ep (udc s) ! i) \<or> first)"
      define p1 where "p1 = (if first then p\<lparr>ur_new := False\<rparr> else p)"
      define s1 where "s1 = s\<lparr>udc := upd_ep i (\<lambda>e. e\<lparr>ve_seen := True, ve_setup := stp\<rparr>) (udc s)\<rparr>"
      have f: "\<not> unlinked p1" "visit_frame p s p1 s1" "visit_frame p s (set_urb (urb\<lparr>urb_status := st\<rparr>) p1) s1" for st
        using n u True by (auto simp: p1_def s1_def visit_frame_def unlinked_def set_urb_def)
      have t: "visit_frame p s q t" if "visit_frame p1 s1 q t" for q t
        using that f(2) by (simp add: visit_frame_def)
      have "(ret, p', tot', s') = (False, p, tot, s) \<or> (\<exists>st. (ret, p', tot', s') = (True, set_urb (urb\<lparr>urb_status := st\<rparr>) p1, tot, s1)) \<or>
          setup_stage K urb p1 tot s1 = Some (ret, p', tot', s') \<or> run_transfer K urb i p1 tot s1 = Some (ret, p', tot', s')"
        using assms u True 3 unfolding visit_urb_def Let_def first_def [symmetric] stp_def [symmetric]
        by (simp add: p1_def s1_def first_def stp_def split: if_splits) auto
      then have "visit_frame p s p' s'"
      proof (elim disjE exE)
        assume "(ret, p', tot', s') = (False, p, tot, s)"
        then show ?thesis by (simp add: visit_frame_def)
      next
        fix st assume "(ret, p', tot', s') = (True, set_urb (urb\<lparr>urb_status := st\<rparr>) p1, tot, s1)"
        then show ?thesis using f(3) [of st] by simp
      next
        assume "setup_stage K urb p1 tot s1 = Some (ret, p', tot', s')"
        from t [OF setup_stage_frame [OF this True f(1)]] show ?thesis .
      next
        assume "run_transfer K urb i p1 tot s1 = Some (ret, p', tot', s')"
        from t [OF run_transfer_frame [OF this True f(1)]] show ?thesis .
      qed
      then show ?thesis using n by simp
    qed
  qed
  then show "visit_frame p s p' s'" "\<not> ret \<Longrightarrow> \<not> unlinked p" by auto
qed

lemma event_add_udc [simp]: "udc (usbip_event_add ka ev s) = udc s" "tr (usbip_event_add ka ev s) = tr s"
  by (simp_all add: usbip_event_add_def Let_def split: prod.split)

lemma enqueue_submit_cases:
  "tr (v_enqueue_ret_submit K p s) = (tr s)\<lparr>tx_queue := tx_queue (tr s) @ [TX_SUBMIT p]\<rparr> \<and>
     event (ud (v_enqueue_ret_submit K p s)) = event (ud s) \<or>
   tr (v_enqueue_ret_submit K p s) = tr s \<and> event (ud (v_enqueue_ret_submit K p s)) \<noteq> 0"
  using usbip_event_add_nonzero [of VDEV_EVENT_ERROR_MALLOC]
  by (auto simp: v_enqueue_ret_submit_def add_tx_def Let_def event_defs split: prod.split)

lemma enqueue_unlink_cases:
  "tr (v_enqueue_ret_unlink K n st s) = (tr s)\<lparr>tx_queue := tx_queue (tr s) @
      [TX_UNLINK \<lparr>vn_seqnum = ucast n, vn_status = st\<rparr>]\<rparr> \<and>
     event (ud (v_enqueue_ret_unlink K n st s)) = event (ud s) \<or>
   tr (v_enqueue_ret_unlink K n st s) = tr s \<and> event (ud (v_enqueue_ret_unlink K n st s)) \<noteq> 0"
  using usbip_event_add_nonzero [of VDEV_EVENT_ERROR_MALLOC]
  by (auto simp: v_enqueue_ret_unlink_def add_tx_def Let_def event_defs split: prod.split)

text \<open>A URB that is returned is answered, or an event is raised and it is lost.\<close>

lemma return_urb_cases:
  obtains (answered) x where "tr (return_urb K p s) = (tr s)\<lparr>tx_queue := tx_queue (tr s) @ [x]\<rparr>"
    "tx_seq x = urb_seq p" "is_unlink x = unlinked p" "event (ud (return_urb K p s)) = event (ud s)"
  | (lost) "tr (return_urb K p s) = tr s" "event (ud (return_urb K p s)) \<noteq> 0"
proof -
  let ?s = "case ur_ep p of None \<Rightarrow> s
    | Some i \<Rightarrow> s\<lparr>udc := upd_ep i (\<lambda>e. e\<lparr>ve_seen := False, ve_setup := False\<rparr>) (udc s)\<rparr>"
  obtain n t where n: "(n \<noteq> 0) = unlinked p" and t: "tr t = tr s" "ud t = ud s"
    and e: "return_urb K p s = (if n = 0 then v_enqueue_ret_submit K p t
      else v_enqueue_ret_unlink K (ucast (ur_seqnum p)) (word_of_int n) t)"
    using that [of "case ur_urb p of None \<Rightarrow> 0 | Some urb \<Rightarrow> urb_unlinked urb" ?s]
    by (auto simp: return_urb_def Let_def unlinked_def split: option.split)
  show thesis
  proof (cases "n = 0")
    case True
    with enqueue_submit_cases [of K p t] t e n show ?thesis
      by (elim disjE) (auto intro: answered [of "TX_SUBMIT p"] lost)
  next
    case False
    with enqueue_unlink_cases [of K "ucast (ur_seqnum p)" "word_of_int n" t] t e n show ?thesis
      by (elim disjE) (auto intro: answered [of "TX_UNLINK \<lparr>vn_seqnum = ucast (ucast (ur_seqnum p) :: u32),
          vn_status = word_of_int n\<rparr>"] lost simp: urb_seq_def)
  qed
qed

text \<open>The scan: every URB stays in the queue, in its place, is answered once, or is among those of \<open>L\<close>,
  which are lost because their answer could not be allocated.\<close>

definition answers :: "urbp list \<Rightarrow> tx_item list \<Rightarrow> urbp list \<Rightarrow> u32 multiset \<Rightarrow> bool" where
  "answers ps as q L = (mset (map tx_seq as) + mset (map urb_seq q) + L = mset (map urb_seq ps) \<and>
     subseq (map urb_seq q) (map urb_seq ps) \<and> (\<forall>p\<in>set q. \<not> unlinked p) \<and>
     mset (map tx_seq (filter is_unlink as)) \<subseteq># mset (map urb_seq (filter unlinked ps)) \<and>
     mset (map tx_seq (filter (Not \<circ> is_unlink) as)) \<subseteq># mset (map urb_seq (filter (Not \<circ> unlinked) ps)) \<and>
     (L = {#} \<longrightarrow> mset (map tx_seq (filter is_unlink as)) = mset (map urb_seq (filter unlinked ps))))"

lemma answers_keep: "answers (pre @ p' # ps) as q L \<Longrightarrow> urb_seq p' = urb_seq p \<Longrightarrow> unlinked p' = unlinked p \<Longrightarrow>
  answers (pre @ p # ps) as q L"
  by (cases "unlinked p") (auto simp: answers_def)

lemma subseq_insert: "subseq xs (ys @ zs) \<Longrightarrow> subseq xs (ys @ z # zs)"
  by (erule subseq_order.order_trans) (simp add: subseq_append' list_emb_Cons)

lemma answers_answer:
  assumes "answers (pre @ ps) as q L" "tx_seq x = urb_seq p" "is_unlink x = unlinked p"
  shows "answers (pre @ p # ps) (x # as) q L"
  using assms subseq_insert [of "map urb_seq q" "map urb_seq pre" "map urb_seq ps" "urb_seq p"]
  by (simp add: answers_def)

lemma answers_lose: "answers (pre @ ps) as q L \<Longrightarrow> answers (pre @ p # ps) as q (add_mset (urb_seq p) L)"
  using subseq_insert [of "map urb_seq q" "map urb_seq pre" "map urb_seq ps" "urb_seq p"]
  by (auto simp: answers_def intro: subset_mset.order_trans)

lemma v_timer_loop_answers:
  assumes "v_timer_loop K pre ps tot s = Some (q, s')" "\<forall>p\<in>set pre. \<not> unlinked p"
  shows "\<exists>as L. tr s' = (tr s)\<lparr>tx_queue := tx_queue (tr s) @ as\<rparr> \<and> answers (pre @ ps) as q L \<and>
    (event (ud s') = 0 \<longrightarrow> L = {#} \<and> event (ud s) = 0)"
  using assms
proof (induction K pre ps tot s rule: v_timer_loop.induct)
  case (1 K pre tot s)
  then show ?case by (intro exI [of _ "[]"] exI [of _ "{#}"]) (auto simp: answers_def)
next
  case (2 K pre p ps tot s)
  obtain ret p' tot' s1 where v: "visit_urb K p tot s = Some (ret, p', tot', s1)"
    using "2.prems"(1) by (auto split: option.splits)
  have f: "ur_seqnum p' = ur_seqnum p" "unlinked p' = unlinked p" "tr s1 = tr s" "ud s1 = ud s" "\<not> ret \<Longrightarrow> \<not> unlinked p"
    using visit_urb_frame [OF v] by (auto simp: visit_frame_def)
  have q: "urb_seq p' = urb_seq p" by (simp add: urb_seq_def f)
  show ?case
  proof (cases ret)
    case False
    then have l: "v_timer_loop K (pre @ [p']) ps tot' s1 = Some (q, s')" using "2.prems"(1) v by simp
    have "\<forall>x\<in>set (pre @ [p']). \<not> unlinked x" using "2.prems"(2) f(2) f(5) [OF False] by simp
    from "2.IH"(2) [OF v refl refl refl False l this] obtain as L where
      "tr s' = (tr s1)\<lparr>tx_queue := tx_queue (tr s1) @ as\<rparr>" "answers (pre @ p' # ps) as q L"
      "event (ud s') = 0 \<longrightarrow> L = {#} \<and> event (ud s1) = 0" by auto
    with answers_keep [OF this(2) q f(2)] show ?thesis using f(3,4) by auto
  next
    case True
    let ?s2 = "return_urb K p' s1"
    have l: "v_timer_loop K [] (pre @ ps) tot' ?s2 = Some (q, s')" using "2.prems"(1) v True by simp
    from "2.IH"(1) [OF v refl refl refl True l] obtain as L where as:
      "tr s' = (tr ?s2)\<lparr>tx_queue := tx_queue (tr ?s2) @ as\<rparr>" "answers (pre @ ps) as q L"
      "event (ud s') = 0 \<longrightarrow> L = {#} \<and> event (ud ?s2) = 0" by auto
    show ?thesis
    proof (cases rule: return_urb_cases [of K p' s1])
      case (answered x)
      have "answers (pre @ p # ps) (x # as) q L" by (rule answers_answer [OF as(2)]) (simp_all add: answered f q)
      then show ?thesis using as answered f by (intro exI [of _ "x # as"] exI [of _ L]) simp
    next
      case lost
      then show ?thesis using as answers_lose [OF as(2), of p] f by auto
    qed
  qed
qed


definition demo_urbp :: urbp where
  "demo_urbp = \<lparr>ur_id = 0, ur_urb = Some (demo_in_urb\<lparr>urb_unlinked := - ECONNRESET\<rparr>), ur_ep = Some 2, ur_seqnum = 9,
     ur_type = 2, ur_new = True\<rparr>"

definition demo_timer_conn :: "u8 list vudc_conn" where
  "demo_timer_conn = \<lparr>ud = demo_ud USBIP_VUDC SDEV_ST_USED, event_list = [], env = [], udc = demo_vudc,
     tr = demo_transfers\<lparr>urb_queue := [demo_urbp]\<rparr>\<rparr>"

lemma demo_timer_run:
  "\<exists>s'. v_timer demo_vudc_kernel demo_timer_conn = Some s' \<and> event (ud s') = 0"
proof -
  have k: "kmalloc demo_vudc_kernel = (\<lambda>n c. (True, c))" "jiffies demo_vudc_kernel = (\<lambda>c. 0)" "msec_jiffies demo_vudc_kernel = 1"
    by (simp_all add: demo_vudc_kernel_def)
  have "\<not> time_after 0 1" by code_simp
  then show ?thesis
    by (simp add: v_timer_def demo_timer_conn_def demo_urbp_def demo_in_urb_def visit_urb_def return_urb_def
        v_enqueue_ret_unlink_def add_tx_def k demo_transfers_def demo_vudc_def get_frame_limit_def demo_ud_def Let_def)
qed


section \<open>The timer does not fault\<close>

definition urbp_ok :: "urbp \<Rightarrow> bool" where
  "urbp_ok p = ((\<exists>urb. ur_urb p = Some urb \<and> v_urb_ok urb \<and> urb_setup_packet urb \<noteq> None) \<and>
     (\<forall>i. ur_ep p = Some i \<longrightarrow> i < VIRTUAL_ENDPOINTS))"

definition live :: "('c, 'k) vudc_kernel_scheme \<Rightarrow> 'c vudc_conn \<Rightarrow> bool" where
  "live K s = (gadget_ok K \<and> vudc_ok (udc s) \<and> uc_driver (udc s) \<noteq> None)"

lemma find_endpoint_range: "vudc_find_endpoint v a = Some i \<Longrightarrow> i < VIRTUAL_ENDPOINTS"
  by (auto simp: vudc_find_endpoint_def VIRTUAL_ENDPOINTS_def find_Some_iff split: if_splits)

lemma vudc_ok_flag:
  "vudc_ok v \<Longrightarrow> vudc_ok (upd_ep i (\<lambda>e. e\<lparr>ve_halted := b\<rparr>) v)"
  "vudc_ok v \<Longrightarrow> vudc_ok (upd_ep i (\<lambda>e. e\<lparr>ve_setup := b, ve_halted := b'\<rparr>) v)"
  "vudc_ok v \<Longrightarrow> vudc_ok (upd_ep i (\<lambda>e. e\<lparr>ve_seen := b, ve_setup := b'\<rparr>) v)"
  by (auto intro!: vudc_ok_upd_ep dest: vudc_ok_ep simp: ep_ok_def)

lemma upd_ep_driver [simp]: "uc_driver (upd_ep i f v) = uc_driver v"
  by (simp add: upd_ep_def)

lemma store_byte_ok:
  "v_urb_ok urb \<Longrightarrow> k < unat (urb_transfer_buffer_length urb) \<Longrightarrow>
   \<exists>urb'. store_byte k b urb = Some urb' \<and> v_urb_ok urb' \<and> same_urb urb urb'"
  by (auto simp: store_byte_def v_urb_ok_def same_urb_def buffer_put_buffer)

lemma handle_control_ok:
  assumes "vudc_ok v" "v_urb_ok urb"
  shows "\<exists>r urb' v'. handle_control_request req urb v = Some (r, urb', v') \<and> vudc_ok v' \<and> v_urb_ok urb' \<and>
    uc_driver v' = uc_driver v \<and> same_urb urb urb'"
proof -
  have s: "\<exists>r urb' v'. x = Some (r, urb', v') \<and> vudc_ok v' \<and> v_urb_ok urb' \<and> uc_driver v' = uc_driver v \<and> same_urb urb urb'"
    if "x = Some (r, urb, v) \<or> x = Some (r, urb\<lparr>urb_status := 0\<rparr>, v') \<and> vudc_ok v' \<and> uc_driver v' = uc_driver v" for x r v'
    using that assms by (auto simp: same_urb_def)
  have "\<exists>r urb' v'. Some (set_feature_request req urb v) = Some (r, urb', v') \<and> vudc_ok v' \<and> v_urb_ok urb' \<and>
      uc_driver v' = uc_driver v \<and> same_urb urb urb'"
    using assms vudc_ok_flag(1) [OF assms(1)]
    by (auto simp: set_feature_request_def Let_def same_urb_def split: option.split)
  moreover have "\<exists>r urb' v'. Some (clear_feature_request req urb v) = Some (r, urb', v') \<and> vudc_ok v' \<and> v_urb_ok urb' \<and>
      uc_driver v' = uc_driver v \<and> same_urb urb urb'"
    using assms vudc_ok_flag(1) [OF assms(1)]
    by (auto simp: clear_feature_request_def Let_def same_urb_def split: option.split)
  moreover have "\<exists>r urb' v'. get_status_request req urb v = Some (r, urb', v') \<and> vudc_ok v' \<and> v_urb_ok urb' \<and>
      uc_driver v' = uc_driver v \<and> same_urb urb urb'"
  proof -
    let ?len = "urb_transfer_buffer_length urb"
    have a: "\<exists>u1. (if ?len > 0 then store_byte 0 b urb else Some urb) = Some u1 \<and> v_urb_ok u1 \<and> same_urb urb u1" for b
      using store_byte_ok [OF assms(2), of 0 b] assms(2) by (auto simp: same_urb_def word_less_nat_alt)
    have b: "\<exists>u2. (if ?len > 1 then store_byte 1 0 u1 else Some u1) = Some u2 \<and> v_urb_ok u2 \<and> same_urb urb u2"
      if "v_urb_ok u1" "same_urb urb u1" for u1
      using store_byte_ok [OF that(1), of 1 0] that by (auto simp: same_urb_def word_less_nat_alt)
    obtain u1 where u1: "(if ?len > 0 then store_byte 0 (the (status_byte req v)) urb else Some urb) = Some u1" "v_urb_ok u1" "same_urb urb u1"
      using a by blast
    obtain u2 where u2: "(if ?len > 1 then store_byte 1 0 u1 else Some u1) = Some u2" "v_urb_ok u2" "same_urb urb u2"
      using b [OF u1(2,3)] by blast
    have "v_urb_ok (u2\<lparr>urb_actual_length := min 2 ?len, urb_status := 0\<rparr>)"
      using u2(2,3) by (simp add: v_urb_ok_def same_urb_def)
    then show ?thesis using u1(1) u2(1,3) assms
      by (auto simp: get_status_request_def Let_def same_urb_def simp del: if_split cong: if_cong split del: if_split)
        (simp add: get_status_request_def Let_def same_urb_def)?
  qed
  ultimately show ?thesis using assms by (auto simp: handle_control_request_def same_urb_def)
qed

text \<open>A step of the timer on a URB: it faults only without a gadget driver, and leaves the URB and the
  controller well-formed.\<close>

definition visit_ok :: "'c vudc_conn \<Rightarrow> (bool \<times> urbp \<times> u32 \<times> 'c vudc_conn) option \<Rightarrow> bool" where
  "visit_ok s r = (case r of None \<Rightarrow> uc_driver (udc s) = None | Some (ret, p', tot', s') \<Rightarrow>
     urbp_ok p' \<and> vudc_ok (udc s') \<and> uc_driver (udc s') = uc_driver (udc s))"

lemma visit_ok_driver: "uc_driver (udc s1) = uc_driver (udc s) \<Longrightarrow> visit_ok s1 r = visit_ok s r"
  by (simp add: visit_ok_def split: option.split)

lemma run_transfer_ok:
  assumes "gadget_ok K" "vudc_ok (udc s)" "v_urb_ok urb" "urb_setup_packet urb \<noteq> None"
    "i < VIRTUAL_ENDPOINTS" "urbp_ok p"
  shows "visit_ok s (run_transfer K urb i p tot s)"
proof -
  obtain sent urb' v' c' where "transfer K urb i (udc s) (env s) = Some (sent, urb', v', c')" "v_urb_ok urb'" "vudc_ok v'"
    "same_urb urb urb'" "uc_driver v' = uc_driver (udc s)"
    using transfer_loop_ok [OF assms(1,5,2,3), of 0 0 "env s"] by (auto simp: transfer_def)
  then show ?thesis using assms by (simp add: run_transfer_def urbp_ok_def visit_ok_def set_urb_def same_urb_def)
qed

lemma setup_stage_ok:
  assumes "gadget_ok K" "vudc_ok (udc s)" "v_urb_ok urb" "urb_setup_packet urb \<noteq> None" "urbp_ok p"
  shows "visit_ok s (setup_stage K urb p tot s)"
proof -
  obtain req where r: "urb_setup_packet urb = Some req" using assms(4) by blast
  let ?v = "upd_ep 0 (\<lambda>e. e\<lparr>ve_setup := False, ve_halted := False\<rparr>) (udc s)"
  obtain ret urb1 v1 where h: "handle_control_request req urb ?v = Some (ret, urb1, v1)" "vudc_ok v1" "v_urb_ok urb1"
    "uc_driver v1 = uc_driver (udc s)" "same_urb urb urb1"
    using handle_control_ok [OF vudc_ok_flag(2) [OF assms(2)] assms(3), of req 0 False False] by auto
  show ?thesis
  proof (cases "ret > 0 \<and> uc_driver v1 = None")
    case True
    then show ?thesis using h(1,4) r by (simp add: setup_stage_def visit_ok_def)
  next
    case False
    obtain ret' v2 c2 where g: "(if ret > 0 then (if uc_driver v1 = None then None else Some (gd_setup K req v1 (env s)))
         else Some (ret, v1, env s)) = Some (ret', v2, c2)" "vudc_ok v2" "uc_driver v2 = uc_driver (udc s)"
      using gadget_okD(1,7) [OF assms(1) h(2), of req "env s"] h False
      by (cases "gd_setup K req v1 (env s)"; cases "ret > 0") auto
    have u: "urb_setup_packet urb1 \<noteq> None" using h(5) r by (simp add: same_urb_def)
    show ?thesis
    proof (cases "ret' \<ge> 0")
      case True
      have "0 < VIRTUAL_ENDPOINTS" by (simp add: VIRTUAL_ENDPOINTS_def)
      from run_transfer_ok [OF assms(1) _ h(3) u this assms(5), of "s\<lparr>udc := v2, env := c2\<rparr>" tot] g(2,3)
        visit_ok_driver [of "s\<lparr>udc := v2, env := c2\<rparr>" s]
      show ?thesis using h(1) g(1) r True by (simp add: setup_stage_def)
    next
      case False
      have "v_urb_ok (urb1\<lparr>urb_status := - EPIPE, urb_actual_length := 0\<rparr>)" using h(3) by (simp add: v_urb_ok_def)
      then show ?thesis using False h(1) g r assms u
        by (auto simp: setup_stage_def urbp_ok_def set_urb_def visit_ok_def)
    qed
  qed
qed

lemma visit_urb_ok:
  assumes "gadget_ok K" "vudc_ok (udc s)" "urbp_ok p"
  shows "visit_ok s (visit_urb K p tot s)"
proof -
  obtain urb where u: "ur_urb p = Some urb" "v_urb_ok urb" "urb_setup_packet urb \<noteq> None"
    using assms(3) by (auto simp: urbp_ok_def)
  have st: "urbp_ok (set_urb (urb\<lparr>urb_status := st\<rparr>) q)" if "urbp_ok q" for st q
    using that u by (simp add: urbp_ok_def set_urb_def)
  show ?thesis
  proof (cases "urb_unlinked urb = 0 \<and> tr_state (tr s) = VUDC_TR_RUNNING")
    case False
    then show ?thesis using assms u by (auto simp: visit_urb_def visit_ok_def)
  next
    case True
    show ?thesis
    proof (cases "ur_ep p")
      case None
      then show ?thesis using assms u True st by (auto simp: visit_urb_def visit_ok_def)
    next
      case (Some i)
      then have i: "i < VIRTUAL_ENDPOINTS" using assms(3) by (simp add: urbp_ok_def)
      define first where "first = (i = 0 \<and> ur_new p)"
      define stp where "stp = (ve_setup (uc_ep (udc s) ! i) \<or> first)"
      define p1 where "p1 = (if first then p\<lparr>ur_new := False\<rparr> else p)"
      define s1 where "s1 = s\<lparr>udc := upd_ep i (\<lambda>e. e\<lparr>ve_seen := True, ve_setup := stp\<rparr>) (udc s)\<rparr>"
      have ok: "urbp_ok p1" "vudc_ok (udc s1)" "uc_driver (udc s1) = uc_driver (udc s)"
        using assms vudc_ok_flag(3) by (auto simp: urbp_ok_def p1_def s1_def)
      have t: "visit_ok s (run_transfer K urb i p1 tot s1)" "visit_ok s (setup_stage K urb p1 tot s1)"
        using run_transfer_ok [OF assms(1) ok(2) u(2,3) i ok(1), of tot] setup_stage_ok [OF assms(1) ok(2) u(2,3) ok(1), of tot] ok(3)
          visit_ok_driver [OF ok(3)] by simp_all
      have "visit_urb K p tot s = Some (False, p, tot, s) \<or> (\<exists>st. visit_urb K p tot s = Some (True, set_urb (urb\<lparr>urb_status := st\<rparr>) p1, tot, s1)) \<or>
          visit_urb K p tot s = setup_stage K urb p1 tot s1 \<or> visit_urb K p tot s = run_transfer K urb i p1 tot s1"
        using u True Some unfolding visit_urb_def Let_def first_def [symmetric] stp_def [symmetric]
        by (simp add: p1_def s1_def first_def stp_def) auto
      then show ?thesis
      proof (elim disjE exE)
        fix st assume "visit_urb K p tot s = Some (True, set_urb (urb\<lparr>urb_status := st\<rparr>) p1, tot, s1)"
        then show ?thesis using st [OF ok(1)] ok by (simp add: visit_ok_def)
      qed (use assms t in \<open>auto simp: visit_ok_def\<close>)
    qed
  qed
qed

lemma return_urb_ok: "vudc_ok (udc s) \<Longrightarrow> vudc_ok (udc (return_urb K p s))"
  "uc_driver (udc (return_urb K p s)) = uc_driver (udc s)"
  by (auto simp: return_urb_def v_enqueue_ret_submit_def v_enqueue_ret_unlink_def add_tx_def Let_def
      vudc_ok_flag(3) split: option.split prod.split)

lemma queues_own_ud: "ud s1 = ud s \<Longrightarrow> event_list s1 = event_list s \<Longrightarrow> queues_own s1 s' = queues_own s s'"
  by (simp add: queues_own_def)

lemma queues_own_enqueue:
  "queues_own s (v_enqueue_ret_submit K p s)" "queues_own s (v_enqueue_ret_unlink K n st s)"
proof -
  have e: "queues_own s (usbip_event_add ka ev (s\<lparr>env := c\<rparr>))" for ka ev c
    by (rule iffD1 [OF queues_own_ud queues_own_event_add]) simp_all
  show "queues_own s (v_enqueue_ret_submit K p s)" "queues_own s (v_enqueue_ret_unlink K n st s)"
    by (auto simp: v_enqueue_ret_submit_def v_enqueue_ret_unlink_def add_tx_def Let_def e split: prod.split)
qed

lemma queues_own_return: "queues_own s (return_urb K p s)"
proof -
  have u: "queues_own (s\<lparr>udc := v\<rparr>) s' = queues_own s s'" for v s' by (rule queues_own_ud) simp_all
  then show ?thesis
    using queues_own_enqueue [of "s\<lparr>udc := v\<rparr>" for v] queues_own_enqueue [of s]
    by (auto simp: return_urb_def Let_def split: option.split)
qed

lemma v_timer_loop_ok:
  assumes "gadget_ok K" "vudc_ok (udc s)" "\<forall>p\<in>set (pre @ ps). urbp_ok p"
  shows "case v_timer_loop K pre ps tot s of None \<Rightarrow> uc_driver (udc s) = None
    | Some (q, s') \<Rightarrow> vudc_ok (udc s') \<and> uc_driver (udc s') = uc_driver (udc s) \<and> queues_own s s' \<and> (\<forall>p\<in>set q. urbp_ok p)"
  using assms
proof (induction K pre ps tot s rule: v_timer_loop.induct)
  case (2 K pre p ps tot s)
  note ok = visit_urb_ok [OF "2.prems"(1,2), of p tot]
  show ?case
  proof (cases "visit_urb K p tot s")
    case None
    then show ?thesis using ok "2.prems"(3) by (simp add: visit_ok_def)
  next
    case (Some x)
    obtain ret p' tot' s1 where x: "x = (ret, p', tot', s1)" by (cases x) auto
    have vis: "visit_urb K p tot s = Some (ret, p', tot', s1)" using Some x by simp
    have v: "urbp_ok p'" "vudc_ok (udc s1)" "uc_driver (udc s1) = uc_driver (udc s)"
      using ok "2.prems"(3) vis by (simp_all add: visit_ok_def)
    have f: "ud s1 = ud s" "event_list s1 = event_list s"
      using visit_urb_frame(1) [OF vis] by (auto simp: visit_frame_def)
    note o = queues_own_ud [OF f]
    show ?thesis
    proof (cases ret)
      case True
      have q: "queues_own s (return_urb K p' s1)" using queues_own_return [of s1] o by simp
      have "case v_timer_loop K [] (pre @ ps) tot' (return_urb K p' s1) of None \<Rightarrow> uc_driver (udc (return_urb K p' s1)) = None
        | Some (q, s') \<Rightarrow> vudc_ok (udc s') \<and> uc_driver (udc s') = uc_driver (udc (return_urb K p' s1)) \<and>
            queues_own (return_urb K p' s1) s' \<and> (\<forall>p\<in>set q. urbp_ok p)"
        by (rule "2.IH"(1) [OF vis refl refl refl True "2.prems"(1) return_urb_ok(1) [OF v(2)]]) (use "2.prems"(3) in auto)
      then show ?thesis
        using vis True v(3) return_urb_ok(2) [of K p' s1] queues_own_trans [OF q] by (auto split: option.splits)
    next
      case False
      have "case v_timer_loop K (pre @ [p']) ps tot' s1 of None \<Rightarrow> uc_driver (udc s1) = None
        | Some (q, s') \<Rightarrow> vudc_ok (udc s') \<and> uc_driver (udc s') = uc_driver (udc s1) \<and>
            queues_own s1 s' \<and> (\<forall>p\<in>set q. urbp_ok p)"
        by (rule "2.IH"(2) [OF vis refl refl refl False "2.prems"(1) v(2)]) (use "2.prems"(3) v(1) in auto)
      then show ?thesis using vis False v(3) o by (auto split: option.splits)
    qed
  qed
qed simp

lemma v_timer_ok:
  assumes "gadget_ok K" "vudc_ok (udc s)" "\<forall>p\<in>set (urb_queue (tr s)). urbp_ok p"
  shows "case v_timer K s of None \<Rightarrow> uc_driver (udc s) = None
    | Some s' \<Rightarrow> vudc_ok (udc s') \<and> uc_driver (udc s') = uc_driver (udc s) \<and> queues_own s s' \<and>
        (\<forall>p\<in>set (urb_queue (tr s')). urbp_ok p)"
proof (cases "get_frame_limit (uc_speed (udc s)) < 0")
  case True
  then show ?thesis using assms by (simp add: v_timer_def Let_def)
next
  case False
  let ?v = "(udc s)\<lparr>uc_ep := map (\<lambda>e. e\<lparr>ve_seen := False\<rparr>) (uc_ep (udc s))\<rparr>"
  have v: "vudc_ok ?v" using assms(2) by (simp add: vudc_ok_def ep_ok_def)
  define t where "t = (let t0 = (tr s)\<lparr>tr_expires := None\<rparr> in
    if time_after (jiffies K (env s)) (frame_start t0 + msec_jiffies K)
    then t0\<lparr>frame_limit := get_frame_limit (uc_speed (udc s)), frame_start := jiffies K (env s)\<rparr> else t0)"
  let ?s0 = "s\<lparr>udc := ?v, tr := t\<rparr>"
  have q: "urb_queue t = urb_queue (tr s)" by (simp add: t_def Let_def)
  have o: "queues_own ?s0 s' = queues_own s s'" for s' by (rule queues_own_ud) simp_all
  have "v_timer K s = map_option (\<lambda>(q, s1). s1\<lparr>tr := if q = [] then ((tr s1)\<lparr>urb_queue := q\<rparr>)\<lparr>tr_state := VUDC_TR_IDLE\<rparr>
      else ((tr s1)\<lparr>urb_queue := q\<rparr>)\<lparr>tr_expires := Some (frame_start ((tr s1)\<lparr>urb_queue := q\<rparr>) + msec_jiffies K)\<rparr>\<rparr>)
      (v_timer_loop K [] (urb_queue t) (word_of_int (frame_limit t)) ?s0)"
    using False unfolding v_timer_def t_def Let_def
    by (simp add: bind_eq_Some_conv split: option.split cong: if_cong) (auto simp: map_option_case split: option.split)
  moreover have "case v_timer_loop K [] (urb_queue t) (word_of_int (frame_limit t)) ?s0 of None \<Rightarrow> uc_driver (udc s) = None
    | Some (q, s') \<Rightarrow> vudc_ok (udc s') \<and> uc_driver (udc s') = uc_driver (udc s) \<and> queues_own s s' \<and> (\<forall>p\<in>set q. urbp_ok p)"
    using v_timer_loop_ok [OF assms(1), of ?s0 "[]" "urb_queue t" "word_of_int (frame_limit t)"] v assms(3) q o
    by (auto split: option.splits)
  ultimately show ?thesis
    by (auto simp: queues_own_def split: option.splits)
qed

text \<open>C25: the timer runs to its end in every state the driver can be in, and leaves such a state: no
  request and no URB makes it leave a buffer, use a missing gadget driver or scan for ever.\<close>

theorem vudc_timer_runs:
  assumes "live K s" "\<forall>p\<in>set (urb_queue (tr s)). urbp_ok p"
  shows "\<exists>s'. v_timer K s = Some s' \<and> live K s' \<and> (\<forall>p\<in>set (urb_queue (tr s')). urbp_ok p)"
  using v_timer_ok [of K s] assms by (auto simp: live_def split: option.splits)

theorem vudc_timer_runs_witness:
  "\<exists>s'. v_timer demo_vudc_kernel demo_timer_conn = Some s' \<and> live demo_vudc_kernel s'"
proof -
  have "live demo_vudc_kernel demo_timer_conn"
    by (simp add: live_def demo_gadget_ok demo_timer_conn_def demo_vudc_ok) (simp add: demo_vudc_def)
  moreover have "\<forall>p\<in>set (urb_queue (tr demo_timer_conn)). urbp_ok p"
    by (simp add: demo_timer_conn_def urbp_ok_def demo_urbp_def v_urb_ok_def demo_in_urb_def buffer_of_def
        VIRTUAL_ENDPOINTS_def)
  ultimately show ?thesis using vudc_timer_runs by blast
qed

end
