(* ===== verification/Vudc_Rx.thy ===== *)
theory Vudc_Rx
  imports Vudc_Transfer
begin

text \<open>
  The receive side of the emulated controller, \<open>vudc_rx.c\<close>.
\<close>

text \<open>The type of the endpoint decides how many packets the URB has, and the direction of the request
  gives its pipe the direction bit.\<close>

definition zero_v_urb :: "usb_iso_packet_descriptor list \<Rightarrow> v_urb" where
  "zero_v_urb descs = \<lparr>urb_pipe = 0, urb_transfer_flags = 0, urb_transfer_buffer = None,
     urb_transfer_buffer_length = 0, urb_actual_length = 0, urb_status = 0, urb_start_frame = 0,
     urb_number_of_packets = 0, urb_interval = 0, urb_error_count = 0, urb_setup_packet = None,
     urb_iso_frame_desc = descs, urb_unlinked = 0\<rparr>"

definition alloc_urb_from_cmd ::
  "('c, 'k) vudc_kernel_scheme \<Rightarrow> usbip_header \<Rightarrow> u8 \<Rightarrow> 'c \<Rightarrow> v_urb option \<times> 'c" where
  "alloc_urb_from_cmd K pdu type c =
     (let cs = cmd_submit (u pdu);
          (descs, c1) = v_alloc_urb K (if type = USB_ENDPOINT_XFER_ISOC then sint (cs_number_of_packets cs) else 0) c in
      case descs of
        None \<Rightarrow> (None, c1)
      | Some ds \<Rightarrow>
          let urb = snd (usbip_pack_pdu pdu (zero_v_urb ds) USBIP_CMD_SUBMIT False);
              len = unat (urb_transfer_buffer_length urb);
              (ok, c2) = (if len > 0 then kmalloc K len c1 else (True, c1)) in
          if \<not> ok then (None, c2)
          else let (ok2, c3) = kmalloc K 8 c2 in
            if \<not> ok2 then (None, c3)
            else (Some (urb\<lparr>urb_transfer_buffer := if len > 0 then Some (replicate len 0) else None,
                urb_setup_packet := Some (cs_setup cs),
                urb_pipe := urb_pipe urb OR (if b_direction (base pdu) = USBIP_DIR_IN then 0x80 else 0)\<rparr>), c3))"

text \<open>The first URB with the sequence number is marked as unlinked.\<close>

fun mark_unlinked :: "ulong \<Rightarrow> ulong \<Rightarrow> urbp list \<Rightarrow> urbp list option" where
  "mark_unlinked target new [] = None"
| "mark_unlinked target new (p # ps) =
     (if ur_seqnum p \<noteq> target then map_option (\<lambda>qs. p # qs) (mark_unlinked target new ps)
      else Some (p\<lparr>ur_urb := map_option (\<lambda>urb. urb\<lparr>urb_unlinked := - ECONNRESET\<rparr>) (ur_urb p),
        ur_seqnum := new\<rparr> # ps))"

definition v_recv_cmd_unlink ::
  "('c, 'k) vudc_kernel_scheme \<Rightarrow> usbip_header \<Rightarrow> 'c vudc_conn \<Rightarrow> int \<times> 'c vudc_conn" where
  "v_recv_cmd_unlink K pdu s =
     (case mark_unlinked (ucast (cu_seqnum (cmd_unlink (u pdu)))) (ucast (b_seqnum (base pdu)))
         (urb_queue (tr s)) of
        Some q \<Rightarrow> (0, s\<lparr>tr := v_kick_timer (jiffies K (env s)) ((tr s)\<lparr>urb_queue := q\<rparr>)\<rparr>)
      | None \<Rightarrow> (0, v_enqueue_ret_unlink K (b_seqnum (base pdu)) 0 s))"

text \<open>The type bits of the pipe.\<close>

definition pipe_of_type :: "u8 \<Rightarrow> u32" where
  "pipe_of_type type = push_bit 30
     (if type = USB_ENDPOINT_XFER_BULK then PIPE_BULK
      else if type = USB_ENDPOINT_XFER_INT then PIPE_INTERRUPT
      else if type = USB_ENDPOINT_XFER_CONTROL then PIPE_CONTROL
      else PIPE_ISOCHRONOUS)"

definition set_pipe_type :: "u8 \<Rightarrow> u32 \<Rightarrow> u32" where
  "set_pipe_type type pipe = (pipe AND NOT (push_bit 30 3)) OR pipe_of_type type"

text \<open>The outer option is a fault.\<close>

definition v_recv_cmd_submit ::
  "('c, 'k) vudc_kernel_scheme \<Rightarrow> usbip_header \<Rightarrow> 'c vudc_conn \<Rightarrow> (int \<times> 'c vudc_conn) option" where
  "v_recv_cmd_submit K pdu s = (case alloc_urbp K s of
     (None, s1) \<Rightarrow> Some (- ENOMEM, usbip_event_add (kmalloc K) VUDC_EVENT_ERROR_MALLOC s1)
   | (Some p0, s1) \<Rightarrow>
       let address = ucast (b_ep (base pdu)) OR (if b_direction (base pdu) = USBIP_DIR_IN then 0x80 else 0) in
       (case vudc_find_endpoint (udc s1) address of
          None \<Rightarrow> Some (- EPIPE, usbip_event_add (kmalloc K) VUDC_EVENT_ERROR_TCP s1)
        | Some i \<Rightarrow>
            let type = ve_type (uc_ep (udc s1) ! i);
                p = p0\<lparr>ur_ep := Some i, ur_type := type, ur_new := True, ur_seqnum := ucast (b_seqnum (base pdu))\<rparr>;
                (u0, c2) = alloc_urb_from_cmd K pdu type (env s1); s2 = s1\<lparr>env := c2\<rparr> in
            (case u0 of
               None \<Rightarrow> Some (- ENOMEM, usbip_event_add (kmalloc K) VUDC_EVENT_ERROR_MALLOC s2)
             | Some urb0 \<Rightarrow>
                 let urb = urb0\<lparr>urb_status := - EINPROGRESS, urb_pipe := set_pipe_type type (urb_pipe urb0)\<rparr> in
                 do { (r1, urb1, s3) \<leftarrow> usbip_recv_xbuff K urb s2;
                      if r1 < 0 then Some (r1, s3)
                      else do {
                        (r2, urb2, s4) \<leftarrow> usbip_recv_iso K urb1 s3;
                        if r2 < 0 then Some (r2, s4)
                        else let t = v_kick_timer (jiffies K (env s4)) (tr s4) in
                          Some (0, s4\<lparr>tr := t\<lparr>urb_queue := urb_queue t @ [set_urb urb2 p]\<rparr>\<rparr>) } })))"

definition v_handle_pdu ::
  "('c, 'k) vudc_kernel_scheme \<Rightarrow> usbip_header \<Rightarrow> 'c vudc_conn \<Rightarrow> (int \<times> 'c vudc_conn) option" where
  "v_handle_pdu K pdu s =
     (if status (ud s) \<noteq> SDEV_ST_USED
      then Some (- EBUSY, usbip_event_add (kmalloc K) VUDC_EVENT_ERROR_TCP s)
      else if b_command (base pdu) = USBIP_CMD_UNLINK then Some (v_recv_cmd_unlink K pdu s)
      else if b_command (base pdu) = USBIP_CMD_SUBMIT then v_recv_cmd_submit K pdu s
      else Some (- EPIPE, s))"

definition v_rx_pdu ::
  "('c, 'k) vudc_kernel_scheme \<Rightarrow> 'c vudc_conn \<Rightarrow> (int \<times> 'c vudc_conn) option" where
  "v_rx_pdu K s =
     (let (ret, bs, c) = usbip_recv (trx_ops K) (ud s) True (int sizeof_usbip_header) (env s);
          s1 = s\<lparr>env := c\<rparr> in
      if ret \<noteq> int sizeof_usbip_header
      then Some (if ret \<ge> 0 then - EPIPE else ret, usbip_event_add (kmalloc K) VUDC_EVENT_ERROR_TCP s1)
      else v_handle_pdu K
        (usbip_header_correct_endian (host_le K) (bytes_header (host_le K) bs) False) s1)"

fun v_rx_loop ::
  "('c, 'k) vudc_kernel_scheme \<Rightarrow> bool list \<Rightarrow> 'c vudc_conn \<Rightarrow> 'c vudc_conn option" where
  "v_rx_loop K [] s = Some s"
| "v_rx_loop K (stop # stops) s =
     (if stop then Some s
      else if usbip_event_happened (ud s) then Some s
      else case v_rx_pdu K s of
        None \<Rightarrow> None
      | Some (r, s1) \<Rightarrow> if r < 0 then Some s1 else v_rx_loop K stops s1)"

end
