(* ===== verification/Vudc_Sysfs.thy ===== *)
theory Vudc_Sysfs
  imports Vudc_Rx
begin

text \<open>
  The attributes of the emulated controller (\<open>vudc_sysfs.c\<close>), the operation that connects it to its
  gadget driver, and the life of the controllers (\<open>vudc_probe\<close> and \<open>vudc_remove\<close> of \<open>vudc_dev.c\<close>, and
  \<open>vudc_main.c\<close>).
\<close>

section \<open>The descriptors of the gadget\<close>

abbreviation (input) sizeof_device_descriptor :: nat where "sizeof_device_descriptor \<equiv> 18"

text \<open>The setup packet that asks for the device descriptor.\<close>

definition get_descriptor_request :: "u8 list" where
  "get_descriptor_request = [0x80, 6, 0, 1, 0, 0, 18, 0]"

text \<open>The faults are an empty queue, whose last entry is taken, and a buffer shorter than the
  descriptor.\<close>

definition get_gadget_descs ::
  "('c, 'k) vudc_kernel_scheme \<Rightarrow> vudc \<Rightarrow> 'c \<Rightarrow> (int \<times> vudc \<times> 'c) option" where
  "get_gadget_descs K v c =
     (if uc_driver v = None \<or> \<not> uc_pullup v then Some (- EINVAL, v, c)
      else let (ret, v1, c1) = gd_setup K get_descriptor_request v c; rs = ve_reqs (uc_ep v1 ! 0) in
        if ret < 0 then Some (ret, v1, c1)
        else if rs = [] then None
        else let r = last rs; v2 = upd_ep 0 (\<lambda>e. e\<lparr>ve_reqs := butlast rs\<rparr>) v1;
                 give = (\<lambda>v. usb_gadget_giveback_request K 0 (r\<lparr>vr_status := 0, vr_actual := vr_length r\<rparr>) v c1) in
          if vr_length r > word_of_nat sizeof_device_descriptor then Some (- EOVERFLOW, give v2)
          else if length (vr_buf r) < sizeof_device_descriptor then None
          else Some (0, give (v2\<lparr>uc_dev_desc := take sizeof_device_descriptor (vr_buf r),
                 uc_desc_cached := True\<rparr>)))"

text \<open>\<open>count\<close> bytes from offset \<open>off\<close> on; the fault is a range that leaves the descriptor.\<close>

definition dev_desc_read :: "nat \<Rightarrow> nat \<Rightarrow> vudc \<Rightarrow> (int + u8 list) option" where
  "dev_desc_read off n v =
     (if \<not> uc_desc_cached v then Some (Inl (- ENODEV))
      else map_option Inr (kvec (uc_dev_desc v) off n))"

section \<open>Connecting to a host\<close>

text \<open>\<open>kstrtoint\<close> with base 0: a number that starts with \<open>0x\<close> is hexadecimal, another that starts
  with \<open>0\<close> octal.\<close>

definition find_radix :: "string \<Rightarrow> nat \<times> string" where
  "find_radix s = (case s of
     c # x # d # cs \<Rightarrow>
       if c = CHR ''0'' then
         if (x = CHR ''x'' \<or> x = CHR ''X'') \<and> radix_digit d < 16 then (16, d # cs) else (8, s)
       else (10, s)
   | c # cs \<Rightarrow> (if c = CHR ''0'' then 8 else 10, s)
   | [] \<Rightarrow> (10, s))"

definition kstrtoint_0 :: "string \<Rightarrow> int + int" where
  "kstrtoint_0 s =
     (let (neg, r) = (case s of [] \<Rightarrow> (False, []) | c # cs \<Rightarrow> if c = CHR ''-'' then (True, cs)
            else if c = CHR ''+'' then (False, cs) else (False, c # cs));
          (radix, ds) = find_radix r in
      if ds = [] \<or> \<not> radix_digit (hd ds) < radix then Inl (- EINVAL)
      else let (n, rest) = scan_radix radix 0 ds; v = (if neg then - int n else int n) in
        if n \<ge> 2 ^ 64 then Inl (- ERANGE)
        else if rest \<noteq> [] \<and> rest \<noteq> [CHR 0x0A] then Inl (- EINVAL)
        else if v < - (2 ^ 31) \<or> 2 ^ 31 \<le> v then Inl (- ERANGE) else Inr v)"

text \<open>The first half: the socket is looked up, once by the attribute and again by the transport, and
  the threads are started.\<close>

definition v_up_threads ::
  "('c, 'k) vudc_kernel_scheme \<Rightarrow> int \<Rightarrow> 'c vudc_conn \<Rightarrow> int \<times> 'c vudc_conn" where
  "v_up_threads K sockfd s =
     (if uc_connected (udc s) then (- EBUSY, s)
      else if status (ud s) \<noteq> SDEV_ST_AVAILABLE then (- EINVAL, s)
      else case sockfd_get K sockfd (env s) of
        (None, c1) \<Rightarrow> (- EINVAL, s\<lparr>env := c1\<rparr>)
      | (Some sk, c1) \<Rightarrow>
          let (rv, d, c2) = trx_link (trx_ops K) ((ud s)\<lparr>tcp_socket := Some sk\<rparr>) sockfd c1;
              s2 = s\<lparr>ud := d, env := c2\<rparr> in
          if rv \<noteq> 0 then (- ENOENT, s2)
          else (0, s2\<lparr>ud := d\<lparr>tcp_rx := True, tcp_tx := True\<rparr>,
            env := kthread_get_run K (kthread_get_run K c2)\<rparr>))"

text \<open>The second half.\<close>

definition v_up_used ::
  "('c, 'k) vudc_kernel_scheme \<Rightarrow> 'c vudc_conn \<Rightarrow> 'c vudc_conn" where
  "v_up_used K s = s\<lparr>ud := (ud s)\<lparr>status := SDEV_ST_USED\<rparr>,
     udc := (udc s)\<lparr>uc_start_time := gettimeofday K (env s), uc_connected := True\<rparr>,
     tr := v_start_timer (jiffies K (env s)) (uc_speed (udc s)) (tr s)\<rparr>"

definition v_store_sockfd ::
  "('c, 'k) vudc_kernel_scheme \<Rightarrow> string \<Rightarrow> 'c vudc_conn \<Rightarrow> int \<times> 'c vudc_conn" where
  "v_store_sockfd K buf s = (case kstrtoint_0 (cstr buf) of
     Inl _ \<Rightarrow> (- EINVAL, s)
   | Inr sockfd \<Rightarrow>
       if uc_driver (udc s) = None \<or> \<not> uc_pullup (udc s) then (- ENODEV, s)
       else if sockfd \<noteq> -1 then
         let (r, s1) = v_up_threads K sockfd s in
         if r \<noteq> 0 then (r, s1) else (int (length buf), v_up_used K s1)
       else if \<not> uc_connected (udc s) then (- EINVAL, s)
       else if status (ud s) \<noteq> SDEV_ST_USED then (- EINVAL, s)
       else (int (length buf), usbip_event_add (kmalloc K) VUDC_EVENT_DOWN s))"

definition v_status_show :: "nat \<Rightarrow> 'c vudc_world \<Rightarrow> int + string" where
  "v_status_show p w = (case uw_drvdata w p of
     None \<Rightarrow> Inl (- ENODEV)
   | Some d \<Rightarrow> Inr (decimal (status_number (status (ud (vudc_at d w)))) @ [CHR 0x0A]))"

text \<open>The gadget core connects the gadget and disconnects it.  \<open>None\<close> is a fault or a wait that never
  ends.\<close>

definition vgadget_pullup ::
  "('c, 'k) vudc_kernel_scheme \<Rightarrow> nat \<Rightarrow> bool \<Rightarrow> 'c vudc_world \<Rightarrow> 'c vudc_world option" where
  "vgadget_pullup K d value w =
     (let s = vudc_at d w; v = udc s in
      if value = uc_pullup v then Some w
      else if value then
        (case uc_driver v of
           None \<Rightarrow> None
         | Some g \<Rightarrow> do {
             (ret, v1, c1) \<leftarrow> get_gadget_descs K (upd_ep 0 (\<lambda>e. e\<lparr>ve_maxpacket := 64\<rparr>)
               (v\<lparr>uc_pullup := True, uc_speed := (if (ucast (gd_max_speed g) :: u8) < 3 then ucast (ucast (gd_max_speed g) :: u8)
                    else USB_SPEED_HIGH)\<rparr>)) (env s);
             let s1 = s\<lparr>udc := v1, env := c1\<rparr>;
             Some (put_vudc d (if ret \<noteq> 0 then s1 else s1\<lparr>ud := usbip_start_eh (ud s1)\<rparr>) w) })
      else let s1 = s\<lparr>udc := v\<lparr>uc_pullup := False, uc_desc_cached := False\<rparr>\<rparr> in
        usbip_stop_eh (vudc_eh_ops K) d
          (put_vudc d (usbip_event_add (kmalloc K) VUDC_EVENT_REMOVED s1) w))"

section \<open>The life of a controller\<close>

definition ep_name :: "nat \<Rightarrow> string" where
  "ep_name i = ''ep'' @ decimal ((i + 1) div 2) @ (if i = 0 then [] else if i mod 2 = 1 then ''out'' else ''in'')"

definition init_ep :: "nat \<Rightarrow> vep" where
  "init_ep i = \<lparr>ve_name = ep_name i, ve_maxpacket = 0xFFFF, ve_control = (i = 0),
     ve_dir_in = (i mod 2 = 0), ve_dir_out = (i = 0 \<or> i mod 2 = 1), ve_type = 0, ve_desc = None,
     ve_reqs = [], ve_halted = False, ve_wedged = False, ve_seen = False, ve_setup = False\<rparr>"

definition init_vudc_hw ::
  "('c, 'k) vudc_kernel_scheme \<Rightarrow> nat \<Rightarrow> 'c \<Rightarrow> (usbip_device \<times> vudc \<times> transfers) option \<times> 'c" where
  "init_vudc_hw K a c =
     (let (ok, c') = kmalloc K (VIRTUAL_ENDPOINTS * 128) c in
      (if \<not> ok then None else Some
         (\<lparr>ud_id = a, side = USBIP_VUDC, status = SDEV_ST_AVAILABLE, tcp_socket = None, ux = None,
           tcp_rx = False, tcp_tx = False, event = 0\<rparr>,
          \<lparr>uc_driver = None, uc_speed = 0, uc_b_hnp_enable = False, uc_a_hnp_support = False,
           uc_a_alt_hnp_support = False, uc_dev_desc = replicate sizeof_device_descriptor 0,
           uc_start_time = (0, 0), uc_ep = map init_ep [0..<VIRTUAL_ENDPOINTS], uc_address = 0,
           uc_devstatus = 0, uc_pullup = False, uc_connected = False, uc_desc_cached = False\<rparr>,
          v_init_timer \<lparr>urb_queue = [], tx_queue = [], tr_state = VUDC_TR_RUNNING, frame_start = 0,
            frame_limit = 0, tr_expires = None, ur_next = 0\<rparr>), c'))"

definition vudc_probe ::
  "('c, 'k) vudc_kernel_scheme \<Rightarrow> nat \<Rightarrow> 'c vudc_world \<Rightarrow> int \<times> 'c vudc_world" where
  "vudc_probe K p w =
     (let (ok, c1) = kmalloc K 2048 (uw_env w); a = uw_next w in
      if \<not> ok then (- ENOMEM, w\<lparr>uw_env := c1\<rparr>)
      else case init_vudc_hw K a c1 of
        (None, c2) \<Rightarrow> (- ENOMEM, w\<lparr>uw_env := c2\<rparr>)
      | (Some dev, c2) \<Rightarrow>
          let (r1, c3) = usb_add_gadget_udc K p c2 in
          if r1 < 0 then (r1, w\<lparr>uw_env := c3\<rparr>)
          else let (r2, c4) = sysfs_create_group K p c3 in
            if r2 \<noteq> 0 then (r2, w\<lparr>uw_env := usb_del_gadget_udc K p c4\<rparr>)
            else (0, w\<lparr>uw_env := c4, uw_next := Suc a, vudcs := (vudcs w)(a \<mapsto> dev),
              uw_drvdata := (uw_drvdata w)(p \<mapsto> a)\<rparr>))"

definition vudc_remove ::
  "('c, 'k) vudc_kernel_scheme \<Rightarrow> nat \<Rightarrow> 'c vudc_world \<Rightarrow> 'c vudc_world option" where
  "vudc_remove K p w = (case uw_drvdata w p of
     None \<Rightarrow> None
   | Some a \<Rightarrow> Some (w\<lparr>uw_env := usb_del_gadget_udc K p (sysfs_remove_group K p (uw_env w)),
       vudcs := (vudcs w)(a := None)\<rparr>))"

text \<open>The devices of the platform are named by their numbers.  \<open>uw_refs\<close> counts the references to a
  device: the one of its allocation, which \<open>platform_device_put\<close> drops.  Adding a device binds
  it to the driver, deleting a bound one unbinds it.\<close>

definition alloc_vudc_device ::
  "('c, 'k) vudc_kernel_scheme \<Rightarrow> nat \<Rightarrow> 'c vudc_world \<Rightarrow> bool \<times> 'c vudc_world" where
  "alloc_vudc_device K p w =
     (let (ok, c1) = kmalloc K 24 (uw_env w) in
      if \<not> ok then (False, w\<lparr>uw_env := c1\<rparr>)
      else let (ok2, c2) = platform_device_alloc K p c1 in
        if \<not> ok2 then (False, w\<lparr>uw_env := c2\<rparr>)
        else (True, w\<lparr>uw_env := c2, uw_refs := (uw_refs w)(p := 1), uw_drvdata := (uw_drvdata w)(p := None)\<rparr>))"

definition platform_device_put :: "nat \<Rightarrow> 'c vudc_world \<Rightarrow> 'c vudc_world option" where
  "platform_device_put p w =
     (if uw_refs w p = 0 then None else Some (w\<lparr>uw_refs := (uw_refs w)(p := uw_refs w p - 1)\<rparr>))"

definition put_vudc_device :: "nat \<Rightarrow> 'c vudc_world \<Rightarrow> 'c vudc_world option" where
  "put_vudc_device p w = platform_device_put p w"

definition add_device ::
  "('c, 'k) vudc_kernel_scheme \<Rightarrow> nat \<Rightarrow> 'c vudc_world \<Rightarrow> int \<times> 'c vudc_world" where
  "add_device K p w =
     (let (r, c) = platform_device_add K p (uw_env w); w1 = w\<lparr>uw_env := c\<rparr> in
      if r < 0 then (r, w1) else (r, snd (vudc_probe K p w1)))"

definition del_device ::
  "('c, 'k) vudc_kernel_scheme \<Rightarrow> nat \<Rightarrow> 'c vudc_world \<Rightarrow> 'c vudc_world option" where
  "del_device K p w =
     do { w1 \<leftarrow> (if uw_drvdata w p = None then Some w else vudc_remove K p w);
          Some (w1\<lparr>uw_env := platform_device_del K p (uw_env w1), uw_drvdata := (uw_drvdata w1)(p := None)\<rparr>) }"

text \<open>\<open>platform_device_unregister\<close> deletes the device and drops a reference.\<close>

definition platform_device_unregister ::
  "('c, 'k) vudc_kernel_scheme \<Rightarrow> nat \<Rightarrow> 'c vudc_world \<Rightarrow> 'c vudc_world option" where
  "platform_device_unregister K p w = do { w1 \<leftarrow> del_device K p w; platform_device_put p w1 }"

fun init_cleanup ::
  "('c, 'k) vudc_kernel_scheme \<Rightarrow> nat list \<Rightarrow> 'c vudc_world \<Rightarrow> 'c vudc_world option" where
  "init_cleanup K [] w = Some (w\<lparr>vudc_devices := [], uw_env := platform_driver_unregister K (uw_env w)\<rparr>)"
| "init_cleanup K (p # ps) w = do {
     w1 \<leftarrow> del_device K p w; w2 \<leftarrow> put_vudc_device p w1; init_cleanup K ps w2 }"

fun init_devices ::
  "('c, 'k) vudc_kernel_scheme \<Rightarrow> nat list \<Rightarrow> 'c vudc_world \<Rightarrow> (int \<times> 'c vudc_world) option" where
  "init_devices K [] w = Some (0, w)"
| "init_devices K (p # ps) w =
     (let fail = (\<lambda>r w. map_option (Pair r) (init_cleanup K (vudc_devices w) w)) in
      case alloc_vudc_device K p w of
        (False, w1) \<Rightarrow> fail (- ENOMEM) w1
      | (True, w1) \<Rightarrow>
          let (r, w2) = add_device K p w1 in
          if r < 0 then do { w3 \<leftarrow> put_vudc_device p w2; fail r w3 }
          else let w3 = w2\<lparr>vudc_devices := vudc_devices w2 @ [p]\<rparr> in
            if uw_drvdata w3 p = None then fail (- EINVAL) w3
            else init_devices K ps w3)"

text \<open>\<open>n\<close> is the module parameter \<open>vudc_number\<close>, \<open>disabled\<close> the result of \<open>usb_disabled()\<close>.\<close>

definition vudc_init ::
  "('c, 'k) vudc_kernel_scheme \<Rightarrow> bool \<Rightarrow> nat \<Rightarrow> 'c vudc_world \<Rightarrow> (int \<times> 'c vudc_world) option" where
  "vudc_init K disabled n w =
     (if disabled then Some (- ENODEV, w)
      else if n < 1 then Some (- EINVAL, w)
      else let (r, c) = platform_driver_register K (uw_env w); w1 = w\<lparr>uw_env := c\<rparr> in
        if r < 0 then Some (r, w1) else init_devices K [0..<n] w1)"

fun vudc_cleanup_loop ::
  "('c, 'k) vudc_kernel_scheme \<Rightarrow> nat list \<Rightarrow> 'c vudc_world \<Rightarrow> 'c vudc_world option" where
  "vudc_cleanup_loop K [] w = Some w"
| "vudc_cleanup_loop K (p # ps) w = do {
     w1 \<leftarrow> platform_device_unregister K p (w\<lparr>vudc_devices := ps\<rparr>);
     w2 \<leftarrow> put_vudc_device p w1;
     vudc_cleanup_loop K ps w2 }"

definition vudc_cleanup ::
  "('c, 'k) vudc_kernel_scheme \<Rightarrow> 'c vudc_world \<Rightarrow> 'c vudc_world option" where
  "vudc_cleanup K w =
     map_option (\<lambda>w. w\<lparr>uw_env := platform_driver_unregister K (uw_env w)\<rparr>)
       (vudc_cleanup_loop K (vudc_devices w) w)"

section \<open>The controller stays well-formed\<close>

text \<open>What can happen to a controller: the operations the gadget driver and the gadget core call, and the
  work of the timer.  A gadget driver enables endpoints with packets of at least one byte, and queues
  requests with their memory.\<close>

inductive gadget_step :: "('c, 'k) vudc_kernel_scheme \<Rightarrow> vudc \<Rightarrow> vudc \<Rightarrow> bool" for K where
  enable: "i < VIRTUAL_ENDPOINTS \<Longrightarrow> usb_endpoint_maxp K d \<noteq> 0 \<Longrightarrow> vep_enable K i (Some d) v = (r, v') \<Longrightarrow>
    gadget_step K v v'"
| disable: "i < VIRTUAL_ENDPOINTS \<Longrightarrow> vep_disable K i v c = Some (r, v', c') \<Longrightarrow> gadget_step K v v'"
| queue: "unat (vr_length q) \<le> length (vr_buf q) \<Longrightarrow> vep_queue i q v = (r, v') \<Longrightarrow> gadget_step K v v'"
| dequeue: "vep_dequeue K i q v c = Some (r, v', c') \<Longrightarrow> gadget_step K v v'"
| halt: "vep_set_halt_and_wedge i a b v = (r, v') \<Longrightarrow> gadget_step K v v'"
| selfpowered: "gadget_step K v (vgadget_set_selfpowered b v)"
| start: "gadget_step K v (vgadget_udc_start g v)"
| stop: "gadget_step K v (vgadget_udc_stop v)"
| descs: "get_gadget_descs K v c = Some (r, v', c') \<Longrightarrow> gadget_step K v v'"
| control: "v_urb_ok urb \<Longrightarrow> handle_control_request req urb v = Some (r, urb', v') \<Longrightarrow> gadget_step K v v'"
| transfer: "i < VIRTUAL_ENDPOINTS \<Longrightarrow> v_urb_ok urb \<Longrightarrow> transfer K urb i v c = Some (sent, urb', v', c') \<Longrightarrow>
    gadget_step K v v'"

lemma upd_ep_cong: "f (uc_ep v ! i) = g (uc_ep v ! i) \<Longrightarrow> upd_ep i f v = upd_ep i g v"
  by (simp add: upd_ep_def)

lemma vep_enable_ok:
  "vudc_ok v \<Longrightarrow> i < VIRTUAL_ENDPOINTS \<Longrightarrow> usb_endpoint_maxp K d \<noteq> 0 \<Longrightarrow> vudc_ok (snd (vep_enable K i (Some d) v))"
  using vudc_ok_ep [of v i] by (auto simp: vep_enable_def ep_ok_def intro!: vudc_ok_upd_ep)

lemma vep_disable_ok:
  assumes "gadget_ok K" "vudc_ok v" "i < VIRTUAL_ENDPOINTS" "vep_disable K i v c = Some (r, v', c')"
  shows "vudc_ok v'"
proof -
  have "vudc_ok (upd_ep i (\<lambda>e. e\<lparr>ve_desc := None\<rparr>) v)"
    using vudc_ok_ep [OF assms(2,3)] by (auto simp: ep_ok_def intro!: vudc_ok_upd_ep [OF assms(2)])
  with nuke_ends [OF assms(1) this assms(3), of c] assms(2,4) show ?thesis
    by (auto simp: vep_disable_def split: if_splits)
qed

lemma vep_queue_ok:
  "vudc_ok v \<Longrightarrow> unat (vr_length q) \<le> length (vr_buf q) \<Longrightarrow> vudc_ok (snd (vep_queue i q v))"
  using vudc_ok_ep [of v i] by (auto simp: vep_queue_def ep_ok_def request_ok_def intro!: vudc_ok_upd_ep)

lemma vep_dequeue_ok:
  assumes "gadget_ok K" "vudc_ok v" "vep_dequeue K i q v c = Some (r, v', c')"
  shows "vudc_ok v'"
proof -
  let ?v = "upd_ep i (\<lambda>e. e\<lparr>ve_reqs := filter (\<lambda>x. vr_id x \<noteq> vr_id q) (ve_reqs e)\<rparr>) v"
  have "ep_ok i (uc_ep v ! i) \<Longrightarrow> ep_ok i ((uc_ep v ! i)\<lparr>ve_reqs := filter (\<lambda>x. vr_id x \<noteq> vr_id q) (ve_reqs (uc_ep v ! i))\<rparr>)"
    by (simp add: ep_ok_def)
  then have "vudc_ok ?v" using vudc_ok_ep [OF assms(2), of i] by (intro vudc_ok_upd_ep [OF assms(2)]) blast
  have "vudc_ok v'" if "usb_gadget_giveback_request K i x ?v c = (v', c')" for x
    using gadget_okD(4) [OF assms(1) \<open>vudc_ok ?v\<close>, of i x c] that by simp
  then show ?thesis using assms(2,3)
    by (cases "find (\<lambda>x. vr_id x = vr_id q) (ve_reqs (uc_ep v ! i))") (auto simp: vep_dequeue_def split: if_splits)
qed

lemma vep_halt_ok: "vudc_ok v \<Longrightarrow> vudc_ok (snd (vep_set_halt_and_wedge i a b v))"
  using vudc_ok_ep [of v i] by (auto simp: vep_set_halt_and_wedge_def ep_ok_def intro!: vudc_ok_upd_ep)

lemma get_gadget_descs_ok:
  assumes "gadget_ok K" "vudc_ok v" "get_gadget_descs K v c = Some (r, v', c')"
  shows "vudc_ok v'"
proof -
  obtain ret v1 c1 where g: "gd_setup K get_descriptor_request v c = (ret, v1, c1)"
    by (cases "gd_setup K get_descriptor_request v c") auto
  have ok: "vudc_ok v1" using gadget_okD(1) [OF assms(1,2), of get_descriptor_request c] g by simp
  let ?v = "upd_ep 0 (\<lambda>e. e\<lparr>ve_reqs := butlast (ve_reqs (uc_ep v1 ! 0))\<rparr>) v1"
  have "vudc_ok ?v"
    using vudc_ok_ep [OF ok, of 0] by (auto simp: ep_ok_def intro!: vudc_ok_upd_ep [OF ok] dest!: in_set_butlastD)
  then have "vudc_ok (fst (usb_gadget_giveback_request K 0 x ?v c1))"
    "vudc_ok (fst (usb_gadget_giveback_request K 0 x (?v\<lparr>uc_dev_desc := dd, uc_desc_cached := True\<rparr>) c1))" for x dd
    by (intro gadget_okD(4) [OF assms(1)]; simp)+
  then show ?thesis using assms(2,3) g ok
    by (auto simp: get_gadget_descs_def Let_def split: if_splits) (metis fst_conv)+
qed

lemma gadget_step_ok: "gadget_step K v v' \<Longrightarrow> gadget_ok K \<Longrightarrow> vudc_ok v \<Longrightarrow> vudc_ok v'"
proof (induction rule: gadget_step.induct)
  case (enable i d v r v')
  then show ?case using vep_enable_ok [of v i K d] by simp
next
  case (disable i v c r v' c')
  then show ?case using vep_disable_ok [of K v i c r v' c'] by simp
next
  case (queue q i v r v')
  then show ?case using vep_queue_ok [of v q i] by simp
next
  case (dequeue i q v c r v' c')
  then show ?case using vep_dequeue_ok [of K v i q c r v' c'] by simp
next
  case (halt i a b v r v')
  then show ?case using vep_halt_ok [of v i a b] by simp
next
  case (descs v c r v' c')
  then show ?case using get_gadget_descs_ok [of K v c r v' c'] by simp
next
  case (control urb req v r urb' v')
  then show ?case using handle_control_ok [of v urb req] by auto
next
  case (transfer i urb v c sent urb' v' c')
  then show ?case using transfer_loop_ok [of K i v urb 0 0 c] by (auto simp: transfer_def)
qed (simp_all add: vgadget_set_selfpowered_def vgadget_udc_start_def vgadget_udc_stop_def)



section \<open>Answers that outlive their connection\<close>

lemma run_op_tx:
  assumes "f \<in> {eh_shutdown (vudc_eh_ops (kernel_trx K ks)), eh_reset (vudc_eh_ops (kernel_trx K ks)),
    eh_unusable (vudc_eh_ops (kernel_trx K ks))}" "known_vudc (kernel_trx K ks) d w"
  shows "tx_queue (tr (vudc_at d (run_eh_op (vudc_eh_ops (kernel_trx K ks)) ev f d w))) = tx_queue (tr (vudc_at d w))"
  using vudc_op_frame [OF assms]
  by (auto simp: run_eh_op_def Let_def vudc_eh_ops_def [of "kernel_trx K ks"] simp del: insert_iff)

lemma handle_device_tx:
  "known_vudc (kernel_trx K ks) d w \<Longrightarrow>
   tx_queue (tr (vudc_at d (handle_device (vudc_eh_ops (kernel_trx K ks)) d w))) = tx_queue (tr (vudc_at d w))"
  by (simp add: handle_device_def run_op_tx vudc_eh.run_eh_op_known)

lemma v_store_sockfd_tx: "tx_queue (tr (snd (v_store_sockfd K buf s))) = tx_queue (tr s)"
  by (auto simp: v_store_sockfd_def v_up_threads_def v_up_used_def v_start_timer_def v_kick_timer_def Let_def
      split: sum.split option.split prod.split tr_state.split)

text \<open>The answers that wait to be sent survive the end of their connection: after the controller was
  shut down and reset, and a new connection was set up, they are at the head of the queue of
  answers, and the transmit thread sends them to the new host.\<close>

theorem vudc_stale_answers:
  assumes "known_vudc (kernel_trx K ks) d w" "uc_driver (udc (vudc_at d w)) \<noteq> None"
    "event (ud (vudc_at d w)) = VUDC_EVENT_DOWN"
  shows "closed (ud (vudc_at d (handle_device (vudc_eh_ops (kernel_trx K ks)) d w))) \<and>
    tx_queue (tr (snd (v_store_sockfd K' buf (vudc_at d (handle_device (vudc_eh_ops (kernel_trx K ks)) d w))))) =
      tx_queue (tr (vudc_at d w))"
proof -
  have o: "dev_of (vudc_eh_ops (kernel_trx K ks)) d x = ud (vudc_at d x)" for x by (simp add: vudc_eh_ops_def)
  have "event (ud (vudc_at d w)) AND USBIP_EH_SHUTDOWN \<noteq> 0" using assms(3) by (simp add: event_defs)
  then show ?thesis using vudc_eh.handle_device_lifecycle [of K ks d w] assms(1,2) o
    by (simp add: v_store_sockfd_tx handle_device_tx)
qed

theorem vudc_stale_answers_witness:
  "tx_queue (tr (snd (v_store_sockfd demo_vudc_kernel ''5'' (vudc_at 0 (handle_device
     (vudc_eh_ops (kernel_trx demo_vudc_kernel demo_sockets)) 0 (demo_uworld VUDC_EVENT_DOWN)))))) =
   [TX_UNLINK \<lparr>vn_seqnum = 7, vn_status = 0\<rparr>]"
  by (rule trans [OF conjunct2 [OF vudc_stale_answers [of demo_vudc_kernel demo_sockets 0 "demo_uworld VUDC_EVENT_DOWN"]]])
    (simp_all add: demo_uworld_known [OF demo_gadget_ok(2)] demo_uworld_at demo_vudc_def demo_transfers_def)

section \<open>Unloading the module\<close>

lemma vudc_probe_frame:
  "uw_refs (snd (vudc_probe K p w)) = uw_refs w" "vudc_devices (snd (vudc_probe K p w)) = vudc_devices w"
  by (auto simp: vudc_probe_def Let_def split: prod.split option.split)

lemma init_devices_refs:
  assumes "init_devices K ps w = Some (0, w')" "distinct ps" "set ps \<inter> set (vudc_devices w) = {}"
    "\<forall>p\<in>set (vudc_devices w). uw_refs w p = 1"
  shows "vudc_devices w' = vudc_devices w @ ps \<and> (\<forall>p\<in>set (vudc_devices w'). uw_refs w' p = 1)"
  using assms
proof (induction ps arbitrary: w)
  case (Cons p ps)
  obtain w1 where a: "alloc_vudc_device K p w = (True, w1)"
    using Cons.prems(1) by (auto simp: Let_def split: prod.splits bool.splits)
  have w1: "uw_refs w1 = (uw_refs w)(p := 1)" "vudc_devices w1 = vudc_devices w"
    using a by (auto simp: alloc_vudc_device_def Let_def split: prod.splits if_splits)
  obtain r w2 where d: "add_device K p w1 = (r, w2)" by fastforce
  have w2: "uw_refs w2 = uw_refs w1" "vudc_devices w2 = vudc_devices w1"
    using d vudc_probe_frame [of K p] by (auto simp: add_device_def Let_def split: prod.splits if_splits)
  let ?w3 = "w2\<lparr>vudc_devices := vudc_devices w2 @ [p]\<rparr>"
  have "init_devices K ps ?w3 = Some (0, w')"
    using Cons.prems(1) a d by (auto simp: Let_def bind_eq_Some_conv split: if_splits)
  from Cons.IH [OF this] Cons.prems w1 w2 show ?case by auto
qed simp

text \<open>Unloading the module after it was loaded drops each device once more than it was taken: the
  device is put by \<open>platform_device_unregister\<close>, and a second time by \<open>put_vudc_device\<close>, when its
  last reference is gone.\<close>

theorem vudc_unload_faults:
  assumes "vudc_init K False n w = Some (0, w')" "vudc_devices w = []"
  shows "vudc_cleanup K' w' = None"
proof -
  obtain w1 where i: "n \<ge> 1" "init_devices K [0..<n] w1 = Some (0, w')" "vudc_devices w1 = []"
    using assms by (auto simp: vudc_init_def Let_def split: prod.splits if_splits)
  have d: "vudc_devices w' = [0..<n]" "\<forall>p\<in>set (vudc_devices w'). uw_refs w' p = 1"
    using init_devices_refs [OF i(2)] i(3) by auto
  obtain ps where ps: "vudc_devices w' = 0 # ps" using d(1) i(1) by (simp add: upt_conv_Cons)
  then have r: "uw_refs w' 0 = 1" using d(2) by simp
  let ?w = "w'\<lparr>vudc_devices := ps\<rparr>"
  have u: "uw_refs x 0 = 0" if "platform_device_unregister K' 0 ?w = Some x" for x
    using that r
    by (auto simp: platform_device_unregister_def del_device_def vudc_remove_def platform_device_put_def
        bind_eq_Some_conv split: if_splits option.splits)
  have "platform_device_unregister K' 0 ?w \<bind> (\<lambda>w1. put_vudc_device 0 w1 \<bind> vudc_cleanup_loop K' ps) = None"
    using u by (cases "platform_device_unregister K' 0 ?w") (auto simp: put_vudc_device_def platform_device_put_def)
  then show ?thesis by (simp add: vudc_cleanup_def ps)
qed

definition demo_empty_uworld :: "u8 list vudc_world" where
  "demo_empty_uworld = \<lparr>vudcs = Map.empty, uw_drvdata = Map.empty, uw_refs = (\<lambda>p. 0), vudc_devices = [],
     uw_events = [], uw_env = [], uw_next = 1, uw_crashed = False\<rparr>"

theorem vudc_unload_faults_witness:
  "\<exists>w'. vudc_init demo_vudc_kernel False 1 demo_empty_uworld = Some (0, w') \<and> vudc_cleanup demo_vudc_kernel w' = None"
proof -
  have "\<exists>w'. vudc_init demo_vudc_kernel False 1 demo_empty_uworld = Some (0, w')"
    by (simp add: vudc_init_def demo_vudc_kernel_def demo_empty_uworld_def alloc_vudc_device_def add_device_def
        vudc_probe_def init_vudc_hw_def Let_def)
  then obtain w' where w: "vudc_init demo_vudc_kernel False 1 demo_empty_uworld = Some (0, w')" by blast
  have "vudc_devices demo_empty_uworld = []" by (simp add: demo_empty_uworld_def)
  from vudc_unload_faults [OF w this] w show ?thesis by blast
qed

end
