(* ===== verification/Tool_Device.thy ===== *)
theory Tool_Device
  imports Usbip_Event
begin

text \<open>
  The devices as the user space tools see them: the structures of \<open>libsrc/usbip_common.h\<close>, the
  functions of \<open>libsrc/usbip_common.c\<close> that fill them from the attributes libudev reads, and the
  conversions of the C library these use.
\<close>

section \<open>Conversions of the C library\<close>

definition scan_sign :: "string \<Rightarrow> bool \<times> string" where
  "scan_sign s = (case s of [] \<Rightarrow> (False, [])
     | c # cs \<Rightarrow> if c = CHR ''-'' then (True, cs) else if c = CHR ''+'' then (False, cs) else (False, s))"

text \<open>\<open>%d\<close> and \<open>%u\<close> of \<open>sscanf\<close>: the number is limited to the range of \<open>long\<close> and stored in 32 bits.\<close>

definition clamp :: "int \<Rightarrow> int \<Rightarrow> int \<Rightarrow> int" where
  "clamp lo hi v = max lo (min hi v)"

definition scan_long :: "int \<Rightarrow> int \<Rightarrow> string \<Rightarrow> (u32 \<times> string) option" where
  "scan_long lo hi s = (let (neg, r) = scan_sign (dropWhile is_space s) in
     if r = [] \<or> \<not> is_digit (hd r) then None
     else let (n, rest) = scan_digits 0 r in
       Some (word_of_int (clamp lo hi (if neg then - int n else int n)), rest))"

definition scan_d :: "string \<Rightarrow> (int \<times> string) option" where
  "scan_d s = map_option (\<lambda>(v, r). (sint v, r)) (scan_long (- (2 ^ 63)) (2 ^ 63 - 1) s)"

definition scan_u :: "string \<Rightarrow> (u32 \<times> string) option" where
  "scan_u s = scan_long (- (2 ^ 64 - 1)) (2 ^ 64 - 1) s"

text \<open>\<open>%x\<close> with a maximal width: a sign, \<open>0x\<close> and the digits count for the width.\<close>

definition scan_x :: "nat \<Rightarrow> string \<Rightarrow> (ulong \<times> string) option" where
  "scan_x w s =
     (let t = dropWhile is_space s; (neg, r) = scan_sign (take w t); rest = drop w t;
          ds = (case r of z # x # cs \<Rightarrow> if z = CHR ''0'' \<and> (x = CHR ''x'' \<or> x = CHR ''X'') then cs else r | _ \<Rightarrow> r) in
      if ds = [] \<or> \<not> radix_digit (hd ds) < 16 then None
      else let (n, r') = scan_radix 16 0 ds in
        Some (word_of_int (clamp (- (2 ^ 64 - 1)) (2 ^ 64 - 1) (if neg then - int n else int n)), r' @ rest))"

text \<open>\<open>%ws\<close>, and \<open>strncpy\<close> into an array of \<open>n\<close> characters.\<close>

definition scan_s :: "nat \<Rightarrow> string \<Rightarrow> (string \<times> string) option" where
  "scan_s w s = (let t = dropWhile is_space s; word = takeWhile (\<lambda>c. \<not> is_space c) (take w t) in
     if word = [] then None else Some (word, drop (length word) t))"

definition strncpy :: "nat \<Rightarrow> string \<Rightarrow> string" where
  "strncpy n s = take n s @ replicate (n - length s) (CHR 0x00)"

lemma length_strncpy [simp]: "length (strncpy n s) = n"
  by (simp add: strncpy_def)

lemma cstr_strncpy: "CHR 0x00 \<notin> set s \<Longrightarrow> length s < n \<Longrightarrow> cstr (strncpy n s) = s"
  by (subst cstr_def, cases "n - length s") (auto simp: strncpy_def takeWhile_append)

section \<open>Devices and their interfaces\<close>

abbreviation (input) SYSFS_PATH_MAX :: nat where "SYSFS_PATH_MAX \<equiv> 256"
abbreviation (input) SYSFS_BUS_ID_SIZE :: nat where "SYSFS_BUS_ID_SIZE \<equiv> 32"
abbreviation (input) USB_SPEED_UNKNOWN :: u32 where "USB_SPEED_UNKNOWN \<equiv> 0"

record usbip_usb_interface =
  bInterfaceClass :: u8
  bInterfaceSubClass :: u8
  bInterfaceProtocol :: u8
  bInterfaceNumber :: u8

text \<open>\<open>ub_path\<close> and \<open>ub_busid\<close> are the whole arrays.\<close>

record usbip_usb_device =
  ub_path :: string
  ub_busid :: string
  ub_busnum :: u32
  ub_devnum :: u32
  ub_speed :: u32
  idVendor :: u16
  idProduct :: u16
  bcdDevice :: u16
  bDeviceClass :: u8
  bDeviceSubClass :: u8
  bDeviceProtocol :: u8
  bConfigurationValue :: u8
  bNumConfigurations :: u8
  bNumInterfaces :: u8

definition zero_usb_device :: usbip_usb_device where
  "zero_usb_device = \<lparr>ub_path = replicate SYSFS_PATH_MAX (CHR 0x00),
     ub_busid = replicate SYSFS_BUS_ID_SIZE (CHR 0x00), ub_busnum = 0, ub_devnum = 0, ub_speed = 0,
     idVendor = 0, idProduct = 0, bcdDevice = 0, bDeviceClass = 0, bDeviceSubClass = 0,
     bDeviceProtocol = 0, bConfigurationValue = 0, bNumConfigurations = 0, bNumInterfaces = 0\<rparr>"

definition zero_usb_interface :: usbip_usb_interface where
  "zero_usb_interface = \<lparr>bInterfaceClass = 0, bInterfaceSubClass = 0, bInterfaceProtocol = 0,
     bInterfaceNumber = 0\<rparr>"

section \<open>Names of states and speeds\<close>

definition speed_strings :: "(u32 \<times> string \<times> string) list" where
  "speed_strings =
     [(USB_SPEED_UNKNOWN, ''unknown'', ''Unknown Speed''),
      (USB_SPEED_LOW, ''1.5'', ''Low Speed(1.5Mbps)''),
      (USB_SPEED_FULL, ''12'', ''Full Speed(12Mbps)''),
      (USB_SPEED_HIGH, ''480'', ''High Speed(480Mbps)''),
      (USB_SPEED_WIRELESS, ''53.3-480'', ''Wireless''),
      (USB_SPEED_SUPER, ''5000'', ''Super Speed(5000Mbps)'')]"

definition portst_strings :: "(nat \<times> string) list" where
  "portst_strings =
     [(status_number SDEV_ST_AVAILABLE, ''Device Available''),
      (status_number SDEV_ST_USED, ''Device in Use''),
      (status_number SDEV_ST_ERROR, ''Device Error''),
      (status_number VDEV_ST_NULL, ''Port Available''),
      (status_number VDEV_ST_NOTASSIGNED, ''Port Initializing''),
      (status_number VDEV_ST_USED, ''Port in Use''),
      (status_number VDEV_ST_ERROR, ''Port Error'')]"

definition usbip_status_string :: "int \<Rightarrow> string" where
  "usbip_status_string st = (case find (\<lambda>(n, _). int n = st) portst_strings of
     Some (_, desc) \<Rightarrow> desc | None \<Rightarrow> ''Unknown Status'')"

definition usbip_speed_string :: "int \<Rightarrow> string" where
  "usbip_speed_string num = (case find (\<lambda>(n, _). uint n = num) speed_strings of
     Some (_, _, desc) \<Rightarrow> desc | None \<Rightarrow> ''Unknown Speed'')"

section \<open>Reading the attributes of a device\<close>

text \<open>A device of libudev.\<close>

record udev_device =
  sysattr :: "string \<Rightarrow> string option"
  syspath :: string
  sysname :: string
  driver :: "string option"

text \<open>The format is given as the width and base of its conversion.\<close>

datatype attr_format = HEX nat | DEC

definition scan_attr :: "attr_format \<Rightarrow> string \<Rightarrow> int option" where
  "scan_attr f s = (case f of
     HEX w \<Rightarrow> map_option (\<lambda>(v, _). sint (ucast v :: u32)) (scan_x w s)
   | DEC \<Rightarrow> map_option fst (scan_d s))"

definition read_attr_value :: "udev_device \<Rightarrow> string \<Rightarrow> attr_format \<Rightarrow> int" where
  "read_attr_value dev name f = (case sysattr dev name of
     None \<Rightarrow> 0
   | Some attr \<Rightarrow> (case scan_attr f attr of None \<Rightarrow> 0 | Some num \<Rightarrow> num))"

definition read_attr_speed :: "udev_device \<Rightarrow> u32" where
  "read_attr_speed dev = (case sysattr dev ''speed'' of
     None \<Rightarrow> USB_SPEED_UNKNOWN
   | Some s \<Rightarrow> (case find (\<lambda>(_, name, _). name = s) speed_strings of
       Some (n, _, _) \<Rightarrow> n | None \<Rightarrow> USB_SPEED_UNKNOWN))"

text \<open>\<open>None\<close>: the name does not start with the number of a bus, and \<open>busnum\<close> is used uninitialised.\<close>

definition read_usb_device :: "udev_device \<Rightarrow> usbip_usb_device \<Rightarrow> usbip_usb_device option" where
  "read_usb_device sdev udev =
     map_option (\<lambda>(busnum, _). udev\<lparr>
         bDeviceClass := word_of_int (read_attr_value sdev ''bDeviceClass'' (HEX 2)),
         bDeviceSubClass := word_of_int (read_attr_value sdev ''bDeviceSubClass'' (HEX 2)),
         bDeviceProtocol := word_of_int (read_attr_value sdev ''bDeviceProtocol'' (HEX 2)),
         idVendor := word_of_int (read_attr_value sdev ''idVendor'' (HEX 4)),
         idProduct := word_of_int (read_attr_value sdev ''idProduct'' (HEX 4)),
         bcdDevice := word_of_int (read_attr_value sdev ''bcdDevice'' (HEX 4)),
         bConfigurationValue := word_of_int (read_attr_value sdev ''bConfigurationValue'' (HEX 2)),
         bNumConfigurations := word_of_int (read_attr_value sdev ''bNumConfigurations'' (HEX 2)),
         bNumInterfaces := word_of_int (read_attr_value sdev ''bNumInterfaces'' (HEX 2)),
         ub_devnum := ucast (word_of_int (read_attr_value sdev ''devnum'' DEC) :: u8),
         ub_speed := read_attr_speed sdev,
         ub_path := strncpy SYSFS_PATH_MAX (syspath sdev),
         ub_busid := strncpy SYSFS_BUS_ID_SIZE (sysname sdev),
         ub_busnum := busnum\<rparr>) (scan_u (sysname sdev))"

text \<open>\<open>find_usb\<close> is \<open>udev_device_new_from_subsystem_sysname\<close> for the subsystem \<open>usb\<close>.  The fault is a name
  that does not fit the array.\<close>

definition read_usb_interface ::
  "(string \<Rightarrow> udev_device option) \<Rightarrow> usbip_usb_device \<Rightarrow> nat \<Rightarrow> usbip_usb_interface \<Rightarrow>
     (int \<times> usbip_usb_interface) option" where
  "read_usb_interface find_usb udev i uinf =
     (let busid = cstr (ub_busid udev) @ '':'' @ decimal (unat (bConfigurationValue udev)) @ ''.'' @ decimal i in
      if SYSFS_BUS_ID_SIZE \<le> length busid then None
      else case find_usb busid of
        None \<Rightarrow> Some (-1, uinf)
      | Some sif \<Rightarrow> Some (0, uinf\<lparr>
          bInterfaceClass := word_of_int (read_attr_value sif ''bInterfaceClass'' (HEX 2)),
          bInterfaceSubClass := word_of_int (read_attr_value sif ''bInterfaceSubClass'' (HEX 2)),
          bInterfaceProtocol := word_of_int (read_attr_value sif ''bInterfaceProtocol'' (HEX 2)),
          bInterfaceNumber := word_of_int (read_attr_value sif ''bInterfaceNumber'' (HEX 2))\<rparr>))"

section \<open>The system the tools run on\<close>

text \<open>libudev and the file system over a state \<open>'c\<close>.  \<open>find_usb\<close> and \<open>from_syspath\<close> are
  \<open>udev_device_new_from_subsystem_sysname\<close> and \<open>udev_device_new_from_syspath\<close>; \<open>enumerate_devices\<close> are the
  paths of the devices of a subsystem.  Where a call fails with -1 and sets \<open>errno\<close>, the result is the
  negative error number, which stands for both.\<close>

record 'c tool_sys =
  udev_new :: "'c \<Rightarrow> bool \<times> 'c"
  find_usb :: "'c \<Rightarrow> string \<Rightarrow> udev_device option"
  from_syspath :: "'c \<Rightarrow> string \<Rightarrow> udev_device option"
  enumerate_devices :: "'c \<Rightarrow> string \<Rightarrow> string list"
  open_attr :: "string \<Rightarrow> 'c \<Rightarrow> int \<times> 'c"
  write_attr :: "string \<Rightarrow> string \<Rightarrow> 'c \<Rightarrow> int \<times> 'c"
  read_file :: "string \<Rightarrow> 'c \<Rightarrow> string option"
  mkdir :: "string \<Rightarrow> 'c \<Rightarrow> int \<times> 'c"
  is_dir :: "string \<Rightarrow> 'c \<Rightarrow> bool option"
  open_trunc :: "string \<Rightarrow> 'c \<Rightarrow> bool \<times> 'c"
  write_file :: "string \<Rightarrow> string \<Rightarrow> 'c \<Rightarrow> int \<times> 'c"
  remove_file :: "string \<Rightarrow> 'c \<Rightarrow> 'c"
  rmdir :: "string \<Rightarrow> 'c \<Rightarrow> 'c"

definition write_sysfs_attribute ::
  "('c, 'k) tool_sys_scheme \<Rightarrow> string \<Rightarrow> string \<Rightarrow> 'c \<Rightarrow> int \<times> 'c" where
  "write_sysfs_attribute S path s c =
     (let (fd, c1) = open_attr S path c in
      if fd < 0 then (fd, c1)
      else let (n, c2) = write_attr S path s c1 in (min n 0, c2))"

text \<open>\<open>%d\<close>.\<close>

definition dec_int :: "int \<Rightarrow> string" where
  "dec_int v = (if v < 0 then CHR ''-'' # decimal (nat (- v)) else decimal (nat v))"

end
