(* ===== verification/Tool_Net.thy ===== *)
theory Tool_Net
  imports Tool_Device
begin

text \<open>
  The protocol of the tools, \<open>usbip_network.c\<close> and \<open>usbip_network.h\<close>: byte order and layout of its structures,
  sending and receiving whole messages, the common header of requests and replies, and connecting.
\<close>

section \<open>Sixteen bit integers\<close>

definition be_bytes16 :: "u16 \<Rightarrow> u8 list" where
  "be_bytes16 x = [ucast (drop_bit 8 x), ucast x]"

definition word_of_be16 :: "u8 list \<Rightarrow> u16" where
  "word_of_be16 bs = (case bs of [a, b] \<Rightarrow> push_bit 8 (ucast a) OR ucast b | _ \<Rightarrow> 0)"

definition bswap16 :: "u16 \<Rightarrow> u16" where "bswap16 x = word_of_be16 (rev (be_bytes16 x))"

definition host_bytes16 :: "bool \<Rightarrow> u16 \<Rightarrow> u8 list" where
  "host_bytes16 le x = (if le then rev (be_bytes16 x) else be_bytes16 x)"

definition host_word16 :: "bool \<Rightarrow> u8 list \<Rightarrow> u16" where
  "host_word16 le bs = word_of_be16 (if le then rev bs else bs)"

lemma length_be_bytes16 [simp]: "length (be_bytes16 x) = 2" "length (host_bytes16 le x) = 2"
  by (simp_all add: be_bytes16_def host_bytes16_def)

lemma word_of_be16_bytes [simp]: "word_of_be16 (be_bytes16 x) = x"
proof -
  have "bit (word_of_be16 (be_bytes16 x)) n = bit x n" if n: "n < 16" for n
    using n by (cases "n < 8") (auto simp: word_of_be16_def be_bytes16_def bit_simps)
  then show ?thesis by (intro bit_word_eqI) simp
qed

lemma be_bytes16_word [simp]:
  assumes "length bs = 2" shows "be_bytes16 (word_of_be16 bs) = bs"
proof -
  from assms obtain a b where bs: "bs = [a, b]" by (auto simp: eval_nat_numeral length_Suc_conv)
  have "be_bytes16 (word_of_be16 [a, b]) = [a, b]"
    unfolding word_of_be16_def be_bytes16_def by (auto intro!: bit_word_eqI simp: bit_simps)
  then show ?thesis by (simp add: bs)
qed

lemma bswap16_bswap16 [simp]: "bswap16 (bswap16 x) = x"
  by (simp add: bswap16_def)

lemma host_word16_bytes [simp]: "host_word16 le (host_bytes16 le x) = x"
  by (simp add: host_word16_def host_bytes16_def)

section \<open>Byte order\<close>

text \<open>\<open>htonl\<close> and \<open>ntohl\<close> swap the bytes on a little-endian host.\<close>

definition usbip_net_pack_uint32_t :: "bool \<Rightarrow> bool \<Rightarrow> u32 \<Rightarrow> u32" where
  "usbip_net_pack_uint32_t le pack num = (if pack then cpu_to_be32 le num else be32_to_cpu le num)"

definition usbip_net_pack_uint16_t :: "bool \<Rightarrow> bool \<Rightarrow> u16 \<Rightarrow> u16" where
  "usbip_net_pack_uint16_t le pack num = (if le then bswap16 num else num)"

definition usbip_net_pack_usb_device :: "bool \<Rightarrow> bool \<Rightarrow> usbip_usb_device \<Rightarrow> usbip_usb_device" where
  "usbip_net_pack_usb_device le pack d = d\<lparr>
     ub_busnum := usbip_net_pack_uint32_t le pack (ub_busnum d),
     ub_devnum := usbip_net_pack_uint32_t le pack (ub_devnum d),
     ub_speed := usbip_net_pack_uint32_t le pack (ub_speed d),
     idVendor := usbip_net_pack_uint16_t le pack (idVendor d),
     idProduct := usbip_net_pack_uint16_t le pack (idProduct d),
     bcdDevice := usbip_net_pack_uint16_t le pack (bcdDevice d)\<rparr>"

definition usbip_net_pack_usb_interface :: "bool \<Rightarrow> usbip_usb_interface \<Rightarrow> usbip_usb_interface" where
  "usbip_net_pack_usb_interface pack i = i"

record op_common =
  oc_version :: u16
  oc_code :: u16
  oc_status :: u32

definition PACK_OP_COMMON :: "bool \<Rightarrow> bool \<Rightarrow> op_common \<Rightarrow> op_common" where
  "PACK_OP_COMMON le pack h = h\<lparr>oc_version := usbip_net_pack_uint16_t le pack (oc_version h),
     oc_code := usbip_net_pack_uint16_t le pack (oc_code h),
     oc_status := usbip_net_pack_uint32_t le pack (oc_status h)\<rparr>"

abbreviation (input) USBIP_VERSION :: u16 where "USBIP_VERSION \<equiv> 0x111"
abbreviation (input) ST_OK :: u32 where "ST_OK \<equiv> 0"
abbreviation (input) ST_NA :: u32 where "ST_NA \<equiv> 1"
abbreviation (input) ST_NO_FREE_PORT :: u32 where "ST_NO_FREE_PORT \<equiv> 2"
abbreviation (input) ST_DEVICE_NOT_FOUND :: u32 where "ST_DEVICE_NOT_FOUND \<equiv> 3"
abbreviation (input) OP_UNSPEC :: u16 where "OP_UNSPEC \<equiv> 0"
abbreviation (input) OP_REQ_DEVINFO :: u16 where "OP_REQ_DEVINFO \<equiv> 0x8002"
abbreviation (input) OP_REQ_IMPORT :: u16 where "OP_REQ_IMPORT \<equiv> 0x8003"
abbreviation (input) OP_REP_IMPORT :: u16 where "OP_REP_IMPORT \<equiv> 3"
abbreviation (input) OP_REQ_CRYPKEY :: u16 where "OP_REQ_CRYPKEY \<equiv> 0x8004"
abbreviation (input) OP_REQ_DEVLIST :: u16 where "OP_REQ_DEVLIST \<equiv> 0x8005"
abbreviation (input) OP_REP_DEVLIST :: u16 where "OP_REP_DEVLIST \<equiv> 5"
abbreviation (input) OP_REQ_EXPORT :: u16 where "OP_REQ_EXPORT \<equiv> 0x8006"
abbreviation (input) OP_REP_EXPORT :: u16 where "OP_REP_EXPORT \<equiv> 6"
abbreviation (input) OP_REQ_UNEXPORT :: u16 where "OP_REQ_UNEXPORT \<equiv> 0x8007"
abbreviation (input) OP_REP_UNEXPORT :: u16 where "OP_REP_UNEXPORT \<equiv> 7"

section \<open>Layout\<close>

definition bytes_of_string :: "string \<Rightarrow> u8 list" where
  "bytes_of_string s = map (\<lambda>c. of_nat (of_char c)) s"

definition string_of_bytes :: "u8 list \<Rightarrow> string" where
  "string_of_bytes bs = map (\<lambda>b. char_of (unat b)) bs"

definition op_common_bytes :: "bool \<Rightarrow> op_common \<Rightarrow> u8 list" where
  "op_common_bytes le h = host_bytes16 le (oc_version h) @ host_bytes16 le (oc_code h) @ host_bytes32 le (oc_status h)"

definition bytes_op_common :: "bool \<Rightarrow> u8 list \<Rightarrow> op_common" where
  "bytes_op_common le bs = \<lparr>oc_version = host_word16 le (slice 0 2 bs), oc_code = host_word16 le (slice 2 2 bs),
     oc_status = host_word32 le (slice 4 4 bs)\<rparr>"

definition usb_device_bytes :: "bool \<Rightarrow> usbip_usb_device \<Rightarrow> u8 list" where
  "usb_device_bytes le d = bytes_of_string (ub_path d) @ bytes_of_string (ub_busid d) @
     host_bytes32 le (ub_busnum d) @ host_bytes32 le (ub_devnum d) @ host_bytes32 le (ub_speed d) @
     host_bytes16 le (idVendor d) @ host_bytes16 le (idProduct d) @ host_bytes16 le (bcdDevice d) @
     [bDeviceClass d, bDeviceSubClass d, bDeviceProtocol d, bConfigurationValue d, bNumConfigurations d,
      bNumInterfaces d]"

definition bytes_usb_device :: "bool \<Rightarrow> u8 list \<Rightarrow> usbip_usb_device" where
  "bytes_usb_device le bs = \<lparr>ub_path = string_of_bytes (slice 0 256 bs), ub_busid = string_of_bytes (slice 256 32 bs),
     ub_busnum = host_word32 le (slice 288 4 bs), ub_devnum = host_word32 le (slice 292 4 bs),
     ub_speed = host_word32 le (slice 296 4 bs), idVendor = host_word16 le (slice 300 2 bs),
     idProduct = host_word16 le (slice 302 2 bs), bcdDevice = host_word16 le (slice 304 2 bs),
     bDeviceClass = bs ! 306, bDeviceSubClass = bs ! 307, bDeviceProtocol = bs ! 308,
     bConfigurationValue = bs ! 309, bNumConfigurations = bs ! 310, bNumInterfaces = bs ! 311\<rparr>"

definition usb_interface_bytes :: "usbip_usb_interface \<Rightarrow> u8 list" where
  "usb_interface_bytes i = [bInterfaceClass i, bInterfaceSubClass i, bInterfaceProtocol i, bInterfaceNumber i]"

definition bytes_usb_interface :: "u8 list \<Rightarrow> usbip_usb_interface" where
  "bytes_usb_interface bs = \<lparr>bInterfaceClass = bs ! 0, bInterfaceSubClass = bs ! 1, bInterfaceProtocol = bs ! 2,
     bInterfaceNumber = bs ! 3\<rparr>"

abbreviation (input) sizeof_op_common :: nat where "sizeof_op_common \<equiv> 8"
abbreviation (input) sizeof_usb_device :: nat where "sizeof_usb_device \<equiv> 312"
abbreviation (input) sizeof_usb_interface :: nat where "sizeof_usb_interface \<equiv> 4"

section \<open>Sending and receiving\<close>

text \<open>A socket (\<open>struct usbip_sock\<close>) has a descriptor and possibly functions of its own; they get the bytes, or
  the number of bytes and whether to wait for all of them, and return what the system calls do.
  \<open>sk_ux\<close> is its connection to the user space transport (\<open>libsrc/usbip_ux.h\<close>).\<close>

record tool_ux =
  tu_devfd :: int
  tu_started :: bool

record 'c usbip_sock =
  sk_fd :: int
  sk_ux :: "tool_ux option"
  sk_send :: "(u8 list \<Rightarrow> 'c \<Rightarrow> int \<times> 'c) option"
  sk_recv :: "(nat \<Rightarrow> bool \<Rightarrow> 'c \<Rightarrow> int \<times> u8 list \<times> 'c) option"
  sk_shutdown :: "('c \<Rightarrow> 'c) option"

definition usbip_sock_init ::
  "int \<Rightarrow> (u8 list \<Rightarrow> 'c \<Rightarrow> int \<times> 'c) option \<Rightarrow> (nat \<Rightarrow> bool \<Rightarrow> 'c \<Rightarrow> int \<times> u8 list \<times> 'c) option \<Rightarrow>
     ('c \<Rightarrow> 'c) option \<Rightarrow> 'c usbip_sock" where
  "usbip_sock_init fd sendf recvf shut =
     \<lparr>sk_fd = fd, sk_ux = None, sk_send = sendf, sk_recv = recvf, sk_shutdown = shut\<rparr>"

text \<open>The system calls; \<open>net_recv\<close> is told whether the flag \<open>MSG_WAITALL\<close> is set.\<close>

record 'c net_sys =
  net_send :: "int \<Rightarrow> u8 list \<Rightarrow> 'c \<Rightarrow> int \<times> 'c"
  net_recv :: "int \<Rightarrow> nat \<Rightarrow> bool \<Rightarrow> 'c \<Rightarrow> int \<times> u8 list \<times> 'c"

definition sock_send :: "('c, 'k) net_sys_scheme \<Rightarrow> 'c usbip_sock \<Rightarrow> u8 list \<Rightarrow> 'c \<Rightarrow> int \<times> 'c" where
  "sock_send N sk = (case sk_send sk of Some f \<Rightarrow> f | None \<Rightarrow> net_send N (sk_fd sk))"

definition sock_recv :: "('c, 'k) net_sys_scheme \<Rightarrow> 'c usbip_sock \<Rightarrow> bool \<Rightarrow> nat \<Rightarrow> 'c \<Rightarrow> int \<times> u8 list \<times> 'c" where
  "sock_recv N sk wait_all n = (case sk_recv sk of Some f \<Rightarrow> f n wait_all | None \<Rightarrow> net_recv N (sk_fd sk) n wait_all)"

text \<open>The two directions of \<open>usbip_net_xmit\<close>.  The fault is a function that moves more bytes than asked for,
  after which the loop leaves the buffer.\<close>

function net_send_loop :: "(u8 list \<Rightarrow> 'c \<Rightarrow> int \<times> 'c) \<Rightarrow> u8 list \<Rightarrow> int \<Rightarrow> 'c \<Rightarrow> (int \<times> 'c) option" where
  "net_send_loop f buf tot c = (case f buf c of (n, c') \<Rightarrow>
     if n \<le> 0 then Some (-1, c')
     else if length buf < nat n then None
     else if nat n < length buf then net_send_loop f (drop (nat n) buf) (tot + n) c'
     else Some (tot + n, c'))"
  by pat_completeness auto
termination by (relation "measure (\<lambda>(f, buf, tot, c). length buf)") auto

function net_recv_loop ::
  "(nat \<Rightarrow> 'c \<Rightarrow> int \<times> u8 list \<times> 'c) \<Rightarrow> nat \<Rightarrow> u8 list \<Rightarrow> int \<Rightarrow> 'c \<Rightarrow> (int \<times> u8 list \<times> 'c) option" where
  "net_recv_loop f left buf tot c = (case f left c of (n, bs, c') \<Rightarrow>
     if n \<le> 0 then Some (-1, buf, c')
     else if left < nat n then None
     else if nat n < left then net_recv_loop f (left - nat n) (buf @ bs) (tot + n) c'
     else Some (tot + n, buf @ bs, c'))"
  by pat_completeness auto
termination by (relation "measure (\<lambda>(f, left, buf, tot, c). left)") auto

declare net_send_loop.simps [simp del] net_recv_loop.simps [simp del]

definition usbip_net_send ::
  "('c, 'k) net_sys_scheme \<Rightarrow> 'c usbip_sock \<Rightarrow> u8 list \<Rightarrow> 'c \<Rightarrow> (int \<times> 'c) option" where
  "usbip_net_send N sk buf c = (if buf = [] then Some (0, c) else net_send_loop (sock_send N sk) buf 0 c)"

definition usbip_net_recv ::
  "('c, 'k) net_sys_scheme \<Rightarrow> 'c usbip_sock \<Rightarrow> nat \<Rightarrow> 'c \<Rightarrow> (int \<times> u8 list \<times> 'c) option" where
  "usbip_net_recv N sk n c = (if n = 0 then Some (0, [], c) else net_recv_loop (sock_recv N sk True) n [] 0 c)"

definition usbip_net_send_op_common ::
  "bool \<Rightarrow> ('c, 'k) net_sys_scheme \<Rightarrow> 'c usbip_sock \<Rightarrow> u16 \<Rightarrow> u32 \<Rightarrow> 'c \<Rightarrow> (int \<times> 'c) option" where
  "usbip_net_send_op_common le N sk code st c =
     (let h = PACK_OP_COMMON le True \<lparr>oc_version = USBIP_VERSION, oc_code = code, oc_status = st\<rparr> in
      map_option (\<lambda>(rc, c'). (if rc < 0 then -1 else 0, c')) (usbip_net_send N sk (op_common_bytes le h) c))"

text \<open>The code that is returned is the one received if none or the same was expected.\<close>

definition usbip_net_recv_op_common ::
  "bool \<Rightarrow> ('c, 'k) net_sys_scheme \<Rightarrow> 'c usbip_sock \<Rightarrow> u16 \<Rightarrow> 'c \<Rightarrow> (int \<times> u16 \<times> 'c) option" where
  "usbip_net_recv_op_common le N sk code c =
     map_option (\<lambda>(rc, bs, c').
       let h = PACK_OP_COMMON le False (bytes_op_common le bs) in
       if rc < 0 \<or> oc_version h \<noteq> USBIP_VERSION \<or> code \<noteq> OP_UNSPEC \<and> oc_code h \<noteq> code \<or> oc_status h \<noteq> ST_OK
       then (-1, code, c') else (0, oc_code h, c')) (usbip_net_recv N sk sizeof_op_common c)"

definition op_common_strerror :: "u32 \<Rightarrow> string" where
  "op_common_strerror st = (case find (\<lambda>(n, _). n = st)
       [(ST_NA, ''not available''), (ST_NO_FREE_PORT, ''no free port''), (ST_DEVICE_NOT_FOUND, ''device not found'')] of
     Some (_, s) \<Rightarrow> s | None \<Rightarrow> ''unknown error'')"

section \<open>The port number\<close>

definition strtoul :: "string \<Rightarrow> (ulong \<times> string) option" where
  "strtoul s = (let (neg, r) = scan_sign (dropWhile is_space s) in
     if r = [] \<or> \<not> is_digit (hd r) then None
     else let (n, rest) = scan_digits 0 r in
       Some (if 2 ^ 64 \<le> n then - 1 else if neg then - of_nat n else of_nat n, rest))"

text \<open>\<open>usbip_port\<close> and \<open>usbip_port_string\<close>, which keep their values if the argument is rejected.\<close>

definition usbip_setup_port_number :: "string \<Rightarrow> nat \<times> string \<Rightarrow> nat \<times> string" where
  "usbip_setup_port_number arg port = (case strtoul arg of
     None \<Rightarrow> port
   | Some (v, end) \<Rightarrow> if end \<noteq> [] then port else if v > 65535 then port else (unat v, arg))"

section \<open>Round trips\<close>

lemma pack16_inverse [simp]: "usbip_net_pack_uint16_t le p (usbip_net_pack_uint16_t le q x) = x"
  by (simp add: usbip_net_pack_uint16_t_def)

lemma pack32_inverse [simp]: "usbip_net_pack_uint32_t le p (usbip_net_pack_uint32_t le q x) = x"
  by (simp add: usbip_net_pack_uint32_t_def cpu_to_be32_def be32_to_cpu_def)

text \<open>The bytes on the wire do not depend on the hosts.\<close>

lemma host_bytes16_pack [simp]: "host_bytes16 le (usbip_net_pack_uint16_t le p x) = be_bytes16 x"
  by (simp add: host_bytes16_def usbip_net_pack_uint16_t_def bswap16_def)

lemma host_bytes32_pack [simp]: "host_bytes32 le (usbip_net_pack_uint32_t le p x) = be_bytes32 x"
  by (cases p) (simp_all add: usbip_net_pack_uint32_t_def host_bytes32_def cpu_to_be32_def be32_to_cpu_def bswap32_def)

lemma unpack16_host [simp]: "usbip_net_pack_uint16_t le p (host_word16 le (be_bytes16 x)) = x"
  by (simp add: usbip_net_pack_uint16_t_def host_word16_def bswap16_def)

lemma unpack32_host [simp]: "usbip_net_pack_uint32_t le p (host_word32 le (be_bytes32 x)) = x"
  by (cases p; cases le) (simp_all add: usbip_net_pack_uint32_t_def host_word32_def cpu_to_be32_def be32_to_cpu_def bswap32_def)

lemma slice_at: "length xs = n \<Longrightarrow> length ys = k \<Longrightarrow> slice n k (xs @ ys @ zs) = ys"
  by (simp add: slice_def)

lemma slice_skip_append: "length xs \<le> n \<Longrightarrow> slice n k (xs @ ys) = slice (n - length xs) k ys"
  by (simp add: slice_def)

lemma slice_all_append: "length xs = k \<Longrightarrow> slice 0 k (xs @ ys) = xs" "length xs = k \<Longrightarrow> slice 0 k xs = xs"
  by (simp_all add: slice_def)

lemma of_char_byte: "char_of (unat (of_nat (of_char c) :: u8)) = c"
proof -
  have "(of_char c :: nat) < 256" by (cases c) (simp add: of_char_def horner_sum_simps)
  then have "unat (of_nat (of_char c) :: u8) = of_char c" by (simp add: unat_of_nat take_bit_nat_eq_self)
  then show ?thesis by simp
qed

lemma string_of_bytes_of_string [simp]: "string_of_bytes (bytes_of_string s) = s"
  by (induction s) (simp_all add: string_of_bytes_def bytes_of_string_def of_char_byte del: unat_of_nat)

lemma length_bytes_of_string [simp]: "length (bytes_of_string s) = length s" "length (string_of_bytes bs) = length bs"
  by (simp_all add: bytes_of_string_def string_of_bytes_def)

definition wf_usb_device :: "usbip_usb_device \<Rightarrow> bool" where
  "wf_usb_device d = (length (ub_path d) = 256 \<and> length (ub_busid d) = 32)"

lemma wf_pack_usb_device [simp]: "wf_usb_device (usbip_net_pack_usb_device le p d) = wf_usb_device d"
  by (simp add: wf_usb_device_def usbip_net_pack_usb_device_def)

text \<open>The bytes of a device on the wire.\<close>

definition wire_usb_device :: "usbip_usb_device \<Rightarrow> u8 list" where
  "wire_usb_device d = usb_device_bytes False d"

lemma length_usb_device_bytes [simp]: "wf_usb_device d \<Longrightarrow> length (usb_device_bytes le d) = 312"
  by (simp add: usb_device_bytes_def wf_usb_device_def)

lemma pack_usb_device_wire: "usb_device_bytes le (usbip_net_pack_usb_device le p d) = wire_usb_device d"
  by (simp add: usb_device_bytes_def usbip_net_pack_usb_device_def wire_usb_device_def host_bytes16_def [of False]
      host_bytes32_def [of False])

lemma unpack_usb_device_wire:
  assumes "wf_usb_device d"
  shows "usbip_net_pack_usb_device le p (bytes_usb_device le (wire_usb_device d)) = d"
proof -
  have l: "length (bytes_of_string (ub_path d)) = 256" "length (bytes_of_string (ub_busid d)) = 32"
    using assms by (simp_all add: wf_usb_device_def)
  show ?thesis
    unfolding bytes_usb_device_def wire_usb_device_def usb_device_bytes_def usbip_net_pack_usb_device_def
    using l by (simp add: slice_skip_append slice_all_append nth_append host_bytes16_def host_bytes32_def)
qed

lemma op_common_bytes_roundtrip: "bytes_op_common le (op_common_bytes le h) = h"
  by (simp add: bytes_op_common_def op_common_bytes_def slice_skip_append slice_all_append)

lemma pack_op_common_wire: "op_common_bytes le (PACK_OP_COMMON le p h) = op_common_bytes False h"
  by (simp add: op_common_bytes_def PACK_OP_COMMON_def host_bytes16_def [of False] host_bytes32_def [of False])

lemma unpack_op_common_wire: "PACK_OP_COMMON le p (bytes_op_common le (op_common_bytes False h)) = h"
  by (simp add: bytes_op_common_def op_common_bytes_def slice_skip_append slice_all_append PACK_OP_COMMON_def
      host_bytes16_def host_bytes32_def)

section \<open>Sockets that deliver\<close>

text \<open>A connected socket: what was sent is \<open>out\<close>, what can be received \<open>inp\<close>.  Sending and receiving move at
  least one byte, as long as there are bytes.\<close>

definition sock_up ::
  "('c, 'k) net_sys_scheme \<Rightarrow> 'c usbip_sock \<Rightarrow> ('c \<Rightarrow> u8 list) \<Rightarrow> ('c \<Rightarrow> u8 list) \<Rightarrow> ('c \<Rightarrow> bool) \<Rightarrow> bool" where
  "sock_up N sk out inp up =
     ((\<forall>bs c n c'. up c \<longrightarrow> bs \<noteq> [] \<longrightarrow> sock_send N sk bs c = (n, c') \<longrightarrow>
        0 < n \<and> n \<le> int (length bs) \<and> up c' \<and> out c' = out c @ take (nat n) bs \<and> inp c' = inp c) \<and>
      (\<forall>k c n bs c'. up c \<longrightarrow> 0 < k \<longrightarrow> k \<le> length (inp c) \<longrightarrow> sock_recv N sk True k c = (n, bs, c') \<longrightarrow>
        0 < n \<and> n \<le> int k \<and> up c' \<and> length bs = nat n \<and> inp c = bs @ inp c' \<and> out c' = out c))"

lemma sock_upD:
  assumes "sock_up N sk out inp up" "up c"
  shows "bs \<noteq> [] \<Longrightarrow> sock_send N sk bs c = (n, c') \<Longrightarrow>
      0 < n \<and> n \<le> int (length bs) \<and> up c' \<and> out c' = out c @ take (nat n) bs \<and> inp c' = inp c"
    and "0 < k \<Longrightarrow> k \<le> length (inp c) \<Longrightarrow> sock_recv N sk True k c = (n, bs', c'') \<Longrightarrow>
      0 < n \<and> n \<le> int k \<and> up c'' \<and> length bs' = nat n \<and> inp c = bs' @ inp c'' \<and> out c'' = out c"
  using assms unfolding sock_up_def by blast+

lemma send_loop_all:
  assumes "sock_up N sk out inp up"
  shows "up c \<Longrightarrow> buf \<noteq> [] \<Longrightarrow> \<exists>c'. net_send_loop (sock_send N sk) buf tot c = Some (tot + int (length buf), c') \<and>
    up c' \<and> out c' = out c @ buf \<and> inp c' = inp c"
proof (induction "length buf" arbitrary: buf tot c rule: less_induct)
  case less
  obtain n c1 where s: "sock_send N sk buf c = (n, c1)" by fastforce
  note p = sock_upD(1) [OF assms less.prems s]
  show ?case
  proof (cases "nat n < length buf")
    case True
    then have "length (drop (nat n) buf) < length buf" "drop (nat n) buf \<noteq> []" using p by auto
    from less.hyps [OF this(1) _ this(2), of c1 "tot + n"] p
    obtain c' where c': "net_send_loop (sock_send N sk) (drop (nat n) buf) (tot + n) c1 =
        Some (tot + n + int (length (drop (nat n) buf)), c')" "up c'" "out c' = out c1 @ drop (nat n) buf" "inp c' = inp c1"
      by blast
    then show ?thesis using s p True by (subst net_send_loop.simps) auto
  next
    case False
    then have "nat n = length buf" using p by linarith
    then show ?thesis using s p by (subst net_send_loop.simps) auto
  qed
qed

lemma recv_loop_all:
  assumes "sock_up N sk out inp up"
  shows "up c \<Longrightarrow> 0 < k \<Longrightarrow> k \<le> length (inp c) \<Longrightarrow>
    \<exists>c'. net_recv_loop (sock_recv N sk True) k buf tot c = Some (tot + int k, buf @ take k (inp c), c') \<and>
    up c' \<and> inp c' = drop k (inp c) \<and> out c' = out c"
proof (induction k arbitrary: buf tot c rule: less_induct)
  case (less k)
  obtain n bs c1 where s: "sock_recv N sk True k c = (n, bs, c1)" using prod_cases3 by blast
  note p = sock_upD(2) [OF assms less.prems s]
  show ?case
  proof (cases "nat n < k")
    case True
    have l: "k - nat n < k" "0 < k - nat n" "k - nat n \<le> length (inp c1)" using p True less.prems(3) by auto
    obtain c' where c': "net_recv_loop (sock_recv N sk True) (k - nat n) (buf @ bs) (tot + n) c1 =
        Some (tot + n + int (k - nat n), (buf @ bs) @ take (k - nat n) (inp c1), c')" "up c'"
      "inp c' = drop (k - nat n) (inp c1)" "out c' = out c1"
      using less.IH [OF l(1) _ l(2,3), of "buf @ bs" "tot + n"] p by blast
    then show ?thesis using s p True by (subst net_recv_loop.simps) auto
  next
    case False
    then have "nat n = k" using p by linarith
    then show ?thesis using s p by (subst net_recv_loop.simps) auto
  qed
qed

lemma net_send_all:
  assumes "sock_up N sk out inp up" "up c"
  shows "\<exists>c'. usbip_net_send N sk buf c = Some (int (length buf), c') \<and> up c' \<and> out c' = out c @ buf \<and> inp c' = inp c"
  using send_loop_all [OF assms, of buf 0] assms(2) by (auto simp: usbip_net_send_def)

lemma net_recv_all:
  assumes "sock_up N sk out inp up" "up c" "k \<le> length (inp c)"
  shows "\<exists>c'. usbip_net_recv N sk k c = Some (int k, take k (inp c), c') \<and> up c' \<and> inp c' = drop k (inp c) \<and> out c' = out c"
  using recv_loop_all [OF assms(1,2) _ assms(3), of "[]" 0] assms(2) by (auto simp: usbip_net_recv_def)

definition wire_op_common :: "u16 \<Rightarrow> u32 \<Rightarrow> u8 list" where
  "wire_op_common code st = op_common_bytes False \<lparr>oc_version = USBIP_VERSION, oc_code = code, oc_status = st\<rparr>"

lemma length_wire_op_common [simp]: "length (wire_op_common code st) = 8"
  by (simp add: wire_op_common_def op_common_bytes_def)

lemma send_op_common_up:
  assumes "sock_up N sk out inp up" "up c"
  shows "\<exists>c'. usbip_net_send_op_common le N sk code st c = Some (0, c') \<and> up c' \<and>
    out c' = out c @ wire_op_common code st \<and> inp c' = inp c"
proof -
  let ?b = "op_common_bytes False \<lparr>oc_version = USBIP_VERSION, oc_code = code, oc_status = st\<rparr>"
  obtain c' where "usbip_net_send N sk ?b c = Some (int (length ?b), c')" "up c'" "out c' = out c @ ?b" "inp c' = inp c"
    using net_send_all [OF assms, of ?b] by blast
  then show ?thesis
    by (simp add: usbip_net_send_op_common_def pack_op_common_wire wire_op_common_def Let_def)
qed

lemma recv_op_common_up:
  assumes "sock_up N sk out inp up" "up c" "inp c = wire_op_common code' st @ rest"
  shows "\<exists>c'. usbip_net_recv_op_common le N sk code c =
      Some (if st = ST_OK \<and> (code = OP_UNSPEC \<or> code = code') then (0, code', c') else (-1, code, c')) \<and>
    up c' \<and> inp c' = rest \<and> out c' = out c"
proof -
  have "8 \<le> length (inp c)" using assms(3) by simp
  from net_recv_all [OF assms(1,2) this] obtain c' where
    "usbip_net_recv N sk 8 c = Some (8, take 8 (inp c), c')" "up c'" "inp c' = drop 8 (inp c)" "out c' = out c" by auto
  moreover have "take 8 (inp c) = wire_op_common code' st" "drop 8 (inp c) = rest" using assms(3) by simp_all
  ultimately show ?thesis
    by (auto simp: usbip_net_recv_op_common_def wire_op_common_def unpack_op_common_wire Let_def)
qed

text \<open>A device over the wire.\<close>

lemma recv_usb_device_up:
  assumes "sock_up N sk out inp up" "up c" "inp c = wire_usb_device d @ rest" "wf_usb_device d"
  shows "\<exists>bs c'. usbip_net_recv N sk sizeof_usb_device c = Some (int sizeof_usb_device, bs, c') \<and> up c' \<and> inp c' = rest \<and>
    out c' = out c \<and> usbip_net_pack_usb_device le p (bytes_usb_device le bs) = d"
proof -
  have l: "length (wire_usb_device d) = 312" using assms(4) by (simp add: wire_usb_device_def)
  then have "312 \<le> length (inp c)" using assms(3) by simp
  from net_recv_all [OF assms(1,2) this] show ?thesis
    using l assms(3) unpack_usb_device_wire [OF assms(4), of le p] by auto
qed

end
