(* ===== verification/Tool_Ux.thy ===== *)
theory Tool_Ux
  imports Tool_Net
begin

text \<open>
  The process side of the user space transport, \<open>libsrc/usbip_ux.c\<close>: two threads copy what arrives on the
  socket to the character device and what the kernel sends there to the socket.
\<close>

section \<open>Copying\<close>

abbreviation (input) BLEN :: nat where "BLEN \<equiv> 1500"

text \<open>The device file, and the threads: \<open>join_threads\<close> is what the two threads, running side by side, make of
  the state until both have ended.\<close>

record 'c ux_sys = "'c net_sys" +
  ux_open :: "'c \<Rightarrow> int \<times> 'c"
  ux_malloc :: "'c \<Rightarrow> bool \<times> 'c"
  ioctl_set_sockfd :: "int \<Rightarrow> int \<Rightarrow> 'c \<Rightarrow> int \<times> 'c"
  ioctl_get_kaddr :: "int \<Rightarrow> 'c \<Rightarrow> int \<times> 'c"
  ioctl_intr :: "int \<Rightarrow> 'c \<Rightarrow> 'c"
  ioctl_intr_pgrp :: "int \<Rightarrow> 'c \<Rightarrow> 'c"
  ux_read :: "int \<Rightarrow> nat \<Rightarrow> 'c \<Rightarrow> int \<times> u8 list \<times> 'c"
  ux_write :: "int \<Rightarrow> u8 list \<Rightarrow> 'c \<Rightarrow> int \<times> 'c"
  ux_close :: "int \<Rightarrow> 'c \<Rightarrow> 'c"
  ux_stat :: "'c \<Rightarrow> bool"
  net_shutdown :: "int \<Rightarrow> 'c \<Rightarrow> 'c"
  pthread_create :: "'c \<Rightarrow> bool \<times> 'c"
  join_threads :: "int \<Rightarrow> 'c \<Rightarrow> 'c"

text \<open>The result tells whether all was written.\<close>

partial_function (option) rx_write ::
  "('c, 'k) ux_sys_scheme \<Rightarrow> int \<Rightarrow> u8 list \<Rightarrow> 'c \<Rightarrow> (bool \<times> 'c) option" where
  "rx_write U fd bs c = (if bs = [] then Some (True, c)
     else case ux_write U fd bs c of (ret, c') \<Rightarrow>
       if ret < 0 then Some (False, c') else rx_write U fd (drop (nat ret) bs) c')"

partial_function (option) usbip_ux_rx_loop ::
  "('c, 'k) ux_sys_scheme \<Rightarrow> 'c usbip_sock \<Rightarrow> int \<Rightarrow> 'c \<Rightarrow> 'c option" where
  "usbip_ux_rx_loop U sk fd c = (case sock_recv U sk False BLEN c of (received, bs, c1) \<Rightarrow>
     if received \<le> 0 then Some c1
     else (case rx_write U fd bs c1 of
       None \<Rightarrow> None
     | Some (good, c2) \<Rightarrow> if good then usbip_ux_rx_loop U sk fd c2 else Some c2))"

definition usbip_ux_rx :: "('c, 'k) ux_sys_scheme \<Rightarrow> 'c usbip_sock \<Rightarrow> int \<Rightarrow> 'c \<Rightarrow> 'c option" where
  "usbip_ux_rx U sk fd c = map_option (ioctl_intr U fd) (usbip_ux_rx_loop U sk fd c)"

partial_function (option) usbip_ux_tx_loop ::
  "('c, 'k) ux_sys_scheme \<Rightarrow> 'c usbip_sock \<Rightarrow> int \<Rightarrow> 'c \<Rightarrow> 'c option" where
  "usbip_ux_tx_loop U sk fd c = (case ux_read U fd BLEN c of (reads, bs, c1) \<Rightarrow>
     if reads = 0 then usbip_ux_tx_loop U sk fd c1
     else if reads < 0 then Some c1
     else (case sock_send U sk bs c1 of (sent, c2) \<Rightarrow>
       if sent < reads then Some c2 else usbip_ux_tx_loop U sk fd c2))"

definition usbip_ux_tx :: "('c, 'k) ux_sys_scheme \<Rightarrow> 'c usbip_sock \<Rightarrow> int \<Rightarrow> 'c \<Rightarrow> 'c option" where
  "usbip_ux_tx U sk fd c = map_option
     (case sk_shutdown sk of Some f \<Rightarrow> f | None \<Rightarrow> net_shutdown U (sk_fd sk)) (usbip_ux_tx_loop U sk fd c)"

section \<open>Life of a transport\<close>

text \<open>Without the device file the transfer stays in the kernel, and nothing is set up.  The faults are the
  two ways to the label \<open>err_close\<close>: it reads the descriptor from memory that was not allocated or was
  just freed.\<close>

definition usbip_ux_setup ::
  "('c, 'k) ux_sys_scheme \<Rightarrow> 'c usbip_sock \<Rightarrow> 'c \<Rightarrow> (int \<times> 'c usbip_sock \<times> 'c) option" where
  "usbip_ux_setup U sk c =
     (if sk_ux sk \<noteq> None then Some (0, sk, c)
      else let (fd, c1) = ux_open U c in
        if fd < 0 then Some (0, sk, c1)
        else let (ok, c2) = ux_malloc U c1 in
          if \<not> ok then None
          else let sk1 = sk\<lparr>sk_ux := Some \<lparr>tu_devfd = fd, tu_started = False\<rparr>\<rparr>;
                   (ret, c3) = ioctl_set_sockfd U fd (sk_fd sk) c2 in
            if ret \<noteq> 0 then None
            else let (ret2, c4) = ioctl_get_kaddr U fd c3 in
              if ret2 \<noteq> 0 then None else Some (0, sk1, c4))"

definition usbip_ux_cleanup :: "('c, 'k) ux_sys_scheme \<Rightarrow> 'c usbip_sock \<Rightarrow> 'c \<Rightarrow> 'c usbip_sock \<times> 'c" where
  "usbip_ux_cleanup U sk c = (case sk_ux sk of
     None \<Rightarrow> (sk, c)
   | Some u \<Rightarrow> (sk\<lparr>sk_ux := None\<rparr>, ux_close U (tu_devfd u) c))"

definition usbip_ux_start :: "('c, 'k) ux_sys_scheme \<Rightarrow> 'c usbip_sock \<Rightarrow> 'c \<Rightarrow> int \<times> 'c usbip_sock \<times> 'c" where
  "usbip_ux_start U sk c = (case sk_ux sk of
     None \<Rightarrow> (0, sk, c)
   | Some u \<Rightarrow>
       let (ok1, c1) = pthread_create U c in
       if \<not> ok1 then (-1, sk, ux_close U (tu_devfd u) c1)
       else let (ok2, c2) = pthread_create U c1 in
         if \<not> ok2 then (-1, sk, ux_close U (tu_devfd u) c2)
         else (0, sk\<lparr>sk_ux := Some (u\<lparr>tu_started := True\<rparr>)\<rparr>, c2))"

text \<open>The fault is waiting for threads that were not started.\<close>

definition usbip_ux_join :: "('c, 'k) ux_sys_scheme \<Rightarrow> 'c usbip_sock \<Rightarrow> 'c \<Rightarrow> 'c option" where
  "usbip_ux_join U sk c = (case sk_ux sk of
     None \<Rightarrow> Some c
   | Some u \<Rightarrow> if tu_started u then Some (join_threads U (tu_devfd u) c) else None)"

definition usbip_ux_try_transfer ::
  "('c, 'k) ux_sys_scheme \<Rightarrow> 'c usbip_sock \<Rightarrow> 'c \<Rightarrow> (int \<times> 'c usbip_sock \<times> 'c) option" where
  "usbip_ux_try_transfer U sk c = (case usbip_ux_setup U sk c of
     None \<Rightarrow> None
   | Some (ret, sk1, c1) \<Rightarrow>
       if ret \<noteq> 0 then Some (-1, sk1, c1)
       else (case usbip_ux_start U sk1 c1 of (_, sk2, c2) \<Rightarrow>
         map_option (\<lambda>c3. let (sk3, c4) = usbip_ux_cleanup U sk2 c3 in (0, sk3, c4)) (usbip_ux_join U sk2 c2)))"

definition t_usbip_ux_interrupt :: "('c, 'k) ux_sys_scheme \<Rightarrow> 'c usbip_sock \<Rightarrow> 'c \<Rightarrow> 'c" where
  "t_usbip_ux_interrupt U sk c = (case sk_ux sk of None \<Rightarrow> c | Some u \<Rightarrow> ioctl_intr U (tu_devfd u) c)"

definition t_usbip_ux_interrupt_pgrp :: "('c, 'k) ux_sys_scheme \<Rightarrow> 'c \<Rightarrow> 'c" where
  "t_usbip_ux_interrupt_pgrp U c =
     (let (fd, c1) = ux_open U c in if fd < 0 then c1 else ux_close U fd (ioctl_intr_pgrp U fd c1))"

definition usbip_ux_installed :: "('c, 'k) ux_sys_scheme \<Rightarrow> 'c \<Rightarrow> bool" where
  "usbip_ux_installed U c = ux_stat U c"

end
