(* ===== verification/Tool_Host.thy ===== *)
theory Tool_Host
  imports Tool_Ux
begin

text \<open>
  The exporting host: \<open>libsrc/usbip_host_common.c\<close> with its two drivers, \<open>usbip_host_driver.c\<close> for real devices
  and \<open>usbip_device_driver.c\<close> for gadgets, and the wrappers of \<open>usbip_host_common.h\<close> through which the
  daemon and the commands call the driver that is chosen.
\<close>

section \<open>The system and the drivers\<close>

text \<open>\<open>stack_junk\<close> is what lies in memory behind a variable of the caller, \<open>fresh_uinf\<close> the contents of
  memory from \<open>realloc\<close>; \<open>enumerate_usb\<close> are the paths of the USB devices that are neither hubs nor
  interfaces.\<close>

record 'c host_sys = "'c tool_sys" +
  ux_of :: "'c ux_sys"
  enumerate_usb :: "'c \<Rightarrow> string list"
  udev_property :: "udev_device \<Rightarrow> string \<Rightarrow> string option"
  udev_parent :: "udev_device \<Rightarrow> udev_device"
  udev_unref :: "'c \<Rightarrow> 'c"
  stack_junk :: "'c \<Rightarrow> string"
  fresh_uinf :: "'c \<Rightarrow> nat \<Rightarrow> usbip_usb_interface"
  realloc_ok :: "'c \<Rightarrow> bool"

record usbip_exported_device =
  sudev :: udev_device
  ed_status :: int
  ed_udev :: usbip_usb_device
  uinf :: "usbip_usb_interface list"

text \<open>The part of a driver the generic functions use.\<close>

record 'c driver_reader =
  udev_subsystem :: string
  read_device :: "'c \<Rightarrow> udev_device \<Rightarrow> usbip_usb_device \<Rightarrow> (int \<times> usbip_usb_device) option"
  read_interface :: "('c \<Rightarrow> usbip_usb_device \<Rightarrow> nat \<Rightarrow> usbip_usb_interface \<Rightarrow> (int \<times> usbip_usb_interface) option) option"
  is_my_device :: "udev_device \<Rightarrow> bool"

record 'c usbip_host_driver =
  hd_open :: "('c \<Rightarrow> int \<times> 'c) option"
  hd_close :: "('c \<Rightarrow> 'c) option"
  hd_refresh_device_list :: "('c \<Rightarrow> (int \<times> usbip_exported_device list) option) option"
  hd_get_device :: "(usbip_exported_device list \<Rightarrow> string \<Rightarrow> usbip_exported_device option) option"
  hd_list_devices :: "('c \<Rightarrow> (int \<times> usbip_usb_device list) option) option"
  hd_bind_device :: "(string \<Rightarrow> 'c \<Rightarrow> int \<times> 'c) option"
  hd_unbind_device :: "(string \<Rightarrow> 'c \<Rightarrow> int \<times> 'c) option"
  hd_export_device :: "(usbip_exported_device \<Rightarrow> 'c usbip_sock \<Rightarrow> 'c \<Rightarrow> int \<times> 'c) option"
  hd_try_transfer :: "(usbip_exported_device option \<Rightarrow> 'c usbip_sock \<Rightarrow> 'c \<Rightarrow> (int \<times> 'c usbip_sock \<times> 'c) option) option"
  hd_has_transferred :: "('c \<Rightarrow> bool) option"

section \<open>The list of exported devices\<close>

text \<open>One character is read, and \<open>atoi\<close> reads on behind it.  The fault is an empty attribute, which leaves the
  character uninitialised.\<close>

definition read_attr_usbip_status :: "('c, 'k) host_sys_scheme \<Rightarrow> usbip_usb_device \<Rightarrow> 'c \<Rightarrow> int option" where
  "read_attr_usbip_status S udev c =
     (case read_file S (take (SYSFS_PATH_MAX - 1) (cstr (ub_path udev) @ ''/usbip_status'')) c of
        None \<Rightarrow> Some (-1)
      | Some [] \<Rightarrow> None
      | Some (a # _) \<Rightarrow> Some (case scan_d (cstr (a # stack_junk S c)) of None \<Rightarrow> 0 | Some (v, _) \<Rightarrow> v))"

fun read_interfaces ::
  "('c, 'k) driver_reader_scheme \<Rightarrow> 'c \<Rightarrow> usbip_usb_device \<Rightarrow> (nat \<times> usbip_usb_interface) list \<Rightarrow>
     usbip_usb_interface list option" where
  "read_interfaces R c udev [] = Some []"
| "read_interfaces R c udev ((i, u) # us) = (case read_interface R of
     None \<Rightarrow> Some (u # map snd us)
   | Some f \<Rightarrow> do { (_, u') \<leftarrow> f c udev i u; us' \<leftarrow> read_interfaces R c udev us; Some (u' # us') })"

text \<open>The outer option is a fault, the inner one the null pointer.\<close>

definition usbip_exported_device_new ::
  "('c, 'k) host_sys_scheme \<Rightarrow> ('c, 'r) driver_reader_scheme \<Rightarrow> string \<Rightarrow> 'c \<Rightarrow> usbip_exported_device option option" where
  "usbip_exported_device_new S R path c = (case from_syspath S c path of
     None \<Rightarrow> Some None
   | Some dev \<Rightarrow>
       do { (r, udev) \<leftarrow> read_device R c dev zero_usb_device;
            if r < 0 then Some None
            else do { st \<leftarrow> read_attr_usbip_status S udev c;
              if st < 0 \<or> \<not> realloc_ok S c then Some None
              else do { us \<leftarrow> read_interfaces R c udev
                          (map (\<lambda>i. (i, fresh_uinf S c i)) [0..<unat (bNumInterfaces udev)]);
                        Some (Some \<lparr>sudev = dev, ed_status = st, ed_udev = udev, uinf = us\<rparr>) } } })"

text \<open>Each device is added at the head of the list.\<close>

fun refresh_exported_devices ::
  "('c, 'k) host_sys_scheme \<Rightarrow> ('c, 'r) driver_reader_scheme \<Rightarrow> string list \<Rightarrow> usbip_exported_device list \<Rightarrow> 'c \<Rightarrow>
     usbip_exported_device list option" where
  "refresh_exported_devices S R [] edevs c = Some edevs"
| "refresh_exported_devices S R (path # paths) edevs c = (case from_syspath S c path of
     None \<Rightarrow> refresh_exported_devices S R paths edevs c
   | Some dev \<Rightarrow>
       if is_my_device R dev
       then do { e \<leftarrow> usbip_exported_device_new S R path c;
                 refresh_exported_devices S R paths (case e of None \<Rightarrow> edevs | Some e \<Rightarrow> e # edevs) c }
       else refresh_exported_devices S R paths edevs c)"

definition usbip_generic_refresh_device_list ::
  "('c, 'k) host_sys_scheme \<Rightarrow> ('c, 'r) driver_reader_scheme \<Rightarrow> 'c \<Rightarrow> (int \<times> usbip_exported_device list) option" where
  "usbip_generic_refresh_device_list S R c =
     map_option (Pair 0) (refresh_exported_devices S R (enumerate_devices S c (udev_subsystem R)) [] c)"

definition usbip_generic_driver_open :: "('c, 'k) host_sys_scheme \<Rightarrow> 'c \<Rightarrow> int \<times> 'c" where
  "usbip_generic_driver_open S c = (let (ok, c') = udev_new S c in (if ok then 0 else -1, c'))"

definition usbip_generic_driver_close :: "('c, 'k) host_sys_scheme \<Rightarrow> 'c \<Rightarrow> 'c" where
  "usbip_generic_driver_close S c = udev_unref S c"

definition usbip_generic_get_device ::
  "usbip_exported_device list \<Rightarrow> string \<Rightarrow> usbip_exported_device option" where
  "usbip_generic_get_device edevs busid =
     find (\<lambda>e. strn_eq (cstr busid) (cstr (ub_busid (ed_udev e))) SYSFS_BUS_ID_SIZE) edevs"

text \<open>\<open>strtol\<close> with base 16.\<close>

definition strtol16 :: "string \<Rightarrow> ulong" where
  "strtol16 s = (case scan_x (length s) s of None \<Rightarrow> 0 | Some (v, _) \<Rightarrow> v)"

definition usb_listed :: "udev_device \<Rightarrow> usbip_usb_device option" where
  "usb_listed dev = do { vendor \<leftarrow> sysattr dev ''idVendor''; product \<leftarrow> sysattr dev ''idProduct'';
     _ \<leftarrow> sysattr dev ''bConfigurationValue''; _ \<leftarrow> sysattr dev ''bNumInterfaces'';
     Some (zero_usb_device\<lparr>idVendor := ucast (strtol16 vendor), idProduct := ucast (strtol16 product),
       ub_busid := strncpy SYSFS_BUS_ID_SIZE (sysname dev)\<rparr>) }"

definition usbip_generic_list_devices ::
  "('c, 'k) host_sys_scheme \<Rightarrow> 'c \<Rightarrow> int \<times> usbip_usb_device list" where
  "usbip_generic_list_devices S c =
     (case those (map (\<lambda>path. from_syspath S c path \<bind> usb_listed) (enumerate_usb S c)) of
        None \<Rightarrow> (-1, [])
      | Some ds \<Rightarrow> (int (length ds), ds))"

section \<open>Binding\<close>

definition USBIP_HOST_DRV_NAME :: string where "USBIP_HOST_DRV_NAME = ''usbip-host''"
definition USBIP_DEVICE_DRV_NAME :: string where "USBIP_DEVICE_DRV_NAME = ''usbip-vudc''"

definition driver_path :: "string \<Rightarrow> string \<Rightarrow> string" where
  "driver_path drv attr = take (SYSFS_PATH_MAX - 1) (''/sys/bus/usb/drivers/'' @ drv @ ''/'' @ attr)"

text \<open>The whole array of 36 characters is written, with what was in it behind the command.\<close>

definition modify_match_busid :: "('c, 'k) host_sys_scheme \<Rightarrow> string \<Rightarrow> bool \<Rightarrow> 'c \<Rightarrow> int \<times> 'c" where
  "modify_match_busid S busid add c =
     (let command = take 35 ((if add then ''add '' else ''del '') @ busid) @ [CHR 0x00];
          (rc, c') = write_sysfs_attribute S (driver_path USBIP_HOST_DRV_NAME ''match_busid'')
            (take 36 (command @ stack_junk S c)) c in
      (if rc < 0 then -1 else 0, c'))"

datatype unbind_status = UNBIND_ST_OK | UNBIND_ST_USBIP_HOST | UNBIND_ST_FAILED

definition bind_usbip :: "('c, 'k) host_sys_scheme \<Rightarrow> string \<Rightarrow> 'c \<Rightarrow> int \<times> 'c" where
  "bind_usbip S busid c =
     (let (rc, c') = write_sysfs_attribute S (driver_path USBIP_HOST_DRV_NAME ''bind'') busid c in
      (if rc < 0 then -1 else 0, c'))"

definition unbind_other :: "('c, 'k) host_sys_scheme \<Rightarrow> string \<Rightarrow> 'c \<Rightarrow> unbind_status \<times> 'c" where
  "unbind_other S busid c = (case find_usb S c busid of
     None \<Rightarrow> (UNBIND_ST_FAILED, c)
   | Some dev \<Rightarrow> (case sysattr dev ''bDeviceClass'' of
       None \<Rightarrow> (UNBIND_ST_FAILED, c)
     | Some class \<Rightarrow>
         if strn_eq class ''09'' (length class) then (UNBIND_ST_FAILED, c)
         else (case driver dev of
           None \<Rightarrow> (UNBIND_ST_OK, c)
         | Some drv \<Rightarrow>
             if strn_eq USBIP_HOST_DRV_NAME drv (length USBIP_HOST_DRV_NAME) then (UNBIND_ST_USBIP_HOST, c)
             else let (rc, c') = write_sysfs_attribute S (driver_path drv ''unbind'') busid c in
               (if rc < 0 then UNBIND_ST_FAILED else UNBIND_ST_OK, c'))))"

definition usbip_generic_bind_device :: "('c, 'k) host_sys_scheme \<Rightarrow> string \<Rightarrow> 'c \<Rightarrow> int \<times> 'c" where
  "usbip_generic_bind_device S busid c =
     (if find_usb S c busid = None then (-1, c)
      else let (st, c1) = unbind_other S busid c in
        if st \<noteq> UNBIND_ST_OK then (-1, c1)
        else let (rc, c2) = modify_match_busid S busid True c1 in
          if rc < 0 then (-1, c2)
          else let (rc2, c3) = bind_usbip S busid c2 in
            if rc2 < 0 then (-1, snd (modify_match_busid S busid False c3)) else (0, c3))"

definition usbip_generic_unbind_device :: "('c, 'k) host_sys_scheme \<Rightarrow> string \<Rightarrow> 'c \<Rightarrow> int \<times> 'c" where
  "usbip_generic_unbind_device S busid c = (case find_usb S c busid of
     None \<Rightarrow> (-1, c)
   | Some dev \<Rightarrow>
       if driver dev \<noteq> Some USBIP_HOST_DRV_NAME then (-1, c)
       else let (rc, c1) = write_sysfs_attribute S (driver_path USBIP_HOST_DRV_NAME ''unbind'') busid c in
         if rc < 0 then (-1, c1)
         else let (rc2, c2) = modify_match_busid S busid False c1 in
           if rc2 < 0 then (-1, c2)
           else let (rc3, c3) = write_sysfs_attribute S (driver_path USBIP_HOST_DRV_NAME ''rebind'') busid c2 in
             (if rc3 < 0 then -1 else 0, c3))"

section \<open>Exporting\<close>

definition usbip_generic_export_device ::
  "('c, 'k) host_sys_scheme \<Rightarrow> usbip_exported_device \<Rightarrow> 'c usbip_sock \<Rightarrow> 'c \<Rightarrow> int \<times> 'c" where
  "usbip_generic_export_device S edev sk c =
     (if ed_status edev \<noteq> int (status_number SDEV_ST_AVAILABLE) then (-1, c)
      else write_sysfs_attribute S (take (SYSFS_PATH_MAX - 1) (cstr (ub_path (ed_udev edev)) @ ''/usbip_sockfd''))
        (take 29 (dec_int (sk_fd sk) @ [CHR 0x0A])) c)"

definition usbip_generic_try_transfer ::
  "('c, 'k) host_sys_scheme \<Rightarrow> usbip_exported_device option \<Rightarrow> 'c usbip_sock \<Rightarrow> 'c \<Rightarrow>
     (int \<times> 'c usbip_sock \<times> 'c) option" where
  "usbip_generic_try_transfer S edev sk c =
     (if edev = None then Some (-1, sk, c) else usbip_ux_try_transfer (ux_of S) sk c)"

definition usbip_generic_has_transferred :: "('c, 'k) host_sys_scheme \<Rightarrow> 'c \<Rightarrow> bool" where
  "usbip_generic_has_transferred S c = usbip_ux_installed (ux_of S) c"

section \<open>The driver for devices\<close>

definition host_is_my_device :: "udev_device \<Rightarrow> bool" where
  "host_is_my_device dev = (driver dev = Some USBIP_HOST_DRV_NAME)"

definition host_reader :: "('c, 'k) host_sys_scheme \<Rightarrow> 'c driver_reader" where
  "host_reader S = \<lparr>udev_subsystem = ''usb'',
     read_device = (\<lambda>c dev d. map_option (Pair 0) (read_usb_device dev d)),
     read_interface = Some (\<lambda>c. read_usb_interface (find_usb S c)),
     is_my_device = host_is_my_device\<rparr>"

definition host_driver :: "('c, 'k) host_sys_scheme \<Rightarrow> 'c usbip_host_driver" where
  "host_driver S = \<lparr>hd_open = Some (usbip_generic_driver_open S),
     hd_close = Some (usbip_generic_driver_close S),
     hd_refresh_device_list = Some (usbip_generic_refresh_device_list S (host_reader S)),
     hd_get_device = Some usbip_generic_get_device,
     hd_list_devices = Some (\<lambda>c. Some (usbip_generic_list_devices S c)),
     hd_bind_device = Some (usbip_generic_bind_device S), hd_unbind_device = Some (usbip_generic_unbind_device S),
     hd_export_device = Some (usbip_generic_export_device S),
     hd_try_transfer = Some (usbip_generic_try_transfer S),
     hd_has_transferred = Some (usbip_generic_has_transferred S)\<rparr>"

section \<open>The driver for gadgets\<close>

definition speed_names :: "(u32 \<times> string) list" where
  "speed_names = [(USB_SPEED_UNKNOWN, ''UNKNOWN''), (USB_SPEED_LOW, ''low-speed''), (USB_SPEED_FULL, ''full-speed''),
     (USB_SPEED_HIGH, ''high-speed''), (USB_SPEED_WIRELESS, ''wireless''), (USB_SPEED_SUPER, ''super-speed'')]"

text \<open>The byte of a character, and two of them in the byte order of USB.\<close>

definition byte_at :: "string \<Rightarrow> nat \<Rightarrow> u8" where "byte_at s i = of_nat (of_char (s ! i))"

definition le16_of :: "string \<Rightarrow> nat \<Rightarrow> u16" where
  "le16_of s i = ucast (byte_at s i) OR push_bit 8 (ucast (byte_at s (Suc i)))"

text \<open>The fault is a file shorter than a descriptor, of which the rest is uninitialised.\<close>

definition read_usb_vudc_device ::
  "('c, 'k) host_sys_scheme \<Rightarrow> 'c \<Rightarrow> udev_device \<Rightarrow> usbip_usb_device \<Rightarrow> (int \<times> usbip_usb_device) option" where
  "read_usb_vudc_device S c sdev dev =
     (let plat = udev_parent S sdev in
      case read_file S (take (SYSFS_PATH_MAX - 1) (syspath plat @ ''/dev_desc'')) c of
        None \<Rightarrow> Some (-1, dev)
      | Some descr \<Rightarrow>
          if length descr < 18 then None
          else Some (0, dev\<lparr>bDeviceClass := byte_at descr 4, bDeviceSubClass := byte_at descr 5,
            bDeviceProtocol := byte_at descr 6, bNumConfigurations := byte_at descr 17,
            idVendor := le16_of descr 8, idProduct := le16_of descr 10, bcdDevice := le16_of descr 12,
            ub_path := strncpy SYSFS_PATH_MAX (syspath plat),
            ub_speed := (case sysattr sdev ''current_speed'' of None \<Rightarrow> USB_SPEED_UNKNOWN
              | Some s \<Rightarrow> (case find (\<lambda>(_, name). name = s) speed_names of
                  None \<Rightarrow> USB_SPEED_UNKNOWN | Some (n, _) \<Rightarrow> n)),
            bNumInterfaces := 0, bConfigurationValue := 0, ub_busnum := 0,
            ub_busid := strncpy SYSFS_BUS_ID_SIZE (sysname plat)\<rparr>))"

definition device_is_my_device :: "('c, 'k) host_sys_scheme \<Rightarrow> udev_device \<Rightarrow> bool" where
  "device_is_my_device S dev = (udev_property S dev ''USB_UDC_NAME'' = Some USBIP_DEVICE_DRV_NAME)"

text \<open>The devices of the subsystem \<open>platform\<close>.  The inner list is \<open>None\<close> when an attribute is missing; the fault is
  one that is too short to hold the fields read from it.\<close>

fun list_gadgets :: "udev_device list \<Rightarrow> (int \<times> usbip_usb_device list) option" where
  "list_gadgets [] = Some (0, [])"
| "list_gadgets (dev # devs) =
     (if driver dev \<noteq> Some USBIP_DEVICE_DRV_NAME then list_gadgets devs
      else case sysattr dev ''dev_desc'' of
        None \<Rightarrow> Some (-1, [])
      | Some d \<Rightarrow>
          if length d < 12 then None
          else do { (n, ds) \<leftarrow> list_gadgets devs;
                    if n < 0 then Some (-1, [])
                    else Some (n + 1, zero_usb_device\<lparr>idVendor := le16_of d 8, idProduct := le16_of d 10,
                      ub_busid := strncpy SYSFS_BUS_ID_SIZE (sysname dev)\<rparr> # ds) })"

definition list_gadget_devices :: "('c, 'k) host_sys_scheme \<Rightarrow> 'c \<Rightarrow> (int \<times> usbip_usb_device list) option" where
  "list_gadget_devices S c =
     list_gadgets (List.map_filter (from_syspath S c) (enumerate_devices S c ''platform''))"

definition device_reader :: "('c, 'k) host_sys_scheme \<Rightarrow> 'c driver_reader" where
  "device_reader S = \<lparr>udev_subsystem = ''udc'', read_device = read_usb_vudc_device S,
     read_interface = None, is_my_device = device_is_my_device S\<rparr>"

definition device_driver :: "('c, 'k) host_sys_scheme \<Rightarrow> 'c usbip_host_driver" where
  "device_driver S = \<lparr>hd_open = Some (usbip_generic_driver_open S),
     hd_close = Some (usbip_generic_driver_close S),
     hd_refresh_device_list = Some (usbip_generic_refresh_device_list S (device_reader S)),
     hd_get_device = Some usbip_generic_get_device, hd_list_devices = Some (list_gadget_devices S),
     hd_bind_device = None, hd_unbind_device = None,
     hd_export_device = Some (usbip_generic_export_device S),
     hd_try_transfer = Some (usbip_generic_try_transfer S),
     hd_has_transferred = Some (usbip_generic_has_transferred S)\<rparr>"

section \<open>Access to the driver\<close>

text \<open>\<open>USBIP_HDRIVER_TYPE_HOST\<close> is 0, \<open>USBIP_HDRIVER_TYPE_DEVICE\<close> 1.\<close>

definition usbip_hdriver_set ::
  "('c, 'k) host_sys_scheme \<Rightarrow> int \<Rightarrow> 'c usbip_host_driver \<Rightarrow> int \<times> 'c usbip_host_driver" where
  "usbip_hdriver_set S type H =
     (if type = 0 then (0, host_driver S) else if type = 1 then (0, device_driver S) else (-1, H))"

definition usbip_driver_open :: "'c usbip_host_driver \<Rightarrow> 'c \<Rightarrow> int \<times> 'c" where
  "usbip_driver_open H c = (case hd_open H of None \<Rightarrow> (- EOPNOTSUPP, c) | Some f \<Rightarrow> f c)"

definition usbip_driver_close :: "'c usbip_host_driver \<Rightarrow> 'c \<Rightarrow> 'c" where
  "usbip_driver_close H c = (case hd_close H of None \<Rightarrow> c | Some f \<Rightarrow> f c)"

definition usbip_refresh_device_list ::
  "'c usbip_host_driver \<Rightarrow> 'c \<Rightarrow> (int \<times> usbip_exported_device list) option" where
  "usbip_refresh_device_list H c = (case hd_refresh_device_list H of None \<Rightarrow> Some (- EOPNOTSUPP, []) | Some f \<Rightarrow> f c)"

text \<open>The list is not freed but read again.\<close>

definition usbip_free_device_list ::
  "'c usbip_host_driver \<Rightarrow> 'c \<Rightarrow> (int \<times> usbip_exported_device list) option" where
  "usbip_free_device_list H c = (case hd_refresh_device_list H of None \<Rightarrow> Some (- EOPNOTSUPP, []) | Some f \<Rightarrow> f c)"

definition usbip_get_device ::
  "'c usbip_host_driver \<Rightarrow> usbip_exported_device list \<Rightarrow> string \<Rightarrow> usbip_exported_device option" where
  "usbip_get_device H edevs busid = (case hd_get_device H of None \<Rightarrow> None | Some f \<Rightarrow> f edevs busid)"

definition usbip_list_devices :: "'c usbip_host_driver \<Rightarrow> 'c \<Rightarrow> (int \<times> usbip_usb_device list) option" where
  "usbip_list_devices H c = (case hd_list_devices H of None \<Rightarrow> Some (-1, []) | Some f \<Rightarrow> f c)"

definition usbip_export_device ::
  "'c usbip_host_driver \<Rightarrow> usbip_exported_device \<Rightarrow> 'c usbip_sock \<Rightarrow> 'c \<Rightarrow> int \<times> 'c" where
  "usbip_export_device H edev sk c = (case hd_export_device H of None \<Rightarrow> (-1, c) | Some f \<Rightarrow> f edev sk c)"

definition usbip_try_transfer ::
  "'c usbip_host_driver \<Rightarrow> usbip_exported_device option \<Rightarrow> 'c usbip_sock \<Rightarrow> 'c \<Rightarrow>
     (int \<times> 'c usbip_sock \<times> 'c) option" where
  "usbip_try_transfer H edev sk c = (case hd_try_transfer H of None \<Rightarrow> Some (-1, sk, c) | Some f \<Rightarrow> f edev sk c)"

text \<open>A driver without the function counts as one that transferred.\<close>

definition usbip_has_transferred :: "'c usbip_host_driver \<Rightarrow> 'c \<Rightarrow> bool" where
  "usbip_has_transferred H c = (case hd_has_transferred H of None \<Rightarrow> True | Some f \<Rightarrow> f c)"

definition usbip_bind_device :: "'c usbip_host_driver \<Rightarrow> string \<Rightarrow> 'c \<Rightarrow> int \<times> 'c" where
  "usbip_bind_device H busid c = (case hd_bind_device H of None \<Rightarrow> (0, c) | Some f \<Rightarrow> f busid c)"

definition usbip_unbind_device :: "'c usbip_host_driver \<Rightarrow> string \<Rightarrow> 'c \<Rightarrow> int \<times> 'c" where
  "usbip_unbind_device H busid c = (case hd_unbind_device H of None \<Rightarrow> (0, c) | Some f \<Rightarrow> f busid c)"

end
