(* ===== verification/Tool_Vhci.thy ===== *)
theory Tool_Vhci
  imports Tool_Device Vhci_Sysfs
begin

text \<open>
  The library of the tools on the importing host, \<open>libsrc/vhci_driver.c\<close>: it reads the state of the
  ports from the attributes of the host controller, attaches and detaches devices by writing to
  them, and keeps a record of each connection in a file.  The properties connect it with the
  kernel's side of the attributes in \<open>Vhci_Sysfs\<close>.
\<close>

section \<open>The environment\<close>

text \<open>The device of the host controller, which is opened anew each time, with its attributes and its path.\<close>

record 'c vhci_sys = "'c tool_sys" +
  hc_new :: "'c \<Rightarrow> bool \<times> 'c"
  hc_attr :: "string \<Rightarrow> 'c \<Rightarrow> string option"
  hc_path :: "'c \<Rightarrow> string"

text \<open>The variables of the file: whether \<open>vhci_hc_device\<close> and \<open>udev_context\<close> are set, and \<open>vhci_nports\<close>.\<close>

record 'c vhci_lib =
  vhci_hc_device :: bool
  udev_context :: bool
  vhci_nports :: int
  sys :: 'c

record usbip_vhci_device =
  vv_port :: int
  vv_status :: u32
  vv_devid :: u32
  vv_busnum :: u8
  vv_devnum :: u8
  vv_udev :: usbip_usb_device

definition zero_vhci_device :: usbip_vhci_device where
  "zero_vhci_device = \<lparr>vv_port = 0, vv_status = 0, vv_devid = 0, vv_busnum = 0, vv_devnum = 0,
     vv_udev = zero_usb_device\<rparr>"

text \<open>The attribute that is read, and the rest of it; \<open>None\<close> is the null pointer.\<close>

record status_context =
  controller :: nat
  ctx_c :: "string option"

section \<open>Reading the state of the ports\<close>

definition open_hc_device :: "'c vhci_sys \<Rightarrow> 'c vhci_lib \<Rightarrow> bool \<times> 'c vhci_lib" where
  "open_hc_device K l = (let (ok, c) = hc_new K (sys l) in (ok, l\<lparr>vhci_hc_device := ok, sys := c\<rparr>))"

definition close_hc_device :: "'c vhci_lib \<Rightarrow> 'c vhci_lib" where
  "close_hc_device l = l\<lparr>vhci_hc_device := False\<rparr>"

definition status_name :: "nat \<Rightarrow> string" where
  "status_name n = (if n = 0 then ''status'' else take 16 (''status.'' @ decimal n))"

definition open_status ::
  "'c vhci_sys \<Rightarrow> bool \<Rightarrow> status_context \<Rightarrow> 'c vhci_lib \<Rightarrow> bool \<times> status_context \<times> 'c vhci_lib" where
  "open_status K first ctx l =
     (let ctx1 = ctx\<lparr>controller := (if first then 0 else Suc (controller ctx))\<rparr>;
          (ok, l1) = open_hc_device K l in
      if \<not> ok then (False, ctx1, l1)
      else let a = hc_attr K (status_name (controller ctx1)) (sys l1) in
        (a \<noteq> None, ctx1\<lparr>ctx_c := a\<rparr>, l1))"

definition close_status :: "status_context \<Rightarrow> status_context" where
  "close_status ctx = ctx\<lparr>ctx_c := None\<rparr>"

text \<open>The rest of a string from its first newline on; the loop goes through the controllers until
  one has a newline, and may not end if there is always another one.\<close>

definition after_newline :: "string \<Rightarrow> string option" where
  "after_newline s = (case dropWhile (\<lambda>c. c \<noteq> CHR 0x0A) s of [] \<Rightarrow> None | _ # cs \<Rightarrow> Some cs)"

partial_function (option) next_status_line ::
  "'c vhci_sys \<Rightarrow> status_context \<Rightarrow> 'c vhci_lib \<Rightarrow> (bool \<times> status_context \<times> 'c vhci_lib) option" where
  "next_status_line K ctx l = (case ctx_c ctx of
     None \<Rightarrow> None
   | Some s \<Rightarrow> (case after_newline s of
       Some r \<Rightarrow> Some (True, ctx\<lparr>ctx_c := Some r\<rparr>, l)
     | None \<Rightarrow> (case open_status K False ctx l of (ok, ctx', l') \<Rightarrow>
         if ok then next_status_line K ctx' l' else Some (False, ctx', l'))))"

text \<open>\<open>sscanf\<close> with the format \<open>%d %d %d %x %lx %31s\<close>, if all six conversions succeed.\<close>

definition scan_status :: "string \<Rightarrow> (int \<times> int \<times> int \<times> u32 \<times> ulong \<times> string) option" where
  "scan_status s =
     do { (port, r1) \<leftarrow> scan_d s;
          (st, r2) \<leftarrow> scan_d r1;
          (speed, r3) \<leftarrow> scan_d r2;
          (devid, r4) \<leftarrow> scan_x (length r3) r3;
          (sock, r5) \<leftarrow> scan_x (length r4) r4;
          (lbusid, r6) \<leftarrow> scan_s 31 r5;
          Some (port, st, speed, ucast devid, sock, lbusid) }"

definition imported_device_init ::
  "'c vhci_sys \<Rightarrow> usbip_vhci_device \<Rightarrow> string \<Rightarrow> 'c vhci_lib \<Rightarrow> (bool \<times> usbip_vhci_device) option" where
  "imported_device_init K vd busid l = (case find_usb K (sys l) busid of
     None \<Rightarrow> Some (False, vd)
   | Some sudev \<Rightarrow> map_option (\<lambda>u. (True, vd\<lparr>vv_udev := u\<rparr>)) (read_usb_device sudev (vv_udev vd)))"

definition parse_line ::
  "'c vhci_sys \<Rightarrow> string \<Rightarrow> 'c vhci_lib \<Rightarrow> (bool \<times> usbip_vhci_device) option" where
  "parse_line K s l =
     (if s = [] then Some (False, zero_vhci_device)
      else case scan_status s of
        None \<Rightarrow> Some (False, zero_vhci_device)
      | Some (port, st, speed, devid, sock, lbusid) \<Rightarrow>
          let vd = zero_vhci_device\<lparr>vv_port := port, vv_status := word_of_int st, vv_devid := devid,
                vv_busnum := ucast (drop_bit 16 devid), vv_devnum := ucast (devid AND 0xffff)\<rparr> in
          if vv_status vd \<noteq> word_of_nat (status_number VDEV_ST_NULL) \<and>
             vv_status vd \<noteq> word_of_nat (status_number VDEV_ST_NOTASSIGNED)
          then imported_device_init K vd lbusid l else Some (True, vd))"

definition parse_status_line ::
  "'c vhci_sys \<Rightarrow> status_context \<Rightarrow> 'c vhci_lib \<Rightarrow>
     (bool \<times> usbip_vhci_device \<times> status_context \<times> 'c vhci_lib) option" where
  "parse_status_line K ctx l =
     do { (ok, ctx1, l1) \<leftarrow> next_status_line K ctx l;
          if \<not> ok then Some (False, zero_vhci_device, ctx1, l1)
          else do { s \<leftarrow> ctx_c ctx1;
                    (ok', vd) \<leftarrow> parse_line K s l1;
                    Some (ok', vd, ctx1, l1) } }"

section \<open>Opening the driver and finding ports\<close>

text \<open>\<open>strtol\<close> with base 10, stored in an \<open>int\<close>.\<close>

definition strtol :: "string \<Rightarrow> int" where
  "strtol s = (case scan_d s of None \<Rightarrow> 0 | Some (v, _) \<Rightarrow> v)"

definition get_nports :: "'c vhci_sys \<Rightarrow> 'c vhci_lib \<Rightarrow> int \<times> 'c vhci_lib" where
  "get_nports K l = (case hc_attr K ''nports'' (sys l) of
     None \<Rightarrow> (-1, l)
   | Some a \<Rightarrow> (if strtol a \<le> 0 then -1 else 0, l\<lparr>vhci_nports := strtol a\<rparr>))"

definition usbip_vhci_driver_open :: "'c vhci_sys \<Rightarrow> 'c vhci_lib \<Rightarrow> int \<times> 'c vhci_lib" where
  "usbip_vhci_driver_open K l =
     (let (ok, c) = udev_new K (sys l); l1 = l\<lparr>udev_context := ok, sys := c\<rparr> in
      if \<not> ok then (-1, l1)
      else let (ok2, l2) = open_hc_device K l1 in
        if \<not> ok2 then (-1, l2\<lparr>udev_context := False\<rparr>)
        else let (r, l3) = get_nports K l2 in
          if r \<noteq> 0 \<or> vhci_nports l3 \<le> 0 then (-1, (close_hc_device l3)\<lparr>udev_context := False\<rparr>)
          else (0, l3))"

text \<open>The pointer to the context is not reset.\<close>

definition usbip_vhci_driver_close :: "'c vhci_lib \<Rightarrow> 'c vhci_lib" where
  "usbip_vhci_driver_close l = close_hc_device l"

partial_function (option) free_port_loop ::
  "'c vhci_sys \<Rightarrow> status_context \<Rightarrow> 'c vhci_lib \<Rightarrow> (int \<times> 'c vhci_lib) option" where
  "free_port_loop K ctx l = (case parse_status_line K ctx l of
     None \<Rightarrow> None
   | Some (ok, vd, ctx', l') \<Rightarrow>
       if \<not> ok then Some (-1, l')
       else if vv_status vd = word_of_nat (status_number VDEV_ST_NULL) then Some (vv_port vd, l')
       else free_port_loop K ctx' l')"

definition first_context :: status_context where
  "first_context = \<lparr>controller = 0, ctx_c = None\<rparr>"

definition usbip_vhci_get_free_port :: "'c vhci_sys \<Rightarrow> 'c vhci_lib \<Rightarrow> (int \<times> 'c vhci_lib) option" where
  "usbip_vhci_get_free_port K l = (case open_status K True first_context l of (ok, ctx, l') \<Rightarrow>
     if \<not> ok then Some (-1, l') else free_port_loop K ctx l')"

section \<open>The records of the connections\<close>

definition VHCI_STATE_PATH :: string where "VHCI_STATE_PATH = ''/var/run/vhci_hcd''"

definition record_path :: "int \<Rightarrow> string" where
  "record_path port = VHCI_STATE_PATH @ ''/port'' @ dec_int port"

text \<open>\<open>fgets\<close> into a buffer of \<open>n\<close> characters: at most one line.\<close>

definition fgets :: "nat \<Rightarrow> string \<Rightarrow> string option" where
  "fgets n s = (let t = take (n - 1) s; line = takeWhile (\<lambda>c. c \<noteq> CHR 0x0A) t in
     if t = [] then None else Some (take (Suc (length line)) t))"

text \<open>Each part is given by its delimiter and, if it is asked for, the size of its array.\<close>

fun record_parts :: "(char \<times> nat option) list \<Rightarrow> string \<Rightarrow> string list option" where
  "record_parts [] start = Some []"
| "record_parts ((delim, max_len) # ps) start =
     (let str = takeWhile (\<lambda>c. c \<noteq> delim) start in
      if str = start then None
      else if (case max_len of None \<Rightarrow> False | Some n \<Rightarrow> n \<le> length str) then None
      else map_option ((#) str) (record_parts ps (drop (Suc (length str)) start)))"

definition read_record ::
  "'c vhci_sys \<Rightarrow> int \<Rightarrow> nat option \<Rightarrow> nat option \<Rightarrow> nat option \<Rightarrow> 'c vhci_lib \<Rightarrow>
     (string \<times> string \<times> string) option" where
  "read_record K port host_len serv_len busid_len l =
     (let size = case_option 0 id host_len + case_option 0 id serv_len + case_option 0 id busid_len + 4 in
      do { s \<leftarrow> read_file K (record_path port) (sys l);
           line \<leftarrow> fgets size s;
           ps \<leftarrow> record_parts [(CHR '' '', host_len), (CHR '' '', serv_len), (CHR 0x0A, busid_len)] (cstr line);
           (case ps of [host, serv, busid] \<Rightarrow> Some (host, serv, busid) | _ \<Rightarrow> None) })"

definition usbip_vhci_create_record ::
  "'c vhci_sys \<Rightarrow> string \<Rightarrow> string \<Rightarrow> string \<Rightarrow> int \<Rightarrow> 'c vhci_lib \<Rightarrow> int \<times> 'c vhci_lib" where
  "usbip_vhci_create_record K host serv busid port l =
     (let (r, c1) = mkdir K VHCI_STATE_PATH (sys l); l1 = l\<lparr>sys := c1\<rparr> in
      if r < 0 \<and> (r \<noteq> - EEXIST \<or> is_dir K VHCI_STATE_PATH c1 \<noteq> Some True) then (-1, l1)
      else let (ok, c2) = open_trunc K (record_path port) c1; l2 = l1\<lparr>sys := c2\<rparr> in
        if \<not> ok then (-1, l2)
        else let buff = take 99 (host @ '' '' @ serv @ '' '' @ busid @ [CHR 0x0A]);
                 (n, c3) = write_file K (record_path port) buff c2 in
          (if n \<noteq> int (length buff) then -1 else 0, l2\<lparr>sys := c3\<rparr>))"

definition usbip_vhci_delete_record :: "'c vhci_sys \<Rightarrow> int \<Rightarrow> 'c vhci_lib \<Rightarrow> 'c vhci_lib" where
  "usbip_vhci_delete_record K port l =
     l\<lparr>sys := rmdir K VHCI_STATE_PATH (remove_file K (record_path port) (sys l))\<rparr>"

abbreviation (input) NI_MAXHOST :: nat where "NI_MAXHOST \<equiv> 1025"
abbreviation (input) NI_MAXSERV :: nat where "NI_MAXSERV \<equiv> 32"

definition port_free :: "usbip_vhci_device \<Rightarrow> bool" where
  "port_free vd = (vv_status vd = word_of_nat (status_number VDEV_ST_NULL) \<or>
     vv_status vd = word_of_nat (status_number VDEV_ST_NOTASSIGNED))"

partial_function (option) find_device_loop ::
  "'c vhci_sys \<Rightarrow> string \<Rightarrow> string \<Rightarrow> status_context \<Rightarrow> 'c vhci_lib \<Rightarrow> (int \<times> 'c vhci_lib) option" where
  "find_device_loop K host busid ctx l = (case parse_status_line K ctx l of
     None \<Rightarrow> None
   | Some (ok, vd, ctx', l') \<Rightarrow>
       if \<not> ok then Some (-1, l')
       else if \<not> port_free vd \<and>
         (case read_record K (vv_port vd) (Some NI_MAXHOST) None (Some SYSFS_BUS_ID_SIZE) l' of
            None \<Rightarrow> False
          | Some (rhost, _, rbusid) \<Rightarrow> strn_eq host rhost NI_MAXHOST \<and> strn_eq busid rbusid SYSFS_BUS_ID_SIZE)
       then Some (vv_port vd, l')
       else find_device_loop K host busid ctx' l')"

definition usbip_vhci_find_device ::
  "'c vhci_sys \<Rightarrow> string \<Rightarrow> string \<Rightarrow> 'c vhci_lib \<Rightarrow> (int \<times> 'c vhci_lib) option" where
  "usbip_vhci_find_device K host busid l = (case open_status K True first_context l of (ok, ctx, l') \<Rightarrow>
     if \<not> ok then Some (-1, l') else find_device_loop K host busid ctx l')"

section \<open>Attaching and detaching\<close>

text \<open>\<open>%u\<close> of an \<open>int\<close>.\<close>

definition dec_u :: "int \<Rightarrow> string" where
  "dec_u v = decimal (unat (word_of_int v :: u32))"

definition attach_text :: "int \<Rightarrow> int \<Rightarrow> u32 \<Rightarrow> u32 \<Rightarrow> string" where
  "attach_text port sockfd devid speed = take 199 (dec_u port @ '' '' @ dec_int sockfd @ '' '' @
     decimal (unat devid) @ '' '' @ decimal (unat speed))"

definition hc_attr_path :: "'c vhci_sys \<Rightarrow> string \<Rightarrow> 'c vhci_lib \<Rightarrow> string" where
  "hc_attr_path K name l = take (SYSFS_PATH_MAX - 1) (hc_path K (sys l) @ ''/'' @ name)"

definition write_hc_attribute :: "'c vhci_sys \<Rightarrow> string \<Rightarrow> string \<Rightarrow> 'c vhci_lib \<Rightarrow> int \<times> 'c vhci_lib" where
  "write_hc_attribute K path s l = (let (r, c) = write_sysfs_attribute K path s (sys l) in (r, l\<lparr>sys := c\<rparr>))"

definition usbip_vhci_attach_device2 ::
  "'c vhci_sys \<Rightarrow> int \<Rightarrow> int \<Rightarrow> u32 \<Rightarrow> u32 \<Rightarrow> 'c vhci_lib \<Rightarrow> int \<times> 'c vhci_lib" where
  "usbip_vhci_attach_device2 K port sockfd devid speed l =
     (let (ret, l1) = write_hc_attribute K (hc_attr_path K ''attach'' l) (attach_text port sockfd devid speed) l in
      (min ret 0, l1))"

definition get_devid :: "u8 \<Rightarrow> u8 \<Rightarrow> u32" where
  "get_devid busnum devnum = push_bit 16 (ucast busnum) OR ucast devnum"

definition usbip_vhci_attach_device ::
  "'c vhci_sys \<Rightarrow> int \<Rightarrow> int \<Rightarrow> u8 \<Rightarrow> u8 \<Rightarrow> u32 \<Rightarrow> 'c vhci_lib \<Rightarrow> int \<times> 'c vhci_lib" where
  "usbip_vhci_attach_device K port sockfd busnum devnum speed l =
     usbip_vhci_attach_device2 K port sockfd (get_devid busnum devnum) speed l"

definition usbip_vhci_detach_device :: "'c vhci_sys \<Rightarrow> int \<Rightarrow> 'c vhci_lib \<Rightarrow> int \<times> 'c vhci_lib" where
  "usbip_vhci_detach_device K port l =
     (let (ret, l1) = write_hc_attribute K (hc_attr_path K ''detach'' l) (dec_u port) l in
      (min ret 0, l1))"

text \<open>The command \<open>usbip detach\<close>: the number of the port is stored in eight bits.\<close>

definition atoi :: "string \<Rightarrow> int" where "atoi s = strtol s"

definition usbip_detach_port :: "'c vhci_sys \<Rightarrow> string \<Rightarrow> 'c vhci_lib \<Rightarrow> int \<times> 'c vhci_lib" where
  "usbip_detach_port K port l =
     (if \<not> list_all is_digit port then (-1, l)
      else let portnum = uint (word_of_int (atoi port) :: u8); (r, l1) = usbip_vhci_driver_open K l in
        if r < 0 then (-1, l1)
        else let (r2, l2) = usbip_vhci_detach_device K portnum l1 in
          if r2 < 0 then (-1, usbip_vhci_driver_close l2)
          else (0, usbip_vhci_driver_close (usbip_vhci_delete_record K portnum l2)))"

section \<open>Scanning what was printed\<close>

lemma digit_not_space: "is_digit c \<Longrightarrow> \<not> is_space c"
  by (auto simp: is_digit_def is_space_def)

lemma scan_digits_zeros: "scan_digits 0 (replicate n (CHR ''0'') @ s) = scan_digits 0 s"
  by (induction n) (simp_all add: is_digit_def digit_val_def)

text \<open>A padded number starts with a digit, which is neither white space nor a sign.\<close>

lemma scan_long_digits:
  assumes "list_all is_digit ds" "ds \<noteq> []" "rest = [] \<or> \<not> is_digit (hd rest)" "list_all is_space sp"
  shows "scan_long lo hi (sp @ ds @ rest) =
    Some (word_of_int (clamp lo hi (int (fst (scan_digits 0 (ds @ rest))))), rest)"
proof -
  obtain c cs where c: "ds = c # cs" "is_digit c" using assms(1,2) by (cases ds) auto
  have "dropWhile is_space (sp @ ds @ rest) = ds @ rest"
    using assms(4) c digit_not_space [OF c(2)] by (simp add: dropWhile_append2 list_all_iff)
  moreover have "c \<noteq> CHR ''-''" "c \<noteq> CHR ''+''" using c(2) by (auto simp: is_digit_def)
  moreover have "scan_digits acc rest = (acc, rest)" for acc using assms(3) by (cases rest) auto
  then have "snd (scan_digits 0 (ds @ rest)) = rest" using scan_digits_append [OF assms(1), of 0 rest] by simp
  moreover have "scan_sign (ds @ rest) = (False, ds @ rest)"
    using \<open>c \<noteq> CHR ''-''\<close> \<open>c \<noteq> CHR ''+''\<close> c(1) by (simp add: scan_sign_def)
  moreover have "ds @ rest \<noteq> []" "is_digit (hd (ds @ rest))" using c by simp_all
  ultimately show ?thesis unfolding scan_long_def Let_def by (simp del: scan_digits.simps add: case_prod_beta)
qed

lemma padded_digits: "list_all is_digit (pad n (CHR ''0'') (decimal k)) \<and> pad n (CHR ''0'') (decimal k) \<noteq> []"
  using decimal_digits [of k] by (auto simp: pad_def list_all_iff is_digit_def)

lemma scan_long_padded:
  assumes "rest = [] \<or> \<not> is_digit (hd rest)" "list_all is_space sp"
  shows "scan_long lo hi (sp @ pad n (CHR ''0'') (decimal k) @ rest) = Some (word_of_int (clamp lo hi (int k)), rest)"
  using scan_long_digits [OF _ _ assms, of "pad n (CHR ''0'') (decimal k)"] padded_digits [of n k]
    scan_digits_decimal [OF assms(1), of k] by (simp add: pad_def scan_digits_zeros)

lemma scan_d_padded:
  assumes "rest = [] \<or> \<not> is_digit (hd rest)" "list_all is_space sp" "k < 2 ^ 31"
  shows "scan_d (sp @ pad n (CHR ''0'') (decimal k) @ rest) = Some (int k, rest)"
proof -
  have "clamp (- (2 ^ 63)) (2 ^ 63 - 1) (int k) = int k" using assms(3) by (simp add: clamp_def)
  moreover have "unat (word_of_int (int k) :: u32) = k" using assms(3) by (simp add: unat_of_nat take_bit_nat_eq_self)
  then have "sint (word_of_int (int k) :: u32) = int k" using assms(3) by (subst sint_small) simp_all
  ultimately show ?thesis by (simp add: scan_d_def scan_long_padded [OF assms(1,2)])
qed

text \<open>Hexadecimal numbers.\<close>

definition is_xdigit :: "char \<Rightarrow> bool" where "is_xdigit c = (radix_digit c < 16)"

lemma hex_digit_val: "k < 16 \<Longrightarrow> radix_digit (hex_digit k) = k"
  by (simp add: radix_digit_def hex_digit_def Let_def)

lemma hex_digits: "list_all is_xdigit (hex n) \<and> hex n \<noteq> []"
proof (induction n rule: hex.induct)
  case (1 n)
  then show ?case by (cases "n < 16"; subst hex.simps, subst (2) hex.simps) (simp_all add: is_xdigit_def [of "hex_digit _"] hex_digit_val)
qed

lemma scan_radix_append:
  "list_all is_xdigit xs \<Longrightarrow> scan_radix 16 acc (xs @ ys) = scan_radix 16 (fst (scan_radix 16 acc xs)) ys"
  by (induction xs arbitrary: acc) (auto simp: is_xdigit_def)

lemma scan_radix_zeros: "scan_radix 16 0 (replicate n (CHR ''0'') @ s) = scan_radix 16 0 s"
  by (induction n) (simp_all add: radix_digit_def)

lemma scan_radix_hex:
  "rest = [] \<or> \<not> is_xdigit (hd rest) \<Longrightarrow> scan_radix 16 0 (hex n @ rest) = (n, rest)"
proof (induction n arbitrary: rest rule: hex.induct)
  case (1 n)
  have stop: "scan_radix 16 m rest = (m, rest)" for m using "1.prems" by (cases rest) (auto simp: is_xdigit_def)
  show ?case
  proof (cases "n < 16")
    case True
    then show ?thesis using hex_digit_val [OF True] stop by (subst hex.simps) simp
  next
    case False
    have "scan_radix 16 0 (hex (n div 16) @ []) = (n div 16, [])" by (rule "1.IH" [OF False]) simp
    then have "fst (scan_radix 16 0 (hex (n div 16))) = n div 16" by simp
    then show ?thesis using False hex_digit_val [of "n mod 16"] stop hex_digits [of "n div 16"]
      by (subst hex.simps) (simp add: scan_radix_append)
  qed
qed

lemma scan_x_digits:
  assumes "list_all is_xdigit ds" "ds \<noteq> []" "rest = [] \<or> is_space (hd rest)" "list_all is_space sp"
    "n = fst (scan_radix 16 0 (ds @ rest))" "w = length (sp @ ds @ rest)"
  shows "scan_x w (sp @ ds @ rest) = Some (word_of_int (clamp (- (2 ^ 64 - 1)) (2 ^ 64 - 1) (int n)), rest)"
proof -
  obtain c cs where c: "ds = c # cs" "is_xdigit c" using assms(1,2) by (cases ds) auto
  have x: "\<not> is_space z \<and> z \<noteq> CHR ''-'' \<and> z \<noteq> CHR ''+'' \<and> z \<noteq> CHR ''x'' \<and> z \<noteq> CHR ''X''" if "is_xdigit z" for z
    using that by (auto simp: is_xdigit_def radix_digit_def is_space_def)
  have sp: "\<not> is_xdigit z \<and> z \<noteq> CHR ''x'' \<and> z \<noteq> CHR ''X''" if "is_space z" for z using that x [of z]
    by (auto simp: is_space_def)
  have d: "dropWhile is_space (sp @ ds @ rest) = ds @ rest"
    using assms(4) c x [OF c(2)] by (simp add: dropWhile_append2 list_all_iff)
  have l: "take w (ds @ rest) = ds @ rest" "drop w (ds @ rest) = []" using assms(6) by simp_all
  have y: "(case ds @ rest of z # x # cs \<Rightarrow> if z = CHR ''0'' \<and> (x = CHR ''x'' \<or> x = CHR ''X'') then cs else ds @ rest
    | _ \<Rightarrow> ds @ rest) = ds @ rest"
  proof (cases cs)
    case Nil
    then show ?thesis using c assms(3) sp by (cases rest) auto
  next
    case (Cons a as)
    then show ?thesis using c assms(1) x [of a] by simp
  qed
  have "scan_radix 16 acc rest = (acc, rest)" for acc
    using assms(3) sp by (cases rest) (auto simp: is_xdigit_def)
  then have "snd (scan_radix 16 0 (ds @ rest)) = rest" using scan_radix_append [OF assms(1), of 0 rest] by simp
  then have r: "scan_radix 16 0 (ds @ rest) = (n, rest)" using assms(5) by (metis prod.collapse)
  have "scan_sign (ds @ rest) = (False, ds @ rest)" using c x [OF c(2)] by (simp add: scan_sign_def)
  moreover have "ds @ rest \<noteq> []" "radix_digit (hd (ds @ rest)) < 16" using c by (simp_all add: is_xdigit_def)
  ultimately show ?thesis unfolding scan_x_def Let_def d l(1) l(2) by (simp add: y r del: scan_radix.simps)
qed

lemma scan_x_padded:
  assumes "rest = [] \<or> is_space (hd rest)" "list_all is_space sp" "k < 2 ^ 64"
    "w = length (sp @ pad n (CHR ''0'') (hex k) @ rest)"
  shows "scan_x w (sp @ pad n (CHR ''0'') (hex k) @ rest) = Some (of_nat k, rest)"
proof -
  have d: "list_all is_xdigit (pad n (CHR ''0'') (hex k))" "pad n (CHR ''0'') (hex k) \<noteq> []"
    using hex_digits [of k] by (auto simp: pad_def list_all_iff is_xdigit_def [of "CHR ''0''"] radix_digit_def)
  have "rest = [] \<or> \<not> is_xdigit (hd rest)"
    using assms(1) by (auto simp: is_xdigit_def is_space_def radix_digit_def)
  from scan_radix_hex [OF this, of k] have "k = fst (scan_radix 16 0 (pad n (CHR ''0'') (hex k) @ rest))"
    by (simp add: pad_def scan_radix_zeros)
  from scan_x_digits [OF d assms(1,2) this assms(4)] show ?thesis using assms(3) by (simp add: clamp_def)
qed

definition is_word :: "string \<Rightarrow> bool" where
  "is_word s = (s \<noteq> [] \<and> length s \<le> 31 \<and> list_all (\<lambda>c. \<not> is_space c) s)"

lemma scan_s_word:
  assumes "is_word s" "rest = [] \<or> is_space (hd rest)" "list_all is_space sp"
  shows "scan_s 31 (sp @ s @ rest) = Some (s, rest)"
proof -
  have "dropWhile is_space (sp @ s @ rest) = s @ rest"
    using assms by (cases s) (auto simp: dropWhile_append2 list_all_iff is_word_def)
  moreover have "takeWhile (\<lambda>c. \<not> is_space c) (take 31 (s @ rest)) = s"
  proof -
    have "takeWhile (\<lambda>c. \<not> is_space c) (take (31 - length s) rest) = []"
      using assms(2) by (cases rest; cases "31 - length s") auto
    then show ?thesis using assms(1) by (simp add: is_word_def list_all_iff)
  qed
  ultimately show ?thesis using assms(1) by (simp add: scan_s_def is_word_def Let_def)
qed

section \<open>The text of the kernel\<close>

text \<open>The state the kernel shows for a port, and the line without its newline; \<open>ptr\<close> is what \<open>%p\<close> prints.\<close>

definition shown_status :: "'c vhci_world \<Rightarrow> nat \<Rightarrow> usbip_device_status" where
  "shown_status w d = (if vhci_pdevs w ! pdev_of d then status (ud (vconn_at d w)) else VDEV_ST_NULL)"

definition port_line ::
  "('c, 'k) vhci_kernel_scheme \<Rightarrow> (nat option \<Rightarrow> string) \<Rightarrow> 'c vhci_world \<Rightarrow> nat \<Rightarrow> string" where
  "port_line K ptr w d = (let s = vconn_at d w in
     pad 4 (CHR ''0'') (decimal d) @ '' '' @ pad 3 (CHR ''0'') (decimal (status_number (shown_status w d))) @ '' '' @
     (if vhci_pdevs w ! pdev_of d \<and> status (ud s) = VDEV_ST_USED
      then pad 3 (CHR ''0'') (decimal (unat (vd_speed (vdev s)))) @ '' '' @
        pad 8 (CHR ''0'') (hex (unat (vd_devid (vdev s)))) @ '' '' @ pad 16 (CHR '' '') (ptr (tcp_socket (ud s))) @
        '' '' @ dev_name K (the (vd_udev (vdev s))) (vw_env w)
      else ''000 00000000 0000000000000000 0-0''))"

text \<open>\<open>%p\<close> prints hexadecimal digits of a 64-bit address, and the names of devices are words that fit
  the arrays of the tools.  A port in use has a device, and a controller in the array has its data.\<close>

definition showable ::
  "('c, 'k) vhci_kernel_scheme \<Rightarrow> (nat option \<Rightarrow> string) \<Rightarrow> 'c vhci_world \<Rightarrow> bool" where
  "showable K ptr w =
     ((\<forall>s. list_all is_xdigit (ptr s) \<and> ptr s \<noteq> [] \<and> length (ptr s) \<le> 16) \<and>
      (\<forall>d < 8 * length (vhci_pdevs w). vhci_pdevs w ! pdev_of d \<longrightarrow> status (ud (vconn_at d w)) = VDEV_ST_USED \<longrightarrow>
         (\<exists>dev. vd_udev (vdev (vconn_at d w)) = Some dev \<and> is_word (dev_name K dev (vw_env w))) \<and>
         unat (vd_speed (vdev (vconn_at d w))) < 2 ^ 31) \<and>
      (\<forall>p < length (vhci_pdevs w). vhci_pdevs w ! p \<longrightarrow> hcds w p \<noteq> None) \<and>
      length (vhci_pdevs w) < 2 ^ 27)"

definition line_of :: "('c, 'k) vhci_kernel_scheme \<Rightarrow> (nat option \<Rightarrow> string) \<Rightarrow> 'c vhci_world \<Rightarrow> nat \<Rightarrow> string" where
  "line_of K ptr w d = port_line K ptr w d @ [CHR 0x0A]"

lemma pdev_of_vport: "i < 8 \<Longrightarrow> pdev_of (8 * p + i) = p"
  by (simp add: pdev_of_def VHCI_HC_PORTS_def)

lemma showable_used:
  "showable K ptr w \<Longrightarrow> d < 8 * length (vhci_pdevs w) \<Longrightarrow> vhci_pdevs w ! pdev_of d \<Longrightarrow>
   status (ud (vconn_at d w)) = VDEV_ST_USED \<Longrightarrow>
   (\<exists>dev. vd_udev (vdev (vconn_at d w)) = Some dev \<and> is_word (dev_name K dev (vw_env w))) \<and>
   unat (vd_speed (vdev (vconn_at d w))) < 2 ^ 31"
  unfolding showable_def by blast

lemma status_number_less: "status_number st < 8"
  by (cases st) simp_all

lemma those_map_Some: "(\<And>x. x \<in> set xs \<Longrightarrow> f x = Some (g x)) \<Longrightarrow> those (map f xs) = Some (map g xs)"
  by (induction xs) auto

lemma map_shift: "map (\<lambda>i. f (8 * p + i)) [0..<8] = map f [8 * p..<8 * Suc p]" for p :: nat
  by (rule nth_equalityI) simp_all

lemma length_decimal: "0 < k \<Longrightarrow> n < 10 ^ k \<Longrightarrow> length (decimal n) \<le> k"
proof (induction n arbitrary: k rule: decimal.induct)
  case (1 n)
  show ?case
  proof (cases "n < 10")
    case True
    then show ?thesis using "1.prems" by (subst decimal.simps) simp
  next
    case False
    then obtain j where j: "k = Suc j" "0 < j" using "1.prems" by (cases k; cases "k - 1") auto
    then have "n div 10 < 10 ^ j" using "1.prems"(2) by (simp add: less_mult_imp_div_less mult.commute)
    from "1.IH" [OF False j(2) this] show ?thesis using False j by (subst decimal.simps) simp
  qed
qed

lemma sint_of_nat_small: "n < 2 ^ 31 \<Longrightarrow> sint (word_of_int (int n) :: u32) = int n"
proof -
  assume "n < 2 ^ 31"
  then have "unat (word_of_int (int n) :: u32) = n" by (simp add: unat_of_nat take_bit_nat_eq_self)
  then show ?thesis using \<open>n < 2 ^ 31\<close> by (subst sint_small) simp_all
qed

lemma status_name_to_id_name:
  assumes "p < 2 ^ 27" shows "status_name_to_id (status_name p) = int p"
proof (cases "p = 0")
  case False
  have "length (decimal p) \<le> 9" using assms by (intro length_decimal) simp_all
  then have "status_name p = ''status.'' @ decimal p" using False by (simp add: status_name_def)
  then have "dropWhile (\<lambda>c. c \<noteq> CHR ''.'') (status_name p) = CHR ''.'' # decimal p" by simp
  moreover have "kstrtol (decimal p) = Inr (int p)" using assms by (intro kstrtol_decimal) simp
  ultimately show ?thesis using assms sint_of_nat_small [of p] by (simp add: status_name_to_id_def)
qed (simp add: status_name_def status_name_to_id_def)

lemma status_show_lines:
  assumes "showable K ptr w" "p < length (vhci_pdevs w)"
  shows "status_show K ptr (status_name p) w =
    Some (status_header @ concat (map (line_of K ptr w) [8 * p..<8 * Suc p]))"
proof -
  have id: "status_name_to_id (status_name p) = int p"
    using assms by (intro status_name_to_id_name) (simp add: showable_def)
  have vp: "vport p i = 8 * p + i" for i by (simp add: vport_def VHCI_HC_PORTS_def)
  have pd: "pdev_of (8 * p + i) = p" if "i < 8" for i using that by (rule pdev_of_vport)
  have t: "status_show_vhci K ptr p w = Some (concat (map (\<lambda>i. line_of K ptr w (8 * p + i)) [0..<8]))"
    if "vhci_pdevs w ! p"
  proof -
    have l: "status_line K ptr (8 * p + i) w = Some (line_of K ptr w (8 * p + i))" if i: "i < 8" for i
    proof (cases "status (ud (vconn_at (8 * p + i) w)) = VDEV_ST_USED")
      case True
      moreover have "8 * p + i < 8 * length (vhci_pdevs w)" using assms(2) i by linarith
      ultimately have "\<exists>dev. vd_udev (vdev (vconn_at (8 * p + i) w)) = Some dev"
        using showable_used [OF assms(1), of "8 * p + i"] pd [OF i] \<open>vhci_pdevs w ! p\<close> by auto
      then show ?thesis using True pd [OF i] \<open>vhci_pdevs w ! p\<close>
        by (auto simp: status_line_def line_of_def port_line_def shown_status_def Let_def)
    next
      case False
      then show ?thesis using pd [OF i] \<open>vhci_pdevs w ! p\<close>
        by (simp add: status_line_def line_of_def port_line_def shown_status_def Let_def)
    qed
    have "those (map (\<lambda>i. status_line K ptr (vport p i) w) [0..<8]) = Some (map (\<lambda>i. line_of K ptr w (8 * p + i)) [0..<8])"
      by (rule those_map_Some) (simp add: vp l)
    moreover have "hcds w p \<noteq> None" using assms that by (simp add: showable_def)
    ultimately show ?thesis by (simp add: status_show_vhci_def VHCI_HC_PORTS_def)
  qed
  have u: "status_show_idle p = concat (map (\<lambda>i. line_of K ptr w (8 * p + i)) [0..<8])" if "\<not> vhci_pdevs w ! p"
  proof -
    have "map (\<lambda>i. pad 4 (CHR ''0'') (decimal (vport p i)) @ '' '' @ pad 3 (CHR ''0'') (decimal (status_number VDEV_ST_NULL)) @
      '' 000 00000000 0000000000000000 0-0'' @ [CHR 0x0A]) [0..<8] = map (\<lambda>i. line_of K ptr w (8 * p + i)) [0..<8]"
      using that by (simp add: line_of_def port_line_def shown_status_def pd vp Let_def del: upt_conv_Cons)
    then show ?thesis unfolding status_show_idle_def VHCI_HC_PORTS_def by (rule arg_cong [of _ _ concat])
  qed
  show ?thesis using t u assms(2) map_shift [of "line_of K ptr w" p]
    by (simp add: status_show_def id Let_def)
qed


section \<open>The tools read what the kernel shows\<close>

lemma scan_status_line:
  assumes "showable K ptr w" "d < 8 * length (vhci_pdevs w)" "rest = [] \<or> hd rest = CHR 0x0A"
  shows "\<exists>speed devid sock. scan_status (port_line K ptr w d @ rest) =
    Some (int d, int (status_number (shown_status w d)), speed, devid, sock,
      if vhci_pdevs w ! pdev_of d \<and> status (ud (vconn_at d w)) = VDEV_ST_USED
      then dev_name K (the (vd_udev (vdev (vconn_at d w)))) (vw_env w) else ''0-0'')"
proof -
  let ?s = "vconn_at d w" let ?used = "vhci_pdevs w ! pdev_of d \<and> status (ud ?s) = VDEV_ST_USED"
  define sp where "sp = (if ?used then unat (vd_speed (vdev ?s)) else 0)"
  define dv where "dv = (if ?used then unat (vd_devid (vdev ?s)) else 0)"
  define sk where "sk = (if ?used then ptr (tcp_socket (ud ?s)) else replicate 16 (CHR ''0''))"
  define nm where "nm = (if ?used then dev_name K (the (vd_udev (vdev ?s))) (vw_env w) else ''0-0'')"
  have z: "decimal 0 = ''0''" "hex 0 = ''0''" by code_simp+
  have line: "port_line K ptr w d @ rest = [] @ pad 4 (CHR ''0'') (decimal d) @
     '' '' @ pad 3 (CHR ''0'') (decimal (status_number (shown_status w d))) @
     '' '' @ pad 3 (CHR ''0'') (decimal sp) @ '' '' @ pad 8 (CHR ''0'') (hex dv) @
     '' '' @ pad 16 (CHR '' '') sk @ '' '' @ nm @ rest"
    by (simp add: port_line_def sp_def dv_def sk_def nm_def z Let_def) (simp add: pad_def eval_nat_numeral)
  have used: "(\<exists>dev. vd_udev (vdev ?s) = Some dev \<and> is_word (dev_name K dev (vw_env w))) \<and> sp < 2 ^ 31" if ?used
    using showable_used [OF assms(1,2)] that by (simp add: sp_def)
  have b: "d < 2 ^ 31" "sp < 2 ^ 31" "status_number (shown_status w d) < 2 ^ 31" "dv < 2 ^ 64"
    using assms(1,2) used status_number_less [of "shown_status w d"] unsigned_less [of "vd_devid (vdev ?s)", where 'a = nat]
    by (auto simp: showable_def sp_def dv_def)
  have sk: "list_all is_xdigit sk" "sk \<noteq> []" "length sk \<le> 16"
    using assms(1) by (auto simp: showable_def sk_def is_xdigit_def radix_digit_def list_all_iff)
  have nm: "is_word nm" using used by (auto simp: nm_def is_word_def [of "''0-0''"] is_space_def)
  have r: "rest = [] \<or> is_space (hd rest)" using assms(3) by (auto simp: is_space_def)
  have s1: "list_all is_space '' ''" "\<not> is_digit (CHR '' '')" "is_space (CHR '' '')"
    by (simp_all add: is_space_def is_digit_def)
  let ?R5 = "'' '' @ nm @ rest" let ?R4 = "'' '' @ pad 16 (CHR '' '') sk @ ?R5"
  let ?R3 = "'' '' @ pad 8 (CHR ''0'') (hex dv) @ ?R4"
  let ?R2 = "'' '' @ pad 3 (CHR ''0'') (decimal sp) @ ?R3"
  let ?R1 = "'' '' @ pad 3 (CHR ''0'') (decimal (status_number (shown_status w d))) @ ?R2"
  have a1: "scan_d ([] @ pad 4 (CHR ''0'') (decimal d) @ ?R1) = Some (int d, ?R1)"
    by (rule scan_d_padded) (use s1 b in simp_all)
  have a2: "scan_d ?R1 = Some (int (status_number (shown_status w d)), ?R2)"
    by (rule scan_d_padded) (use s1 b in simp_all)
  have a3: "scan_d ?R2 = Some (int sp, ?R3)" by (rule scan_d_padded) (use s1 b in simp_all)
  have a4: "scan_x (length ?R3) ?R3 = Some (of_nat dv, ?R4)" by (rule scan_x_padded) (use s1 b in simp_all)
  define sp5 where "sp5 = '' '' @ replicate (16 - length sk) (CHR '' '')"
  have q5: "?R4 = sp5 @ sk @ ?R5" by (simp add: pad_def sp5_def)
  have "list_all is_space sp5" by (simp add: sp5_def list_all_iff is_space_def)
  then obtain v where a5: "scan_x (length ?R4) ?R4 = Some (v, ?R5)"
    using scan_x_digits [OF sk(1,2) _ _ refl refl, of ?R5 sp5] s1(3) unfolding q5 by force
  have a6: "scan_s 31 ?R5 = Some (nm, rest)" by (rule scan_s_word [OF nm r s1(1)])
  have "scan_status (port_line K ptr w d @ rest) =
    Some (int d, int (status_number (shown_status w d)), int sp, ucast (of_nat dv :: ulong), v, nm)"
    unfolding line scan_status_def a1 Option.bind.bind_lunit case_prod_conv a2 a3 a4 a5 a6 by simp
  then show ?thesis unfolding nm_def by blast
qed


text \<open>The attributes as libudev returns them: the text of the kernel without newlines at its end.  The
  device of the controller can be opened at any time; \<open>find_usb\<close> knows the devices that are in use,
  which have a number of a bus in their name, and no device \<open>0-0\<close>.\<close>

definition strip_newlines :: "string \<Rightarrow> string" where
  "strip_newlines s = rev (dropWhile (\<lambda>c. c = CHR 0x0A) (rev s))"

definition sysfs_shows ::
  "'s vhci_sys \<Rightarrow> ('c, 'k) vhci_kernel_scheme \<Rightarrow> (nat option \<Rightarrow> string) \<Rightarrow> 'c vhci_world \<Rightarrow> bool" where
  "sysfs_shows S K ptr w =
     ((\<forall>c. fst (hc_new S c)) \<and>
      (\<forall>p c. hc_attr S (status_name p) c =
        (if p < length (vhci_pdevs w) then map_option strip_newlines (status_show K ptr (status_name p) w) else None)) \<and>
      (\<forall>c. find_usb S c ''0-0'' = None) \<and>
      (\<forall>c. \<forall>d < 8 * length (vhci_pdevs w). vhci_pdevs w ! pdev_of d \<longrightarrow> status (ud (vconn_at d w)) = VDEV_ST_USED \<longrightarrow>
         (\<exists>dev u. find_usb S c (dev_name K (the (vd_udev (vdev (vconn_at d w)))) (vw_env w)) = Some dev \<and>
            read_usb_device dev zero_usb_device = Some u)))"

lemma no_newline:
  assumes "showable K ptr w" "d < 8 * length (vhci_pdevs w)"
  shows "CHR 0x0A \<notin> set (port_line K ptr w d)" "port_line K ptr w d \<noteq> []"
proof -
  let ?n = "CHR 0x0A"
  have x: "\<not> is_digit ?n" "\<not> is_xdigit ?n" "is_space ?n" by (simp_all add: is_digit_def is_xdigit_def radix_digit_def is_space_def)
  have p: "?n \<notin> set (pad k (CHR ''0'') (decimal m))" for k m
    using padded_digits [of k m] x by (auto simp: list_all_iff)
  have h: "?n \<notin> set (pad k (CHR ''0'') (hex m))" for k m
    using hex_digits [of m] x by (auto simp: pad_def list_all_iff)
  have "\<forall>s. list_all is_xdigit (ptr s)" using assms(1) by (simp add: showable_def)
  then have q: "?n \<notin> set (pad 16 (CHR '' '') (ptr s))" for s
    using x by (auto simp: pad_def list_all_iff)
  have "?n \<notin> set (dev_name K (the (vd_udev (vdev (vconn_at d w)))) (vw_env w))"
    if "vhci_pdevs w ! pdev_of d" "status (ud (vconn_at d w)) = VDEV_ST_USED"
    using showable_used [OF assms that] x by (auto simp: is_word_def list_all_iff)
  then show "?n \<notin> set (port_line K ptr w d)" using p h q by (simp add: port_line_def Let_def)
  show "port_line K ptr w d \<noteq> []" by (simp add: port_line_def Let_def)
qed

definition lines_from :: "('c, 'k) vhci_kernel_scheme \<Rightarrow> (nat option \<Rightarrow> string) \<Rightarrow> 'c vhci_world \<Rightarrow> nat list \<Rightarrow> string" where
  "lines_from K ptr w ds = concat (map (\<lambda>d. CHR 0x0A # port_line K ptr w d) ds)"

lemma lines_from_simps [simp]:
  "lines_from K ptr w [] = []"
  "lines_from K ptr w (d # ds) = CHR 0x0A # port_line K ptr w d @ lines_from K ptr w ds"
  by (simp_all add: lines_from_def)

definition header_line :: string where
  "header_line = ''port sta spd dev      socket           local_busid''"

lemma newline_shift:
  "CHR 0x0A # concat (map (line_of K ptr w) ds) = lines_from K ptr w ds @ [CHR 0x0A]"
  by (induction ds) (simp_all add: line_of_def)

lemma attr_text:
  assumes "showable K ptr w" "sysfs_shows S K ptr w" "p < length (vhci_pdevs w)"
  shows "hc_attr S (status_name p) c = Some (header_line @ lines_from K ptr w [8 * p..<8 * Suc p])"
proof -
  have "[8 * p..<8 * Suc p] = [8 * p..<8 * p + 7] @ [8 * p + 7]"
    using upt_Suc_append [of "8 * p" "8 * p + 7"] by (simp add: eval_nat_numeral)
  then have l: "lines_from K ptr w [8 * p..<8 * Suc p] =
    (lines_from K ptr w [8 * p..<8 * p + 7] @ [CHR 0x0A]) @ port_line K ptr w (8 * p + 7)"
    by (simp add: lines_from_def)
  have n: "CHR 0x0A \<notin> set (port_line K ptr w (8 * p + 7))" "port_line K ptr w (8 * p + 7) \<noteq> []"
    using assms(3) by (intro no_newline [OF assms(1)]; linarith)+
  then have "strip_newlines (x @ port_line K ptr w (8 * p + 7) @ [CHR 0x0A]) = x @ port_line K ptr w (8 * p + 7)" for x
    by (cases "rev (port_line K ptr w (8 * p + 7))") (auto simp: strip_newlines_def dropWhile_append)
  from this [of "header_line @ lines_from K ptr w [8 * p..<8 * p + 7] @ [CHR 0x0A]"]
  have "strip_newlines (header_line @ lines_from K ptr w [8 * p..<8 * Suc p] @ [CHR 0x0A]) =
    header_line @ lines_from K ptr w [8 * p..<8 * Suc p]" by (simp only: l append_assoc)
  moreover have "status_header @ concat (map (line_of K ptr w) [8 * p..<8 * Suc p]) =
    header_line @ lines_from K ptr w [8 * p..<8 * Suc p] @ [CHR 0x0A]"
    using newline_shift [of K ptr w "[8 * p..<8 * Suc p]"] by (simp add: status_header_def header_line_def)
  ultimately show ?thesis
    using assms(2,3) status_show_lines [OF assms(1,3)] by (simp add: sysfs_shows_def)
qed

text \<open>\<open>reading\<close>: the lines of the ports from \<open>j\<close> on are still to come.\<close>

definition reading ::
  "('c, 'k) vhci_kernel_scheme \<Rightarrow> (nat option \<Rightarrow> string) \<Rightarrow> 'c vhci_world \<Rightarrow> nat \<Rightarrow> status_context \<Rightarrow> bool" where
  "reading K ptr w j ctx = (controller ctx < length (vhci_pdevs w) \<and> 8 * controller ctx \<le> j \<and>
     j \<le> 8 * Suc (controller ctx) \<and>
     (\<exists>b. CHR 0x0A \<notin> set b \<and> ctx_c ctx = Some (b @ lines_from K ptr w [j..<8 * Suc (controller ctx)])))"

lemma after_newline_append:
  "CHR 0x0A \<notin> set b \<Longrightarrow> after_newline (b @ s) = after_newline s"
  by (induction b) (auto simp: after_newline_def)

lemma after_newline_simps [simp]: "after_newline [] = None" "after_newline (CHR 0x0A # s) = Some s"
  by (simp_all add: after_newline_def)

lemma open_status_next:
  assumes "showable K ptr w" "sysfs_shows S K ptr w"
  shows "\<exists>l'. open_status S first ctx l =
    (let k = (if first then 0 else Suc (controller ctx)) in
     if k < length (vhci_pdevs w)
     then (True, \<lparr>controller = k, ctx_c = Some (header_line @ lines_from K ptr w [8 * k..<8 * Suc k])\<rparr>, l')
     else (False, \<lparr>controller = k, ctx_c = None\<rparr>, l'))"
proof -
  obtain c where c: "hc_new S (sys l) = (True, c)"
    using assms(2) unfolding sysfs_shows_def by (metis (full_types) prod.collapse)
  have n: "\<not> p < length (vhci_pdevs w) \<Longrightarrow> hc_attr S (status_name p) e = None" for p e
    using assms(2) unfolding sysfs_shows_def by simp
  show ?thesis using c attr_text [OF assms] n
    by (intro exI [of _ "l\<lparr>vhci_hc_device := True, sys := c\<rparr>"])
      (cases first; simp add: open_status_def open_hc_device_def Let_def)
qed

lemma header_no_newline: "CHR 0x0A \<notin> set header_line"
  by (simp add: header_line_def)

lemma next_line_reading:
  assumes "showable K ptr w" "sysfs_shows S K ptr w" "reading K ptr w j ctx"
  shows "if j < 8 * length (vhci_pdevs w)
    then \<exists>ctx' l' r. next_status_line S ctx l = Some (True, ctx', l') \<and> reading K ptr w (Suc j) ctx' \<and>
      ctx_c ctx' = Some (port_line K ptr w j @ r) \<and> (r = [] \<or> hd r = CHR 0x0A)
    else \<exists>ctx' l'. next_status_line S ctx l = Some (False, ctx', l')"
proof -
  let ?k = "controller ctx"
  have hd: "lines_from K ptr w ds = [] \<or> hd (lines_from K ptr w ds) = CHR 0x0A" for ds by (cases ds) simp_all
  have step: "\<exists>ctx' l' r. next_status_line S ctx l = Some (True, ctx', l') \<and> reading K ptr w (Suc j) ctx' \<and>
      ctx_c ctx' = Some (port_line K ptr w j @ r) \<and> (r = [] \<or> hd r = CHR 0x0A)"
    if rd: "reading K ptr w j ctx" and lt: "j < 8 * Suc (controller ctx)" for ctx l
  proof -
    let ?r = "lines_from K ptr w [Suc j..<8 * Suc (controller ctx)]"
    obtain b where b: "CHR 0x0A \<notin> set b" "ctx_c ctx = Some (b @ CHR 0x0A # port_line K ptr w j @ ?r)"
      using rd unfolding reading_def upt_conv_Cons [OF lt] lines_from_simps by blast
    have "next_status_line S ctx l = Some (True, ctx\<lparr>ctx_c := Some (port_line K ptr w j @ ?r)\<rparr>, l)"
      using b by (subst next_status_line.simps) (simp add: after_newline_append)
    moreover have "CHR 0x0A \<notin> set (port_line K ptr w j)"
      using rd lt by (intro no_newline [OF assms(1)]) (auto simp: reading_def)
    moreover have "reading K ptr w (Suc j) (ctx\<lparr>ctx_c := Some (port_line K ptr w j @ ?r)\<rparr>)"
      using rd lt calculation(2) by (auto simp: reading_def)
    ultimately show ?thesis using hd [of "[Suc j..<8 * Suc (controller ctx)]"]
      by (intro exI [of _ "ctx\<lparr>ctx_c := Some (port_line K ptr w j @ ?r)\<rparr>"] exI [of _ l] exI [of _ ?r]) simp
  qed
  show ?thesis
  proof (cases "j < 8 * Suc ?k")
    case True
    then have "j < 8 * length (vhci_pdevs w)" using assms(3) by (auto simp: reading_def)
    then show ?thesis using step [OF assms(3) True, of l] by simp
  next
    case False
    then have j: "j = 8 * Suc ?k" using assms(3) by (auto simp: reading_def)
    then obtain b where b: "CHR 0x0A \<notin> set b" "ctx_c ctx = Some b" using assms(3) by (auto simp: reading_def)
    have n: "next_status_line S ctx l = (case open_status S False ctx l of (ok, ctx', l') \<Rightarrow>
       if ok then next_status_line S ctx' l' else Some (False, ctx', l'))"
      using b after_newline_append [OF b(1), of "[]"] by (subst next_status_line.simps) simp
    obtain l' where o: "open_status S False ctx l =
      (if Suc ?k < length (vhci_pdevs w)
       then (True, \<lparr>controller = Suc ?k, ctx_c = Some (header_line @ lines_from K ptr w [8 * Suc ?k..<8 * Suc (Suc ?k)])\<rparr>, l')
       else (False, \<lparr>controller = Suc ?k, ctx_c = None\<rparr>, l'))"
      using open_status_next [OF assms(1,2), of False ctx l] by (auto simp: Let_def)
    show ?thesis
    proof (cases "Suc ?k < length (vhci_pdevs w)")
      case True
      let ?ctx = "\<lparr>controller = Suc ?k, ctx_c = Some (header_line @ lines_from K ptr w [8 * Suc ?k..<8 * Suc (Suc ?k)])\<rparr>"
      have "reading K ptr w j ?ctx" using True j header_no_newline by (auto simp: reading_def)
      have "next_status_line S ctx l = next_status_line S ?ctx l'" using n o True by simp
      then show ?thesis using step [OF \<open>reading K ptr w j ?ctx\<close>, of l'] True j by simp
    next
      case False
      then show ?thesis using n o j by auto
    qed
  qed
qed

section \<open>Finding a free port\<close>

lemma status_word_eq:
  "(word_of_nat (status_number a) :: u32) = 4 \<longleftrightarrow> a = VDEV_ST_NULL"
  "(word_of_nat (status_number a) :: u32) = 5 \<longleftrightarrow> a = VDEV_ST_NOTASSIGNED"
  by (cases a; simp)+

lemma parse_reading:
  assumes "showable K ptr w" "sysfs_shows S K ptr w" "reading K ptr w j ctx" "j < 8 * length (vhci_pdevs w)"
  shows "\<exists>vd ctx' l'. parse_status_line S ctx l =
      Some (shown_status w j \<in> {VDEV_ST_NULL, VDEV_ST_NOTASSIGNED, VDEV_ST_USED}, vd, ctx', l') \<and>
    reading K ptr w (Suc j) ctx' \<and>
    (shown_status w j \<in> {VDEV_ST_NULL, VDEV_ST_NOTASSIGNED, VDEV_ST_USED} \<longrightarrow>
       vv_port vd = int j \<and> vv_status vd = word_of_nat (status_number (shown_status w j)))"
proof -
  obtain ctx' l' r where n: "next_status_line S ctx l = Some (True, ctx', l')" "reading K ptr w (Suc j) ctx'"
    "ctx_c ctx' = Some (port_line K ptr w j @ r)" "r = [] \<or> hd r = CHR 0x0A"
    using next_line_reading [OF assms(1-3), of l] assms(4) by auto
  let ?used = "vhci_pdevs w ! pdev_of j \<and> status (ud (vconn_at j w)) = VDEV_ST_USED"
  let ?nm = "if ?used then dev_name K (the (vd_udev (vdev (vconn_at j w)))) (vw_env w) else ''0-0''"
  obtain speed devid sock where sc: "scan_status (port_line K ptr w j @ r) =
    Some (int j, int (status_number (shown_status w j)), speed, devid, sock, ?nm)"
    using scan_status_line [OF assms(1,4) n(4)] by blast
  have used: "shown_status w j = VDEV_ST_USED \<longleftrightarrow> ?used" by (simp add: shown_status_def)
  have "port_line K ptr w j @ r \<noteq> []" using no_newline(2) [OF assms(1,4)] by simp
  then have "\<exists>vd. parse_line S (port_line K ptr w j @ r) l' =
      Some (shown_status w j \<in> {VDEV_ST_NULL, VDEV_ST_NOTASSIGNED, VDEV_ST_USED}, vd) \<and>
    (shown_status w j \<in> {VDEV_ST_NULL, VDEV_ST_NOTASSIGNED, VDEV_ST_USED} \<longrightarrow>
       vv_port vd = int j \<and> vv_status vd = word_of_nat (status_number (shown_status w j)))"
  proof (cases "shown_status w j \<in> {VDEV_ST_NULL, VDEV_ST_NOTASSIGNED}")
    case True
    then have "shown_status w j = VDEV_ST_NULL \<or> shown_status w j = VDEV_ST_NOTASSIGNED" by simp
    then show ?thesis using sc \<open>port_line K ptr w j @ r \<noteq> []\<close> by (auto simp: parse_line_def status_word_eq Let_def)
  next
    case False
    show ?thesis
    proof (cases "shown_status w j = VDEV_ST_USED")
      case True
      then have "?used" using used by simp
      then obtain dev u where "find_usb S (sys l') (dev_name K (the (vd_udev (vdev (vconn_at j w)))) (vw_env w)) = Some dev"
        "read_usb_device dev zero_usb_device = Some u"
        using assms(2,4) unfolding sysfs_shows_def by metis
      then show ?thesis using sc False True \<open>port_line K ptr w j @ r \<noteq> []\<close> used
        by (simp add: parse_line_def status_word_eq imported_device_init_def zero_vhci_device_def Let_def)
    next
      case nu: False
      moreover have "find_usb S (sys l') ''0-0'' = None" using assms(2) by (simp add: sysfs_shows_def)
      moreover have "scan_status (port_line K ptr w j @ r) =
        Some (int j, int (status_number (shown_status w j)), speed, devid, sock, ''0-0'')"
        using sc used nu by auto
      ultimately show ?thesis using False \<open>port_line K ptr w j @ r \<noteq> []\<close>
        by (simp add: parse_line_def status_word_eq imported_device_init_def zero_vhci_device_def Let_def)
    qed
  qed
  then show ?thesis using n by (auto simp: parse_status_line_def)
qed

text \<open>The first port that is neither in use nor being set up decides.\<close>

definition free_of :: "(nat \<Rightarrow> usbip_device_status) \<Rightarrow> nat list \<Rightarrow> int" where
  "free_of st ds = (case dropWhile (\<lambda>d. st d \<in> {VDEV_ST_NOTASSIGNED, VDEV_ST_USED}) ds of
     [] \<Rightarrow> -1 | d # _ \<Rightarrow> if st d = VDEV_ST_NULL then int d else -1)"

lemma free_port_loop_reading:
  assumes "showable K ptr w" "sysfs_shows S K ptr w" "reading K ptr w j ctx"
  shows "\<exists>l'. free_port_loop S ctx l = Some (free_of (shown_status w) [j..<8 * length (vhci_pdevs w)], l')"
  using assms(3)
proof (induction "8 * length (vhci_pdevs w) - j" arbitrary: j ctx l)
  case 0
  then have "\<exists>ctx' l'. next_status_line S ctx l = Some (False, ctx', l')"
    using next_line_reading [OF assms(1,2) 0(2), of l] by simp
  then show ?case using 0(1) by (subst free_port_loop.simps) (auto simp: parse_status_line_def free_of_def)
next
  case (Suc n)
  then have j: "j < 8 * length (vhci_pdevs w)" by simp
  obtain vd ctx' l' where p: "parse_status_line S ctx l =
      Some (shown_status w j \<in> {VDEV_ST_NULL, VDEV_ST_NOTASSIGNED, VDEV_ST_USED}, vd, ctx', l')"
    "reading K ptr w (Suc j) ctx'" "shown_status w j \<in> {VDEV_ST_NULL, VDEV_ST_NOTASSIGNED, VDEV_ST_USED} \<longrightarrow>
       vv_port vd = int j \<and> vv_status vd = word_of_nat (status_number (shown_status w j))"
    using parse_reading [OF assms(1,2) Suc.prems j, of l] by blast
  have "\<exists>l''. free_port_loop S ctx' l' = Some (free_of (shown_status w) [Suc j..<8 * length (vhci_pdevs w)], l'')"
    using Suc.hyps(1) [OF _ p(2), of l'] Suc.hyps(2) by simp
  moreover have "free_of (shown_status w) [j..<8 * length (vhci_pdevs w)] =
    (if shown_status w j \<in> {VDEV_ST_NOTASSIGNED, VDEV_ST_USED}
     then free_of (shown_status w) [Suc j..<8 * length (vhci_pdevs w)]
     else if shown_status w j = VDEV_ST_NULL then int j else -1)"
    using j by (simp add: free_of_def upt_conv_Cons)
  ultimately show ?case using p status_word_eq(1) [of "shown_status w j"]
    by (subst free_port_loop.simps) auto
qed


definition demo_ports :: "u8 list vhci_world" where
  "demo_ports = (demo_vworld 0)\<lparr>vhci_pdevs := [True]\<rparr>"

definition demo_usb_device :: udev_device where
  "demo_usb_device = \<lparr>sysattr = [''speed'' \<mapsto> ''480'', ''idVendor'' \<mapsto> ''1d6b''], syspath = ''/sys/devices/usb1/1-1'',
     sysname = ''1-1'', driver = Some ''usb''\<rparr>"

definition demo_vhci_sys :: "(string \<Rightarrow> string option) vhci_sys" where
  "demo_vhci_sys = \<lparr>udev_new = (\<lambda>c. (True, c)), find_usb = (\<lambda>c n. if n = ''1-1'' then Some demo_usb_device else None),
     from_syspath = (\<lambda>c p. None), enumerate_devices = (\<lambda>c sub. []),
     open_attr = (\<lambda>p c. (0, c)), write_attr = (\<lambda>p s c. (int (length s), c)), read_file = (\<lambda>p c. c p),
     mkdir = (\<lambda>p c. (0, c)), is_dir = (\<lambda>p c. Some True), open_trunc = (\<lambda>p c. (True, c(p \<mapsto> []))),
     write_file = (\<lambda>p s c. (int (length s), c(p \<mapsto> s))), remove_file = (\<lambda>p c. c(p := None)), rmdir = (\<lambda>p c. c),
     hc_new = (\<lambda>c. (True, c)), hc_attr = (\<lambda>name c. if name = ''status''
       then map_option strip_newlines (status_show demo_vhci_kernel (\<lambda>_. ''ffff8800c5a7bb80'') name demo_ports) else None),
     hc_path = (\<lambda>c. ''/sys/devices/platform/vhci_hcd'')\<rparr>"

definition demo_vhci_lib :: "(string \<Rightarrow> string option) vhci_lib" where
  "demo_vhci_lib = \<lparr>vhci_hc_device = True, udev_context = True, vhci_nports = 8, sys = Map.empty\<rparr>"

lemma demo_ports_status:
  "d < 8 \<Longrightarrow> status (ud (vconn_at d demo_ports)) = (if d = 0 then VDEV_ST_USED else VDEV_ST_NULL)"
  by (auto simp: demo_ports_def demo_vworld_def vconn_at_def hcd_at_def pdev_of_def rhport_of_def VHCI_HC_PORTS_def
      zero_hcd_def vhci_device_init_def usbip_start_eh_def nth_Cons' demo_ud_def)

lemma demo_ports_used: "vd_udev (vdev (vconn_at 0 demo_ports)) = Some 5" "vd_speed (vdev (vconn_at 0 demo_ports)) = 3"
  by (simp_all add: demo_ports_def demo_vworld_def vconn_at_def hcd_at_def pdev_of_def rhport_of_def
      zero_hcd_def demo_vdev_def)

lemma demo_ports_simps: "vhci_pdevs demo_ports = [True]" "hcds demo_ports 0 \<noteq> None"
  by (simp_all add: demo_ports_def demo_vworld_def)

lemma demo_showable: "showable demo_vhci_kernel (\<lambda>_. ''ffff8800c5a7bb80'') demo_ports"
  using demo_ports_status demo_ports_used
  by (auto simp: showable_def demo_ports_simps is_xdigit_def radix_digit_def is_word_def is_space_def demo_vhci_kernel_def
      split: if_splits)

lemma demo_usb_device_read: "\<exists>u. read_usb_device demo_usb_device zero_usb_device = Some u"
  by (simp add: read_usb_device_def scan_u_def scan_long_def demo_usb_device_def scan_sign_def is_space_def is_digit_def
      split: prod.split)

lemma demo_sysfs: "sysfs_shows demo_vhci_sys demo_vhci_kernel (\<lambda>_. ''ffff8800c5a7bb80'') demo_ports"
proof -
  have "status_name p = ''status'' \<longleftrightarrow> p = 0" for p by (simp add: status_name_def)
  then show ?thesis using demo_ports_status demo_ports_used demo_usb_device_read
    by (auto simp: sysfs_shows_def demo_vhci_sys_def demo_ports_simps demo_vhci_kernel_def split: if_splits)
qed


section \<open>Attaching across the border of the kernel\<close>

lemma scan_unsigned_decimal:
  assumes "rest = [] \<or> \<not> is_digit (hd rest)" "list_all is_space sp"
  shows "scan_unsigned (sp @ decimal n @ rest) = Some (of_nat n, rest)"
proof -
  obtain c cs where c: "decimal n = c # cs" "is_digit c" using decimal_digits [of n] by (cases "decimal n") auto
  have "dropWhile is_space (sp @ decimal n @ rest) = c # cs @ rest"
    using assms(2) c digit_not_space [OF c(2)] by (simp add: dropWhile_append2 list_all_iff)
  moreover have "scan_digits 0 (c # cs @ rest) = (n, rest)" using scan_digits_decimal [OF assms(1), of n] c(1) by simp
  ultimately show ?thesis using c(2) by (simp add: scan_unsigned_def del: scan_digits.simps)
qed

lemma unat_word_of_int_small: "0 \<le> v \<Longrightarrow> v < 2 ^ 31 \<Longrightarrow> unat (word_of_int v :: u32) = nat v"
  by (simp add: unsigned_of_int take_bit_int_eq_self)

lemma cstr_id: "CHR 0x00 \<notin> set s \<Longrightarrow> cstr s = s"
  by (simp add: cstr_def takeWhile_eq_all_conv) metis

text \<open>C24: what the tools write to attach a device is what the kernel takes from it: the port, the socket,
  the device identifier and the speed are read back as they were written, the kernel works on the
  port the tools chose, and the numbers of bus and device can be told from the identifier.\<close>

theorem attach_request_roundtrip:
  assumes "0 \<le> port" "port < 2 ^ 31" "0 \<le> sockfd" "sockfd < 2 ^ 31"
  shows "scan_attach (cstr (attach_text port sockfd (get_devid busnum devnum) speed)) =
      Some (word_of_int port, word_of_int sockfd, get_devid busnum devnum, speed) \<and>
    vport (unat (word_of_int port div word_of_nat VHCI_HC_PORTS :: u32)) (unat (port_to_rhport (word_of_int port))) = nat port \<and>
    ucast (drop_bit 16 (get_devid busnum devnum)) = busnum \<and>
    ucast (get_devid busnum devnum AND 0xffff) = devnum"
proof -
  let ?dv = "get_devid busnum devnum"
  let ?r3 = "'' '' @ decimal (unat speed) @ []" let ?r2 = "'' '' @ decimal (unat ?dv) @ ?r3"
  let ?r1 = "'' '' @ decimal (nat sockfd) @ ?r2"
  have d: "list_all is_digit (decimal n)" for n using decimal_digits by blast
  have len: "length (decimal n) \<le> 10" if "n < 2 ^ 32" for n using that by (intro length_decimal) simp_all
  have u: "unat x < 2 ^ 32" for x :: u32 using unsigned_less [of x, where 'a = nat] by simp
  have "attach_text port sockfd ?dv speed = [] @ decimal (nat port) @ ?r1"
  proof -
    have "length (decimal (nat port) @ ?r1) \<le> 199"
      using len [of "nat port"] len [of "nat sockfd"] len [OF u [of ?dv]] len [OF u [of speed]] assms
      by (simp add: nat_less_iff)
    then show ?thesis using assms
      by (simp add: attach_text_def dec_u_def dec_int_def unat_word_of_int_small take_all del: take_append)
  qed
  moreover have "CHR 0x00 \<notin> set (decimal n)" for n using d [of n] by (auto simp: list_all_iff is_digit_def)
  ultimately have t: "cstr (attach_text port sockfd ?dv speed) = [] @ decimal (nat port) @ ?r1"
    by (subst cstr_id) auto
  have s: "\<not> is_digit (CHR '' '')" "list_all is_space '' ''" "list_all is_space []" by (simp_all add: is_digit_def is_space_def)
  have a1: "scan_unsigned ([] @ decimal (nat port) @ ?r1) = Some (of_nat (nat port), ?r1)"
    by (rule scan_unsigned_decimal) (use s in simp_all)
  have a2: "scan_unsigned ?r1 = Some (of_nat (nat sockfd), ?r2)"
    by (rule scan_unsigned_decimal) (use s in simp_all)
  have a3: "scan_unsigned ?r2 = Some (of_nat (unat ?dv), ?r3)" by (rule scan_unsigned_decimal) (use s in simp_all)
  have a4: "scan_unsigned ?r3 = Some (of_nat (unat speed), [])" by (rule scan_unsigned_decimal) (use s in simp_all)
  have m: "(0xffff :: u32) = mask 16" by (simp add: mask_eq_exp_minus_1)
  have "scan_attach (cstr (attach_text port sockfd ?dv speed)) = Some (word_of_int port, word_of_int sockfd, ?dv, speed)"
    unfolding t scan_attach_def a1 Option.bind.bind_lunit case_prod_conv a2 a3 a4 using assms by simp
  moreover have "ucast (drop_bit 16 ?dv) = busnum" "ucast (?dv AND 0xffff) = devnum"
    by (rule bit_word_eqI; auto simp: get_devid_def m bit_simps)+
  ultimately show ?thesis using assms by (simp add: unat_word_of_int_small)
qed

theorem attach_request_roundtrip_witness:
  "scan_attach (cstr (attach_text 9 5 (get_devid 1 2) 3)) = Some (9, 5, get_devid 1 2, 3)"
  using attach_request_roundtrip [of 9 5 1 2 3] by simp


section \<open>Records\<close>

text \<open>What was written to a truncated file is read from it.\<close>

definition files_keep :: "'s vhci_sys \<Rightarrow> bool" where
  "files_keep S = (\<forall>p c c1 s n c2. open_trunc S p c = (True, c1) \<longrightarrow> write_file S p s c1 = (n, c2) \<longrightarrow>
     n = int (length s) \<longrightarrow> read_file S p c2 = Some s)"

definition name_ok :: "nat \<Rightarrow> string \<Rightarrow> bool" where
  "name_ok n s = (length s < n \<and> CHR '' '' \<notin> set s \<and> CHR 0x0A \<notin> set s \<and> CHR 0x00 \<notin> set s)"

lemma record_parts_part:
  assumes "delim \<notin> set str" "case max_len of None \<Rightarrow> True | Some n \<Rightarrow> length str < n"
  shows "record_parts ((delim, max_len) # ps) (str @ delim # rest) = map_option ((#) str) (record_parts ps rest)"
proof -
  have "takeWhile (\<lambda>c. c \<noteq> delim) (str @ delim # rest) = str" using assms(1) by (auto simp: takeWhile_append)
  then show ?thesis using assms(2) by (auto simp: Let_def not_le split: option.splits)
qed

lemma record_parts_no_newline:
  "CHR 0x0A \<notin> set s \<Longrightarrow> CHR 0x0A \<in> fst ` set ps \<Longrightarrow> record_parts ps s = None"
proof (induction ps s rule: record_parts.induct)
  case (2 delim max_len ps start)
  show ?case
  proof (cases "delim = CHR 0x0A")
    case True
    then have "takeWhile (\<lambda>c. c \<noteq> delim) start = start" using "2.prems"(1) by (auto simp: takeWhile_eq_all_conv)
    then show ?thesis by simp
  next
    case False
    have "CHR 0x0A \<notin> set (drop n start)" for n using "2.prems"(1) by (meson in_set_dropD)
    then show ?thesis using "2.IH" [OF refl] "2.prems" False by (auto simp: Let_def)
  qed
qed simp

lemma fgets_set: "fgets m s = Some line \<Longrightarrow> set (cstr line) \<subseteq> set s"
proof -
  assume "fgets m s = Some line"
  then have "\<exists>k l. line = take k (take l s)" by (auto simp: fgets_def Let_def split: if_splits)
  then have "set line \<subseteq> set s" by (metis set_take_subset subset_trans)
  then show ?thesis by (auto simp: cstr_def dest: set_takeWhileD)
qed

text \<open>C35: the record of a connection is read back as it was written, if it fits the buffer of 99
  characters it is written from; a longer one is cut, and then not read at all.\<close>

theorem vhci_record_roundtrip:
  assumes "files_keep S" "usbip_vhci_create_record S host serv busid port l = (0, l')"
    "name_ok NI_MAXHOST host" "name_ok NI_MAXSERV serv" "name_ok SYSFS_BUS_ID_SIZE busid"
  shows "read_record S port (Some NI_MAXHOST) (Some NI_MAXSERV) (Some SYSFS_BUS_ID_SIZE) l' =
    (if length host + length serv + length busid \<le> 96 then Some (host, serv, busid) else None)"
proof -
  let ?x = "host @ '' '' @ serv @ '' '' @ busid" let ?t = "take 99 (?x @ [CHR 0x0A])"
  have f: "read_file S (record_path port) (sys l') = Some ?t"
    using assms(1,2) unfolding usbip_vhci_create_record_def files_keep_def
    by (auto simp: Let_def split: prod.splits if_splits simp del: take_append)
  have n: "CHR 0x0A \<notin> set ?x" "CHR 0x00 \<notin> set (?x @ [CHR 0x0A])" using assms(3-5) by (auto simp: name_ok_def)
  have z: "cstr ?t = ?t" using n(2) by (intro cstr_id) (meson in_set_takeD)
  show ?thesis
  proof (cases "length ?x \<le> 98")
    case True
    then have t: "?t = ?x @ [CHR 0x0A]" by (simp add: take_all del: take_append)
    have "takeWhile (\<lambda>c. c \<noteq> CHR 0x0A) (?x @ [CHR 0x0A]) = ?x" using n(1) by (subst takeWhile_append2) auto
    moreover have "take 1092 (?x @ [CHR 0x0A]) = ?x @ [CHR 0x0A]" using True by (simp add: take_all del: take_append)
    ultimately have g: "fgets 1093 (?x @ [CHR 0x0A]) = Some (?x @ [CHR 0x0A])"
      unfolding fgets_def by (simp add: Let_def del: take_append)
    have "record_parts [(CHR '' '', Some NI_MAXHOST), (CHR '' '', Some NI_MAXSERV), (CHR 0x0A, Some SYSFS_BUS_ID_SIZE)]
       (host @ CHR '' '' # serv @ CHR '' '' # busid @ CHR 0x0A # []) = Some [host, serv, busid]"
      using assms(3-5) by (simp add: record_parts_part name_ok_def del: record_parts.simps(2))
    then show ?thesis using True z unfolding read_record_def f t
      by (simp add: g [simplified] del: record_parts.simps(2))
  next
    case False
    then have "take (99 - length ?x) [CHR 0x0A] = []" by simp
    then have "?t = take 99 ?x" by (simp only: take_append append_assoc [symmetric] append_Nil2)
    then have "CHR 0x0A \<notin> set ?t" using n(1) by (metis in_set_takeD)
    moreover have "CHR 0x0A \<notin> set (cstr line)" if "fgets m ?t = Some line" for m line
      using fgets_set [OF that] \<open>CHR 0x0A \<notin> set ?t\<close> by blast
    ultimately show ?thesis using False unfolding read_record_def f
      by (auto simp: record_parts_no_newline bind_eq_None_conv Let_def simp del: take_append record_parts.simps(2) split: option.split)
  qed
qed

lemma demo_files: "files_keep demo_vhci_sys"
  by (simp add: files_keep_def demo_vhci_sys_def)

theorem vhci_record_roundtrip_witness:
  "\<exists>l'. usbip_vhci_create_record demo_vhci_sys ''10.0.0.1'' ''3240'' ''1-1'' 0 demo_vhci_lib = (0, l') \<and>
    read_record demo_vhci_sys 0 (Some NI_MAXHOST) (Some NI_MAXSERV) (Some SYSFS_BUS_ID_SIZE) l' =
      Some (''10.0.0.1'', ''3240'', ''1-1'')"
proof -
  have "\<exists>l'. usbip_vhci_create_record demo_vhci_sys ''10.0.0.1'' ''3240'' ''1-1'' 0 demo_vhci_lib = (0, l')"
    by (simp add: usbip_vhci_create_record_def demo_vhci_sys_def Let_def)
  then obtain l' where l: "usbip_vhci_create_record demo_vhci_sys ''10.0.0.1'' ''3240'' ''1-1'' 0 demo_vhci_lib = (0, l')"
    by blast
  show ?thesis using l vhci_record_roundtrip [OF demo_files l] by (simp add: name_ok_def)
qed

end
