(* ===== verification/Tool_Daemon.thy ===== *)
theory Tool_Daemon
  imports Tool_Host Tool_Vhci
begin

text \<open>
  The conversations of the tools: the daemon of the exporting host (\<open>usbipd_dev.c\<close>), that of the importing host
  (\<open>usbipd_app.c\<close>), the dispatch both share (\<open>usbipd.c\<close>), and the commands at the other end of the connection
  (\<open>usbip_list.c\<close>, \<open>usbip_attach.c\<close>, \<open>usbip_connect.c\<close>, \<open>usbip_disconnect.c\<close>).  Fault-free results are those of the
  functions, with the socket, which may get a user space transport, and the state.
\<close>

section \<open>Dispatching requests\<close>

type_synonym 'c handler = "'c usbip_sock \<Rightarrow> string \<Rightarrow> string \<Rightarrow> 'c \<Rightarrow> (int \<times> 'c usbip_sock \<times> 'c) option"

text \<open>The table of operations without its last entry; an operation may have no function.\<close>

definition recv_pdu ::
  "bool \<Rightarrow> ('c, 'k) ux_sys_scheme \<Rightarrow> (u16 \<times> 'c handler option) list \<Rightarrow> 'c handler" where
  "recv_pdu le U tbl sk host port c = (case usbip_net_recv_op_common le U sk OP_UNSPEC c of
     None \<Rightarrow> None
   | Some (ret, code, c1) \<Rightarrow>
       if ret < 0 then Some (-1, sk, c1)
       else (case find (\<lambda>(n, _). n = code) tbl of
         None \<Rightarrow> Some (-1, sk, c1)
       | Some (_, None) \<Rightarrow> Some (-1, sk, c1)
       | Some (_, Some proc) \<Rightarrow> proc sk host port c1))"

definition usbipd_recv_pdu ::
  "bool \<Rightarrow> ('c, 'k) ux_sys_scheme \<Rightarrow> (u16 \<times> 'c handler option) list \<Rightarrow> 'c handler" where
  "usbipd_recv_pdu le U tbl sk host port c = (case usbip_ux_setup U sk c of
     None \<Rightarrow> None
   | Some (_, sk1, c1) \<Rightarrow> (case recv_pdu le U tbl sk1 host port c1 of
       None \<Rightarrow> None
     | Some (ret, sk2, c2) \<Rightarrow> (case usbip_ux_cleanup U sk2 c2 of (sk3, c3) \<Rightarrow> Some (ret, sk3, c3))))"

section \<open>The exporting daemon\<close>

definition sizeof_busid :: nat where "sizeof_busid = 32"

definition recv_request_import ::
  "bool \<Rightarrow> ('c, 'k) ux_sys_scheme \<Rightarrow> 'c usbip_host_driver \<Rightarrow> 'c handler" where
  "recv_request_import le U H sk host port c =
     do { (rc, edevs) \<leftarrow> usbip_refresh_device_list H c;
          if rc < 0 then Some (-1, sk, c)
          else do {
            (rc1, bs, c1) \<leftarrow> usbip_net_recv U sk sizeof_busid c;
            if rc1 < 0 then do { _ \<leftarrow> usbip_free_device_list H c1; Some (-1, sk, c1) }
            else do {
              let edev = usbip_get_device H edevs (string_of_bytes bs);
              let (rc2, c2) = (case edev of None \<Rightarrow> (-1, c1) | Some e \<Rightarrow> usbip_export_device H e sk c1);
              (rc3, c3) \<leftarrow> usbip_net_send_op_common le U sk OP_REP_IMPORT (if rc2 < 0 then ST_NA else ST_OK) c2;
              if rc3 < 0 \<or> rc2 < 0 then do { _ \<leftarrow> usbip_free_device_list H c3; Some (-1, sk, c3) }
              else do {
                e \<leftarrow> edev;
                (rc4, c4) \<leftarrow> usbip_net_send U sk (usb_device_bytes le (usbip_net_pack_usb_device le True (ed_udev e))) c3;
                if rc4 < 0 then do { _ \<leftarrow> usbip_free_device_list H c4; Some (-1, sk, c4) }
                else do {
                  (rc5, sk', c5) \<leftarrow> usbip_try_transfer H edev sk c4;
                  _ \<leftarrow> usbip_free_device_list H c5;
                  Some (if rc5 < 0 then -1 else 0, sk', c5) } } } } }"

text \<open>The devices and their interfaces, until one cannot be sent.  The fault is a device with more interfaces
  than were read.\<close>

fun send_interfaces ::
  "bool \<Rightarrow> ('c, 'k) net_sys_scheme \<Rightarrow> 'c usbip_sock \<Rightarrow> nat \<Rightarrow> usbip_usb_interface list \<Rightarrow> 'c \<Rightarrow> (int \<times> 'c) option" where
  "send_interfaces le N sk 0 us c = Some (0, c)"
| "send_interfaces le N sk (Suc n) [] c = None"
| "send_interfaces le N sk (Suc n) (x # us) c =
     do { (rc, c1) \<leftarrow> usbip_net_send N sk (usb_interface_bytes (usbip_net_pack_usb_interface True x)) c;
          if rc < 0 then Some (-1, c1) else send_interfaces le N sk n us c1 }"

fun send_devices ::
  "bool \<Rightarrow> ('c, 'k) net_sys_scheme \<Rightarrow> 'c usbip_sock \<Rightarrow> usbip_exported_device list \<Rightarrow> 'c \<Rightarrow> (int \<times> 'c) option" where
  "send_devices le N sk [] c = Some (0, c)"
| "send_devices le N sk (e # es) c =
     do { (rc, c1) \<leftarrow> usbip_net_send N sk (usb_device_bytes le (usbip_net_pack_usb_device le True (ed_udev e))) c;
          if rc < 0 then Some (-1, c1)
          else do { (rc2, c2) \<leftarrow> send_interfaces le N sk (unat (bNumInterfaces (ed_udev e))) (uinf e) c1;
                    if rc2 < 0 then Some (-1, c2) else send_devices le N sk es c2 } }"

definition send_reply_devlist ::
  "bool \<Rightarrow> ('c, 'k) net_sys_scheme \<Rightarrow> 'c usbip_host_driver \<Rightarrow> 'c usbip_sock \<Rightarrow> 'c \<Rightarrow> (int \<times> 'c) option" where
  "send_reply_devlist le N H sk c =
     do { (rc, edevs) \<leftarrow> usbip_refresh_device_list H c;
          if rc < 0 then Some (-1, c)
          else do {
            (rc1, c1) \<leftarrow> usbip_net_send_op_common le N sk OP_REP_DEVLIST ST_OK c;
            if rc1 < 0 then do { _ \<leftarrow> usbip_free_device_list H c1; Some (-1, c1) }
            else do {
              (rc2, c2) \<leftarrow> usbip_net_send N sk
                 (host_bytes32 le (usbip_net_pack_uint32_t le True (word_of_nat (length edevs)))) c1;
              if rc2 < 0 then do { _ \<leftarrow> usbip_free_device_list H c2; Some (-1, c2) }
              else do {
                (rc3, c3) \<leftarrow> send_devices le N sk edevs c2;
                _ \<leftarrow> usbip_free_device_list H c3;
                Some (if rc3 < 0 then -1 else 0, c3) } } } }"

definition recv_request_devlist ::
  "bool \<Rightarrow> ('c, 'k) ux_sys_scheme \<Rightarrow> 'c usbip_host_driver \<Rightarrow> 'c handler" where
  "recv_request_devlist le U H sk host port c =
     map_option (\<lambda>(rc, c'). (if rc < 0 then -1 else 0, sk, c')) (send_reply_devlist le U H sk c)"

definition usbipd_dev_ops ::
  "bool \<Rightarrow> ('c, 'k) ux_sys_scheme \<Rightarrow> 'c usbip_host_driver \<Rightarrow> (u16 \<times> 'c handler option) list" where
  "usbipd_dev_ops le U H = [(OP_REQ_DEVLIST, Some (recv_request_devlist le U H)),
     (OP_REQ_IMPORT, Some (recv_request_import le U H)), (OP_REQ_DEVINFO, None), (OP_REQ_CRYPKEY, None)]"

section \<open>Listing the devices of another host\<close>

fun recv_interfaces ::
  "('c, 'k) net_sys_scheme \<Rightarrow> 'c usbip_sock \<Rightarrow> nat \<Rightarrow> 'c \<Rightarrow> (int \<times> usbip_usb_interface list \<times> 'c) option" where
  "recv_interfaces N sk 0 c = Some (0, [], c)"
| "recv_interfaces N sk (Suc n) c =
     do { (rc, bs, c1) \<leftarrow> usbip_net_recv N sk sizeof_usb_interface c;
          if rc < 0 then Some (-1, [], c1)
          else do { (rc2, us, c2) \<leftarrow> recv_interfaces N sk n c1;
                    Some (rc2, usbip_net_pack_usb_interface False (bytes_usb_interface bs) # us, c2) } }"

text \<open>What is printed for each device is given as the device with the interfaces received.\<close>

fun recv_devices ::
  "bool \<Rightarrow> ('c, 'k) net_sys_scheme \<Rightarrow> 'c usbip_sock \<Rightarrow> nat \<Rightarrow> 'c \<Rightarrow>
     (int \<times> (usbip_usb_device \<times> usbip_usb_interface list) list \<times> 'c) option" where
  "recv_devices le N sk 0 c = Some (0, [], c)"
| "recv_devices le N sk (Suc n) c =
     do { (rc, bs, c1) \<leftarrow> usbip_net_recv N sk sizeof_usb_device c;
          if rc < 0 then Some (-1, [], c1)
          else do {
            let udev = usbip_net_pack_usb_device le False (bytes_usb_device le bs);
            (rc2, us, c2) \<leftarrow> recv_interfaces N sk (unat (bNumInterfaces udev)) c1;
            if rc2 < 0 then Some (-1, [(udev, us)], c2)
            else do { (rc3, ds, c3) \<leftarrow> recv_devices le N sk n c2; Some (rc3, (udev, us) # ds, c3) } } }"

definition get_importable_devices ::
  "bool \<Rightarrow> ('c, 'k) net_sys_scheme \<Rightarrow> 'c usbip_sock \<Rightarrow> 'c \<Rightarrow>
     (int \<times> (usbip_usb_device \<times> usbip_usb_interface list) list \<times> 'c) option" where
  "get_importable_devices le N sk c =
     do { (rc, c1) \<leftarrow> usbip_net_send_op_common le N sk OP_REQ_DEVLIST 0 c;
          if rc < 0 then Some (-1, [], c1)
          else do {
            (rc2, _, c2) \<leftarrow> usbip_net_recv_op_common le N sk OP_REP_DEVLIST c1;
            if rc2 < 0 then Some (-1, [], c2)
            else do {
              (rc3, bs, c3) \<leftarrow> usbip_net_recv N sk 4 c2;
              if rc3 < 0 then Some (-1, [], c3)
              else recv_devices le N sk (unat (usbip_net_pack_uint32_t le False (host_word32 le bs))) c3 } } }"

section \<open>What is listed is what is exported\<close>

text \<open>A device whose arrays have their sizes and that has the interfaces it counts.\<close>

definition edev_ok :: "usbip_exported_device \<Rightarrow> bool" where
  "edev_ok e = (wf_usb_device (ed_udev e) \<and> length (uinf e) = unat (bNumInterfaces (ed_udev e)))"

definition wire_edev :: "usbip_exported_device \<Rightarrow> u8 list" where
  "wire_edev e = wire_usb_device (ed_udev e) @ concat (map usb_interface_bytes (uinf e))"

lemma send_interfaces_up:
  assumes "sock_up N sk out inp up"
  shows "up c \<Longrightarrow> \<exists>c'. send_interfaces le N sk (length us) us c = Some (0, c') \<and> up c' \<and>
    out c' = out c @ concat (map usb_interface_bytes us) \<and> inp c' = inp c"
proof (induction us arbitrary: c)
  case (Cons x us)
  obtain c1 where c1: "usbip_net_send N sk (usb_interface_bytes x) c = Some (int (length (usb_interface_bytes x)), c1)"
    "up c1" "out c1 = out c @ usb_interface_bytes x" "inp c1 = inp c"
    using net_send_all [OF assms Cons.prems, of "usb_interface_bytes x"] by blast
  with Cons.IH [OF c1(2)] show ?case by (auto simp: usbip_net_pack_usb_interface_def)
qed simp

lemma send_devices_up:
  assumes "sock_up N sk out inp up"
  shows "up c \<Longrightarrow> \<forall>e\<in>set es. edev_ok e \<Longrightarrow> \<exists>c'. send_devices le N sk es c = Some (0, c') \<and> up c' \<and>
    out c' = out c @ concat (map wire_edev es) \<and> inp c' = inp c"
proof (induction es arbitrary: c)
  case (Cons e es)
  let ?w = "wire_usb_device (ed_udev e)"
  obtain c1 where c1: "usbip_net_send N sk ?w c = Some (int (length ?w), c1)" "up c1" "out c1 = out c @ ?w" "inp c1 = inp c"
    using net_send_all [OF assms Cons.prems(1), of ?w] by blast
  obtain c2 where c2: "send_interfaces le N sk (length (uinf e)) (uinf e) c1 = Some (0, c2)" "up c2"
    "out c2 = out c1 @ concat (map usb_interface_bytes (uinf e))" "inp c2 = inp c1"
    using send_interfaces_up [OF assms c1(2)] by blast
  have "length (uinf e) = unat (bNumInterfaces (ed_udev e))" "\<forall>e\<in>set es. edev_ok e"
    using Cons.prems(2) by (simp_all add: edev_ok_def)
  with Cons.IH [OF c2(2)] c1 c2 show ?case by (auto simp: pack_usb_device_wire wire_edev_def)
qed simp

lemma recv_interfaces_up:
  assumes "sock_up N sk out inp up"
  shows "up c \<Longrightarrow> inp c = concat (map usb_interface_bytes us) @ rest \<Longrightarrow>
    \<exists>c'. recv_interfaces N sk (length us) c = Some (0, us, c') \<and> up c' \<and> inp c' = rest \<and> out c' = out c"
proof (induction us arbitrary: c)
  case (Cons x us)
  have l: "length (usb_interface_bytes x) = 4" by (simp add: usb_interface_bytes_def)
  then have "4 \<le> length (inp c)" using Cons.prems(2) by simp
  from net_recv_all [OF assms Cons.prems(1) this] obtain c1 where
    c1: "usbip_net_recv N sk 4 c = Some (4, take 4 (inp c), c1)" "up c1" "inp c1 = drop 4 (inp c)" "out c1 = out c" by auto
  have t: "take 4 (inp c) = usb_interface_bytes x" "inp c1 = concat (map usb_interface_bytes us) @ rest"
    using l Cons.prems(2) c1(3) by simp_all
  have "bytes_usb_interface (usb_interface_bytes x) = x" by (simp add: bytes_usb_interface_def usb_interface_bytes_def)
  with Cons.IH [OF c1(2) t(2)] c1 t(1) show ?case by (auto simp: usbip_net_pack_usb_interface_def)
qed simp

lemma recv_devices_up:
  assumes "sock_up N sk out inp up"
  shows "up c \<Longrightarrow> \<forall>e\<in>set es. edev_ok e \<Longrightarrow> inp c = concat (map wire_edev es) @ rest \<Longrightarrow>
    \<exists>c'. recv_devices le N sk (length es) c = Some (0, map (\<lambda>e. (ed_udev e, uinf e)) es, c') \<and> up c' \<and>
      inp c' = rest \<and> out c' = out c"
proof (induction es arbitrary: c)
  case (Cons e es)
  have ok: "wf_usb_device (ed_udev e)" "length (uinf e) = unat (bNumInterfaces (ed_udev e))" "\<forall>e\<in>set es. edev_ok e"
    using Cons.prems(2) by (simp_all add: edev_ok_def)
  have "inp c = wire_usb_device (ed_udev e) @ concat (map usb_interface_bytes (uinf e)) @ concat (map wire_edev es) @ rest"
    using Cons.prems(3) by (simp add: wire_edev_def [of e])
  from recv_usb_device_up [OF assms Cons.prems(1) this ok(1), of le False] obtain bs c1 where
    c1: "usbip_net_recv N sk 312 c = Some (312, bs, c1)" "up c1"
    "inp c1 = concat (map usb_interface_bytes (uinf e)) @ concat (map wire_edev es) @ rest" "out c1 = out c"
    "usbip_net_pack_usb_device le False (bytes_usb_device le bs) = ed_udev e" by auto
  obtain c2 where c2: "recv_interfaces N sk (length (uinf e)) c1 = Some (0, uinf e, c2)" "up c2"
    "inp c2 = concat (map wire_edev es) @ rest" "out c2 = out c1"
    using recv_interfaces_up [OF assms c1(2,3)] by blast
  from Cons.IH [OF c2(2) ok(3) c2(3)] c1 c2 ok(2) show ?case by (auto simp: Let_def)
qed simp

lemma send_reply_devlist_up:
  assumes "sock_up N sk out inp up" "up c" "\<And>c. usbip_refresh_device_list H c = Some (0, es)" "\<forall>e\<in>set es. edev_ok e"
  shows "\<exists>c'. send_reply_devlist le N H sk c = Some (0, c') \<and> up c' \<and> inp c' = inp c \<and>
    out c' = out c @ wire_op_common OP_REP_DEVLIST ST_OK @ be_bytes32 (word_of_nat (length es)) @ concat (map wire_edev es)"
proof -
  obtain c1 where c1: "usbip_net_send_op_common le N sk OP_REP_DEVLIST ST_OK c = Some (0, c1)" "up c1"
    "out c1 = out c @ wire_op_common OP_REP_DEVLIST ST_OK" "inp c1 = inp c"
    using send_op_common_up [OF assms(1,2)] by blast
  obtain c2 where c2: "usbip_net_send N sk (be_bytes32 (word_of_nat (length es))) c1 = Some (4, c2)" "up c2"
    "out c2 = out c1 @ be_bytes32 (word_of_nat (length es))" "inp c2 = inp c1"
    using net_send_all [OF assms(1) c1(2), of "be_bytes32 (word_of_nat (length es))"] by auto
  obtain c3 where c3: "send_devices le N sk es c2 = Some (0, c3)" "up c3"
    "out c3 = out c2 @ concat (map wire_edev es)" "inp c3 = inp c2"
    using send_devices_up [OF assms(1) c2(2) assms(4)] by blast
  have "usbip_free_device_list H c3 = Some (0, es)"
    using assms(3) by (simp add: usbip_free_device_list_def usbip_refresh_device_list_def)
  with c1 c2 c3 assms(3) show ?thesis by (simp add: send_reply_devlist_def)
qed

lemma get_importable_up:
  assumes "sock_up N sk out inp up" "up c" "\<forall>e\<in>set es. edev_ok e" "length es < 2 ^ 32"
    "inp c = wire_op_common OP_REP_DEVLIST ST_OK @ be_bytes32 (word_of_nat (length es)) @ concat (map wire_edev es)"
  shows "\<exists>c'. get_importable_devices le N sk c = Some (0, map (\<lambda>e. (ed_udev e, uinf e)) es, c') \<and>
    out c' = out c @ wire_op_common OP_REQ_DEVLIST 0"
proof -
  obtain c1 where c1: "usbip_net_send_op_common le N sk OP_REQ_DEVLIST 0 c = Some (0, c1)" "up c1"
    "out c1 = out c @ wire_op_common OP_REQ_DEVLIST 0" "inp c1 = inp c"
    using send_op_common_up [OF assms(1,2)] by blast
  let ?b = "be_bytes32 (word_of_nat (length es))" let ?r = "concat (map wire_edev es)"
  have "inp c1 = wire_op_common OP_REP_DEVLIST ST_OK @ ?b @ ?r" using c1 assms(5) by simp
  from recv_op_common_up [OF assms(1) c1(2) this, of le OP_REP_DEVLIST] obtain c2 where
    c2: "usbip_net_recv_op_common le N sk OP_REP_DEVLIST c1 = Some (0, OP_REP_DEVLIST, c2)" "up c2"
    "inp c2 = ?b @ ?r" "out c2 = out c1" by auto
  then have "4 \<le> length (inp c2)" by simp
  from net_recv_all [OF assms(1) c2(2) this] obtain c3 where
    c3: "usbip_net_recv N sk 4 c2 = Some (4, ?b, c3)" "up c3" "inp c3 = ?r @ []" "out c3 = out c2"
    using c2(3) by auto
  have n: "unat (usbip_net_pack_uint32_t le False (host_word32 le ?b)) = length es"
    using assms(4) by (simp add: unat_of_nat take_bit_nat_eq_self)
  from recv_devices_up [OF assms(1) c3(2) assms(3) c3(3), of le] c1 c2 c3 n show ?thesis
    by (auto simp: get_importable_devices_def)
qed

text \<open>A conversation: the exporting host answers the request of the other one, which then knows the devices.  The hosts
  may differ in their byte order, and each message may be cut into pieces on its way.\<close>

text \<open>C23: A host that asks for the list of devices sends one request, the exporting daemon answers any such request
  completely and returns 0, and a host that receives this answer gets exactly the devices, interfaces and order of
  the list the driver of the exporting host returned.\<close>

theorem devlist_end_to_end:
  assumes "sock_up U sk out inp up" and "sock_up N sk' out' inp' up'"
    and "up c" "inp c = wire_op_common OP_REQ_DEVLIST ST_OK" "sk_ux sk = None" "ux_open U c = (-1, c)"
    and "\<And>c. usbip_refresh_device_list H c = Some (0, es)" "\<forall>e\<in>set es. edev_ok e" "length es < 2 ^ 32"
  shows "\<exists>c'. usbipd_recv_pdu le U (usbipd_dev_ops le U H) sk host port c = Some (0, sk, c') \<and> inp c' = [] \<and>
    (\<exists>reply. out c' = out c @ reply \<and>
      (\<forall>d. up' d \<longrightarrow> inp' d = reply \<longrightarrow> (\<exists>d'.
         get_importable_devices le' N sk' d = Some (0, map (\<lambda>e. (ed_udev e, uinf e)) es, d') \<and>
         out' d' = out' d @ wire_op_common OP_REQ_DEVLIST ST_OK)))"
proof -
  have "inp c = wire_op_common OP_REQ_DEVLIST ST_OK @ []" using assms(4) by simp
  from recv_op_common_up [OF assms(1,3) this, of le OP_UNSPEC] obtain c1 where
    c1: "usbip_net_recv_op_common le U sk OP_UNSPEC c = Some (0, OP_REQ_DEVLIST, c1)" "up c1" "inp c1 = []" "out c1 = out c"
    by auto
  obtain c2 where c2: "send_reply_devlist le U H sk c1 = Some (0, c2)" "inp c2 = inp c1" "out c2 = out c1 @
      wire_op_common OP_REP_DEVLIST ST_OK @ be_bytes32 (word_of_nat (length es)) @ concat (map wire_edev es)"
    using send_reply_devlist_up [OF assms(1) c1(2) assms(7,8)] by blast
  have "usbipd_recv_pdu le U (usbipd_dev_ops le U H) sk host port c = Some (0, sk, c2)"
    using assms(5,6) c1 c2(1)
    by (simp add: usbipd_recv_pdu_def usbip_ux_setup_def usbip_ux_cleanup_def recv_pdu_def usbipd_dev_ops_def
      recv_request_devlist_def)
  with c1 c2 get_importable_up [OF assms(2) _ assms(8,9)] show ?thesis by auto
qed

text \<open>A socket over two lists of bytes, from which at most 100 bytes are received at once.\<close>

definition pipe_sock :: "(u8 list \<times> u8 list) usbip_sock" where
  "pipe_sock = usbip_sock_init 3 (Some (\<lambda>bs (i, os). (int (length bs), i, os @ bs)))
     (Some (\<lambda>n _ (i, os). let k = min n (min 100 (length i)) in (int k, take k i, drop k i, os))) None"

lemma pipe_sock_up: "sock_up N pipe_sock (\<lambda>(i, os). os) (\<lambda>(i, os). i) (\<lambda>_. True)"
  by (auto simp: sock_up_def sock_send_def sock_recv_def pipe_sock_def usbip_sock_init_def Let_def)

definition demo_edev :: usbip_exported_device where
  "demo_edev = \<lparr>sudev = \<lparr>sysattr = (\<lambda>_. None), syspath = ''/sys/1-1'', sysname = ''1-1'', driver = Some USBIP_HOST_DRV_NAME\<rparr>,
     ed_status = 1,
     ed_udev = zero_usb_device\<lparr>ub_busid := ''1-1'' @ replicate 29 (CHR 0x00), ub_busnum := 1, ub_devnum := 2, ub_speed := 3,
       idVendor := 0x1234, bNumInterfaces := 1\<rparr>,
     uinf = [\<lparr>bInterfaceClass = 3, bInterfaceSubClass = 1, bInterfaceProtocol = 2, bInterfaceNumber = 0\<rparr>]\<rparr>"

lemma demo_edev_ok: "edev_ok demo_edev"
  by (simp add: edev_ok_def demo_edev_def wf_usb_device_def zero_usb_device_def)

definition demo_driver :: "(u8 list \<times> u8 list) usbip_host_driver" where
  "demo_driver = \<lparr>hd_open = None, hd_close = None, hd_refresh_device_list = Some (\<lambda>_. Some (0, [demo_edev])), hd_get_device = None,
     hd_list_devices = None, hd_bind_device = None, hd_unbind_device = None, hd_export_device = None,
     hd_try_transfer = None, hd_has_transferred = None\<rparr>"

definition demo_ux :: "'c ux_sys" where
  "demo_ux = \<lparr>net_send = (\<lambda>_ _ c. (-1, c)), net_recv = (\<lambda>_ _ _ c. (-1, [], c)), ux_open = (\<lambda>c. (-1, c)),
     ux_malloc = Pair False, ioctl_set_sockfd = (\<lambda>_ _ c. (-1, c)), ioctl_get_kaddr = (\<lambda>_ c. (-1, c)),
     ioctl_intr = (\<lambda>_ c. c), ioctl_intr_pgrp = (\<lambda>_ c. c), ux_read = (\<lambda>_ _ c. (-1, [], c)),
     ux_write = (\<lambda>_ _ c. (-1, c)), ux_close = (\<lambda>_ c. c), ux_stat = (\<lambda>_. False), net_shutdown = (\<lambda>_ c. c),
     pthread_create = Pair False, join_threads = (\<lambda>_ c. c)\<rparr>"

theorem devlist_end_to_end_witness:
  "\<exists>reply. usbipd_recv_pdu True demo_ux (usbipd_dev_ops True demo_ux demo_driver) pipe_sock ''h'' ''3240''
       (wire_op_common OP_REQ_DEVLIST ST_OK, []) = Some (0, pipe_sock, [], reply) \<and>
     (\<exists>d'. get_importable_devices False demo_ux pipe_sock (reply, []) =
        Some (0, [(ed_udev demo_edev, uinf demo_edev)], d'))"
proof -
  have "sk_ux pipe_sock = None" "ux_open demo_ux c = (-1, c)" "usbip_refresh_device_list demo_driver c = Some (0, [demo_edev])" for c
    by (simp_all add: pipe_sock_def usbip_sock_init_def demo_ux_def demo_driver_def usbip_refresh_device_list_def)
  from devlist_end_to_end [where N = demo_ux and c = "(wire_op_common OP_REQ_DEVLIST ST_OK, [])" and le = True and le' = False and
      host = "''h''" and port = "''3240''", OF pipe_sock_up pipe_sock_up _ _ this] demo_edev_ok
  show ?thesis by fastforce
qed

end
