(* ===== verification/Tool_App.thy ===== *)
theory Tool_App
  imports Tool_Daemon
begin

text \<open>
  Attaching a device to the other host from either side: \<open>usbip attach\<close> asks an exporting daemon
  (\<open>usbip_attach.c\<close>), \<open>usbip connect\<close> and \<open>usbip disconnect\<close> ask the importing daemon of \<open>usbipd_app.c\<close>
  (\<open>usbip_connect.c\<close>, \<open>usbip_disconnect.c\<close>).  The last section has what the two sides make of a conversation.
\<close>

section \<open>Connections\<close>

text \<open>The functions installed by \<open>usbip_conn_init\<close>, and the port number of the tools.\<close>

record 'c conn_sys = "'c ux_sys" +
  conn_open :: "string \<Rightarrow> string \<Rightarrow> 'c \<Rightarrow> 'c usbip_sock option \<times> 'c"
  conn_close :: "'c usbip_sock \<Rightarrow> 'c \<Rightarrow> 'c"
  usbip_port_string :: string

section \<open>Importing\<close>

text \<open>A port that was taken by somebody else meanwhile makes the kernel answer \<open>EBUSY\<close>; then another one is tried.\<close>

datatype import_result = No_free_port | Not_attached | Attached int

partial_function (option) attach_loop ::
  "'c vhci_sys \<Rightarrow> int \<Rightarrow> usbip_usb_device \<Rightarrow> 'c vhci_lib \<Rightarrow> (import_result \<times> 'c vhci_lib) option" where
  "attach_loop K fd udev l = (case usbip_vhci_get_free_port K l of
     None \<Rightarrow> None
   | Some (port, l1) \<Rightarrow>
       if port < 0 then Some (No_free_port, l1)
       else (case usbip_vhci_attach_device K port fd (ucast (ub_busnum udev)) (ucast (ub_devnum udev)) (ub_speed udev) l1 of
         (rc, l2) \<Rightarrow>
           if rc < 0 \<and> rc \<noteq> - EBUSY then Some (Not_attached, l2)
           else if rc < 0 then attach_loop K fd udev l2
           else Some (Attached port, l2)))"

definition import_device ::
  "'c vhci_sys \<Rightarrow> int \<Rightarrow> usbip_usb_device \<Rightarrow> string \<Rightarrow> string \<Rightarrow> string \<Rightarrow> 'c vhci_lib \<Rightarrow> (int \<times> 'c vhci_lib) option" where
  "import_device K fd udev host port busid l =
     (case usbip_vhci_driver_open K l of (rc, l1) \<Rightarrow>
        if rc < 0 then Some (-1, l1)
        else do {
          (r, l2) \<leftarrow> attach_loop K fd udev l1;
          (case r of
             Attached port_nr \<Rightarrow>
               (let (rc2, l3) = usbip_vhci_create_record K host port busid port_nr l2 in
                if rc2 < 0 then Some (-1, usbip_vhci_driver_close (snd (usbip_vhci_detach_device K port_nr l3)))
                else Some (0, usbip_vhci_driver_close l3))
           | _ \<Rightarrow> Some (-1, usbip_vhci_driver_close l2)) })"

definition import_request_bytes :: "string \<Rightarrow> u8 list" where
  "import_request_bytes busid = bytes_of_string (strncpy (SYSFS_BUS_ID_SIZE - 1) busid @ [CHR 0x00])"

definition query_import_device ::
  "bool \<Rightarrow> ('c vhci_lib, 'k) net_sys_scheme \<Rightarrow> 'c vhci_sys \<Rightarrow> 'c vhci_lib usbip_sock \<Rightarrow> string \<Rightarrow> string \<Rightarrow> string \<Rightarrow>
     'c vhci_lib \<Rightarrow> (int \<times> 'c vhci_lib) option" where
  "query_import_device le N K sk host port busid l =
     do { (rc, l1) \<leftarrow> usbip_net_send_op_common le N sk OP_REQ_IMPORT 0 l;
          if rc < 0 then Some (-1, l1)
          else do {
            (rc2, l2) \<leftarrow> usbip_net_send N sk (import_request_bytes busid) l1;
            if rc2 < 0 then Some (-1, l2)
            else do {
              (rc3, _, l3) \<leftarrow> usbip_net_recv_op_common le N sk OP_REP_IMPORT l2;
              if rc3 < 0 then Some (-1, l3)
              else do {
                (rc4, bs, l4) \<leftarrow> usbip_net_recv N sk sizeof_usb_device l3;
                if rc4 < 0 then Some (-1, l4)
                else let udev = usbip_net_pack_usb_device le False (bytes_usb_device le bs) in
                  if \<not> strn_eq (cstr (ub_busid udev)) busid SYSFS_BUS_ID_SIZE then Some (-1, l4)
                  else import_device K (sk_fd sk) udev host port busid l4 } } } }"

definition usbip_attach_device ::
  "bool \<Rightarrow> ('c vhci_lib, 'k) conn_sys_scheme \<Rightarrow> 'c vhci_sys \<Rightarrow> string \<Rightarrow> string \<Rightarrow> string \<Rightarrow> 'c vhci_lib \<Rightarrow>
     (int \<times> 'c vhci_lib) option" where
  "usbip_attach_device le C K host port busid l = (case conn_open C host (usbip_port_string C) l of
     (None, l1) \<Rightarrow> Some (-1, l1)
   | (Some sk, l1) \<Rightarrow>
       do { (rc, l2) \<leftarrow> query_import_device le C K sk host port busid l1;
            if rc < 0 then Some (-1, conn_close C sk l2)
            else do { (rc2, sk', l3) \<leftarrow> usbip_ux_try_transfer C sk l2;
                      Some (if rc2 < 0 then -1 else 0, conn_close C sk' l3) } })"

section \<open>The importing daemon\<close>

definition app_driver_open :: "'c vhci_sys \<Rightarrow> 'c vhci_lib \<Rightarrow> int \<times> 'c vhci_lib" where
  "app_driver_open K l = (let (rc, l1) = usbip_vhci_driver_open K l in (if rc \<noteq> 0 then -1 else 0, l1))"

text \<open>The result and the status for the reply.  The fault is the bus id of the peer copied to the record although it
  does not end within its array.\<close>

definition app_import_device ::
  "'c vhci_sys \<Rightarrow> int \<Rightarrow> usbip_usb_device \<Rightarrow> string \<Rightarrow> string \<Rightarrow> string \<Rightarrow> 'c vhci_lib \<Rightarrow> (int \<times> u32 \<times> 'c vhci_lib) option" where
  "app_import_device K fd udev host port busid l =
     do { (r, l1) \<leftarrow> attach_loop K fd udev l;
          (case r of
             No_free_port \<Rightarrow> Some (-1, ST_NO_FREE_PORT, l1)
           | Not_attached \<Rightarrow> Some (-1, ST_NA, l1)
           | Attached port_nr \<Rightarrow>
               if CHR 0x00 \<notin> set busid then None
               else (let (rc2, l2) = usbip_vhci_create_record K host port (cstr busid) port_nr l1 in
                 if rc2 < 0 then Some (-1, ST_NA, snd (usbip_vhci_detach_device K port_nr l2))
                 else Some (0, ST_OK, l2))) }"

definition recv_request_export ::
  "bool \<Rightarrow> ('c vhci_lib, 'k) ux_sys_scheme \<Rightarrow> 'c vhci_sys \<Rightarrow> 'c vhci_lib handler" where
  "recv_request_export le U K sk host port l =
     do { (rc, bs, l1) \<leftarrow> usbip_net_recv U sk sizeof_usb_device l;
          if rc < 0 then Some (-1, sk, l1)
          else do {
            let udev = usbip_net_pack_usb_device le False (bytes_usb_device le bs);
            (_, status, l2) \<leftarrow> app_import_device K (sk_fd sk) udev host port (ub_busid udev) l1;
            (rc3, l3) \<leftarrow> usbip_net_send_op_common le U sk OP_REP_EXPORT status l2;
            if rc3 < 0 then Some (-1, sk, l3)
            else do { (rc4, sk', l4) \<leftarrow> usbip_ux_try_transfer U sk l3; Some (if rc4 < 0 then -1 else 0, sk', l4) } } }"

definition unimport_device ::
  "'c vhci_sys \<Rightarrow> string \<Rightarrow> usbip_usb_device \<Rightarrow> 'c vhci_lib \<Rightarrow> (int \<times> u32 \<times> 'c vhci_lib) option" where
  "unimport_device K host udev l =
     do { (port_nr, l1) \<leftarrow> usbip_vhci_find_device K host (cstr (ub_busid udev)) l;
          if port_nr < 0 then Some (-1, ST_DEVICE_NOT_FOUND, l1)
          else let (rc, l2) = usbip_vhci_detach_device K port_nr l1 in
            if rc < 0 then Some (-1, ST_NA, l2) else Some (0, ST_OK, usbip_vhci_delete_record K port_nr l2) }"

definition recv_request_unexport ::
  "bool \<Rightarrow> ('c vhci_lib, 'k) ux_sys_scheme \<Rightarrow> 'c vhci_sys \<Rightarrow> 'c vhci_lib handler" where
  "recv_request_unexport le U K sk host port l =
     do { (rc, bs, l1) \<leftarrow> usbip_net_recv U sk sizeof_usb_device l;
          if rc < 0 then Some (-1, sk, l1)
          else do {
            (_, status, l2) \<leftarrow> unimport_device K host (usbip_net_pack_usb_device le False (bytes_usb_device le bs)) l1;
            (rc3, l3) \<leftarrow> usbip_net_send_op_common le U sk OP_REP_UNEXPORT status l2;
            Some (if rc3 < 0 then -1 else 0, sk, l3) } }"

definition usbipd_app_ops ::
  "bool \<Rightarrow> ('c vhci_lib, 'k) ux_sys_scheme \<Rightarrow> 'c vhci_sys \<Rightarrow> (u16 \<times> 'c vhci_lib handler option) list" where
  "usbipd_app_ops le U K = [(OP_REQ_EXPORT, Some (recv_request_export le U K)),
     (OP_REQ_UNEXPORT, Some (recv_request_unexport le U K))]"

section \<open>Asking the importing daemon\<close>

definition send_export_device ::
  "bool \<Rightarrow> ('c, 'k) net_sys_scheme \<Rightarrow> 'c usbip_sock \<Rightarrow> usbip_usb_device \<Rightarrow> 'c \<Rightarrow> (int \<times> 'c) option" where
  "send_export_device le N sk udev c =
     do { (rc, c1) \<leftarrow> usbip_net_send_op_common le N sk OP_REQ_EXPORT 0 c;
          if rc < 0 then Some (-1, c1)
          else do {
            (rc2, c2) \<leftarrow> usbip_net_send N sk (usb_device_bytes le (usbip_net_pack_usb_device le False udev)) c1;
            if rc2 < 0 then Some (-1, c2)
            else map_option (\<lambda>(rc3, _, c3). (if rc3 < 0 then -1 else 0, c3))
              (usbip_net_recv_op_common le N sk OP_REP_EXPORT c2) } }"

definition export_device ::
  "bool \<Rightarrow> ('c, 'k) net_sys_scheme \<Rightarrow> 'c usbip_host_driver \<Rightarrow> string \<Rightarrow> 'c usbip_sock \<Rightarrow> 'c \<Rightarrow> (int \<times> 'c usbip_sock \<times> 'c) option" where
  "export_device le N H busid sk c =
     (case usbip_driver_open H c of (rc, c0) \<Rightarrow>
        if rc \<noteq> 0 then Some (-1, sk, c0)
        else do {
          (rc1, edevs) \<leftarrow> usbip_refresh_device_list H c0;
          if rc1 < 0 then Some (-1, sk, usbip_driver_close H c0)
          else (case usbip_get_device H edevs busid of
             None \<Rightarrow> do { _ \<leftarrow> usbip_free_device_list H c0; Some (-1, sk, usbip_driver_close H c0) }
           | Some edev \<Rightarrow> do {
               (rc2, c2) \<leftarrow> send_export_device le N sk (ed_udev edev) c0;
               if rc2 < 0 then do { _ \<leftarrow> usbip_free_device_list H c2; Some (-1, sk, usbip_driver_close H c2) }
               else (case usbip_export_device H edev sk c2 of (rc3, c3) \<Rightarrow>
                 if rc3 < 0 then do { _ \<leftarrow> usbip_free_device_list H c3; Some (-1, sk, usbip_driver_close H c3) }
                 else do {
                   (rc4, sk', c4) \<leftarrow> usbip_try_transfer H (Some edev) sk c3;
                   _ \<leftarrow> usbip_free_device_list H c4;
                   Some (if rc4 < 0 then -1 else 0, sk', usbip_driver_close H c4) }) }) })"

definition usbip_connect_device ::
  "bool \<Rightarrow> ('c, 'k) conn_sys_scheme \<Rightarrow> 'c usbip_host_driver \<Rightarrow> string \<Rightarrow> string \<Rightarrow> string \<Rightarrow> 'c \<Rightarrow> (int \<times> 'c) option" where
  "usbip_connect_device le C H host port busid c =
     (case usbip_bind_device H busid c of (rc, c1) \<Rightarrow>
        if rc \<noteq> 0 then Some (-1, c1)
        else (case conn_open C host port c1 of
          (None, c2) \<Rightarrow> Some (-1, snd (usbip_unbind_device H busid c2))
        | (Some sk, c2) \<Rightarrow> do {
            (rc3, sk', c3) \<leftarrow> export_device le C H busid sk c2;
            if rc3 < 0 then Some (-1, snd (usbip_unbind_device H busid (conn_close C sk' c3)))
            else Some (0, conn_close C sk'
              (if usbip_has_transferred H c3 then snd (usbip_unbind_device H busid c3) else c3)) }))"

definition send_unexport_device ::
  "bool \<Rightarrow> ('c, 'k) net_sys_scheme \<Rightarrow> 'c usbip_sock \<Rightarrow> usbip_usb_device \<Rightarrow> 'c \<Rightarrow> (int \<times> 'c) option" where
  "send_unexport_device le N sk udev c =
     do { (rc, c1) \<leftarrow> usbip_net_send_op_common le N sk OP_REQ_UNEXPORT 0 c;
          if rc < 0 then Some (-1, c1)
          else do {
            (rc2, c2) \<leftarrow> usbip_net_send N sk (usb_device_bytes le (usbip_net_pack_usb_device le False udev)) c1;
            if rc2 < 0 then Some (-1, c2)
            else map_option (\<lambda>(rc3, _, c3). (if rc3 < 0 then -1 else 0, c3))
              (usbip_net_recv_op_common le N sk OP_REP_UNEXPORT c2) } }"

definition unexport_device ::
  "bool \<Rightarrow> ('c, 'k) net_sys_scheme \<Rightarrow> 'c usbip_host_driver \<Rightarrow> string \<Rightarrow> 'c usbip_sock \<Rightarrow> 'c \<Rightarrow> (int \<times> 'c) option" where
  "unexport_device le N H busid sk c =
     (case usbip_driver_open H c of (rc, c0) \<Rightarrow>
        if rc < 0 then Some (-1, c0)
        else do {
          (rc1, edevs) \<leftarrow> usbip_refresh_device_list H c0;
          if rc1 < 0 then Some (-1, usbip_driver_close H c0)
          else (case usbip_get_device H edevs busid of
             None \<Rightarrow> do { _ \<leftarrow> usbip_free_device_list H c0; Some (-1, usbip_driver_close H c0) }
           | Some edev \<Rightarrow> do {
               (rc2, c2) \<leftarrow> send_unexport_device le N sk (ed_udev edev) c0;
               _ \<leftarrow> usbip_free_device_list H c2;
               Some (if rc2 < 0 then -1 else 0, usbip_driver_close H c2) }) })"

definition usbip_disconnect_device ::
  "bool \<Rightarrow> ('c, 'k) conn_sys_scheme \<Rightarrow> 'c usbip_host_driver \<Rightarrow> string \<Rightarrow> string \<Rightarrow> string \<Rightarrow> 'c \<Rightarrow> (int \<times> 'c) option" where
  "usbip_disconnect_device le C H host port busid c = (case conn_open C host port c of
     (None, c1) \<Rightarrow> Some (-1, c1)
   | (Some sk, c1) \<Rightarrow> do {
       (rc, c2) \<leftarrow> unexport_device le C H busid sk c1;
       let c3 = conn_close C sk c2;
       if rc < 0 then Some (-1, c3)
       else if \<not> usbip_has_transferred H c3
       then (let (rc2, c4) = usbip_unbind_device H busid c3 in Some (if rc2 \<noteq> 0 then -1 else 0, c4))
       else Some (0, c3) })"

section \<open>Both sides of a conversation\<close>

lemma sock_recv_exact:
  assumes "sock_up N sk out inp up" "up c" "inp c = bs @ rest"
  shows "\<exists>c'. usbip_net_recv N sk (length bs) c = Some (int (length bs), bs, c') \<and> up c' \<and> inp c' = rest \<and> out c' = out c"
  using net_recv_all [OF assms(1,2), of "length bs"] assms(3) by auto

lemma length_import_request [simp]: "length (import_request_bytes busid) = 32"
  by (simp add: import_request_bytes_def)

lemma cstr_import_request:
  assumes "length busid < 32" "CHR 0x00 \<notin> set busid"
  shows "cstr (string_of_bytes (import_request_bytes busid)) = busid"
  using assms by (simp add: import_request_bytes_def strncpy_def cstr_def takeWhile_append)

lemma generic_get_busid:
  assumes "length busid < 32" "CHR 0x00 \<notin> set busid"
  shows "usbip_generic_get_device es (string_of_bytes (import_request_bytes busid)) = usbip_generic_get_device es busid"
  using cstr_import_request [OF assms] cstr_id [OF assms(2)] by (simp add: usbip_generic_get_device_def)

lemma query_import_up:
  assumes "sock_up N sk out inp up" "up l"
  shows "inp l = wire_op_common OP_REP_IMPORT st \<Longrightarrow> st \<noteq> ST_OK \<Longrightarrow>
      \<exists>l'. query_import_device le N K sk host port busid l = Some (-1, l') \<and> up l' \<and>
        out l' = out l @ wire_op_common OP_REQ_IMPORT ST_OK @ import_request_bytes busid"
    and "inp l = wire_op_common OP_REP_IMPORT ST_OK @ wire_usb_device d \<Longrightarrow> wf_usb_device d \<Longrightarrow>
      strn_eq (cstr (ub_busid d)) busid SYSFS_BUS_ID_SIZE \<Longrightarrow>
      \<exists>l'. query_import_device le N K sk host port busid l = import_device K (sk_fd sk) d host port busid l' \<and> up l' \<and>
        out l' = out l @ wire_op_common OP_REQ_IMPORT ST_OK @ import_request_bytes busid"
proof -
  obtain l1 where l1: "usbip_net_send_op_common le N sk OP_REQ_IMPORT ST_OK l = Some (0, l1)" "up l1"
    "out l1 = out l @ wire_op_common OP_REQ_IMPORT ST_OK" "inp l1 = inp l"
    using send_op_common_up [OF assms] by blast
  obtain l2 where l2: "usbip_net_send N sk (import_request_bytes busid) l1 = Some (32, l2)" "up l2"
    "out l2 = out l1 @ import_request_bytes busid" "inp l2 = inp l1"
    using net_send_all [OF assms(1) l1(2), of "import_request_bytes busid"] by auto
  {
    assume "inp l = wire_op_common OP_REP_IMPORT st" "st \<noteq> ST_OK"
    with recv_op_common_up [OF assms(1) l2(2), of OP_REP_IMPORT st "[]" le OP_REP_IMPORT] l1 l2
    show "\<exists>l'. query_import_device le N K sk host port busid l = Some (-1, l') \<and> up l' \<and>
        out l' = out l @ wire_op_common OP_REQ_IMPORT ST_OK @ import_request_bytes busid"
      by (auto simp: query_import_device_def)
  next
    assume "inp l = wire_op_common OP_REP_IMPORT ST_OK @ wire_usb_device d" and wf: "wf_usb_device d"
      and b: "strn_eq (cstr (ub_busid d)) busid SYSFS_BUS_ID_SIZE"
    then have "inp l2 = wire_op_common OP_REP_IMPORT ST_OK @ wire_usb_device d" using l1 l2 by simp
    from recv_op_common_up [OF assms(1) l2(2) this, of le OP_REP_IMPORT] obtain l3 where
      l3: "usbip_net_recv_op_common le N sk OP_REP_IMPORT l2 = Some (0, OP_REP_IMPORT, l3)" "up l3"
        "inp l3 = wire_usb_device d @ []" "out l3 = out l2" by auto
    from recv_usb_device_up [OF assms(1) l3(2,3) wf, of le False] obtain bs l4 where
      l4: "usbip_net_recv N sk 312 l3 = Some (312, bs, l4)" "up l4" "out l4 = out l3"
        "usbip_net_pack_usb_device le False (bytes_usb_device le bs) = d" by auto
    show "\<exists>l'. query_import_device le N K sk host port busid l = import_device K (sk_fd sk) d host port busid l' \<and> up l' \<and>
        out l' = out l @ wire_op_common OP_REQ_IMPORT ST_OK @ import_request_bytes busid"
      using l1 l2 l3 l4 b by (intro exI [of _ l4]) (simp add: query_import_device_def)
  }
qed

text \<open>What the daemon answers: the device if it could be exported.\<close>

definition import_reply :: "usbip_exported_device option \<Rightarrow> bool \<Rightarrow> u8 list" where
  "import_reply edev ok = (case edev of
     Some e \<Rightarrow> if ok then wire_op_common OP_REP_IMPORT ST_OK @ wire_usb_device (ed_udev e)
       else wire_op_common OP_REP_IMPORT ST_NA
   | None \<Rightarrow> wire_op_common OP_REP_IMPORT ST_NA)"

lemma recv_request_import_up:
  assumes "sock_up U sk out inp up" "up c" "inp c = import_request_bytes busid" "length busid < 32" "CHR 0x00 \<notin> set busid"
    and "\<And>c. usbip_refresh_device_list H c = Some (0, es)" "hd_get_device H = Some usbip_generic_get_device"
    and "\<And>e c. usbip_generic_get_device es busid = Some e \<Longrightarrow> up c \<Longrightarrow>
      wf_usb_device (ed_udev e) \<and> (\<exists>c'. usbip_export_device H e sk c = (rc, c') \<and> up c' \<and> inp c' = inp c \<and> out c' = out c)"
    and "\<And>e c. up c \<Longrightarrow> usbip_try_transfer H (Some e) sk c = Some (0, sk, c)"
  shows "\<exists>c'. recv_request_import le U H sk host port c =
      Some (if usbip_generic_get_device es busid = None \<or> rc < 0 then -1 else 0, sk, c') \<and> up c' \<and> inp c' = [] \<and>
    out c' = out c @ import_reply (usbip_generic_get_device es busid) (0 \<le> rc)"
proof -
  have fr: "usbip_free_device_list H c = Some (0, es)" for c
    using assms(6) by (simp add: usbip_free_device_list_def usbip_refresh_device_list_def)
  have gt: "usbip_get_device H es (string_of_bytes (import_request_bytes busid)) = usbip_generic_get_device es busid"
    using assms(7) generic_get_busid [OF assms(4,5)] by (simp add: usbip_get_device_def)
  obtain c1 where c1: "usbip_net_recv U sk 32 c = Some (32, import_request_bytes busid, c1)" "up c1" "inp c1 = []" "out c1 = out c"
    using sock_recv_exact [OF assms(1,2), of "import_request_bytes busid" "[]"] assms(3) by auto
  note [simp] = recv_request_import_def sizeof_busid_def assms(6) fr gt import_reply_def
  show ?thesis
  proof (cases "usbip_generic_get_device es busid")
    case None
    with send_op_common_up [OF assms(1) c1(2), of le OP_REP_IMPORT ST_NA] c1 show ?thesis by auto
  next
    case (Some e)
    from assms(8) [OF this c1(2)] obtain c2 where wf: "wf_usb_device (ed_udev e)" and
      c2: "usbip_export_device H e sk c1 = (rc, c2)" "up c2" "inp c2 = inp c1" "out c2 = out c1" by blast
    show ?thesis
    proof (cases "rc < 0")
      case True
      with send_op_common_up [OF assms(1) c2(2), of le OP_REP_IMPORT ST_NA] Some c1 c2 show ?thesis by auto
    next
      case False
      obtain c3 where c3: "usbip_net_send_op_common le U sk OP_REP_IMPORT ST_OK c2 = Some (0, c3)" "up c3"
        "out c3 = out c2 @ wire_op_common OP_REP_IMPORT ST_OK" "inp c3 = inp c2"
        using send_op_common_up [OF assms(1) c2(2)] by blast
      let ?w = "wire_usb_device (ed_udev e)"
      obtain c4 where c4: "usbip_net_send U sk ?w c3 = Some (int (length ?w), c4)" "up c4" "out c4 = out c3 @ ?w" "inp c4 = inp c3"
        using net_send_all [OF assms(1) c3(2), of ?w] by blast
      from Some False c1 c2 c3 c4 assms(9) [OF c4(2), of e] show ?thesis by (auto simp: pack_usb_device_wire)
    qed
  qed
qed

text \<open>C8: A device is imported over a connection as it is exported.  \<open>usbip attach\<close> asks for a bus id, the daemon of the
  exporting host looks for it in its list, tries to export it and answers; it returns an error exactly if that
  failed, and then the other host attaches nothing; otherwise the other host attaches exactly that device.\<close>

theorem import_end_to_end:
  assumes "sock_up U sk out inp up" "sock_up N sk' out' inp' up'"
    and "up c" "inp c = wire_op_common OP_REQ_IMPORT ST_OK @ import_request_bytes busid"
    and "sk_ux sk = None" "ux_open U c = (-1, c)"
    and "length busid < 32" "CHR 0x00 \<notin> set busid"
    and "\<And>c. usbip_refresh_device_list H c = Some (0, es)" "hd_get_device H = Some usbip_generic_get_device"
    and "\<And>e c. usbip_generic_get_device es busid = Some e \<Longrightarrow> up c \<Longrightarrow>
      wf_usb_device (ed_udev e) \<and> (\<exists>c'. usbip_export_device H e sk c = (rc, c') \<and> up c' \<and> inp c' = inp c \<and> out c' = out c)"
    and "\<And>e c. up c \<Longrightarrow> usbip_try_transfer H (Some e) sk c = Some (0, sk, c)"
  shows "\<exists>c' reply. usbipd_recv_pdu le U (usbipd_dev_ops le U H) sk host port c =
        Some (if usbip_generic_get_device es busid = None \<or> rc < 0 then -1 else 0, sk, c') \<and>
      inp c' = [] \<and> out c' = out c @ reply \<and>
      (\<forall>d. up' d \<longrightarrow> inp' d = reply \<longrightarrow> (\<exists>d'. up' d' \<and>
        out' d' = out' d @ wire_op_common OP_REQ_IMPORT ST_OK @ import_request_bytes busid \<and>
        query_import_device le' N K sk' rhost rport busid d = (case usbip_generic_get_device es busid of
            None \<Rightarrow> Some (-1, d')
          | Some e \<Rightarrow> if rc < 0 then Some (-1, d') else import_device K (sk_fd sk') (ed_udev e) rhost rport busid d')))"
proof -
  let ?e = "usbip_generic_get_device es busid"
  from recv_op_common_up [OF assms(1,3,4), of le OP_UNSPEC] obtain c1 where
    c1: "usbip_net_recv_op_common le U sk OP_UNSPEC c = Some (0, OP_REQ_IMPORT, c1)" "up c1"
      "inp c1 = import_request_bytes busid" "out c1 = out c" by auto
  obtain c2 where c2: "recv_request_import le U H sk host port c1 = Some (if ?e = None \<or> rc < 0 then -1 else 0, sk, c2)"
    "inp c2 = []" "out c2 = out c1 @ import_reply ?e (0 \<le> rc)"
    using recv_request_import_up [OF assms(1) c1(2,3) assms(7-12)] by blast
  have s: "usbipd_recv_pdu le U (usbipd_dev_ops le U H) sk host port c = Some (if ?e = None \<or> rc < 0 then -1 else 0, sk, c2)"
    using assms(5,6) c1 c2(1)
    by (simp add: usbipd_recv_pdu_def usbip_ux_setup_def usbip_ux_cleanup_def recv_pdu_def usbipd_dev_ops_def)
  have q: "\<exists>d'. up' d' \<and> out' d' = out' d @ wire_op_common OP_REQ_IMPORT ST_OK @ import_request_bytes busid \<and>
      query_import_device le' N K sk' rhost rport busid d = (case ?e of None \<Rightarrow> Some (-1, d')
        | Some e \<Rightarrow> if rc < 0 then Some (-1, d') else import_device K (sk_fd sk') (ed_udev e) rhost rport busid d')"
    if d: "up' d" "inp' d = import_reply ?e (0 \<le> rc)" for d
  proof (cases "?e = None \<or> rc < 0")
    case True
    then have "inp' d = wire_op_common OP_REP_IMPORT ST_NA" using d(2) by (auto simp: import_reply_def split: option.splits)
    from query_import_up(1) [OF assms(2) d(1) this, of le' K rhost rport busid] True show ?thesis by (auto split: option.splits)
  next
    case False
    then obtain e where e: "?e = Some e" "0 \<le> rc" by auto
    then have "strn_eq (cstr (ub_busid (ed_udev e))) busid SYSFS_BUS_ID_SIZE"
      using cstr_id [OF assms(8)] by (auto simp: usbip_generic_get_device_def find_Some_iff strn_eq_def)
    moreover have "wf_usb_device (ed_udev e)" using assms(11) [OF e(1) assms(3)] by simp
    moreover have "inp' d = wire_op_common OP_REP_IMPORT ST_OK @ wire_usb_device (ed_udev e)"
      using d(2) e by (simp add: import_reply_def)
    ultimately show ?thesis using query_import_up(2) [OF assms(2) d(1), of "ed_udev e" busid le' K rhost rport] e by auto
  qed
  show ?thesis using s c1(4) c2 q by (intro exI [of _ c2] exI [of _ "import_reply ?e (0 \<le> rc)"]) simp
qed

definition pipe_lib_sock :: "(u8 list \<times> u8 list) vhci_lib usbip_sock" where
  "pipe_lib_sock = usbip_sock_init 3 (Some (\<lambda>bs l. (int (length bs), l\<lparr>sys := (fst (sys l), snd (sys l) @ bs)\<rparr>)))
     (Some (\<lambda>n _ l. let k = min n (min 100 (length (fst (sys l)))) in
        (int k, take k (fst (sys l)), l\<lparr>sys := (drop k (fst (sys l)), snd (sys l))\<rparr>))) None"

lemma pipe_lib_sock_up: "sock_up N pipe_lib_sock (\<lambda>l. snd (sys l)) (\<lambda>l. fst (sys l)) (\<lambda>_. True)"
  by (auto simp: sock_up_def sock_send_def sock_recv_def pipe_lib_sock_def usbip_sock_init_def Let_def)

definition demo_exporter :: "(u8 list \<times> u8 list) usbip_host_driver" where
  "demo_exporter = demo_driver\<lparr>hd_get_device := Some usbip_generic_get_device,
     hd_export_device := Some (\<lambda>_ _ c. (0, c)), hd_try_transfer := Some (\<lambda>_ sk c. Some (0, sk, c))\<rparr>"

lemma demo_get: "usbip_generic_get_device [demo_edev] ''1-1'' = Some demo_edev"
  by (simp add: usbip_generic_get_device_def demo_edev_def zero_usb_device_def cstr_def strn_eq_def)

theorem import_end_to_end_witness:
  "\<exists>c'. usbipd_recv_pdu True demo_ux (usbipd_dev_ops True demo_ux demo_exporter) pipe_sock ''h'' ''3240''
       (wire_op_common OP_REQ_IMPORT ST_OK @ import_request_bytes ''1-1'', []) = Some (0, pipe_sock, c') \<and>
     (\<forall>K. \<exists>d'. query_import_device False demo_ux K pipe_lib_sock ''h'' ''3240'' ''1-1''
         \<lparr>vhci_hc_device = False, udev_context = False, vhci_nports = 0, sys = (snd c', [])\<rparr> =
       import_device K (sk_fd pipe_lib_sock) (ed_udev demo_edev) ''h'' ''3240'' ''1-1'' d')"
proof -
  have s: "sk_ux pipe_sock = None" "ux_open demo_ux c = (-1, c)" "usbip_refresh_device_list demo_exporter c = Some (0, [demo_edev])"
    "hd_get_device demo_exporter = Some usbip_generic_get_device" "usbip_export_device demo_exporter e pipe_sock c = (0, c)"
    "usbip_try_transfer demo_exporter (Some e) pipe_sock c = Some (0, pipe_sock, c)" for c e
    by (simp_all add: pipe_sock_def usbip_sock_init_def demo_ux_def demo_driver_def demo_exporter_def
      usbip_refresh_device_list_def usbip_export_device_def usbip_try_transfer_def)
  let ?req = "wire_op_common OP_REQ_IMPORT ST_OK @ import_request_bytes ''1-1''"
  have i: "(\<lambda>(i, os). i) (?req, []) = ?req" "length ''1-1'' < 32" "CHR 0x00 \<notin> set ''1-1''" by simp_all
  have w: "wf_usb_device (ed_udev e) \<and> (\<exists>c'. usbip_export_device demo_exporter e pipe_sock c = (0, c') \<and> True \<and>
      (\<lambda>(i, os). i) c' = (\<lambda>(i, os). i) c \<and> (\<lambda>(i, os). os) c' = (\<lambda>(i, os). os) c)"
    if "usbip_generic_get_device [demo_edev] ''1-1'' = Some e" True for e c
    using that demo_edev_ok demo_get s(5) by (simp add: edev_ok_def)
  have all: "\<exists>c'. usbipd_recv_pdu True demo_ux (usbipd_dev_ops True demo_ux demo_exporter) pipe_sock ''h'' ''3240'' (?req, []) =
      Some (0, pipe_sock, c') \<and>
      (\<forall>d. fst (sys d) = snd c' \<longrightarrow> (\<exists>d'. query_import_device False demo_ux K pipe_lib_sock ''h'' ''3240'' ''1-1'' d =
        import_device K (sk_fd pipe_lib_sock) (ed_udev demo_edev) ''h'' ''3240'' ''1-1'' d'))" for K
    using import_end_to_end [OF pipe_sock_up pipe_lib_sock_up TrueI i(1) s(1,2) i(2,3) s(3,4) w s(6),
      of True "''h''" "''3240''" False demo_ux K "''h''" "''3240''"]
    by (simp only: demo_get option.simps simp_thms less_irrefl if_False split_conv append_Nil split_beta snd_conv) blast
  then obtain c0 where c0: "usbipd_recv_pdu True demo_ux (usbipd_dev_ops True demo_ux demo_exporter) pipe_sock ''h'' ''3240''
      (?req, []) = Some (0, pipe_sock, c0)" by blast
  show ?thesis using all c0 by (intro exI [of _ c0]) simp
qed

lemma send_export_up:
  assumes "sock_up N sk out inp up" "up c" "inp c = wire_op_common OP_REP_EXPORT st"
  shows "\<exists>c'. send_export_device le N sk d c = Some (if st = ST_OK then 0 else -1, c') \<and> up c' \<and>
    out c' = out c @ wire_op_common OP_REQ_EXPORT ST_OK @ wire_usb_device d"
proof -
  obtain c1 where c1: "usbip_net_send_op_common le N sk OP_REQ_EXPORT ST_OK c = Some (0, c1)" "up c1"
    "out c1 = out c @ wire_op_common OP_REQ_EXPORT ST_OK" "inp c1 = inp c"
    using send_op_common_up [OF assms(1,2)] by blast
  let ?w = "wire_usb_device d"
  obtain c2 where c2: "usbip_net_send N sk ?w c1 = Some (int (length ?w), c2)" "up c2" "out c2 = out c1 @ ?w" "inp c2 = inp c1"
    using net_send_all [OF assms(1) c1(2), of ?w] by blast
  then have "inp c2 = wire_op_common OP_REP_EXPORT st @ []" using c1 assms(3) by simp
  from recv_op_common_up [OF assms(1) c2(2) this, of le OP_REP_EXPORT] obtain c3 where
    c3: "usbip_net_recv_op_common le N sk OP_REP_EXPORT c2 = Some (if st = ST_OK then 0 else -1, OP_REP_EXPORT, c3)"
      "up c3" "out c3 = out c2" by (auto split: if_splits)
  with c1 c2 show ?thesis by (intro exI [of _ c3]) (simp add: send_export_device_def pack_usb_device_wire)
qed

lemma app_import_status: "app_import_device K fd d host port busid l = Some (rc, st, l') \<Longrightarrow>
    rc = 0 \<and> st = ST_OK \<or> rc = -1 \<and> st \<in> {ST_NA, ST_NO_FREE_PORT}"
  by (auto simp: app_import_device_def Let_def split: bind_splits import_result.splits if_splits prod.splits)

text \<open>C37: When \<open>usbip connect\<close> offers a device, the importing daemon attaches exactly this device and reports by its
  answer whether it could: the offering side goes on if and only if the port is attached and recorded.  The daemon
  itself returns success in every case, also when it attached nothing.\<close>

theorem export_end_to_end:
  assumes "sock_up U sk out inp up" "sock_up N sk' out' inp' up'"
    and "up c" "inp c = wire_op_common OP_REQ_EXPORT ST_OK @ wire_usb_device d" "wf_usb_device d"
    and "sk_ux sk = None" "\<And>c. ux_open U c = (-1, c)"
    and "\<And>c. up c \<Longrightarrow> \<exists>c'. app_import_device K (sk_fd sk) d host port (ub_busid d) c = Some (rc, st, c') \<and>
      up c' \<and> inp c' = inp c \<and> out c' = out c"
  shows "\<exists>c' reply. usbipd_recv_pdu le U (usbipd_app_ops le U K) sk host port c = Some (0, sk, c') \<and>
    inp c' = [] \<and> out c' = out c @ reply \<and>
    (\<forall>e. up' e \<longrightarrow> inp' e = reply \<longrightarrow> (\<exists>e'. send_export_device le' N sk' d e = Some (rc, e') \<and>
      out' e' = out' e @ wire_op_common OP_REQ_EXPORT ST_OK @ wire_usb_device d))"
proof -
  from recv_op_common_up [OF assms(1,3,4), of le OP_UNSPEC] obtain c1 where
    c1: "usbip_net_recv_op_common le U sk OP_UNSPEC c = Some (0, OP_REQ_EXPORT, c1)" "up c1"
      "inp c1 = wire_usb_device d @ []" "out c1 = out c" by auto
  from recv_usb_device_up [OF assms(1) c1(2,3) assms(5), of le False] obtain bs c2 where
    c2: "usbip_net_recv U sk 312 c1 = Some (312, bs, c2)" "up c2" "inp c2 = []" "out c2 = out c1"
      "usbip_net_pack_usb_device le False (bytes_usb_device le bs) = d" by auto
  obtain c3 where c3: "app_import_device K (sk_fd sk) d host port (ub_busid d) c2 = Some (rc, st, c3)"
    "up c3" "inp c3 = inp c2" "out c3 = out c2" using assms(8) [OF c2(2)] by blast
  obtain c4 where c4: "usbip_net_send_op_common le U sk OP_REP_EXPORT st c3 = Some (0, c4)"
    "out c4 = out c3 @ wire_op_common OP_REP_EXPORT st" "inp c4 = inp c3"
    using send_op_common_up [OF assms(1) c3(2)] by blast
  have t: "usbip_ux_try_transfer U sk c = Some (0, sk, c)" for c
    using assms(6,7) by (simp add: usbip_ux_try_transfer_def usbip_ux_setup_def usbip_ux_start_def usbip_ux_join_def
      usbip_ux_cleanup_def)
  have run: "usbipd_recv_pdu le U (usbipd_app_ops le U K) sk host port c = Some (0, sk, c4)"
    using assms(6,7) c1 c2 c3 c4 t
    by (simp add: usbipd_recv_pdu_def usbip_ux_setup_def usbip_ux_cleanup_def recv_pdu_def usbipd_app_ops_def
      recv_request_export_def)
  have "rc = (if st = ST_OK then 0 else -1)" using app_import_status [OF c3(1)] by auto
  then have "\<exists>e'. send_export_device le' N sk' d e = Some (rc, e') \<and>
      out' e' = out' e @ wire_op_common OP_REQ_EXPORT ST_OK @ wire_usb_device d"
    if "up' e" "inp' e = wire_op_common OP_REP_EXPORT st" for e
    using send_export_up [OF assms(2) that, of le' d] by auto
  moreover have "out c4 = out c @ wire_op_common OP_REP_EXPORT st" "inp c4 = []" using c1 c2 c3 c4 by simp_all
  ultimately show ?thesis using run by blast
qed

text \<open>A host whose controller has no file for the state of its ports: nothing can be attached.\<close>

definition no_vhci :: "'c vhci_sys" where
  "no_vhci = \<lparr>udev_new = Pair True, find_usb = (\<lambda>_ _. None), from_syspath = (\<lambda>_ _. None), enumerate_devices = (\<lambda>_ _. []),
     open_attr = (\<lambda>_ c. (-2, c)), write_attr = (\<lambda>_ _ c. (-2, c)), read_file = (\<lambda>_ _. None), mkdir = (\<lambda>_ c. (-1, c)),
     is_dir = (\<lambda>_ _. None), open_trunc = (\<lambda>_ c. (False, c)), write_file = (\<lambda>_ _ c. (-1, c)), remove_file = (\<lambda>_ c. c),
     rmdir = (\<lambda>_ c. c), hc_new = Pair True, hc_attr = (\<lambda>_ _. None), hc_path = (\<lambda>_. [])\<rparr>"

lemma no_vhci_import: "\<exists>l'. app_import_device no_vhci fd d host port busid l = Some (-1, ST_NO_FREE_PORT, l') \<and> sys l' = sys l"
  by (simp add: app_import_device_def attach_loop.simps usbip_vhci_get_free_port_def open_status_def open_hc_device_def
    no_vhci_def Let_def)

theorem export_end_to_end_witness:
  "\<exists>l'. usbipd_recv_pdu True demo_ux (usbipd_app_ops True demo_ux no_vhci) pipe_lib_sock ''h'' ''3240''
      \<lparr>vhci_hc_device = False, udev_context = False, vhci_nports = 0,
        sys = (wire_op_common OP_REQ_EXPORT ST_OK @ wire_usb_device (ed_udev demo_edev), [])\<rparr> = Some (0, pipe_lib_sock, l') \<and>
    (\<exists>e'. send_export_device False demo_ux pipe_sock (ed_udev demo_edev) (snd (sys l'), []) = Some (-1, e'))"
proof -
  have s: "sk_ux pipe_lib_sock = None" "ux_open demo_ux c = (-1, c)" for c
    by (simp_all add: pipe_lib_sock_def usbip_sock_init_def demo_ux_def)
  let ?l = "\<lparr>vhci_hc_device = False, udev_context = False, vhci_nports = 0,
    sys = (wire_op_common OP_REQ_EXPORT ST_OK @ wire_usb_device (ed_udev demo_edev), [])\<rparr>"
  have i: "fst (sys ?l) = wire_op_common OP_REQ_EXPORT ST_OK @ wire_usb_device (ed_udev demo_edev)" "wf_usb_device (ed_udev demo_edev)"
    using demo_edev_ok by (simp_all add: edev_ok_def)
  have a: "\<exists>c'. app_import_device no_vhci (sk_fd pipe_lib_sock) d ''h'' ''3240'' b c = Some (-1, ST_NO_FREE_PORT, c') \<and> True \<and>
      fst (sys c') = fst (sys c) \<and> snd (sys c') = snd (sys c)" if True for c :: "(u8 list \<times> u8 list) vhci_lib" and d b
    using no_vhci_import [of "sk_fd pipe_lib_sock" d "''h''" "''3240''" b c] by auto
  show ?thesis
    using export_end_to_end [OF pipe_lib_sock_up pipe_sock_up TrueI i s a, of True False demo_ux] by fastforce
qed

end
