(* ===== verification/Lib_Common.thy ===== *)
theory Lib_Common
  imports Tool_Host Stub_Rx
begin

text \<open>
  The exporting host without a driver in the kernel: \<open>libusb/stub\<close> does in a process, on top of libusb, what the stub
  driver does.  This theory has the structures of \<open>stub.h\<close> and \<open>stub_common.h\<close>, the common functions of
  \<open>stub_common.c\<close> and the events of \<open>stub_event.c\<close>.  Names that the kernel side uses too have the prefix \<open>l_\<close>.
\<close>

section \<open>Structures\<close>

datatype libusb_transfer_status =
    LIBUSB_TRANSFER_COMPLETED | LIBUSB_TRANSFER_ERROR | LIBUSB_TRANSFER_TIMED_OUT | LIBUSB_TRANSFER_CANCELLED
  | LIBUSB_TRANSFER_STALL | LIBUSB_TRANSFER_NO_DEVICE | LIBUSB_TRANSFER_OVERFLOW

record libusb_iso_packet_descriptor =
  li_length :: u32
  li_actual_length :: u32
  li_status :: libusb_transfer_status

text \<open>\<open>lt_user_data\<close> is the address of the request, \<open>lt_iso_packet_desc\<close> the descriptors allocated with the
  transfer.\<close>

record libusb_transfer =
  lt_flags :: u8
  lt_endpoint :: u8
  lt_type :: u8
  lt_buffer :: "u8 list option"
  lt_length :: int
  lt_actual_length :: int
  lt_num_iso_packets :: int
  lt_status :: libusb_transfer_status
  lt_iso_packet_desc :: "libusb_iso_packet_descriptor list"
  lt_user_data :: nat
  lt_callback :: bool

text \<open>A pointer to a transfer: null, to one that was freed, or to the transfer.\<close>

datatype trx_pointer = No_trx | Freed_trx | Trx libusb_transfer

record l_stub_priv =
  lp_id :: nat
  lp_seqnum :: ulong
  lp_trx :: trx_pointer
  lp_dir :: u8
  lp_unlinking :: bool

record l_stub_unlink =
  lu_seqnum :: ulong
  lu_status :: libusb_transfer_status

record l_stub_interface =
  si_uinf :: usbip_usb_interface
  si_detached :: bool
  si_claimed :: bool

record l_stub_endpoint =
  se_nr :: u8
  se_dir :: u8
  se_type :: u8

text \<open>\<open>struct stub_device\<close>, with the fields of its \<open>struct usbip_device\<close> after \<open>l_next\<close>, the address the next
  request gets.  \<open>l_dev\<close> is the device of libusb, \<open>l_handle\<close> whether it is open; \<open>l_sock\<close> is the descriptor of the
  connection and its functions.\<close>

record 'c l_stub_device =
  l_dev :: nat
  l_handle :: bool
  l_udev :: usbip_usb_device
  l_devid :: u32
  l_eps :: "l_stub_endpoint list"
  l_ifs :: "l_stub_interface list"
  l_priv_init :: "l_stub_priv list"
  l_priv_tx :: "l_stub_priv list"
  l_priv_free :: "l_stub_priv list"
  l_unlink_tx :: "l_stub_unlink list"
  l_unlink_free :: "l_stub_unlink list"
  l_should_stop :: bool
  l_next :: nat
  l_status :: usbip_device_status
  l_sock :: "'c usbip_sock option"
  l_event :: ulong
  l_eh_should_stop :: bool

record 'c lib_conn =
  lsd :: "'c l_stub_device"
  lenv :: 'c

text \<open>libusb and the C library over a state \<open>'c\<close>.  A transfer is named by the address of its request.
  \<open>lib_handle_events\<close> returns the transfers that completed, as they are then.\<close>

record libusb_endpoint_descriptor =
  led_bEndpointAddress :: u8
  led_bmAttributes :: u8

record libusb_interface_descriptor =
  lid_class :: u8
  lid_subclass :: u8
  lid_protocol :: u8
  lid_number :: u8
  lid_endpoint :: "libusb_endpoint_descriptor list"

record libusb_config_descriptor =
  lcd_value :: u8
  lcd_interface :: "libusb_interface_descriptor list list"

record libusb_device_descriptor =
  ldd_class :: u8
  ldd_subclass :: u8
  ldd_protocol :: u8
  ldd_vendor :: u16
  ldd_product :: u16
  ldd_bcd :: u16
  ldd_num_configurations :: u8

record 'c lib_sys = "'c net_sys" +
  l_le :: bool
  l_malloc :: "nat \<Rightarrow> 'c \<Rightarrow> bool \<times> 'c"
  lib_alloc_transfer :: "int \<Rightarrow> 'c \<Rightarrow> libusb_iso_packet_descriptor list option \<times> 'c"
  lib_submit_transfer :: "nat \<Rightarrow> libusb_transfer \<Rightarrow> 'c \<Rightarrow> int \<times> 'c"
  lib_cancel_transfer :: "nat \<Rightarrow> 'c \<Rightarrow> int \<times> 'c"
  lib_handle_events :: "'c \<Rightarrow> int \<times> (nat \<times> libusb_transfer) list \<times> 'c"
  lib_clear_halt :: "nat \<Rightarrow> u8 \<Rightarrow> 'c \<Rightarrow> int \<times> 'c"
  lib_set_interface_alt_setting :: "nat \<Rightarrow> u16 \<Rightarrow> u16 \<Rightarrow> 'c \<Rightarrow> int \<times> 'c"
  lib_reset_device :: "nat \<Rightarrow> 'c \<Rightarrow> int \<times> 'c"
  lib_open :: "nat \<Rightarrow> 'c \<Rightarrow> int \<times> 'c"
  lib_close :: "nat \<Rightarrow> 'c \<Rightarrow> 'c"
  lib_claim_interface :: "nat \<Rightarrow> u8 \<Rightarrow> 'c \<Rightarrow> int \<times> 'c"
  lib_release_interface :: "nat \<Rightarrow> u8 \<Rightarrow> 'c \<Rightarrow> int \<times> 'c"
  lib_detach_kernel_driver :: "nat \<Rightarrow> u8 \<Rightarrow> 'c \<Rightarrow> int \<times> 'c"
  lib_attach_kernel_driver :: "nat \<Rightarrow> u8 \<Rightarrow> 'c \<Rightarrow> int \<times> 'c"
  lib_get_device_list :: "'c \<Rightarrow> nat list option"
  lib_bus_number :: "nat \<Rightarrow> u8"
  lib_device_address :: "nat \<Rightarrow> u8"
  lib_device_speed :: "nat \<Rightarrow> int"
  lib_device_descriptor :: "nat \<Rightarrow> 'c \<Rightarrow> libusb_device_descriptor option"
  lib_active_config :: "nat \<Rightarrow> 'c \<Rightarrow> libusb_config_descriptor option"
  lib_init :: "'c \<Rightarrow> int \<times> 'c"
  lib_exit :: "'c \<Rightarrow> 'c"
  l_mkdir :: "string \<Rightarrow> 'c \<Rightarrow> int \<times> 'c"
  l_create :: "string \<Rightarrow> 'c \<Rightarrow> int \<times> 'c"
  l_unlink :: "string \<Rightarrow> 'c \<Rightarrow> int \<times> 'c"
  l_stat :: "string \<Rightarrow> 'c \<Rightarrow> bool"
  tmp_dir :: string

abbreviation (input) LIBUSB_TRANSFER_TYPE_CONTROL :: u8 where "LIBUSB_TRANSFER_TYPE_CONTROL \<equiv> 0"
abbreviation (input) LIBUSB_TRANSFER_TYPE_ISOCHRONOUS :: u8 where "LIBUSB_TRANSFER_TYPE_ISOCHRONOUS \<equiv> 1"
abbreviation (input) LIBUSB_TRANSFER_TYPE_BULK :: u8 where "LIBUSB_TRANSFER_TYPE_BULK \<equiv> 2"
abbreviation (input) LIBUSB_TRANSFER_TYPE_MASK :: u8 where "LIBUSB_TRANSFER_TYPE_MASK \<equiv> 3"
abbreviation (input) LIBUSB_TRANSFER_SHORT_NOT_OK :: u8 where "LIBUSB_TRANSFER_SHORT_NOT_OK \<equiv> 1"
abbreviation (input) LIBUSB_TRANSFER_ADD_ZERO_PACKET :: u8 where "LIBUSB_TRANSFER_ADD_ZERO_PACKET \<equiv> 8"
abbreviation (input) USBIP_NOP :: u32 where "USBIP_NOP \<equiv> 0"

section \<open>Events\<close>

definition l_usbip_event_add :: "ulong \<Rightarrow> ('c, 'k) lib_conn_scheme \<Rightarrow> ('c, 'k) lib_conn_scheme" where
  "l_usbip_event_add ev s = s\<lparr>lsd := (lsd s)\<lparr>l_event := l_event (lsd s) OR ev\<rparr>\<rparr>"

definition l_usbip_event_happened :: "('c, 'k) lib_conn_scheme \<Rightarrow> bool" where
  "l_usbip_event_happened s = (l_event (lsd s) \<noteq> 0)"

definition l_event_get :: "('c, 'k) lib_conn_scheme \<Rightarrow> ulong \<times> ('c, 'k) lib_conn_scheme" where
  "l_event_get s = (l_event (lsd s), s\<lparr>lsd := (lsd s)\<lparr>l_event := 0\<rparr>\<rparr>)"

text \<open>\<open>ops\<close> are the handlers to shut down, reset and mark unusable; the result tells to stop the thread.\<close>

definition l_event_handler ::
  "(('c, 'k) lib_conn_scheme \<Rightarrow> ('c, 'k) lib_conn_scheme) \<times> (('c, 'k) lib_conn_scheme \<Rightarrow> ('c, 'k) lib_conn_scheme) \<times>
     (('c, 'k) lib_conn_scheme \<Rightarrow> ('c, 'k) lib_conn_scheme) \<Rightarrow> ('c, 'k) lib_conn_scheme \<Rightarrow>
     bool \<times> ('c, 'k) lib_conn_scheme" where
  "l_event_handler ops s = (case ops of (shutdown, reset, unusable) \<Rightarrow>
     (let (ev, s0) = l_event_get s;
          s1 = (if ev AND USBIP_EH_SHUTDOWN \<noteq> 0 then shutdown s0 else s0);
          s2 = (if ev AND USBIP_EH_RESET \<noteq> 0 then reset s1 else s1);
          s3 = (if ev AND USBIP_EH_UNUSABLE \<noteq> 0 then unusable s2 else s2)
      in (ev AND USBIP_EH_BYE \<noteq> 0, s3)))"

text \<open>One run of the loop for each time \<open>eh_waitq\<close> is unlocked; \<open>others n\<close> is what the other threads do before
  the \<open>n\<close>-th time.\<close>

fun l_event_handler_loop ::
  "(('c, 'k) lib_conn_scheme \<Rightarrow> ('c, 'k) lib_conn_scheme) \<times> (('c, 'k) lib_conn_scheme \<Rightarrow> ('c, 'k) lib_conn_scheme) \<times>
     (('c, 'k) lib_conn_scheme \<Rightarrow> ('c, 'k) lib_conn_scheme) \<Rightarrow> (('c, 'k) lib_conn_scheme \<Rightarrow> ('c, 'k) lib_conn_scheme) list \<Rightarrow>
     ('c, 'k) lib_conn_scheme \<Rightarrow> ('c, 'k) lib_conn_scheme" where
  "l_event_handler_loop ops [] s = s"
| "l_event_handler_loop ops (f # others) s =
     (if l_eh_should_stop (lsd s) then s
      else case l_event_handler ops (f s) of (stop, s') \<Rightarrow>
        if stop then s' else l_event_handler_loop ops others s')"

definition l_usbip_start_eh :: "bool \<Rightarrow> ('c, 'k) lib_conn_scheme \<Rightarrow> int \<times> ('c, 'k) lib_conn_scheme" where
  "l_usbip_start_eh created s =
     (if created then 0 else -1, s\<lparr>lsd := (lsd s)\<lparr>l_eh_should_stop := False, l_event := 0\<rparr>\<rparr>)"

definition l_usbip_stop_eh :: "('c, 'k) lib_conn_scheme \<Rightarrow> ('c, 'k) lib_conn_scheme" where
  "l_usbip_stop_eh s = s\<lparr>lsd := (lsd s)\<lparr>l_eh_should_stop := True\<rparr>\<rparr>"

section \<open>Sending and receiving\<close>

text \<open>The functions \<open>send\<close> and \<open>recv\<close> of the connection; the fault of both functions below is a connection that
  is a null pointer.\<close>

fun send_vecs :: "(u8 list \<Rightarrow> 'c \<Rightarrow> int \<times> 'c) \<Rightarrow> u8 list list \<Rightarrow> int \<Rightarrow> 'c \<Rightarrow> int \<times> 'c" where
  "send_vecs f [] tot c = (tot, c)"
| "send_vecs f (v # vs) tot c =
     (if v = [] then send_vecs f vs tot c
      else case f v c of (result, c') \<Rightarrow>
        if result < 0 then (tot, c') else send_vecs f vs (tot + result) c')"

definition l_usbip_sendmsg ::
  "('c, 'k) lib_sys_scheme \<Rightarrow> u8 list list \<Rightarrow> 'c lib_conn \<Rightarrow> (int \<times> 'c lib_conn) option" where
  "l_usbip_sendmsg L vec s = (case l_sock (lsd s) of
     None \<Rightarrow> None
   | Some sk \<Rightarrow> (case send_vecs (sock_send L sk) vec 0 (lenv s) of (tot, c) \<Rightarrow> Some (tot, s\<lparr>lenv := c\<rparr>)))"

text \<open>What was received before an error stays in the buffer.\<close>

function lib_recv_loop ::
  "(nat \<Rightarrow> 'c \<Rightarrow> int \<times> u8 list \<times> 'c) \<Rightarrow> int \<Rightarrow> int \<Rightarrow> u8 list \<Rightarrow> 'c \<Rightarrow> int \<times> u8 list \<times> 'c" where
  "lib_recv_loop f left tot buf c = (case f (nat left) c of (result, bs, c') \<Rightarrow>
     if result \<le> 0 then (result, buf, c')
     else if left - result > 0 then lib_recv_loop f (left - result) (tot + result) (buf @ bs) c'
     else (tot + result, buf @ bs, c'))"
  by pat_completeness auto
termination by (relation "measure (\<lambda>(f, left, tot, buf, c). nat left)") auto

declare lib_recv_loop.simps [simp del]

definition l_usbip_recv ::
  "('c, 'k) lib_sys_scheme \<Rightarrow> int \<Rightarrow> 'c lib_conn \<Rightarrow> (int \<times> u8 list \<times> 'c lib_conn) option" where
  "l_usbip_recv L left s = (case l_sock (lsd s) of
     None \<Rightarrow> None
   | Some sk \<Rightarrow>
       if left = 0 then Some (-1, [], s)
       else (case lib_recv_loop (sock_recv L sk False) left 0 [] (lenv s) of (ret, bs, c) \<Rightarrow>
         Some (ret, bs, s\<lparr>lenv := c\<rparr>)))"

section \<open>Packing\<close>

fun trxstat2error :: "libusb_transfer_status \<Rightarrow> int" where
  "trxstat2error LIBUSB_TRANSFER_COMPLETED = 0"
| "trxstat2error LIBUSB_TRANSFER_CANCELLED = - ECONNRESET"
| "trxstat2error LIBUSB_TRANSFER_NO_DEVICE = - ESHUTDOWN"
| "trxstat2error _ = - EPIPE"

definition error2trxstat :: "int \<Rightarrow> libusb_transfer_status" where
  "error2trxstat e =
     (if e = 0 then LIBUSB_TRANSFER_COMPLETED else if e = - ENOENT then LIBUSB_TRANSFER_ERROR
      else if e = - ECONNRESET then LIBUSB_TRANSFER_CANCELLED else if e = - ETIMEDOUT then LIBUSB_TRANSFER_TIMED_OUT
      else if e = - EPIPE then LIBUSB_TRANSFER_STALL else if e = - ESHUTDOWN then LIBUSB_TRANSFER_NO_DEVICE
      else if e = - EOVERFLOW then LIBUSB_TRANSFER_OVERFLOW else LIBUSB_TRANSFER_ERROR)"

definition l_usbip_pack_ret_submit :: "usbip_header \<Rightarrow> libusb_transfer \<Rightarrow> usbip_header" where
  "l_usbip_pack_ret_submit pdu trx = pdu\<lparr>u := put_ret_submit \<lparr>rs_status = word_of_int (trxstat2error (lt_status trx)),
     rs_actual_length = word_of_int (lt_actual_length trx), rs_start_frame = 0,
     rs_number_of_packets = word_of_int (lt_num_iso_packets trx), rs_error_count = 0\<rparr> (u pdu)\<rparr>"

definition l_usbip_pack_ret_unlink :: "usbip_header \<Rightarrow> l_stub_unlink \<Rightarrow> usbip_header" where
  "l_usbip_pack_ret_unlink pdu ul =
     pdu\<lparr>u := put_ret_unlink \<lparr>ru_status = word_of_int (trxstat2error (lu_status ul))\<rparr> (u pdu)\<rparr>"

text \<open>\<open>htonl\<close> and \<open>ntohl\<close>.\<close>

definition net_conv :: "bool \<Rightarrow> bool \<Rightarrow> u32 \<Rightarrow> u32" where
  "net_conv le send x = (if send then cpu_to_be32 le x else be32_to_cpu le x)"

definition l_correct_endian_basic :: "bool \<Rightarrow> usbip_header_basic \<Rightarrow> bool \<Rightarrow> usbip_header_basic" where
  "l_correct_endian_basic le b send = b\<lparr>b_command := net_conv le send (b_command b),
     b_seqnum := net_conv le send (b_seqnum b), b_devid := net_conv le send (b_devid b),
     b_direction := net_conv le send (b_direction b), b_ep := net_conv le send (b_ep b)\<rparr>"

definition l_correct_endian_cmd_submit :: "bool \<Rightarrow> usbip_header_cmd_submit \<Rightarrow> bool \<Rightarrow> usbip_header_cmd_submit" where
  "l_correct_endian_cmd_submit le p send = p\<lparr>cs_transfer_flags := net_conv le send (cs_transfer_flags p),
     cs_transfer_buffer_length := net_conv le send (cs_transfer_buffer_length p),
     cs_start_frame := net_conv le send (cs_start_frame p),
     cs_number_of_packets := net_conv le send (cs_number_of_packets p),
     cs_interval := net_conv le send (cs_interval p)\<rparr>"

definition l_correct_endian_ret_submit :: "bool \<Rightarrow> usbip_header_ret_submit \<Rightarrow> bool \<Rightarrow> usbip_header_ret_submit" where
  "l_correct_endian_ret_submit le p send = p\<lparr>rs_status := net_conv le send (rs_status p),
     rs_actual_length := net_conv le send (rs_actual_length p), rs_start_frame := net_conv le send (rs_start_frame p),
     rs_number_of_packets := net_conv le send (rs_number_of_packets p),
     rs_error_count := net_conv le send (rs_error_count p)\<rparr>"

definition l_correct_endian_cmd_unlink :: "bool \<Rightarrow> usbip_header_cmd_unlink \<Rightarrow> bool \<Rightarrow> usbip_header_cmd_unlink" where
  "l_correct_endian_cmd_unlink le p send = p\<lparr>cu_seqnum := net_conv le send (cu_seqnum p)\<rparr>"

definition l_correct_endian_ret_unlink :: "bool \<Rightarrow> usbip_header_ret_unlink \<Rightarrow> bool \<Rightarrow> usbip_header_ret_unlink" where
  "l_correct_endian_ret_unlink le p send = p\<lparr>ru_status := net_conv le send (ru_status p)\<rparr>"

definition l_usbip_header_correct_endian :: "bool \<Rightarrow> usbip_header \<Rightarrow> bool \<Rightarrow> usbip_header" where
  "l_usbip_header_correct_endian le pdu send =
     (let b = l_correct_endian_basic le (base pdu) send;
          cmd = b_command (if send then base pdu else b); pdu1 = pdu\<lparr>base := b\<rparr>; m = u pdu in
      if cmd = USBIP_CMD_SUBMIT then pdu1\<lparr>u := put_cmd_submit (l_correct_endian_cmd_submit le (cmd_submit m) send) m\<rparr>
      else if cmd = USBIP_RET_SUBMIT
      then pdu1\<lparr>u := put_ret_submit (l_correct_endian_ret_submit le (ret_submit m) send) m\<rparr>
      else if cmd = USBIP_CMD_UNLINK
      then pdu1\<lparr>u := put_cmd_unlink (l_correct_endian_cmd_unlink le (cmd_unlink m) send) m\<rparr>
      else if cmd = USBIP_RET_UNLINK
      then pdu1\<lparr>u := put_ret_unlink (l_correct_endian_ret_unlink le (ret_unlink m) send) m\<rparr>
      else pdu1)"

section \<open>Isochronous packet descriptors\<close>

definition l_iso_packet_correct_endian ::
  "bool \<Rightarrow> usbip_iso_packet_descriptor \<Rightarrow> bool \<Rightarrow> usbip_iso_packet_descriptor" where
  "l_iso_packet_correct_endian le pk send = pk\<lparr>i_offset := net_conv le send (i_offset pk),
     i_length := net_conv le send (i_length pk), i_status := net_conv le send (i_status pk),
     i_actual_length := net_conv le send (i_actual_length pk)\<rparr>"

definition l_usbip_pack_iso ::
  "usbip_iso_packet_descriptor \<Rightarrow> libusb_iso_packet_descriptor \<Rightarrow> u32 \<Rightarrow> bool \<Rightarrow>
     usbip_iso_packet_descriptor \<times> libusb_iso_packet_descriptor" where
  "l_usbip_pack_iso pk uiso off pack =
     (if pack then (pk\<lparr>i_offset := off, i_length := li_length uiso,
          i_status := word_of_int (trxstat2error (li_status uiso)), i_actual_length := li_actual_length uiso\<rparr>, uiso)
      else (pk, uiso\<lparr>li_length := i_length pk, li_status := error2trxstat (sint (i_status pk)),
          li_actual_length := i_actual_length pk\<rparr>))"

text \<open>The loop of \<open>usbip_alloc_iso_desc_pdu\<close> for \<open>n\<close> descriptors from number \<open>i\<close> on; the fault is one that was not
  allocated with the transfer.\<close>

fun l_pack_descs :: "bool \<Rightarrow> libusb_iso_packet_descriptor list \<Rightarrow> nat \<Rightarrow> u32 \<Rightarrow> nat \<Rightarrow> u8 list option" where
  "l_pack_descs le ds i off 0 = Some []"
| "l_pack_descs le ds i off (Suc n) =
     (if i < length ds then
        let pk = fst (l_usbip_pack_iso \<lparr>i_offset = 0, i_length = 0, i_actual_length = 0, i_status = 0\<rparr> (ds ! i) off True) in
        map_option (\<lambda>bs. iso_bytes le (l_iso_packet_correct_endian le pk True) @ bs)
          (l_pack_descs le ds (Suc i) (off + li_length (ds ! i)) n)
      else None)"

text \<open>The inner option is a null result.  A negative number of packets makes an allocation of nearly \<open>2 ^ 64\<close> bytes,
  and no descriptor is packed.\<close>

definition l_usbip_alloc_iso_desc_pdu ::
  "('c, 'k) lib_sys_scheme \<Rightarrow> libusb_transfer \<Rightarrow> 'c \<Rightarrow> (u8 list option \<times> 'c) option" where
  "l_usbip_alloc_iso_desc_pdu L trx c =
     (let np = lt_num_iso_packets trx; (ok, c') = l_malloc L (nat (np * 16 mod 2 ^ 64)) c in
      if \<not> ok then Some (None, c')
      else map_option (\<lambda>bs. (Some bs, c')) (l_pack_descs (l_le L) (lt_iso_packet_desc trx) 0 0 (nat np)))"

fun l_unpack_descs ::
  "bool \<Rightarrow> u8 list \<Rightarrow> nat \<Rightarrow> nat \<Rightarrow> libusb_iso_packet_descriptor list \<Rightarrow> u32 \<Rightarrow>
     (libusb_iso_packet_descriptor list \<times> u32) option" where
  "l_unpack_descs le bs i 0 ds tot = Some (ds, tot)"
| "l_unpack_descs le bs i (Suc n) ds tot =
     (if 16 * Suc i \<le> length bs \<and> i < length ds then
        let pk = l_iso_packet_correct_endian le (bytes_iso le (slice (16 * i) 16 bs)) False;
            d = snd (l_usbip_pack_iso pk (ds ! i) 0 False)
        in l_unpack_descs le bs (Suc i) n (ds[i := d]) (tot + li_actual_length d)
      else None)"

text \<open>The size is computed in 64 bits and stored in an \<open>int\<close>, which is what \<open>malloc\<close> gets.\<close>

definition l_usbip_recv_iso ::
  "('c, 'k) lib_sys_scheme \<Rightarrow> libusb_transfer \<Rightarrow> 'c lib_conn \<Rightarrow> (int \<times> libusb_transfer \<times> 'c lib_conn) option" where
  "l_usbip_recv_iso L trx s =
     (let np = lt_num_iso_packets trx; sz = sint (word_of_int (np * 16) :: u32) in
      if np = 0 then Some (0, trx, s)
      else let (ok, c) = l_malloc L (nat (sz mod 2 ^ 64)) (lenv s); s1 = s\<lparr>lenv := c\<rparr> in
        if \<not> ok then Some (-1, trx, s1)
        else do {
          (ret, bs, s2) \<leftarrow> l_usbip_recv L sz s1;
          if ret \<noteq> sz then Some (-1, trx, l_usbip_event_add SDEV_EVENT_ERROR_TCP s2)
          else do {
            (ds, tot) \<leftarrow> l_unpack_descs (l_le L) bs 0 (nat np) (lt_iso_packet_desc trx) 0;
            let trx' = trx\<lparr>lt_iso_packet_desc := ds\<rparr>;
            Some (if sint tot \<noteq> lt_actual_length trx then (-1, trx', l_usbip_event_add SDEV_EVENT_ERROR_TCP s2)
                  else (ret, trx', s2)) } })"

section \<open>The data of a transfer\<close>

text \<open>The bytes are stored behind the setup packet of a control transfer; the fault is more than the buffer holds.\<close>

definition store_at :: "nat \<Rightarrow> u8 list \<Rightarrow> libusb_transfer \<Rightarrow> libusb_transfer option" where
  "store_at off bs trx =
     (if bs = [] then Some trx
      else case lt_buffer trx of
        None \<Rightarrow> None
      | Some b \<Rightarrow> if off + length bs \<le> length b then Some (trx\<lparr>lt_buffer := Some (overwrite off bs b)\<rparr>) else None)"

definition l_usbip_recv_xbuff ::
  "('c, 'k) lib_sys_scheme \<Rightarrow> libusb_transfer \<Rightarrow> nat \<Rightarrow> 'c lib_conn \<Rightarrow> (int \<times> libusb_transfer \<times> 'c lib_conn) option" where
  "l_usbip_recv_xbuff L trx off s =
     (let sz = lt_length trx - int off in
      if \<not> 0 < sz then Some (0, trx, s)
      else do { (ret, bs, s1) \<leftarrow> l_usbip_recv L sz s;
                trx' \<leftarrow> store_at off bs trx;
                Some (ret, trx', if ret \<noteq> sz then l_usbip_event_add SDEV_EVENT_ERROR_TCP s1 else s1) })"

end
