(* ===== verification/Lib_Dev.thy ===== *)
theory Lib_Dev
  imports Lib_Common
begin

text \<open>
  The driver of the libusb host, \<open>stub_dev.c\<close> and \<open>stub_main.c\<close>: the devices libusb knows, those that are exported
  (there is a file for each), taking and giving back their interfaces, and the life of a connection.
\<close>

section \<open>Endpoints\<close>

text \<open>An endpoint is looked up by its number alone; \<open>0xff\<close> stands for an unknown one.\<close>

definition l_get_endpoint :: "'c l_stub_device \<Rightarrow> u8 \<Rightarrow> l_stub_endpoint option" where
  "l_get_endpoint sd ep = find (\<lambda>e. se_nr e = ep AND 0xf) (l_eps sd)"

definition stub_get_transfer_type :: "'c l_stub_device \<Rightarrow> u8 \<Rightarrow> u8" where
  "stub_get_transfer_type sd ep = (if ep = 0 then LIBUSB_TRANSFER_TYPE_CONTROL
     else case l_get_endpoint sd ep of None \<Rightarrow> 0xff | Some e \<Rightarrow> se_type e)"

definition stub_endpoint_dir :: "'c l_stub_device \<Rightarrow> u8 \<Rightarrow> u8" where
  "stub_endpoint_dir sd ep = (case l_get_endpoint sd ep of None \<Rightarrow> 0 | Some e \<Rightarrow> se_dir e)"

definition stub_endpoint_dir_out :: "'c l_stub_device \<Rightarrow> u8 \<Rightarrow> bool" where
  "stub_endpoint_dir_out sd ep = (stub_endpoint_dir sd ep = 0)"

definition stub_get_transfer_flags :: "u32 \<Rightarrow> u8" where
  "stub_get_transfer_flags fl = (if fl AND URB_SHORT_NOT_OK \<noteq> 0 then LIBUSB_TRANSFER_SHORT_NOT_OK else 0) OR
     (if fl AND URB_ZERO_PACKET \<noteq> 0 then LIBUSB_TRANSFER_ADD_ZERO_PACKET else 0)"

section \<open>The devices of libusb\<close>

definition l_get_busid :: "('c, 'k) lib_sys_scheme \<Rightarrow> nat \<Rightarrow> string" where
  "l_get_busid L dev =
     take 31 (decimal (unat (lib_bus_number L dev)) @ ''-'' @ decimal (unat (lib_device_address L dev)))"

text \<open>\<open>LIBUSB_SPEED_LOW\<close> to \<open>LIBUSB_SPEED_HIGH\<close> are 1 to 3.\<close>

definition get_device_speed :: "('c, 'k) lib_sys_scheme \<Rightarrow> nat \<Rightarrow> u32" where
  "get_device_speed L dev = (let sp = lib_device_speed L dev in
     if sp = 1 then USB_SPEED_LOW else if sp = 2 then USB_SPEED_FULL else if sp = 3 then USB_SPEED_HIGH
     else USB_SPEED_UNKNOWN)"

definition do_fill_usb_device ::
  "('c, 'k) lib_sys_scheme \<Rightarrow> nat \<Rightarrow> libusb_device_descriptor \<Rightarrow> libusb_config_descriptor \<Rightarrow> usbip_usb_device" where
  "do_fill_usb_device L dev desc config = zero_usb_device\<lparr>
     ub_busid := strncpy SYSFS_BUS_ID_SIZE (l_get_busid L dev),
     ub_busnum := ucast (lib_bus_number L dev), ub_devnum := ucast (lib_device_address L dev),
     ub_speed := get_device_speed L dev,
     idVendor := ldd_vendor desc, idProduct := ldd_product desc, bcdDevice := ldd_bcd desc,
     bDeviceClass := ldd_class desc, bDeviceSubClass := ldd_subclass desc, bDeviceProtocol := ldd_protocol desc,
     bConfigurationValue := lcd_value config, bNumConfigurations := ldd_num_configurations desc,
     bNumInterfaces := word_of_nat (length (lcd_interface config))\<rparr>"

text \<open>A device, one that is skipped (a hub), or an error.\<close>

datatype fill_result = Filled usbip_usb_device | FILL_SKIPPED | Fill_error

definition fill_usb_device :: "('c, 'k) lib_sys_scheme \<Rightarrow> nat \<Rightarrow> 'c \<Rightarrow> fill_result" where
  "fill_usb_device L dev c = (case lib_device_descriptor L dev c of
     None \<Rightarrow> Fill_error
   | Some desc \<Rightarrow> if ldd_class desc = 9 then FILL_SKIPPED
       else (case lib_active_config L dev c of
         None \<Rightarrow> Fill_error
       | Some config \<Rightarrow> Filled (do_fill_usb_device L dev desc config)))"

text \<open>The first alternate setting of each interface; the fault is an interface without one.\<close>

fun fill_usb_interfaces :: "libusb_interface_descriptor list list \<Rightarrow> usbip_usb_interface list option" where
  "fill_usb_interfaces [] = Some []"
| "fill_usb_interfaces ([] # is) = None"
| "fill_usb_interfaces ((a # as) # is) = map_option
     ((#) \<lparr>bInterfaceClass = lid_class a, bInterfaceSubClass = lid_subclass a, bInterfaceProtocol = lid_protocol a,
       bInterfaceNumber = lid_number a\<rparr>) (fill_usb_interfaces is)"

definition config_endpoints :: "libusb_config_descriptor \<Rightarrow> libusb_endpoint_descriptor list" where
  "config_endpoints config = concat (map lid_endpoint (concat (lcd_interface config)))"

definition fill_stub_endpoint :: "libusb_endpoint_descriptor \<Rightarrow> l_stub_endpoint" where
  "fill_stub_endpoint desc = \<lparr>se_nr = led_bEndpointAddress desc AND 0xf, se_dir = led_bEndpointAddress desc AND 0x80,
     se_type = led_bmAttributes desc AND LIBUSB_TRANSFER_TYPE_MASK\<rparr>"

text \<open>The three loops go through all endpoints, but \<open>num\<close> stays 0: each endpoint is written to the first element.\<close>

fun fill_stub_endpoints :: "l_stub_endpoint list \<Rightarrow> libusb_endpoint_descriptor list \<Rightarrow> l_stub_endpoint list option" where
  "fill_stub_endpoints eps [] = Some eps"
| "fill_stub_endpoints eps (d # ds) =
     (let num = 0 in
      if num < length eps then fill_stub_endpoints (eps[num := fill_stub_endpoint d]) ds else None)"

definition count_endpoints :: "libusb_config_descriptor \<Rightarrow> nat" where
  "count_endpoints config = length (config_endpoints config)"

section \<open>Exported devices\<close>

text \<open>A \<open>usbip_exported_device\<close> with the \<open>stub_edev_data\<close> behind it.\<close>

record 'c l_exported_device =
  le_udev :: usbip_usb_device
  le_uinf :: "usbip_usb_interface list"
  le_dev :: nat
  le_eps :: "l_stub_endpoint list"
  le_sdev :: "'c l_stub_device option"

text \<open>The inner option is a null pointer.\<close>

definition exported_device_new ::
  "('c, 'k) lib_sys_scheme \<Rightarrow> nat \<Rightarrow> libusb_device_descriptor \<Rightarrow> 'c \<Rightarrow> ('c l_exported_device option \<times> 'c) option" where
  "exported_device_new L dev desc c = (case lib_active_config L dev c of
     None \<Rightarrow> Some (None, c)
   | Some config \<Rightarrow>
       let num_eps = count_endpoints config;
           (ok, c1) = l_malloc L (360 + 4 * length (lcd_interface config) + 24 + 3 * num_eps) c in
       if \<not> ok then Some (None, c1)
       else do { us \<leftarrow> fill_usb_interfaces (lcd_interface config);
                 eps \<leftarrow> fill_stub_endpoints (replicate num_eps \<lparr>se_nr = 0, se_dir = 0, se_type = 0\<rparr>) (config_endpoints config);
                 Some (Some \<lparr>le_udev = do_fill_usb_device L dev desc config, le_uinf = us, le_dev = dev, le_eps = eps,
                   le_sdev = None\<rparr>, c1) })"

text \<open>The file that says that a device is exported.  The fault is a path longer than the array for it.\<close>

definition edev_get_path :: "('c, 'k) lib_sys_scheme \<Rightarrow> string \<Rightarrow> string option" where
  "edev_get_path L busid =
     (let path = tmp_dir L @ ''/usbip/edevs/'' @ busid in if length path < 288 then Some path else None)"

definition stub_find_exported_device :: "('c, 'k) lib_sys_scheme \<Rightarrow> string \<Rightarrow> 'c \<Rightarrow> bool option" where
  "stub_find_exported_device L busid c = map_option (\<lambda>path. l_stat L path c) (edev_get_path L busid)"

text \<open>Each device is added at the head of the list; a device that fails ends the function.\<close>

fun l_refresh_devices ::
  "('c, 'k) lib_sys_scheme \<Rightarrow> nat list \<Rightarrow> 'c l_exported_device list \<Rightarrow> 'c \<Rightarrow>
     (int \<times> 'c l_exported_device list \<times> 'c) option" where
  "l_refresh_devices L [] edevs c = Some (0, edevs, c)"
| "l_refresh_devices L (dev # devs) edevs c = (case stub_find_exported_device L (l_get_busid L dev) c of
     None \<Rightarrow> None
   | Some False \<Rightarrow> l_refresh_devices L devs edevs c
   | Some True \<Rightarrow> (case lib_device_descriptor L dev c of
       None \<Rightarrow> Some (-1, edevs, c)
     | Some desc \<Rightarrow>
         if ldd_class desc = 9 then l_refresh_devices L devs edevs c
         else (case exported_device_new L dev desc c of
           None \<Rightarrow> None
         | Some (None, c1) \<Rightarrow> Some (-1, edevs, c1)
         | Some (Some e, c1) \<Rightarrow> l_refresh_devices L devs (e # edevs) c1)))"

definition l_stub_refresh_device_list ::
  "('c, 'k) lib_sys_scheme \<Rightarrow> 'c \<Rightarrow> (int \<times> 'c l_exported_device list \<times> 'c) option" where
  "l_stub_refresh_device_list L c = (case lib_get_device_list L c of
     None \<Rightarrow> Some (-1, [], c)
   | Some devs \<Rightarrow> l_refresh_devices L devs [] c)"

definition l_stub_get_device :: "'c l_exported_device list \<Rightarrow> string \<Rightarrow> 'c l_exported_device option" where
  "l_stub_get_device edevs busid =
     find (\<lambda>e. strn_eq (cstr busid) (cstr (ub_busid (le_udev e))) SYSFS_BUS_ID_SIZE) edevs"

text \<open>\<open>strcmp\<close>: whether the bus id comes first.\<close>

fun busid_le :: "string \<Rightarrow> string \<Rightarrow> bool" where
  "busid_le [] ys = True"
| "busid_le (x # xs) [] = False"
| "busid_le (x # xs) (y # ys) =
     (if x = y then busid_le xs ys else (of_char x :: nat) < of_char y)"

definition comp_devices :: "usbip_usb_device \<Rightarrow> usbip_usb_device \<Rightarrow> bool" where
  "comp_devices da db = busid_le (cstr (ub_busid da)) (cstr (ub_busid db))"

text \<open>\<open>qsort\<close> by that order.\<close>

fun insert_device :: "usbip_usb_device \<Rightarrow> usbip_usb_device list \<Rightarrow> usbip_usb_device list" where
  "insert_device d [] = [d]"
| "insert_device d (e # es) = (if comp_devices d e then d # e # es else e # insert_device d es)"

definition l_stub_list_devices :: "('c, 'k) lib_sys_scheme \<Rightarrow> 'c \<Rightarrow> int \<times> usbip_usb_device list \<times> 'c" where
  "l_stub_list_devices L c = (case lib_get_device_list L c of
     None \<Rightarrow> (-1, [], c)
   | Some devs \<Rightarrow>
       let (ok, c1) = l_malloc L (312 * length devs) c in
       if \<not> ok then (-1, [], c1)
       else let ds = List.map_filter (\<lambda>dev. case fill_usb_device L dev c1 of Filled d \<Rightarrow> Some d | _ \<Rightarrow> None) devs in
         (int (length ds), foldr insert_device ds [], c1))"

text \<open>An error counts as a device that was found.\<close>

definition stub_find_device :: "('c, 'k) lib_sys_scheme \<Rightarrow> string \<Rightarrow> 'c \<Rightarrow> int" where
  "stub_find_device L busid c = (case lib_get_device_list L c of
     None \<Rightarrow> -1
   | Some devs \<Rightarrow> if list_ex (\<lambda>dev. l_get_busid L dev = busid) devs then 1 else 0)"

text \<open>The directories of a path, each up to a slash that is not followed by another one.\<close>

fun path_dirs :: "string \<Rightarrow> string \<Rightarrow> string list" where
  "path_dirs pre [] = []"
| "path_dirs pre (x # xs) =
     (if x = CHR ''/'' \<and> (case xs of [] \<Rightarrow> True | y # _ \<Rightarrow> y \<noteq> CHR ''/'')
      then pre # path_dirs (pre @ [x]) xs else path_dirs (pre @ [x]) xs)"

fun mkdirs :: "('c, 'k) lib_sys_scheme \<Rightarrow> string list \<Rightarrow> 'c \<Rightarrow> int \<times> 'c" where
  "mkdirs L [] c = (0, c)"
| "mkdirs L (d # ds) c = (case l_mkdir L d c of (r, c1) \<Rightarrow>
     if r < 0 \<and> r \<noteq> - EEXIST then (-1, c1) else mkdirs L ds c1)"

definition edev_mkdir :: "('c, 'k) lib_sys_scheme \<Rightarrow> string \<Rightarrow> 'c \<Rightarrow> int \<times> 'c" where
  "edev_mkdir L path c = mkdirs L (path_dirs (take 1 path) (drop 1 path)) c"

definition stub_open :: "('c, 'k) lib_sys_scheme \<Rightarrow> 'c \<Rightarrow> int \<times> 'c" where "stub_open L c = lib_init L c"
definition stub_close :: "('c, 'k) lib_sys_scheme \<Rightarrow> 'c \<Rightarrow> 'c" where "stub_close L c = lib_exit L c"

definition stub_bind_device :: "('c, 'k) lib_sys_scheme \<Rightarrow> string \<Rightarrow> 'c \<Rightarrow> (int \<times> 'c) option" where
  "stub_bind_device L busid c =
     (let (r, c1) = stub_open L c in
      if r \<noteq> 0 then Some (-1, c1)
      else if stub_find_device L busid c1 = 0 then Some (-1, stub_close L c1)
      else do {
        path \<leftarrow> edev_get_path L busid;
        let (r2, c2) = edev_mkdir L path c1;
        if r2 \<noteq> 0 then Some (-1, stub_close L c2)
        else let (fd, c3) = l_create L path c2 in Some (if fd < 0 then -1 else 0, stub_close L c3) })"

definition stub_unbind_device :: "('c, 'k) lib_sys_scheme \<Rightarrow> string \<Rightarrow> 'c \<Rightarrow> (int \<times> 'c) option" where
  "stub_unbind_device L busid c =
     (let (r, c1) = stub_open L c in
      if r \<noteq> 0 then Some (-1, c1)
      else do { path \<leftarrow> edev_get_path L busid;
                let (r2, c2) = l_unlink L path c1;
                Some (if r2 \<noteq> 0 then -1 else 0, stub_close L c2) })"

section \<open>Interfaces\<close>

definition release_interface ::
  "('c, 'k) lib_sys_scheme \<Rightarrow> nat \<Rightarrow> bool \<Rightarrow> l_stub_interface \<Rightarrow> 'c \<Rightarrow> l_stub_interface \<times> 'c" where
  "release_interface L dev force intf c =
     (let nr = bInterfaceNumber (si_uinf intf);
          (i1, c1) = (if force \<or> si_claimed intf
            then let (ret, c') = lib_release_interface L dev nr c in (if ret = 0 then intf\<lparr>si_claimed := False\<rparr> else intf, c')
            else (intf, c)) in
      if force \<or> si_detached i1
      then let (ret, c2) = lib_attach_kernel_driver L dev nr c1 in (if ret = 0 then i1\<lparr>si_detached := False\<rparr> else i1, c2)
      else (i1, c1))"

fun release_interfaces ::
  "('c, 'k) lib_sys_scheme \<Rightarrow> nat \<Rightarrow> bool \<Rightarrow> l_stub_interface list \<Rightarrow> 'c \<Rightarrow> l_stub_interface list \<times> 'c" where
  "release_interfaces L dev force [] c = ([], c)"
| "release_interfaces L dev force (i # is) c =
     (let (i', c1) = release_interface L dev force i c; (is', c2) = release_interfaces L dev force is c1 in (i' # is', c2))"

definition claim_interface ::
  "('c, 'k) lib_sys_scheme \<Rightarrow> nat \<Rightarrow> l_stub_interface \<Rightarrow> 'c \<Rightarrow> int \<times> l_stub_interface \<times> 'c" where
  "claim_interface L dev intf c =
     (let nr = bInterfaceNumber (si_uinf intf);
          (ret, c1) = lib_detach_kernel_driver L dev nr c;
          i1 = (if ret \<noteq> 0 then intf else intf\<lparr>si_detached := True\<rparr>);
          (ret2, c2) = lib_claim_interface L dev nr c1 in
      if ret2 \<noteq> 0 then let (i2, c3) = release_interface L dev False i1 c2 in (-1, i2, c3)
      else (0, i1\<lparr>si_claimed := True\<rparr>, c2))"

fun claim_interfaces ::
  "('c, 'k) lib_sys_scheme \<Rightarrow> nat \<Rightarrow> l_stub_interface list \<Rightarrow> 'c \<Rightarrow> int \<times> l_stub_interface list \<times> 'c" where
  "claim_interfaces L dev [] c = (0, [], c)"
| "claim_interfaces L dev (i # is) c =
     (let (r, i', c1) = claim_interface L dev i c in
      if r \<noteq> 0 then (-1, i' # is, c1)
      else let (r2, is', c2) = claim_interfaces L dev is c1 in (r2, i' # is', c2))"

section \<open>A device in use\<close>

definition l_get_devid :: "('c, 'k) lib_sys_scheme \<Rightarrow> nat \<Rightarrow> u32" where
  "l_get_devid L dev = push_bit 16 (ucast (lib_bus_number L dev)) OR ucast (lib_device_address L dev)"

text \<open>The null pointer is \<open>None\<close>.\<close>

definition stub_device_new ::
  "('c, 'k) lib_sys_scheme \<Rightarrow> 'c l_exported_device \<Rightarrow> 'c \<Rightarrow> 'c l_stub_device option \<times> 'c" where
  "stub_device_new L edev c =
     (let (ok, c1) = l_malloc L (700 + 6 * length (le_uinf edev) + 3 * length (le_eps edev)) c in
      (if \<not> ok then None
       else Some \<lparr>l_dev = le_dev edev, l_handle = False, l_udev = le_udev edev, l_devid = l_get_devid L (le_dev edev),
         l_eps = le_eps edev,
         l_ifs = map (\<lambda>x. \<lparr>si_uinf = x, si_detached = False, si_claimed = False\<rparr>) (le_uinf edev),
         l_priv_init = [], l_priv_tx = [], l_priv_free = [], l_unlink_tx = [], l_unlink_free = [],
         l_should_stop = False, l_next = 0, l_status = SDEV_ST_AVAILABLE, l_sock = None, l_event = 0,
         l_eh_should_stop = False\<rparr>, c1))"

definition stub_export_device ::
  "('c, 'k) lib_sys_scheme \<Rightarrow> 'c l_exported_device \<Rightarrow> 'c usbip_sock \<Rightarrow> 'c \<Rightarrow> int \<times> 'c l_exported_device \<times> 'c" where
  "stub_export_device L edev sk c = (case stub_device_new L edev c of
     (None, c1) \<Rightarrow> (-1, edev, c1)
   | (Some sd, c1) \<Rightarrow>
       let (ret, c2) = lib_open L (l_dev sd) c1 in
       if ret \<noteq> 0 then (-1, edev\<lparr>le_sdev := Some sd\<rparr>, c2)
       else let (r, ifs, c3) = claim_interfaces L (l_dev sd) (l_ifs sd) c2; sd1 = sd\<lparr>l_ifs := ifs\<rparr> in
         if r \<noteq> 0 then (-1, edev\<lparr>le_sdev := Some sd1\<rparr>, lib_close L (l_dev sd) c3)
         else (0, edev\<lparr>le_sdev := Some (sd1\<lparr>l_handle := True, l_sock := Some sk\<rparr>)\<rparr>, c3))"

definition stub_unexport_device :: "('c, 'k) lib_sys_scheme \<Rightarrow> 'c lib_conn \<Rightarrow> 'c lib_conn" where
  "stub_unexport_device L s =
     (let (ifs, c) = release_interfaces L (l_dev (lsd s)) False (l_ifs (lsd s)) (lenv s) in
      s\<lparr>lsd := (lsd s)\<lparr>l_ifs := ifs, l_handle := False\<rparr>, lenv := lib_close L (l_dev (lsd s)) c\<rparr>)"

definition l_stub_shutdown :: "'c lib_conn \<Rightarrow> 'c lib_conn" where
  "l_stub_shutdown s = l_usbip_stop_eh (s\<lparr>lsd := (lsd s)\<lparr>l_should_stop := True\<rparr>\<rparr>)"

definition l_stub_device_reset :: "('c, 'k) lib_sys_scheme \<Rightarrow> 'c lib_conn \<Rightarrow> 'c lib_conn" where
  "l_stub_device_reset L s =
     (let (ret, c) = lib_reset_device L (l_dev (lsd s)) (lenv s) in
      s\<lparr>lenv := c, lsd := (lsd s)\<lparr>l_status := (if ret \<noteq> 0 then SDEV_ST_ERROR else SDEV_ST_AVAILABLE)\<rparr>\<rparr>)"

definition l_stub_device_unusable :: "'c lib_conn \<Rightarrow> 'c lib_conn" where
  "l_stub_device_unusable s = s\<lparr>lsd := (lsd s)\<lparr>l_status := SDEV_ST_ERROR\<rparr>\<rparr>"

definition l_eh_ops ::
  "('c, 'k) lib_sys_scheme \<Rightarrow> ('c lib_conn \<Rightarrow> 'c lib_conn) \<times> ('c lib_conn \<Rightarrow> 'c lib_conn) \<times> ('c lib_conn \<Rightarrow> 'c lib_conn)" where
  "l_eh_ops L = (l_stub_shutdown, l_stub_device_reset L, l_stub_device_unusable)"

text \<open>The threads that could be created are given: the event handler, the receiver and the sender.  The status is set
  last, when they already run.\<close>

definition l_stub_start :: "bool \<Rightarrow> bool \<Rightarrow> bool \<Rightarrow> 'c lib_conn \<Rightarrow> int \<times> 'c lib_conn" where
  "l_stub_start eh rx tx s =
     (let (r, s1) = l_usbip_start_eh eh s in
      if r \<noteq> 0 then (-1, s1) else if \<not> rx then (-1, s1) else if \<not> tx then (-1, s1)
      else (0, s1\<lparr>lsd := (lsd s1)\<lparr>l_status := SDEV_ST_USED\<rparr>\<rparr>))"

text \<open>The lists are searched, but nothing is taken off them.\<close>

definition l_stub_priv_pop_from_listhead :: "l_stub_priv list \<Rightarrow> l_stub_priv option" where
  "l_stub_priv_pop_from_listhead ps = fold (\<lambda>p r. r) ps None"

definition l_stub_priv_pop :: "'c l_stub_device \<Rightarrow> l_stub_priv option" where
  "l_stub_priv_pop sd = (case l_stub_priv_pop_from_listhead (l_priv_init sd) of
     Some p \<Rightarrow> Some p
   | None \<Rightarrow> (case l_stub_priv_pop_from_listhead (l_priv_tx sd) of
       Some p \<Rightarrow> Some p
     | None \<Rightarrow> l_stub_priv_pop_from_listhead (l_priv_free sd)))"

text \<open>A request that was popped would still be on its list after it was freed; the fault is its second use.\<close>

definition stub_device_cleanup_transfers ::
  "('c, 'k) lib_sys_scheme \<Rightarrow> 'c lib_conn \<Rightarrow> 'c lib_conn option" where
  "stub_device_cleanup_transfers L s = (case l_stub_priv_pop (lsd s) of
     None \<Rightarrow> Some s
   | Some p \<Rightarrow> None)"

definition l_stub_device_cleanup_unlinks :: "'c lib_conn \<Rightarrow> 'c lib_conn" where
  "l_stub_device_cleanup_unlinks s = s\<lparr>lsd := (lsd s)\<lparr>l_unlink_tx := [], l_unlink_free := []\<rparr>\<rparr>"

text \<open>\<open>run\<close> is what the threads do until all of them have ended, \<open>None\<close> if one of them has a fault.  A device that
  was not exported has no structure; giving it back is a fault.\<close>

definition stub_try_transfer ::
  "('c, 'k) lib_sys_scheme \<Rightarrow> bool \<times> bool \<times> bool \<Rightarrow> ('c lib_conn \<Rightarrow> 'c lib_conn option) \<Rightarrow>
     'c l_exported_device \<Rightarrow> 'c usbip_sock option \<Rightarrow> 'c \<Rightarrow> (int \<times> 'c l_exported_device \<times> 'c) option" where
  "stub_try_transfer L created run edev sk c = (if sk = None then Some (-1, edev, c) else case le_sdev edev of
     None \<Rightarrow> None
   | Some sd \<Rightarrow> (case created of (eh, rx, tx) \<Rightarrow>
       (case l_stub_start eh rx tx \<lparr>lsd = sd, lenv = c\<rparr> of (r, s1) \<Rightarrow>
         if r \<noteq> 0 then Some (-1, edev\<lparr>le_sdev := Some (lsd s1)\<rparr>, lenv s1)
         else do {
           s2 \<leftarrow> run s1;
           s3 \<leftarrow> stub_device_cleanup_transfers L s2;
           let s4 = stub_unexport_device L (l_stub_device_cleanup_unlinks s3);
           Some (0, edev\<lparr>le_sdev := Some (lsd s4)\<rparr>, lenv s4) })))"

definition stub_has_transferred :: bool where "stub_has_transferred = True"

end
