(* ===== verification/Lib_Tx.thy ===== *)
theory Lib_Tx
  imports Lib_Dev
begin

text \<open>
  The sender of the libusb host, \<open>stub_tx.c\<close>: the completion of a transfer and the two loops that send the results of
  submissions and of unlink requests.
\<close>

section \<open>Requests\<close>

definition l_all_privs :: "'c l_stub_device \<Rightarrow> l_stub_priv list" where
  "l_all_privs sd = l_priv_init sd @ l_priv_tx sd @ l_priv_free sd"

definition l_find_priv :: "nat \<Rightarrow> 'c l_stub_device \<Rightarrow> l_stub_priv option" where
  "l_find_priv i sd = find (\<lambda>p. lp_id p = i) (l_all_privs sd)"

text \<open>A write through the pointer to a request, and \<open>list_del\<close>.\<close>

definition l_write_priv :: "nat \<Rightarrow> (l_stub_priv \<Rightarrow> l_stub_priv) \<Rightarrow> 'c l_stub_device \<Rightarrow> 'c l_stub_device" where
  "l_write_priv i f sd = (let g = map (\<lambda>p. if lp_id p = i then f p else p) in
     sd\<lparr>l_priv_init := g (l_priv_init sd), l_priv_tx := g (l_priv_tx sd), l_priv_free := g (l_priv_free sd)\<rparr>)"

definition l_del_priv :: "nat \<Rightarrow> 'c l_stub_device \<Rightarrow> 'c l_stub_device" where
  "l_del_priv i sd = (let g = filter (\<lambda>p. lp_id p \<noteq> i) in
     sd\<lparr>l_priv_init := g (l_priv_init sd), l_priv_tx := g (l_priv_tx sd), l_priv_free := g (l_priv_free sd)\<rparr>)"

definition l_stub_free_priv_and_trx :: "l_stub_priv \<Rightarrow> 'c l_stub_device \<Rightarrow> 'c l_stub_device option" where
  "l_stub_free_priv_and_trx p sd = (case lp_trx p of Trx trx \<Rightarrow> Some (l_del_priv (lp_id p) sd) | _ \<Rightarrow> None)"

section \<open>Completion\<close>

definition l_stub_enqueue_ret_unlink ::
  "('c, 'k) lib_sys_scheme \<Rightarrow> u32 \<Rightarrow> libusb_transfer_status \<Rightarrow> 'c lib_conn \<Rightarrow> 'c lib_conn" where
  "l_stub_enqueue_ret_unlink L seqnum st s =
     (let (ok, c) = l_malloc L 32 (lenv s); s1 = s\<lparr>lenv := c\<rparr> in
      if \<not> ok then l_usbip_event_add VDEV_EVENT_ERROR_MALLOC s1
      else s1\<lparr>lsd := (lsd s1)\<lparr>l_unlink_tx := l_unlink_tx (lsd s1) @ [\<lparr>lu_seqnum = ucast seqnum, lu_status = st\<rparr>]\<rparr>\<rparr>)"

text \<open>libusb hands back the transfer of request \<open>i\<close> as \<open>trx\<close>.  The fault is a request that was freed.\<close>

definition l_stub_complete ::
  "('c, 'k) lib_sys_scheme \<Rightarrow> nat \<Rightarrow> libusb_transfer \<Rightarrow> 'c lib_conn \<Rightarrow> 'c lib_conn option" where
  "l_stub_complete L i trx s = (case l_find_priv i (lsd s) of
     None \<Rightarrow> None
   | Some p0 \<Rightarrow>
       let p = p0\<lparr>lp_trx := Trx trx\<rparr>; s1 = s\<lparr>lsd := l_write_priv i (\<lambda>p. p\<lparr>lp_trx := Trx trx\<rparr>) (lsd s)\<rparr> in
       if l_sock (lsd s1) = None then Some s1
       else if lp_unlinking p then
         let s2 = l_stub_enqueue_ret_unlink L (ucast (lp_seqnum p)) (lt_status trx) s1 in
         map_option (\<lambda>sd. s2\<lparr>lsd := sd\<rparr>) (l_stub_free_priv_and_trx p (lsd s2))
       else let sd = l_del_priv i (lsd s1) in Some (s1\<lparr>lsd := sd\<lparr>l_priv_tx := l_priv_tx sd @ [p]\<rparr>\<rparr>))"

section \<open>Sending the results of submissions\<close>

definition l_setup_base_pdu :: "u32 \<Rightarrow> u32 \<Rightarrow> usbip_header_basic" where
  "l_setup_base_pdu command seqnum =
     \<lparr>b_command = command, b_seqnum = seqnum, b_devid = 0, b_direction = 0, b_ep = 0\<rparr>"

definition l_setup_ret_submit_pdu :: "usbip_header \<Rightarrow> ulong \<Rightarrow> libusb_transfer \<Rightarrow> usbip_header" where
  "l_setup_ret_submit_pdu rpdu seqnum trx =
     l_usbip_pack_ret_submit (rpdu\<lparr>base := l_setup_base_pdu USBIP_RET_SUBMIT (ucast seqnum)\<rparr>) trx"

definition l_setup_ret_unlink_pdu :: "usbip_header \<Rightarrow> l_stub_unlink \<Rightarrow> usbip_header" where
  "l_setup_ret_unlink_pdu rpdu ul =
     l_usbip_pack_ret_unlink (rpdu\<lparr>base := l_setup_base_pdu USBIP_RET_UNLINK (ucast (lu_seqnum ul))\<rparr>) ul"

definition l_dequeue_from_priv_tx :: "'c l_stub_device \<Rightarrow> (l_stub_priv \<times> 'c l_stub_device) option" where
  "l_dequeue_from_priv_tx sd = (case l_priv_tx sd of
     [] \<Rightarrow> None
   | p # ps \<Rightarrow> Some (p, sd\<lparr>l_priv_tx := ps, l_priv_free := l_priv_free sd @ [p]\<rparr>))"

text \<open>The sum is an \<open>int\<close>; the fault is a number of packets that were not allocated.\<close>

definition fixup_actual_length :: "libusb_transfer \<Rightarrow> libusb_transfer option" where
  "fixup_actual_length trx =
     (let np = nat (lt_num_iso_packets trx) in
      if np \<le> length (lt_iso_packet_desc trx)
      then Some (trx\<lparr>lt_actual_length := sint (sum_list (map li_actual_length (take np (lt_iso_packet_desc trx))))\<rparr>)
      else None)"

definition l_buffer_of :: "libusb_transfer \<Rightarrow> u8 list" where
  "l_buffer_of trx = (case lt_buffer trx of None \<Rightarrow> [] | Some b \<Rightarrow> b)"

text \<open>The packets from number \<open>i\<close> on, which begins at \<open>off\<close>.\<close>

fun l_iso_kvecs :: "libusb_transfer \<Rightarrow> nat \<Rightarrow> nat \<Rightarrow> nat \<Rightarrow> u8 list list option" where
  "l_iso_kvecs trx i off 0 = Some []"
| "l_iso_kvecs trx i off (Suc n) =
     (if i < length (lt_iso_packet_desc trx) then
        let d = lt_iso_packet_desc trx ! i in
        do { v \<leftarrow> kvec (l_buffer_of trx) off (unat (li_actual_length d));
             vs \<leftarrow> l_iso_kvecs trx (Suc i) (off + unat (li_length d)) n;
             Some (v # vs) }
      else None)"

text \<open>The data of an IN transfer; that of a control transfer is behind the setup packet.\<close>

definition l_ret_submit_data :: "bool \<Rightarrow> libusb_transfer \<Rightarrow> u8 list list option" where
  "l_ret_submit_data is_in trx =
     (if is_in \<and> lt_type trx \<noteq> LIBUSB_TRANSFER_TYPE_ISOCHRONOUS \<and> lt_actual_length trx > 0
      then map_option (\<lambda>v. [v]) (kvec (l_buffer_of trx)
        (if lt_type trx = LIBUSB_TRANSFER_TYPE_CONTROL then 8 else 0) (nat (lt_actual_length trx)))
      else if is_in \<and> lt_type trx = LIBUSB_TRANSFER_TYPE_ISOCHRONOUS
      then l_iso_kvecs trx 0 0 (nat (lt_num_iso_packets trx))
      else Some [])"

definition l_ret_submit_header :: "bool \<Rightarrow> ulong \<Rightarrow> libusb_transfer \<Rightarrow> u8 list" where
  "l_ret_submit_header le seqnum trx =
     header_bytes le (l_usbip_header_correct_endian le (l_setup_ret_submit_pdu zero_header seqnum trx) True)"

definition l_fail_tx :: "ulong \<Rightarrow> 'c lib_conn \<Rightarrow> (int \<times> 'c lib_conn) option" where
  "l_fail_tx ev s = Some (-1, l_usbip_event_add ev s)"

text \<open>The body of the loop for one request: the number of bytes sent, or -1.\<close>

definition l_stub_send_one ::
  "('c, 'k) lib_sys_scheme \<Rightarrow> l_stub_priv \<Rightarrow> 'c lib_conn \<Rightarrow> (int \<times> 'c lib_conn) option" where
  "l_stub_send_one L p s = (case lp_trx p of
     Trx trx0 \<Rightarrow>
       let isoc = (lt_type trx0 = LIBUSB_TRANSFER_TYPE_ISOCHRONOUS); is_in = (lp_dir p = ucast USBIP_DIR_IN) in
       do { trx \<leftarrow> if isoc then fixup_actual_length trx0 else Some trx0;
            let (ok, c1) = l_malloc L (nat ((if isoc then 2 + lt_num_iso_packets trx else 2) * 16 mod 2 ^ 64)) (lenv s);
            let s1 = s\<lparr>lsd := l_write_priv (lp_id p) (\<lambda>p. p\<lparr>lp_trx := Trx trx\<rparr>) (lsd s), lenv := c1\<rparr>;
            if \<not> ok then l_fail_tx SDEV_EVENT_ERROR_MALLOC s1
            else do {
              let hdr = l_ret_submit_header (l_le L) (lp_seqnum p) trx;
              data \<leftarrow> l_ret_submit_data is_in trx;
              let txsize = length hdr + length (concat data);
              if is_in \<and> isoc \<and> int txsize \<noteq> int (length hdr) + lt_actual_length trx
              then l_fail_tx SDEV_EVENT_ERROR_TCP s1
              else do {
                (descs, c2) \<leftarrow> if isoc then l_usbip_alloc_iso_desc_pdu L trx (lenv s1) else Some (Some [], lenv s1);
                let s2 = s1\<lparr>lenv := c2\<rparr>;
                (case descs of
                   None \<Rightarrow> l_fail_tx SDEV_EVENT_ERROR_MALLOC s2
                 | Some ds \<Rightarrow>
                     let iov = [hdr] @ data @ (if isoc then [ds] else []) in
                     do { (sent, s3) \<leftarrow> l_usbip_sendmsg L iov s2;
                          if sent \<noteq> int (length (concat iov)) then l_fail_tx SDEV_EVENT_ERROR_TCP s3
                          else Some (sent, s3) }) } } }
   | _ \<Rightarrow> None)"

text \<open>The requests that were sent are freed.\<close>

definition l_free_sent :: "'c l_stub_device \<Rightarrow> 'c l_stub_device option" where
  "l_free_sent sd = (if list_all (\<lambda>p. \<exists>trx. lp_trx p = Trx trx) (l_priv_free sd) then Some (sd\<lparr>l_priv_free := []\<rparr>) else None)"

lemma map_length_write: "length (l_priv_tx (l_write_priv i f sd)) = length (l_priv_tx sd)"
  by (simp add: l_write_priv_def Let_def)

lemma l_event_add_tx [simp]: "l_priv_tx (lsd (l_usbip_event_add ev s)) = l_priv_tx (lsd s)"
  "l_unlink_tx (lsd (l_usbip_event_add ev s)) = l_unlink_tx (lsd s)"
  by (simp_all add: l_usbip_event_add_def)

lemma l_sendmsg_lsd: "l_usbip_sendmsg L vec s = Some (r, s') \<Longrightarrow> lsd s' = lsd s"
  by (auto simp: l_usbip_sendmsg_def split: option.splits prod.splits)

lemma l_stub_send_one_tx:
  "l_stub_send_one L p s = Some (r, s') \<Longrightarrow> length (l_priv_tx (lsd s')) = length (l_priv_tx (lsd s))"
  by (auto simp: l_stub_send_one_def l_fail_tx_def Let_def map_length_write dest!: l_sendmsg_lsd
      split: trx_pointer.splits bind_splits prod.splits if_splits option.splits)

function l_stub_send_submit_loop ::
  "('c, 'k) lib_sys_scheme \<Rightarrow> nat \<Rightarrow> 'c lib_conn \<Rightarrow> (int \<times> 'c lib_conn) option" where
  "l_stub_send_submit_loop L tot s = (case l_dequeue_from_priv_tx (lsd s) of
     None \<Rightarrow> map_option (\<lambda>sd. (sint (word_of_nat tot :: u32), s\<lparr>lsd := sd\<rparr>)) (l_free_sent (lsd s))
   | Some (p, sd) \<Rightarrow> (case l_stub_send_one L p (s\<lparr>lsd := sd\<rparr>) of
       None \<Rightarrow> None
     | Some (r, s') \<Rightarrow> if r < 0 then Some (-1, s') else l_stub_send_submit_loop L (tot + nat r) s'))"
  by pat_completeness auto
termination
  by (relation "measure (\<lambda>(L, tot, s). length (l_priv_tx (lsd s)))")
     (auto simp: l_dequeue_from_priv_tx_def split: list.splits dest!: l_stub_send_one_tx)

declare l_stub_send_submit_loop.simps [simp del]

definition l_stub_send_ret_submit :: "('c, 'k) lib_sys_scheme \<Rightarrow> 'c lib_conn \<Rightarrow> (int \<times> 'c lib_conn) option" where
  "l_stub_send_ret_submit L s = l_stub_send_submit_loop L 0 s"

section \<open>Sending the results of unlink requests\<close>

definition l_dequeue_from_unlink_tx :: "'c l_stub_device \<Rightarrow> (l_stub_unlink \<times> 'c l_stub_device) option" where
  "l_dequeue_from_unlink_tx sd = (case l_unlink_tx sd of
     [] \<Rightarrow> None
   | ul # uls \<Rightarrow> Some (ul, sd\<lparr>l_unlink_tx := uls, l_unlink_free := l_unlink_free sd @ [ul]\<rparr>))"

definition l_ret_unlink_header :: "bool \<Rightarrow> l_stub_unlink \<Rightarrow> u8 list" where
  "l_ret_unlink_header le ul =
     header_bytes le (l_usbip_header_correct_endian le (l_setup_ret_unlink_pdu zero_header ul) True)"

definition l_stub_send_unlink_one ::
  "('c, 'k) lib_sys_scheme \<Rightarrow> l_stub_unlink \<Rightarrow> 'c lib_conn \<Rightarrow> (int \<times> 'c lib_conn) option" where
  "l_stub_send_unlink_one L ul s =
     do { (sent, s1) \<leftarrow> l_usbip_sendmsg L [l_ret_unlink_header (l_le L) ul] s;
          if sent \<noteq> 48 then l_fail_tx SDEV_EVENT_ERROR_TCP s1 else Some (sent, s1) }"

lemma l_stub_send_unlink_one_tx:
  "l_stub_send_unlink_one L ul s = Some (r, s') \<Longrightarrow> l_unlink_tx (lsd s') = l_unlink_tx (lsd s)"
  by (auto simp: l_stub_send_unlink_one_def l_fail_tx_def dest!: l_sendmsg_lsd split: bind_splits if_splits)

function l_stub_send_unlink_loop ::
  "('c, 'k) lib_sys_scheme \<Rightarrow> nat \<Rightarrow> 'c lib_conn \<Rightarrow> (int \<times> 'c lib_conn) option" where
  "l_stub_send_unlink_loop L tot s = (case l_dequeue_from_unlink_tx (lsd s) of
     None \<Rightarrow> Some (sint (word_of_nat tot :: u32), s\<lparr>lsd := (lsd s)\<lparr>l_unlink_free := []\<rparr>\<rparr>)
   | Some (ul, sd) \<Rightarrow> (case l_stub_send_unlink_one L ul (s\<lparr>lsd := sd\<rparr>) of
       None \<Rightarrow> None
     | Some (r, s') \<Rightarrow> if r < 0 then Some (-1, s') else l_stub_send_unlink_loop L (tot + nat r) s'))"
  by pat_completeness auto
termination
  by (relation "measure (\<lambda>(L, tot, s). length (l_unlink_tx (lsd s)))")
     (auto simp: l_dequeue_from_unlink_tx_def split: list.splits dest!: l_stub_send_unlink_one_tx)

declare l_stub_send_unlink_loop.simps [simp del]

definition l_stub_send_ret_unlink :: "('c, 'k) lib_sys_scheme \<Rightarrow> 'c lib_conn \<Rightarrow> (int \<times> 'c lib_conn) option" where
  "l_stub_send_ret_unlink L s = l_stub_send_unlink_loop L 0 s"

section \<open>The loop\<close>

fun complete_all ::
  "('c, 'k) lib_sys_scheme \<Rightarrow> (nat \<times> libusb_transfer) list \<Rightarrow> 'c lib_conn \<Rightarrow> 'c lib_conn option" where
  "complete_all L [] s = Some s"
| "complete_all L ((i, trx) # ts) s = l_stub_complete L i trx s \<bind> complete_all L ts"

text \<open>\<open>LIBUSB_ERROR_TIMEOUT\<close> is -7.\<close>

definition poll_events_and_complete :: "('c, 'k) lib_sys_scheme \<Rightarrow> 'c lib_conn \<Rightarrow> 'c lib_conn option" where
  "poll_events_and_complete L s =
     (case lib_handle_events L (lenv s) of (ret, ts, c) \<Rightarrow>
        map_option (\<lambda>s1. if ret \<noteq> 0 \<and> ret \<noteq> -7 then l_usbip_event_add SDEV_EVENT_ERROR_SUBMIT s1 else s1)
          (complete_all L ts (s\<lparr>lenv := c\<rparr>)))"

text \<open>\<open>others\<close> is what the other threads do before each turn; the loop runs as long as there are turns.\<close>

fun l_stub_tx_loop ::
  "('c, 'k) lib_sys_scheme \<Rightarrow> ('c lib_conn \<Rightarrow> 'c lib_conn) list \<Rightarrow> 'c lib_conn \<Rightarrow> 'c lib_conn option" where
  "l_stub_tx_loop L [] s = Some s"
| "l_stub_tx_loop L (f # others) s =
     (let s0 = f s in
      if l_should_stop (lsd s0) then Some s0
      else do {
        s1 \<leftarrow> poll_events_and_complete L s0;
        if l_usbip_event_happened s1 then Some s1
        else do {
          (r, s2) \<leftarrow> l_stub_send_ret_submit L s1;
          if r < 0 then Some s2
          else do {
            (r2, s3) \<leftarrow> l_stub_send_ret_unlink L s2;
            if r2 < 0 then Some s3 else l_stub_tx_loop L others s3 } } })"

end
