(* ===== verification/Lib_Rx.thy ===== *)
theory Lib_Rx
  imports Lib_Tx
begin

text \<open>
  The receiver of the libusb host, \<open>stub_rx.c\<close>: the special control requests, unlinking, setting up and submitting
  the transfer of a request, and the loop.
\<close>

section \<open>Control requests\<close>

text \<open>\<open>libusb_control_transfer_get_setup\<close> is the buffer of the transfer; the fields are those of \<open>Stub_Rx\<close>.\<close>

definition get_recipient :: "u8 \<Rightarrow> u8" where "get_recipient rt = rt AND 0x1f"
definition get_request_type :: "u8 \<Rightarrow> u8" where "get_request_type rt = rt AND 0x60"

definition l_is_clear_halt_cmd :: "u8 list \<Rightarrow> bool" where
  "l_is_clear_halt_cmd req = (bRequest req = USB_REQ_CLEAR_FEATURE \<and>
     get_recipient (bRequestType req) = USB_RECIP_ENDPOINT \<and> wValue req = USB_ENDPOINT_HALT)"

definition l_is_set_interface_cmd :: "u8 list \<Rightarrow> bool" where
  "l_is_set_interface_cmd req = (bRequest req = USB_REQ_SET_INTERFACE \<and>
     get_recipient (bRequestType req) = USB_RECIP_INTERFACE)"

definition l_is_set_configuration_cmd :: "u8 list \<Rightarrow> bool" where
  "l_is_set_configuration_cmd req = (bRequest req = USB_REQ_SET_CONFIGURATION \<and>
     get_recipient (bRequestType req) = USB_RECIP_DEVICE)"

definition l_is_reset_device_cmd :: "u8 list \<Rightarrow> bool" where
  "l_is_reset_device_cmd req = (bRequest req = USB_REQ_SET_FEATURE \<and>
     get_request_type (bRequestType req) = USB_RT_PORT \<and> wValue req = USB_PORT_FEAT_RESET)"

definition l_tweak_clear_halt_cmd :: "('c, 'k) lib_sys_scheme \<Rightarrow> nat \<Rightarrow> u8 list \<Rightarrow> 'c \<Rightarrow> int \<times> 'c" where
  "l_tweak_clear_halt_cmd L dev req c = lib_clear_halt L dev (ucast (wIndex req)) c"

definition l_tweak_set_interface_cmd :: "('c, 'k) lib_sys_scheme \<Rightarrow> nat \<Rightarrow> u8 list \<Rightarrow> 'c \<Rightarrow> int \<times> 'c" where
  "l_tweak_set_interface_cmd L dev req c = lib_set_interface_alt_setting L dev (wIndex req) (wValue req) c"

text \<open>Setting the configuration is skipped.\<close>

definition l_tweak_set_configuration_cmd :: "'c \<Rightarrow> int \<times> 'c" where
  "l_tweak_set_configuration_cmd c = (0, c)"

definition l_tweak_reset_device_cmd :: "('c, 'k) lib_sys_scheme \<Rightarrow> nat \<Rightarrow> 'c \<Rightarrow> int \<times> 'c" where
  "l_tweak_reset_device_cmd L dev c = (0, snd (lib_reset_device L dev c))"

definition l_tweak_special_requests :: "('c, 'k) lib_sys_scheme \<Rightarrow> nat \<Rightarrow> libusb_transfer \<Rightarrow> 'c \<Rightarrow> 'c" where
  "l_tweak_special_requests L dev trx c = (case lt_buffer trx of
     None \<Rightarrow> c
   | Some req \<Rightarrow>
       if lt_type trx \<noteq> LIBUSB_TRANSFER_TYPE_CONTROL then c
       else if l_is_clear_halt_cmd req then snd (l_tweak_clear_halt_cmd L dev req c)
       else if l_is_set_interface_cmd req then snd (l_tweak_set_interface_cmd L dev req c)
       else if l_is_set_configuration_cmd req then snd (l_tweak_set_configuration_cmd c)
       else if l_is_reset_device_cmd req then snd (l_tweak_reset_device_cmd L dev c)
       else c)"

section \<open>Unlink requests\<close>

text \<open>The first request of the list with this sequence number; it gets the number of the unlink request.\<close>

fun l_mark_unlinking :: "ulong \<Rightarrow> ulong \<Rightarrow> l_stub_priv list \<Rightarrow> (l_stub_priv \<times> l_stub_priv list) option" where
  "l_mark_unlinking target new [] = None"
| "l_mark_unlinking target new (p # ps) =
     (if lp_seqnum p \<noteq> target then map_option (\<lambda>(q, qs). (q, p # qs)) (l_mark_unlinking target new ps)
      else let q = p\<lparr>lp_unlinking := True, lp_seqnum := new\<rparr> in Some (q, q # ps))"

text \<open>The fault is the message about a request that has no transfer, or one without its device.\<close>

definition l_stub_recv_cmd_unlink ::
  "('c, 'k) lib_sys_scheme \<Rightarrow> usbip_header \<Rightarrow> 'c lib_conn \<Rightarrow> (int \<times> 'c lib_conn) option" where
  "l_stub_recv_cmd_unlink L pdu s =
     (case l_mark_unlinking (ucast (cu_seqnum (cmd_unlink (u pdu)))) (ucast (b_seqnum (base pdu))) (l_priv_init (lsd s)) of
        Some (p, ps) \<Rightarrow> (case lp_trx p of
            Trx trx \<Rightarrow>
              if \<not> lt_callback trx then None
              else (case lib_cancel_transfer L (lp_id p) (lenv s) of (ret, c) \<Rightarrow>
                Some (0, s\<lparr>lsd := (lsd s)\<lparr>l_priv_init := ps\<rparr>, lenv := c\<rparr>))
          | _ \<Rightarrow> None)
      | None \<Rightarrow> Some (0, l_stub_enqueue_ret_unlink L (b_seqnum (base pdu)) LIBUSB_TRANSFER_COMPLETED s))"

section \<open>Submission requests\<close>

definition l_valid_request :: "'c lib_conn \<Rightarrow> usbip_header \<Rightarrow> bool" where
  "l_valid_request s pdu = (b_devid (base pdu) = l_devid (lsd s) \<and> l_status (lsd s) = SDEV_ST_USED)"

text \<open>The address of the new request, or \<open>None\<close>.\<close>

definition l_stub_priv_alloc ::
  "('c, 'k) lib_sys_scheme \<Rightarrow> usbip_header \<Rightarrow> 'c lib_conn \<Rightarrow> nat option \<times> 'c lib_conn" where
  "l_stub_priv_alloc L pdu s =
     (let (ok, c) = l_malloc L 48 (lenv s); s1 = s\<lparr>lenv := c\<rparr>; sd = lsd s1 in
      if \<not> ok then (None, l_usbip_event_add SDEV_EVENT_ERROR_MALLOC s1)
      else (Some (l_next sd), s1\<lparr>lsd := sd\<lparr>l_priv_init := l_priv_init sd @ [\<lparr>lp_id = l_next sd,
          lp_seqnum = ucast (b_seqnum (base pdu)), lp_trx = No_trx, lp_dir = ucast (b_direction (base pdu)),
          lp_unlinking = False\<rparr>], l_next := Suc (l_next sd)\<rparr>\<rparr>))"

definition l_masking_bogus_flags :: "'c l_stub_device \<Rightarrow> libusb_transfer \<Rightarrow> libusb_transfer" where
  "l_masking_bogus_flags sd trx =
     (if \<not> lt_callback trx then trx
      else if lt_type trx = LIBUSB_TRANSFER_TYPE_CONTROL \<and> lt_buffer trx = None then trx
      else let setup = l_buffer_of trx;
               is_out = (if lt_type trx = LIBUSB_TRANSFER_TYPE_CONTROL
                 then bRequestType setup AND 0x80 = 0 \<or> wLength setup = 0
                 else stub_endpoint_dir_out sd (lt_endpoint trx));
               allowed = (if lt_type trx = LIBUSB_TRANSFER_TYPE_BULK \<and> is_out then LIBUSB_TRANSFER_ADD_ZERO_PACKET else 0) OR
                 (if \<not> is_out then LIBUSB_TRANSFER_SHORT_NOT_OK else 0)
           in trx\<lparr>lt_flags := lt_flags trx AND allowed\<rparr>)"

definition zero_transfer :: "libusb_iso_packet_descriptor list \<Rightarrow> libusb_transfer" where
  "zero_transfer descs = \<lparr>lt_flags = 0, lt_endpoint = 0, lt_type = 0, lt_buffer = None, lt_length = 0,
     lt_actual_length = 0, lt_num_iso_packets = 0, lt_status = LIBUSB_TRANSFER_COMPLETED, lt_iso_packet_desc = descs,
     lt_user_data = 0, lt_callback = False\<rparr>"

definition put_trx :: "nat \<Rightarrow> trx_pointer \<Rightarrow> 'c lib_conn \<Rightarrow> 'c lib_conn" where
  "put_trx i t s = s\<lparr>lsd := l_write_priv i (\<lambda>p. p\<lparr>lp_trx := t\<rparr>) (lsd s)\<rparr>"

text \<open>The first half of the submission: the request and its transfer, or \<open>None\<close> when an allocation failed.  The
  fault is a length that does not fit an \<open>int\<close> together with the setup packet.\<close>

definition setup_transfer ::
  "('c, 'k) lib_sys_scheme \<Rightarrow> usbip_header \<Rightarrow> u8 \<Rightarrow> 'c lib_conn \<Rightarrow> ((nat \<times> libusb_transfer) option \<times> 'c lib_conn) option" where
  "setup_transfer L pdu trx_type s = (case l_stub_priv_alloc L pdu s of
     (None, s1) \<Rightarrow> Some (None, s1)
   | (Some i, s1) \<Rightarrow>
       let cs = cmd_submit (u pdu);
           np = (if trx_type = LIBUSB_TRANSFER_TYPE_ISOCHRONOUS then sint (cs_number_of_packets cs) else 0);
           (descs, c2) = lib_alloc_transfer L np (lenv s1); s2 = s1\<lparr>lenv := c2\<rparr> in
       (case descs of
          None \<Rightarrow> Some (None, l_usbip_event_add SDEV_EVENT_ERROR_MALLOC s2)
        | Some ds \<Rightarrow>
            let s3 = put_trx i (Trx (zero_transfer ds)) s2;
                buflen = (if trx_type = LIBUSB_TRANSFER_TYPE_CONTROL then 8 else 0) +
                  max 0 (sint (cs_transfer_buffer_length cs)) in
            if 2 ^ 31 \<le> buflen then None
            else let (ok, c4) = (if 0 < buflen then l_malloc L (nat buflen) (lenv s3) else (True, lenv s3));
                     s4 = s3\<lparr>lenv := c4\<rparr> in
              if \<not> ok then Some (None, l_usbip_event_add SDEV_EVENT_ERROR_MALLOC s4)
              else let buf = replicate (nat buflen) 0;
                       buf1 = (if trx_type = LIBUSB_TRANSFER_TYPE_CONTROL then overwrite 0 (cs_setup cs) buf else buf);
                       trx = (zero_transfer ds)\<lparr>lt_flags := stub_get_transfer_flags (cs_transfer_flags cs),
                         lt_endpoint := ucast (b_ep (base pdu)) OR (if b_direction (base pdu) = USBIP_DIR_IN then 0x80 else 0),
                         lt_type := trx_type, lt_buffer := (if 0 < buflen then Some buf1 else None), lt_length := buflen,
                         lt_num_iso_packets := np, lt_user_data := i, lt_callback := True\<rparr> in
                Some (Some (i, trx), put_trx i (Trx trx) s4)))"

text \<open>The second half: the data is received and the transfer submitted; one that is refused is freed.\<close>

definition submit_transfer ::
  "('c, 'k) lib_sys_scheme \<Rightarrow> usbip_header \<Rightarrow> nat \<Rightarrow> libusb_transfer \<Rightarrow> 'c lib_conn \<Rightarrow> 'c lib_conn option" where
  "submit_transfer L pdu i trx s =
     do { (r1, trx1, s1) \<leftarrow> if b_direction (base pdu) \<noteq> USBIP_DIR_IN
            then l_usbip_recv_xbuff L trx (if lt_type trx = LIBUSB_TRANSFER_TYPE_CONTROL then 8 else 0) s
            else Some (0, trx, s);
          if r1 < 0 then Some (put_trx i (Trx trx1) s1)
          else do {
            (r2, trx2, s2) \<leftarrow> l_usbip_recv_iso L trx1 s1;
            if r2 < 0 then Some (put_trx i (Trx trx2) s2)
            else let c3 = l_tweak_special_requests L (l_dev (lsd s2)) trx2 (lenv s2);
                     trx3 = l_masking_bogus_flags (lsd s2) trx2;
                     (ret, c4) = lib_submit_transfer L i trx3 c3; s4 = s2\<lparr>lenv := c4\<rparr> in
              if ret = 0 then Some (put_trx i (Trx trx3) s4)
              else Some (l_usbip_event_add SDEV_EVENT_ERROR_SUBMIT (put_trx i Freed_trx s4)) } }"

definition l_stub_recv_cmd_submit ::
  "('c, 'k) lib_sys_scheme \<Rightarrow> usbip_header \<Rightarrow> 'c lib_conn \<Rightarrow> 'c lib_conn option" where
  "l_stub_recv_cmd_submit L pdu s =
     (let trx_type = stub_get_transfer_type (lsd s) (ucast (b_ep (base pdu))) in
      if trx_type > LIBUSB_TRANSFER_TYPE_MASK then Some s
      else do { (r, s1) \<leftarrow> setup_transfer L pdu trx_type s;
                (case r of None \<Rightarrow> Some s1 | Some (i, trx) \<Rightarrow> submit_transfer L pdu i trx s1) })"

section \<open>The loop\<close>

definition l_stub_handle_pdu ::
  "('c, 'k) lib_sys_scheme \<Rightarrow> usbip_header \<Rightarrow> 'c lib_conn \<Rightarrow> 'c lib_conn option" where
  "l_stub_handle_pdu L pdu s =
     (if \<not> l_valid_request s pdu then Some (l_usbip_event_add SDEV_EVENT_ERROR_TCP s)
      else if b_command (base pdu) = USBIP_CMD_UNLINK then map_option snd (l_stub_recv_cmd_unlink L pdu s)
      else if b_command (base pdu) = USBIP_CMD_SUBMIT then l_stub_recv_cmd_submit L pdu s
      else Some (l_usbip_event_add SDEV_EVENT_ERROR_TCP s))"

text \<open>A request without a command is read over, for as long as there are such requests.\<close>

partial_function (option) l_stub_rx_pdu ::
  "('c, 'k) lib_sys_scheme \<Rightarrow> 'c lib_conn \<Rightarrow> 'c lib_conn option" where
  "l_stub_rx_pdu L s = (case l_usbip_recv L (int sizeof_usbip_header) s of
     None \<Rightarrow> None
   | Some (ret, bs, s1) \<Rightarrow>
       if ret \<noteq> int sizeof_usbip_header then Some (l_usbip_event_add SDEV_EVENT_ERROR_TCP s1)
       else let pdu = l_usbip_header_correct_endian (l_le L) (bytes_header (l_le L) bs) False in
         if b_command (base pdu) = USBIP_NOP then l_stub_rx_pdu L s1 else l_stub_handle_pdu L pdu s1)"

fun l_stub_rx_loop ::
  "('c, 'k) lib_sys_scheme \<Rightarrow> ('c lib_conn \<Rightarrow> 'c lib_conn) list \<Rightarrow> 'c lib_conn \<Rightarrow> 'c lib_conn option" where
  "l_stub_rx_loop L [] s = Some s"
| "l_stub_rx_loop L (f # others) s =
     (let s0 = f s in
      if l_should_stop (lsd s0) then Some s0
      else if l_usbip_event_happened s0 then Some s0
      else l_stub_rx_pdu L s0 \<bind> l_stub_rx_loop L others)"

end
