(* ===== verification/Lib_Answers.thy ===== *)
theory Lib_Answers
  imports Lib_Rx Stub_Account Tool_Daemon
begin

text \<open>
  What the libusb host sends for a finished transfer, compared with what the stub driver of the kernel sends for a
  finished URB (\<open>Stub_Tx\<close>).  The two are written apart, with different structures for the transfer and its packets, and
  have to agree byte by byte, since the importing host is the same for both.
\<close>

section \<open>The libusb host answers as the kernel does\<close>

lemma net_conv_conv: "net_conv = conv"
  by (simp add: net_conv_def conv_def fun_eq_iff)

lemma l_header_endian: "l_usbip_header_correct_endian le pdu send = usbip_header_correct_endian le pdu send"
  by (simp add: l_usbip_header_correct_endian_def usbip_header_correct_endian_def l_correct_endian_basic_def
    correct_endian_basic_def l_correct_endian_cmd_submit_def correct_endian_cmd_submit_def
    l_correct_endian_ret_submit_def correct_endian_ret_submit_def l_correct_endian_cmd_unlink_def
    correct_endian_cmd_unlink_def l_correct_endian_ret_unlink_def correct_endian_ret_unlink_def net_conv_conv
    union_defs Let_def)

text \<open>The descriptors of a URB whose packets lie one behind the other, as those of a transfer do.\<close>

fun urb_descs :: "nat \<Rightarrow> libusb_iso_packet_descriptor list \<Rightarrow> usb_iso_packet_descriptor list" where
  "urb_descs off [] = []"
| "urb_descs off (d # ds) = \<lparr>iso_offset = word_of_nat off, iso_length = li_length d,
     iso_actual_length = li_actual_length d, iso_status = trxstat2error (li_status d)\<rparr> #
     urb_descs (off + unat (li_length d)) ds"

lemma length_urb_descs [simp]: "length (urb_descs off ds) = length ds"
  by (induction ds arbitrary: off) auto

definition desc_off :: "libusb_iso_packet_descriptor list \<Rightarrow> nat \<Rightarrow> nat" where
  "desc_off ds i = sum_list (map (\<lambda>d. unat (li_length d)) (take i ds))"

lemma desc_off_Suc: "i < length ds \<Longrightarrow> desc_off ds (Suc i) = desc_off ds i + unat (li_length (ds ! i))"
  by (simp add: desc_off_def take_Suc_conv_app_nth)

lemma urb_descs_nth: "i < length ds \<Longrightarrow> urb_descs off ds ! i = \<lparr>iso_offset = word_of_nat (off + desc_off ds i),
    iso_length = li_length (ds ! i), iso_actual_length = li_actual_length (ds ! i),
    iso_status = trxstat2error (li_status (ds ! i))\<rparr>"
proof (induction ds arbitrary: off i)
  case (Cons d ds)
  then show ?case by (cases i) (simp_all add: desc_off_def add.assoc)
qed simp

lemma l_pack_descs_eq:
  "i + n \<le> length ds \<Longrightarrow> l_pack_descs le ds i (word_of_nat (desc_off ds i)) n = pack_iso_descs le (urb_descs 0 ds) i n"
proof (induction n arbitrary: i)
  case (Suc n)
  then have "l_pack_descs le ds (Suc i) (word_of_nat (desc_off ds i) + li_length (ds ! i)) n =
      pack_iso_descs le (urb_descs 0 ds) (Suc i) n"
    using Suc.IH [of "Suc i"] by (simp add: desc_off_Suc)
  then show ?case using Suc.prems
    by (simp add: l_usbip_pack_iso_def usbip_pack_iso_def urb_descs_nth l_iso_packet_correct_endian_def
      usbip_iso_packet_correct_endian_def net_conv_conv)
qed simp

lemma l_iso_kvecs_eq:
  assumes "urb_iso_frame_desc urb = urb_descs 0 (lt_iso_packet_desc trx)" "buffer_of urb = l_buffer_of trx"
    "desc_off (lt_iso_packet_desc trx) (length (lt_iso_packet_desc trx)) < 2 ^ 32"
  shows "l_iso_kvecs trx i (desc_off (lt_iso_packet_desc trx) i) n = iso_kvecs urb i n"
proof (induction n arbitrary: i)
  case (Suc n)
  let ?ds = "lt_iso_packet_desc trx"
  show ?case
  proof (cases "i < length ?ds")
    case True
    have "desc_off ?ds i \<le> desc_off ?ds (length ?ds)"
      using True by (simp add: desc_off_def) (metis append_take_drop_id le_add1 map_append sum_list_append)
    then have "desc_off ?ds i < 2 ^ 32" using assms(3) by linarith
    then have "unat (word_of_nat (desc_off ?ds i) :: u32) = desc_off ?ds i"
      by (simp add: unat_of_nat take_bit_nat_eq_self)
    then show ?thesis using True assms Suc.IH [of "Suc i"] by (simp add: urb_descs_nth desc_off_Suc Let_def)
  qed (use assms in simp)
qed simp

text \<open>A URB of the stub driver and a transfer of libusb with the same outcome; a control transfer has its setup
  packet in front of the data.\<close>

definition same_outcome :: "bool \<Rightarrow> libusb_transfer \<Rightarrow> 'z urb_scheme \<Rightarrow> bool" where
  "same_outcome is_in trx urb =
     (urb_status urb = trxstat2error (lt_status trx) \<and> uint (urb_actual_length urb) = lt_actual_length trx \<and>
      lt_actual_length trx < 2 ^ 31 \<and> urb_start_frame urb = 0 \<and> urb_error_count urb = 0 \<and>
      usb_pipein (urb_pipe urb) = is_in \<and>
      (usb_pipetype (urb_pipe urb) = PIPE_ISOCHRONOUS) = (lt_type trx = LIBUSB_TRANSFER_TYPE_ISOCHRONOUS) \<and>
      buffer_of urb = (if lt_type trx = LIBUSB_TRANSFER_TYPE_CONTROL then drop 8 (l_buffer_of trx) else l_buffer_of trx) \<and>
      0 \<le> lt_num_iso_packets trx \<and> lt_num_iso_packets trx < 2 ^ 31 - 2 \<and>
      urb_number_of_packets urb = word_of_int (lt_num_iso_packets trx) \<and>
      (lt_type trx = LIBUSB_TRANSFER_TYPE_ISOCHRONOUS \<longrightarrow>
        urb_iso_frame_desc urb = urb_descs 0 (lt_iso_packet_desc trx) \<and>
        nat (lt_num_iso_packets trx) = length (lt_iso_packet_desc trx) \<and>
        desc_off (lt_iso_packet_desc trx) (length (lt_iso_packet_desc trx)) < 2 ^ 32 \<and>
        int (sum_list (map (\<lambda>d. unat (li_actual_length d)) (lt_iso_packet_desc trx))) = lt_actual_length trx))"

lemma l_header_eq:
  assumes "same_outcome is_in trx urb"
  shows "l_ret_submit_header le (sp_seqnum p) trx =
    header_bytes le (usbip_header_correct_endian le (setup_ret_submit_pdu zero_header p urb) True)"
proof -
  have "(word_of_int (lt_actual_length trx) :: u32) = urb_actual_length urb"
    using assms by (metis same_outcome_def word_of_int_uint)
  then show ?thesis
    using assms unfolding l_ret_submit_header_def l_header_endian
    by (simp add: l_setup_ret_submit_pdu_def setup_ret_submit_pdu_def l_usbip_pack_ret_submit_def
      usbip_pack_pdu_def usbip_pack_ret_submit_def l_setup_base_pdu_def setup_base_pdu_def same_outcome_def union_defs)
qed

lemma kvec_drop: "k \<le> length buf \<Longrightarrow> kvec (drop k buf) 0 n = kvec buf k n"
  by (auto simp: kvec_def slice_def)

lemma l_data_eq:
  assumes "same_outcome is_in trx urb" "lt_type trx = LIBUSB_TRANSFER_TYPE_CONTROL \<Longrightarrow> 8 \<le> length (l_buffer_of trx)"
  shows "l_ret_submit_data is_in trx = ret_submit_data urb"
proof -
  have u: "nat (lt_actual_length trx) = unat (urb_actual_length urb)" and
    z: "(0 < lt_actual_length trx) = (urb_actual_length urb > 0)"
    using assms(1) unfolding same_outcome_def word_less_def unat_eq_nat_uint by auto
  show ?thesis
  proof (cases "lt_type trx = LIBUSB_TRANSFER_TYPE_ISOCHRONOUS")
    case True
    have "l_iso_kvecs trx 0 0 n = iso_kvecs urb 0 n" for n
      using l_iso_kvecs_eq [of urb trx 0 n] assms(1) True by (simp add: same_outcome_def desc_off_def)
    moreover have "nat (sint (urb_number_of_packets urb)) = nat (lt_num_iso_packets trx)"
      using assms(1) by (simp add: same_outcome_def in_s32_def)
    ultimately show ?thesis using assms(1) True by (simp add: l_ret_submit_data_def ret_submit_data_def same_outcome_def)
  next
    case False
    then show ?thesis using assms u z kvec_drop [of 8 "l_buffer_of trx"]
      by (auto simp: l_ret_submit_data_def ret_submit_data_def same_outcome_def)
  qed
qed


lemma fixup_same:
  assumes "same_outcome is_in trx urb" "lt_type trx = LIBUSB_TRANSFER_TYPE_ISOCHRONOUS"
  shows "fixup_actual_length trx = Some trx"
proof -
  let ?ds = "lt_iso_packet_desc trx"
  have s: "int (sum_list (map (\<lambda>d. unat (li_actual_length d)) ?ds)) = lt_actual_length trx" "lt_actual_length trx < 2 ^ 31"
    "nat (lt_num_iso_packets trx) = length ?ds"
    using assms by (simp_all add: same_outcome_def)
  have "sum_list (map li_actual_length ds) = (word_of_nat (sum_list (map (\<lambda>d. unat (li_actual_length d)) ds)) :: u32)" for ds
    by (induction ds) simp_all
  then have "sint (sum_list (map li_actual_length ?ds)) = sint (word_of_int (lt_actual_length trx) :: u32)"
    using s(1) by (metis of_int_of_nat_eq)
  also have "\<dots> = lt_actual_length trx" using s(1,2) by (intro sint_of_s32) (simp add: in_s32_def)
  finally show ?thesis using s(3) by (simp add: fixup_actual_length_def)
qed

lemma send_vecs_all:
  assumes "\<And>bs c. \<exists>c'. f bs c = (int (length bs), c') \<and> out c' = out c @ bs"
  shows "\<exists>c'. send_vecs f vs tot c = (tot + int (length (concat vs)), c') \<and> out c' = out c @ concat vs"
proof (induction vs arbitrary: tot c)
  case (Cons v vs)
  obtain c1 where c1: "f v c = (int (length v), c1)" "out c1 = out c @ v" using assms by blast
  show ?case
  proof (cases "v = []")
    case False
    obtain c2 where "send_vecs f vs (tot + int (length v)) c1 = (tot + int (length v) + int (length (concat vs)), c2)"
      "out c2 = out c1 @ concat vs" using Cons.IH by blast
    with c1 False show ?thesis by (simp add: add.assoc)
  qed (use Cons.IH in simp)
qed simp

lemma length_kvec: "kvec buf off n = Some v \<Longrightarrow> length v = n"
  by (auto simp: kvec_def slice_def split: if_splits)

lemma l_iso_kvecs_length:
  "l_iso_kvecs trx i off n = Some vs \<Longrightarrow>
    length (concat vs) = sum_list (map (\<lambda>d. unat (li_actual_length d)) (take n (drop i (lt_iso_packet_desc trx))))"
proof (induction n arbitrary: i off vs)
  case (Suc n)
  then show ?case
    by (auto simp: Let_def Cons_nth_drop_Suc [symmetric] dest: length_kvec split: bind_splits if_splits)
qed simp

lemma iso_length_ok:
  assumes "same_outcome True trx urb" "lt_type trx = LIBUSB_TRANSFER_TYPE_ISOCHRONOUS" "l_ret_submit_data True trx = Some data"
  shows "int (length (concat data)) = lt_actual_length trx" "int (length (concat data)) = uint (urb_actual_length urb)"
proof -
  show "int (length (concat data)) = lt_actual_length trx"
    using assms l_iso_kvecs_length [of trx 0 0 "length (lt_iso_packet_desc trx)" data]
    by (simp add: same_outcome_def l_ret_submit_data_def)
  then show "int (length (concat data)) = uint (urb_actual_length urb)" using assms(1) by (simp add: same_outcome_def)
qed

text \<open>The pieces of an answer: the header, the data and the descriptors.\<close>

definition kernel_iov :: "bool \<Rightarrow> stub_priv \<Rightarrow> stub_urb \<Rightarrow> u8 list list option" where
  "kernel_iov le p urb = do {
     data \<leftarrow> ret_submit_data urb;
     descs \<leftarrow> if usb_pipetype (urb_pipe urb) = PIPE_ISOCHRONOUS
       then map_option (\<lambda>x. [x]) (pack_iso_descs le (urb_iso_frame_desc urb) 0 (nat (sint (urb_number_of_packets urb))))
       else Some [];
     Some ([header_bytes le (usbip_header_correct_endian le (setup_ret_submit_pdu zero_header p urb) True)] @ data @ descs) }"

lemma kernel_send_one:
  assumes "sp_urb p = Some urb" "\<And>n c. kmalloc K n c = (True, c)"
    and "\<And>d iov c. \<exists>c'. trx_sendmsg (trx_ops K) d iov c = (int (length (concat iov)), c') \<and> out c' = out c @ concat iov"
    and "0 \<le> sint (urb_number_of_packets urb)" "sint (urb_number_of_packets urb) < 2 ^ 31 - 2"
    and "\<And>data. usb_pipein (urb_pipe urb) \<Longrightarrow> usb_pipetype (urb_pipe urb) = PIPE_ISOCHRONOUS \<Longrightarrow>
      ret_submit_data urb = Some data \<Longrightarrow> length (concat data) = unat (urb_actual_length urb)"
  shows "case kernel_iov (host_le K) p urb of None \<Rightarrow> stub_send_one K p s = None
    | Some iov \<Rightarrow> \<exists>s'. stub_send_one K p s = Some (int (length (concat iov)), s') \<and> out (env s') = out (env s) @ concat iov"
proof -
  let ?isoc = "usb_pipetype (urb_pipe urb) = PIPE_ISOCHRONOUS"
  have n: "\<not> sint (2 + urb_number_of_packets urb) < 0"
  proof -
    let ?n = "sint (urb_number_of_packets urb)"
    have "2 + urb_number_of_packets urb = (word_of_int (2 + ?n) :: u32)" by simp
    moreover have "sint (word_of_int (2 + ?n) :: u32) = 2 + ?n" using assms(4,5) by (intro sint_of_s32) (simp add: in_s32_def)
    ultimately show ?thesis using assms(4) by (metis add_nonneg_nonneg not_less zero_le_numeral)
  qed
  show ?thesis
  proof (cases "ret_submit_data urb")
    case None
    then show ?thesis using assms(1,2) n by (auto simp: stub_send_one_def kernel_iov_def Let_def)
  next
    case (Some data)
    let ?d = "if ?isoc then map_option (\<lambda>x. [x]) (pack_iso_descs (host_le K) (urb_iso_frame_desc urb) 0
      (nat (sint (urb_number_of_packets urb)))) else Some []"
    show ?thesis
    proof (cases ?d)
      case None
      then show ?thesis using Some assms(1,2,6) n
        by (auto simp: stub_send_one_def kernel_iov_def Let_def usbip_alloc_iso_desc_pdu_def split: if_splits)
    next
      case (Some descs)
      let ?h = "header_bytes (host_le K) (usbip_header_correct_endian (host_le K) (setup_ret_submit_pdu zero_header p urb) True)"
      obtain c' where "trx_sendmsg (trx_ops K) (ud s) ([?h] @ data @ descs) (env s) = (int (length (concat ([?h] @ data @ descs))), c')"
        "out c' = out (env s) @ concat ([?h] @ data @ descs)" using assms(3) by blast
      then show ?thesis using Some \<open>ret_submit_data urb = Some data\<close> assms(1,2,6) n
        by (auto simp: stub_send_one_def kernel_iov_def Let_def usbip_alloc_iso_desc_pdu_def split: if_splits)
    qed
  qed
qed

definition lib_iov :: "bool \<Rightarrow> l_stub_priv \<Rightarrow> libusb_transfer \<Rightarrow> u8 list list option" where
  "lib_iov le q trx = do {
     data \<leftarrow> l_ret_submit_data (lp_dir q = 1) trx;
     descs \<leftarrow> if lt_type trx = LIBUSB_TRANSFER_TYPE_ISOCHRONOUS
       then map_option (\<lambda>x. [x]) (l_pack_descs le (lt_iso_packet_desc trx) 0 0 (nat (lt_num_iso_packets trx))) else Some [];
     Some ([l_ret_submit_header le (lp_seqnum q) trx] @ data @ descs) }"

lemma lib_send_one:
  assumes "lp_trx q = Trx trx" "\<And>n c. l_malloc L n c = (True, c)" "l_sock (lsd t) = Some sk"
    and "\<And>bs c. \<exists>c'. sock_send L sk bs c = (int (length bs), c') \<and> out c' = out c @ bs"
    and "lt_type trx = LIBUSB_TRANSFER_TYPE_ISOCHRONOUS \<Longrightarrow> fixup_actual_length trx = Some trx"
    and "\<And>data. lp_dir q = 1 \<Longrightarrow> lt_type trx = LIBUSB_TRANSFER_TYPE_ISOCHRONOUS \<Longrightarrow>
      l_ret_submit_data True trx = Some data \<Longrightarrow> int (length (concat data)) = lt_actual_length trx"
  shows "case lib_iov (l_le L) q trx of None \<Rightarrow> l_stub_send_one L q t = None
    | Some iov \<Rightarrow> \<exists>t'. l_stub_send_one L q t = Some (int (length (concat iov)), t') \<and> out (lenv t') = out (lenv t) @ concat iov"
proof -
  let ?isoc = "lt_type trx = LIBUSB_TRANSFER_TYPE_ISOCHRONOUS" let ?in = "lp_dir q = 1"
  show ?thesis
  proof (cases "l_ret_submit_data ?in trx")
    case None
    then show ?thesis using assms(1,2,5) by (cases ?isoc) (simp_all add: l_stub_send_one_def lib_iov_def)
  next
    case (Some data)
    have len: "?in \<Longrightarrow> ?isoc \<Longrightarrow> int (length (concat data)) = lt_actual_length trx" using assms(6) Some by simp
    let ?d = "if ?isoc then map_option (\<lambda>x. [x]) (l_pack_descs (l_le L) (lt_iso_packet_desc trx) 0 0
      (nat (lt_num_iso_packets trx))) else Some []"
    show ?thesis
    proof (cases ?d)
      case None
      then show ?thesis using Some assms(1,2,5) len
        by (auto simp: l_stub_send_one_def lib_iov_def l_usbip_alloc_iso_desc_pdu_def Let_def split: if_splits)
    next
      case (Some descs)
      let ?iov = "[l_ret_submit_header (l_le L) (lp_seqnum q) trx] @ data @ descs"
      obtain c' where c': "send_vecs (sock_send L sk) ?iov 0 (lenv t) = (0 + int (length (concat ?iov)), c')"
        "out c' = out (lenv t) @ concat ?iov" using send_vecs_all [of "sock_send L sk" out ?iov 0 "lenv t"] assms(4) by blast
      have sk: "l_sock (l_write_priv i f sd) = l_sock sd" for i f and sd :: "'a l_stub_device"
        by (simp add: l_write_priv_def Let_def)
      show ?thesis using c' Some \<open>l_ret_submit_data ?in trx = Some data\<close> assms(1,2,3,5) len sk
        by (auto simp: l_stub_send_one_def lib_iov_def l_usbip_alloc_iso_desc_pdu_def l_usbip_sendmsg_def Let_def
          simp del: send_vecs.simps split: if_splits)
    qed
  qed
qed

lemma iov_eq:
  assumes "same_outcome (lp_dir q = 1) trx urb" "sp_seqnum p = lp_seqnum q"
    and "lt_type trx = LIBUSB_TRANSFER_TYPE_CONTROL \<Longrightarrow> 8 \<le> length (l_buffer_of trx)"
  shows "lib_iov le q trx = kernel_iov le p urb"
proof -
  have "nat (sint (urb_number_of_packets urb)) = nat (lt_num_iso_packets trx)"
    using assms(1) by (simp add: same_outcome_def in_s32_def)
  moreover have "l_pack_descs le (lt_iso_packet_desc trx) 0 0 (nat (lt_num_iso_packets trx)) =
      pack_iso_descs le (urb_iso_frame_desc urb) 0 (nat (lt_num_iso_packets trx))"
    if "lt_type trx = LIBUSB_TRANSFER_TYPE_ISOCHRONOUS"
    using l_pack_descs_eq [of 0 "nat (lt_num_iso_packets trx)" "lt_iso_packet_desc trx" le] assms(1) that
    by (simp add: same_outcome_def desc_off_def)
  ultimately show ?thesis
    using l_data_eq [OF assms(1,3)] l_header_eq [OF assms(1), of le p] assms(1,2)
    by (simp add: lib_iov_def kernel_iov_def same_outcome_def)
qed


text \<open>A host with libusb, on which every call succeeds; the state is what was received and sent.\<close>

definition demo_config :: libusb_config_descriptor where
  "demo_config = \<lparr>lcd_value = 1, lcd_interface = [[\<lparr>lid_class = 3, lid_subclass = 1, lid_protocol = 2, lid_number = 0,
     lid_endpoint = [\<lparr>led_bEndpointAddress = 0x81, led_bmAttributes = 3\<rparr>, \<lparr>led_bEndpointAddress = 0x02, led_bmAttributes = 2\<rparr>]\<rparr>]]\<rparr>"

definition demo_lib :: "(u8 list \<times> u8 list) lib_sys" where
  "demo_lib = \<lparr>net_send = (\<lambda>_ bs (i, os). (int (length bs), i, os @ bs)),
     net_recv = (\<lambda>_ n _ (i, os). let k = min n (length i) in (int k, take k i, drop k i, os)),
     l_le = True, l_malloc = (\<lambda>_ c. (True, c)),
     lib_alloc_transfer = (\<lambda>n c. (Some (replicate (nat n) \<lparr>li_length = 0, li_actual_length = 0, li_status = LIBUSB_TRANSFER_COMPLETED\<rparr>), c)),
     lib_submit_transfer = (\<lambda>_ _ c. (0, c)), lib_cancel_transfer = (\<lambda>_ c. (0, c)), lib_handle_events = (\<lambda>c. (0, [], c)),
     lib_clear_halt = (\<lambda>_ _ c. (0, c)), lib_set_interface_alt_setting = (\<lambda>_ _ _ c. (0, c)), lib_reset_device = (\<lambda>_ c. (0, c)),
     lib_open = (\<lambda>_ c. (0, c)), lib_close = (\<lambda>_ c. c), lib_claim_interface = (\<lambda>_ _ c. (0, c)),
     lib_release_interface = (\<lambda>_ _ c. (0, c)), lib_detach_kernel_driver = (\<lambda>_ _ c. (0, c)),
     lib_attach_kernel_driver = (\<lambda>_ _ c. (0, c)), lib_get_device_list = (\<lambda>_. Some [7]), lib_bus_number = (\<lambda>_. 1),
     lib_device_address = (\<lambda>_. 2), lib_device_speed = (\<lambda>_. 2),
     lib_device_descriptor = (\<lambda>_ _. Some \<lparr>ldd_class = 0, ldd_subclass = 0, ldd_protocol = 0, ldd_vendor = 0x1234,
       ldd_product = 1, ldd_bcd = 0, ldd_num_configurations = 1\<rparr>),
     lib_active_config = (\<lambda>_ _. Some demo_config), lib_init = (\<lambda>c. (0, c)), lib_exit = (\<lambda>c. c), l_mkdir = (\<lambda>_ c. (0, c)),
     l_create = (\<lambda>_ c. (3, c)), l_unlink = (\<lambda>_ c. (0, c)), l_stat = (\<lambda>_ _. True), tmp_dir = ''/tmp''\<rparr>"

definition demo_lsd :: "(u8 list \<times> u8 list) l_stub_device" where
  "demo_lsd = \<lparr>l_dev = 7, l_handle = True, l_udev = zero_usb_device, l_devid = 0x10002,
     l_eps = [\<lparr>se_nr = 2, se_dir = 0, se_type = 2\<rparr>], l_ifs = [], l_priv_init = [], l_priv_tx = [], l_priv_free = [],
     l_unlink_tx = [], l_unlink_free = [], l_should_stop = False, l_next = 0, l_status = SDEV_ST_USED,
     l_sock = Some pipe_sock, l_event = 0, l_eh_should_stop = False\<rparr>"

text \<open>An isochronous IN transfer of two packets, the first of which is not full.\<close>

definition demo_trx :: libusb_transfer where
  "demo_trx = \<lparr>lt_flags = 0, lt_endpoint = 0x81, lt_type = 1, lt_buffer = Some [1, 2, 0, 0, 3, 4, 5, 6], lt_length = 8,
     lt_actual_length = 6, lt_num_iso_packets = 2, lt_status = LIBUSB_TRANSFER_COMPLETED,
     lt_iso_packet_desc = [\<lparr>li_length = 4, li_actual_length = 2, li_status = LIBUSB_TRANSFER_COMPLETED\<rparr>,
       \<lparr>li_length = 4, li_actual_length = 4, li_status = LIBUSB_TRANSFER_COMPLETED\<rparr>],
     lt_user_data = 0, lt_callback = True\<rparr>"

definition demo_lpriv :: l_stub_priv where
  "demo_lpriv = \<lparr>lp_id = 0, lp_seqnum = 5, lp_trx = Trx demo_trx, lp_dir = 1, lp_unlinking = False\<rparr>"

definition demo_in_urb :: stub_urb where
  "demo_in_urb = (zero_stub_urb (urb_descs 0 (lt_iso_packet_desc demo_trx)))\<lparr>urb_pipe := 0x80,
     urb_transfer_buffer := lt_buffer demo_trx, urb_transfer_buffer_length := 8, urb_actual_length := 6,
     urb_number_of_packets := 2\<rparr>"

definition demo_priv :: stub_priv where
  "demo_priv = \<lparr>sp_id = 0, sp_seqnum = 5, sp_urb = Some demo_in_urb, sp_unlinking = False\<rparr>"

definition demo_sender :: "u8 list stub_kernel" where
  "demo_sender = demo_stub_kernel\<lparr>trx_ops := list_trx\<lparr>trx_sendmsg := (\<lambda>d iov c. (int (length (concat iov)), c @ concat iov))\<rparr>\<rparr>"


end
