(* ===== verification/Lib_Host.thy ===== *)
theory Lib_Host
  imports Lib_Answers
begin

text \<open>
  What the libusb host knows of a device, which control requests it treats specially, and which interfaces it holds:
  the endpoints found in the configuration, the special requests compared with those of the kernel, and exporting and
  giving back a device.
\<close>

section \<open>The endpoints of a device\<close>

lemma find_zero_ep: "x \<noteq> 0 \<Longrightarrow> find (\<lambda>e. se_nr e = x) (replicate n \<lparr>se_nr = 0, se_dir = d, se_type = t\<rparr>) = None"
  by (induction n) auto

lemma fill_stub_endpoints_last:
  "fill_stub_endpoints eps ds = Some eps' \<Longrightarrow> ds \<noteq> [] \<Longrightarrow> eps' = fill_stub_endpoint (last ds) # tl eps"
proof (induction ds arbitrary: eps)
  case (Cons d ds)
  then obtain e es where eps: "eps = e # es" by (cases eps) (auto simp: Let_def)
  show ?case
  proof (cases ds)
    case Nil
    then show ?thesis using Cons.prems eps by (simp add: Let_def)
  next
    case (Cons d' ds')
    then show ?thesis using Cons.IH [of "fill_stub_endpoint d # es"] Cons.prems eps by (simp add: Let_def)
  qed
qed simp


definition demo_exported :: "(u8 list \<times> u8 list) l_exported_device" where
  "demo_exported = \<lparr>le_udev = do_fill_usb_device demo_lib 7
       \<lparr>ldd_class = 0, ldd_subclass = 0, ldd_protocol = 0, ldd_vendor = 0x1234, ldd_product = 1, ldd_bcd = 0,
         ldd_num_configurations = 1\<rparr> demo_config,
     le_uinf = [\<lparr>bInterfaceClass = 3, bInterfaceSubClass = 1, bInterfaceProtocol = 2, bInterfaceNumber = 0\<rparr>],
     le_dev = 7, le_eps = [\<lparr>se_nr = 2, se_dir = 0, se_type = 2\<rparr>, \<lparr>se_nr = 0, se_dir = 0, se_type = 0\<rparr>], le_sdev = None\<rparr>"

definition demo_submit :: usbip_header where
  "demo_submit = \<lparr>base = \<lparr>b_command = USBIP_CMD_SUBMIT, b_seqnum = 1, b_devid = 0x10002, b_direction = USBIP_DIR_IN, b_ep = 1\<rparr>,
     u = \<lparr>u_w0 = 0, u_w1 = 8, u_w2 = 0, u_w3 = 0, u_w4 = 0, u_setup = replicate 8 0\<rparr>\<rparr>"


section \<open>Special requests\<close>


definition demo_hid :: libusb_transfer where
  "demo_hid = demo_trx\<lparr>lt_type := LIBUSB_TRANSFER_TYPE_CONTROL, lt_buffer := Some [0x21, 11, 1, 0, 2, 0, 0, 0]\<rparr>"


section \<open>The interfaces of an exported device\<close>

definition fresh_interface :: "usbip_usb_interface \<Rightarrow> l_stub_interface" where
  "fresh_interface x = \<lparr>si_uinf = x, si_detached = False, si_claimed = False\<rparr>"

lemma claim_interface_result:
  assumes "\<And>nr c. fst (lib_attach_kernel_driver L dev nr c) = 0" "claim_interface L dev (fresh_interface x) c = (r, i, c')"
  shows "si_uinf i = x \<and> (if r = 0 then si_claimed i else r = -1 \<and> i = fresh_interface x)"
proof -
  have "fst (release_interface L dev False (fresh_interface x) c0) = fresh_interface x"
    "fst (release_interface L dev False ((fresh_interface x)\<lparr>si_detached := True\<rparr>) c0) = fresh_interface x" for c0
    using assms(1) [of "bInterfaceNumber x" c0]
    by (auto simp: release_interface_def fresh_interface_def Let_def split: prod.split)
  note r = this
  obtain d c1 where d: "lib_detach_kernel_driver L dev (bInterfaceNumber x) c = (d, c1)" by (meson surj_pair)
  obtain k c2 where k: "lib_claim_interface L dev (bInterfaceNumber x) c1 = (k, c2)" by (meson surj_pair)
  obtain i1 c3 where i1: "release_interface L dev False (if d \<noteq> 0 then fresh_interface x else (fresh_interface x)\<lparr>si_detached := True\<rparr>) c2 = (i1, c3)"
    by (meson surj_pair)
  with r [of c2] have f: "i1 = fresh_interface x" by (auto split: if_splits)
  have n: "si_uinf (fresh_interface x) = x" by (simp add: fresh_interface_def)
  show ?thesis using assms(2) d k i1 unfolding claim_interface_def Let_def n
    by (auto simp: f n split: if_splits)
qed

lemma claim_interfaces_result:
  assumes "\<And>nr c. fst (lib_attach_kernel_driver L dev nr c) = 0"
  shows "claim_interfaces L dev (map fresh_interface xs) c = (r, is, c') \<Longrightarrow> map si_uinf is = xs \<and>
    (if r = 0 then \<forall>i\<in>set is. si_claimed i
     else r = -1 \<and> (\<exists>k<length xs. (\<forall>i\<in>set (take k is). si_claimed i) \<and> drop k is = map fresh_interface (drop k xs)))"
proof (induction xs arbitrary: c r "is" c')
  case (Cons x xs)
  obtain r1 i c1 where 1: "claim_interface L dev (fresh_interface x) c = (r1, i, c1)" by (metis prod_cases3)
  note i = claim_interface_result [OF assms 1]
  have n: "si_uinf (fresh_interface y) = y" for y by (simp add: fresh_interface_def)
  show ?case
  proof (cases "r1 = 0")
    case False
    then have "r = -1" "is = map fresh_interface (x # xs)" using Cons.prems 1 i by auto
    moreover have "0 < length (x # xs) \<and> (\<forall>i\<in>set (take 0 is). si_claimed i) \<and> drop 0 is = map fresh_interface (drop 0 (x # xs))"
      using calculation by simp
    moreover have "map si_uinf is = x # xs" using calculation(2) by (simp add: n comp_def)
    ultimately show ?thesis by (auto simp del: take_0 drop_0 intro: exI [of _ 0])
  next
    case True
    obtain r2 is2 c2 where 2: "claim_interfaces L dev (map fresh_interface xs) c1 = (r2, is2, c2)" by (metis prod_cases3)
    have e: "r = r2" "is = i # is2" using Cons.prems 1 2 True by auto
    note h = Cons.IH [OF 2]
    show ?thesis
    proof (cases "r2 = 0")
      case True
      then show ?thesis using h i \<open>r1 = 0\<close> e by simp
    next
      case False
      with h obtain k where "k < length xs" "\<forall>i\<in>set (take k is2). si_claimed i" "drop k is2 = map fresh_interface (drop k xs)"
        by auto
      then have "Suc k < length (x # xs) \<and> (\<forall>i\<in>set (take (Suc k) is). si_claimed i) \<and>
          drop (Suc k) is = map fresh_interface (drop (Suc k) (x # xs))"
        using i \<open>r1 = 0\<close> e by simp
      moreover have "map si_uinf is = x # xs" "r = -1" "r \<noteq> 0" using h i \<open>r1 = 0\<close> e False by simp_all
      ultimately show ?thesis by (metis (no_types, lifting))
    qed
  qed
qed simp

lemma release_interfaces_result:
  assumes "\<And>nr c. fst (lib_attach_kernel_driver L dev nr c) = 0" "\<And>nr c. fst (lib_release_interface L dev nr c) = 0"
  shows "fst (release_interfaces L dev False is c) = map fresh_interface (map si_uinf is)"
proof (induction "is" arbitrary: c)
  case (Cons i "is")
  have "fst (release_interface L dev False i c) = fresh_interface (si_uinf i)"
  proof -
    obtain r c1 where 1: "lib_release_interface L dev (bInterfaceNumber (si_uinf i)) c = (r, c1)" by (meson surj_pair)
    obtain a c2 where 2: "lib_attach_kernel_driver L dev (bInterfaceNumber (si_uinf i)) c1 = (a, c2)" by (meson surj_pair)
    obtain b c3 where 3: "lib_attach_kernel_driver L dev (bInterfaceNumber (si_uinf i)) c = (b, c3)" by (meson surj_pair)
    have "r = 0" "a = 0" "b = 0"
      using assms(2) [of "bInterfaceNumber (si_uinf i)" c] assms(1) [of "bInterfaceNumber (si_uinf i)" c1]
        assms(1) [of "bInterfaceNumber (si_uinf i)" c] 1 2 3 by simp_all
    then show ?thesis using 1 2 3
      by (cases "si_claimed i"; cases "si_detached i") (simp_all add: release_interface_def fresh_interface_def Let_def)
  qed
  moreover obtain i' c1 where "release_interface L dev False i c = (i', c1)" by (meson surj_pair)
  moreover obtain is' c2 where "release_interfaces L dev False is c1 = (is', c2)" by (meson surj_pair)
  ultimately show ?case using Cons.IH [of c1] by simp
qed simp


text \<open>A device with two interfaces, the second of which cannot be claimed.\<close>

definition demo_two :: "(u8 list \<times> u8 list) l_exported_device" where
  "demo_two = demo_exported\<lparr>le_uinf := map (\<lambda>n. \<lparr>bInterfaceClass = 3, bInterfaceSubClass = 1, bInterfaceProtocol = 2,
     bInterfaceNumber = n\<rparr>) [0, 1]\<rparr>"

definition demo_lib_busy :: "(u8 list \<times> u8 list) lib_sys" where
  "demo_lib_busy = demo_lib\<lparr>lib_claim_interface := (\<lambda>_ nr c. (if nr = 1 then -6 else 0, c))\<rparr>"


end
