(* ===== verification/Tool_Usbipd.thy ===== *)
theory Tool_Usbipd
  imports Tool_App
begin

text \<open>
  TCP connections of the tools (the end of \<open>usbip_network.c\<close>) and the life of the daemon \<open>usbipd.c\<close>: its sockets, the
  processes that handle requests, the main loop and the options.
\<close>

section \<open>Sockets\<close>

datatype sockopt = SO_REUSEADDR | TCP_NODELAY | SO_KEEPALIVE | IPV6_V6ONLY

abbreviation (input) AF_UNSPEC :: nat where "AF_UNSPEC \<equiv> 0"
abbreviation (input) AF_INET :: nat where "AF_INET \<equiv> 2"
abbreviation (input) AF_INET6 :: nat where "AF_INET6 \<equiv> 10"
abbreviation (input) MAXSOCKFD :: nat where "MAXSOCKFD \<equiv> 20"

text \<open>The system over a state \<open>'c\<close>.  An address is a number; \<open>so_ppoll\<close> tells for each socket whether it can be read;
  \<open>so_fork\<close> returns 0 in the new process; \<open>so_auth\<close> is the check of \<open>libwrap\<close>, \<open>None\<close> if it was not built in.\<close>

record 'c tcp_sys =
  so_getaddrinfo :: "string option \<Rightarrow> string \<Rightarrow> nat \<Rightarrow> 'c \<Rightarrow> int \<times> nat list \<times> 'c"
  so_getnameinfo :: "int \<Rightarrow> 'c \<Rightarrow> (string \<times> string) option"
  so_socket :: "nat \<Rightarrow> 'c \<Rightarrow> int \<times> 'c"
  so_setsockopt :: "int \<Rightarrow> sockopt \<Rightarrow> 'c \<Rightarrow> int \<times> 'c"
  so_bind :: "int \<Rightarrow> nat \<Rightarrow> 'c \<Rightarrow> int \<times> 'c"
  so_listen :: "int \<Rightarrow> 'c \<Rightarrow> int \<times> 'c"
  so_connect :: "int \<Rightarrow> nat \<Rightarrow> 'c \<Rightarrow> int \<times> 'c"
  so_accept :: "int \<Rightarrow> 'c \<Rightarrow> int \<times> 'c"
  so_close :: "int \<Rightarrow> 'c \<Rightarrow> 'c"
  so_malloc :: "'c \<Rightarrow> bool \<times> 'c"
  so_auth :: "(int \<Rightarrow> 'c \<Rightarrow> bool) option"
  so_fork :: "'c \<Rightarrow> int \<times> 'c"
  so_daemon :: "'c \<Rightarrow> int \<times> 'c"
  so_ppoll :: "int list \<Rightarrow> 'c \<Rightarrow> int \<times> bool list \<times> 'c"
  so_write_pid :: "string \<Rightarrow> 'c \<Rightarrow> 'c"
  so_unlink :: "string \<Rightarrow> 'c \<Rightarrow> 'c"

definition usbip_net_set :: "('c, 'k) tcp_sys_scheme \<Rightarrow> sockopt \<Rightarrow> int \<Rightarrow> 'c \<Rightarrow> int \<times> 'c" where
  "usbip_net_set T opt sockfd c = so_setsockopt T sockfd opt c"

definition usbip_net_set_reuseaddr :: "('c, 'k) tcp_sys_scheme \<Rightarrow> int \<Rightarrow> 'c \<Rightarrow> int \<times> 'c" where
  "usbip_net_set_reuseaddr T = usbip_net_set T SO_REUSEADDR"

definition usbip_net_set_nodelay :: "('c, 'k) tcp_sys_scheme \<Rightarrow> int \<Rightarrow> 'c \<Rightarrow> int \<times> 'c" where
  "usbip_net_set_nodelay T = usbip_net_set T TCP_NODELAY"

definition usbip_net_set_keepalive :: "('c, 'k) tcp_sys_scheme \<Rightarrow> int \<Rightarrow> 'c \<Rightarrow> int \<times> 'c" where
  "usbip_net_set_keepalive T = usbip_net_set T SO_KEEPALIVE"

definition usbip_net_set_v6only :: "('c, 'k) tcp_sys_scheme \<Rightarrow> int \<Rightarrow> 'c \<Rightarrow> int \<times> 'c" where
  "usbip_net_set_v6only T = usbip_net_set T IPV6_V6ONLY"

text \<open>The addresses are tried in turn; a socket that is not connected is closed again.\<close>

fun connect_loop :: "('c, 'k) tcp_sys_scheme \<Rightarrow> nat list \<Rightarrow> 'c \<Rightarrow> int option \<times> 'c" where
  "connect_loop T [] c = (None, c)"
| "connect_loop T (rp # rps) c =
     (let (sockfd, c1) = so_socket T rp c in
      if sockfd < 0 then connect_loop T rps c1
      else let c2 = snd (usbip_net_set_nodelay T sockfd c1);
               c3 = snd (usbip_net_set_keepalive T sockfd c2);
               (r, c4) = so_connect T sockfd rp c3 in
        if r = 0 then (Some sockfd, c4) else connect_loop T rps (so_close T sockfd c4))"

definition net_tcp_open :: "('c, 'k) tcp_sys_scheme \<Rightarrow> string \<Rightarrow> string \<Rightarrow> 'c \<Rightarrow> 'c usbip_sock option \<times> 'c" where
  "net_tcp_open T hostname service c =
     (let (ret, res, c1) = so_getaddrinfo T (Some hostname) service AF_UNSPEC c in
      if ret < 0 then (None, c1)
      else case connect_loop T res c1 of
        (None, c2) \<Rightarrow> (None, c2)
      | (Some sockfd, c2) \<Rightarrow>
          let (ok, c3) = so_malloc T c2 in
          if \<not> ok then (None, so_close T sockfd c3) else (Some (usbip_sock_init sockfd None None None), c3))"

definition net_tcp_close :: "('c, 'k) tcp_sys_scheme \<Rightarrow> 'c usbip_sock \<Rightarrow> 'c \<Rightarrow> 'c" where
  "net_tcp_close T sk c = (case sk_shutdown sk of Some f \<Rightarrow> f c | None \<Rightarrow> so_close T (sk_fd sk) c)"

section \<open>Requests\<close>

text \<open>The fault is a peer whose name is not found: the two arrays are printed uninitialised.\<close>

definition do_accept :: "('c, 'k) tcp_sys_scheme \<Rightarrow> int \<Rightarrow> 'c \<Rightarrow> (int \<times> string \<times> string \<times> 'c) option" where
  "do_accept T listenfd c =
     (let (connfd, c1) = so_accept T listenfd c in
      if connfd < 0 then Some (-1, [], [], c1)
      else do { (host, port) \<leftarrow> so_getnameinfo T connfd c1;
                if (case so_auth T of None \<Rightarrow> False | Some auth \<Rightarrow> \<not> auth connfd c1)
                then Some (-1, host, port, so_close T connfd c1)
                else Some (connfd, host, port, snd (usbip_net_set_nodelay T connfd c1)) })"

text \<open>A function returns, or ends the process it runs in.\<close>

datatype proc_end = Returned int | Exited int

text \<open>A request is handled by a new process; when there is none, the connection is closed and nothing said.\<close>

definition process_request ::
  "('c, 'k) tcp_sys_scheme \<Rightarrow> 'c handler \<Rightarrow> int \<Rightarrow> 'c \<Rightarrow> (proc_end \<times> 'c) option" where
  "process_request T recv listenfd c =
     do { (connfd, host, port, c1) \<leftarrow> do_accept T listenfd c;
          if connfd < 0 then Some (Returned (-1), c1)
          else let (childpid, c2) = so_fork T c1 in
            if childpid = 0
            then do { (_, sk, c4) \<leftarrow> recv (usbip_sock_init connfd None None None) host port (so_close T listenfd c2);
                      Some (Exited 0, so_close T connfd c4) }
            else Some (Returned 0, so_close T connfd c2) }"

text \<open>At most \<open>n\<close> sockets are opened; one that cannot be bound or listened on is closed.\<close>

fun listen_all_addrinfo :: "('c, 'k) tcp_sys_scheme \<Rightarrow> nat list \<Rightarrow> nat \<Rightarrow> 'c \<Rightarrow> int list \<times> 'c" where
  "listen_all_addrinfo T [] n c = ([], c)"
| "listen_all_addrinfo T (ai # ais) 0 c = ([], c)"
| "listen_all_addrinfo T (ai # ais) (Suc n) c =
     (let (sock, c1) = so_socket T ai c in
      if sock < 0 then listen_all_addrinfo T ais (Suc n) c1
      else let c2 = snd (usbip_net_set_reuseaddr T sock c1);
               c3 = snd (usbip_net_set_nodelay T sock c2);
               c4 = snd (usbip_net_set_v6only T sock c3);
               (ret, c5) = so_bind T sock ai c4 in
        if ret < 0 then listen_all_addrinfo T ais (Suc n) (so_close T sock c5)
        else let (ret2, c6) = so_listen T sock c5 in
          if ret2 < 0 then listen_all_addrinfo T ais (Suc n) (so_close T sock c6)
          else let (socks, c7) = listen_all_addrinfo T ais n c6 in (sock # socks, c7))"

definition do_getaddrinfo :: "('c, 'k) tcp_sys_scheme \<Rightarrow> string \<Rightarrow> nat \<Rightarrow> 'c \<Rightarrow> nat list option \<times> 'c" where
  "do_getaddrinfo T port family c =
     (let (rc, res, c1) = so_getaddrinfo T None port family c in (if rc \<noteq> 0 then None else Some res, c1))"

section \<open>The main loop\<close>

definition usbipd_driver_open :: "('c \<Rightarrow> int \<times> 'c) option \<Rightarrow> 'c \<Rightarrow> int \<times> 'c" where
  "usbipd_driver_open op c = (case op of Some f \<Rightarrow> f c | None \<Rightarrow> (0, c))"

definition usbipd_driver_close :: "('c \<Rightarrow> 'c) option \<Rightarrow> 'c \<Rightarrow> 'c" where
  "usbipd_driver_close cl c = (case cl of Some f \<Rightarrow> f c | None \<Rightarrow> c)"

text \<open>The sockets that can be read, in order.  A process that was made for a request does not come back.\<close>

fun serve_ready ::
  "('c, 'k) tcp_sys_scheme \<Rightarrow> 'c handler \<Rightarrow> (int \<times> bool) list \<Rightarrow> 'c \<Rightarrow> (int option \<times> 'c) option" where
  "serve_ready T recv [] c = Some (None, c)"
| "serve_ready T recv ((fd, ready) # fds) c =
     (if \<not> ready then serve_ready T recv fds c
      else case process_request T recv fd c of
        None \<Rightarrow> None
      | Some (Exited n, c1) \<Rightarrow> Some (Some n, c1)
      | Some (Returned _, c1) \<Rightarrow> serve_ready T recv fds c1)"

text \<open>The loop ends when \<open>ppoll\<close> fails, which a signal makes it do, or in a process made for a request.\<close>

partial_function (option) standalone_loop ::
  "('c, 'k) tcp_sys_scheme \<Rightarrow> 'c handler \<Rightarrow> int list \<Rightarrow> 'c \<Rightarrow> (int option \<times> 'c) option" where
  "standalone_loop T recv fds c = (case so_ppoll T fds c of (r, ready, c1) \<Rightarrow>
     if r < 0 then Some (None, c1)
     else if r = 0 then standalone_loop T recv fds c1
     else (case serve_ready T recv (zip fds ready) c1 of
       None \<Rightarrow> None
     | Some (Some n, c2) \<Rightarrow> Some (Some n, c2)
     | Some (None, c2) \<Rightarrow> standalone_loop T recv fds c2))"

text \<open>The fault is an array for \<open>ppoll\<close> that cannot be allocated.\<close>

definition do_standalone_mode ::
  "('c, 'k) tcp_sys_scheme \<Rightarrow> ('c \<Rightarrow> int \<times> 'c) option \<times> ('c \<Rightarrow> 'c) option \<Rightarrow> 'c handler \<Rightarrow> string \<Rightarrow> string option \<Rightarrow>
     bool \<Rightarrow> bool \<Rightarrow> bool \<Rightarrow> 'c \<Rightarrow> (proc_end \<times> 'c) option" where
  "do_standalone_mode T ops recv port pid_file daemonize ipv4 ipv6 c = (case ops of (op, cl) \<Rightarrow>
     (let (r0, c0) = usbipd_driver_open op c in
      if r0 \<noteq> 0 then Some (Returned (-1), c0)
      else let (r1, c1) = (if daemonize then so_daemon T c0 else (0, c0)) in
      if r1 < 0 then Some (Returned (-1), usbipd_driver_close cl c1)
      else
        let c2 = (case pid_file of None \<Rightarrow> c1 | Some f \<Rightarrow> so_write_pid T f c1);
            family = (if ipv4 \<and> ipv6 then AF_UNSPEC else if ipv4 then AF_INET else AF_INET6) in
        (case do_getaddrinfo T port family c2 of
           (None, c3) \<Rightarrow> Some (Returned (-1), usbipd_driver_close cl c3)
         | (Some ais, c3) \<Rightarrow>
             let (fds, c4) = listen_all_addrinfo T ais MAXSOCKFD c3 in
             if fds = [] then Some (Returned (-1), usbipd_driver_close cl c4)
             else let (ok, c5) = so_malloc T c4 in
               if \<not> ok then None
               else (case standalone_loop T recv fds c5 of
                 None \<Rightarrow> None
               | Some (Some n, c6) \<Rightarrow> Some (Exited n, c6)
               | Some (None, c6) \<Rightarrow> Some (Returned 0, usbipd_driver_close cl c6)))))"

section \<open>Options\<close>

datatype usbipd_cmd = cmd_standalone_mode | cmd_help | cmd_version

record usbipd_options =
  uo_ipv4 :: bool
  uo_ipv6 :: bool
  uo_daemonize :: bool
  uo_debug :: bool
  uo_device :: bool
  uo_cmd :: usbipd_cmd
  uo_pid_file :: "string option"
  uo_port :: "nat \<times> string"

text \<open>\<open>getopt_long\<close> gives the options with their arguments.  \<open>app\<close> is the daemon of the importing host, which has no
  option for devices.  \<open>None\<close> is an option that is not known; the fault, an option without its argument, cannot
  happen.\<close>

fun usbipd_getopt ::
  "bool \<Rightarrow> string \<Rightarrow> (char \<times> string option) list \<Rightarrow> usbipd_options \<Rightarrow> usbipd_options option" where
  "usbipd_getopt app dflt [] w = Some w"
| "usbipd_getopt app dflt ((opt, arg) # opts) w =
     (if opt = CHR ''4'' then usbipd_getopt app dflt opts (w\<lparr>uo_ipv4 := True\<rparr>)
      else if opt = CHR ''6'' then usbipd_getopt app dflt opts (w\<lparr>uo_ipv6 := True\<rparr>)
      else if opt = CHR ''D'' then usbipd_getopt app dflt opts (w\<lparr>uo_daemonize := True\<rparr>)
      else if opt = CHR ''d'' then usbipd_getopt app dflt opts (w\<lparr>uo_debug := True\<rparr>)
      else if opt = CHR ''h'' then usbipd_getopt app dflt opts (w\<lparr>uo_cmd := cmd_help\<rparr>)
      else if opt = CHR ''P'' then usbipd_getopt app dflt opts (w\<lparr>uo_pid_file := Some (case arg of Some f \<Rightarrow> f | None \<Rightarrow> dflt)\<rparr>)
      else if opt = CHR ''t'' then usbipd_getopt app dflt opts
        (w\<lparr>uo_port := (case arg of Some p \<Rightarrow> usbip_setup_port_number p (uo_port w) | None \<Rightarrow> uo_port w)\<rparr>)
      else if opt = CHR ''v'' then usbipd_getopt app dflt opts (w\<lparr>uo_cmd := cmd_version\<rparr>)
      else if opt = CHR ''e'' \<and> \<not> app then usbipd_getopt app dflt opts (w\<lparr>uo_device := True\<rparr>)
      else None)"

definition start_options :: usbipd_options where
  "start_options = \<lparr>uo_ipv4 = False, uo_ipv6 = False, uo_daemonize = False, uo_debug = False, uo_device = False,
     uo_cmd = cmd_standalone_mode, uo_pid_file = None, uo_port = (3240, ''3240'')\<rparr>"

definition both_families :: "usbipd_options \<Rightarrow> usbipd_options" where
  "both_families w = (if \<not> uo_ipv4 w \<and> \<not> uo_ipv6 w then w\<lparr>uo_ipv4 := True, uo_ipv6 := True\<rparr> else w)"

text \<open>\<open>drv device\<close> is the driver the options choose, with the functions that open and close it and handle its
  requests.  The result of the process is 0 or 1.\<close>

definition usbipd_main ::
  "('c, 'k) tcp_sys_scheme \<Rightarrow> bool \<Rightarrow> string \<Rightarrow> (bool \<Rightarrow> (('c \<Rightarrow> int \<times> 'c) option \<times> ('c \<Rightarrow> 'c) option) \<times> 'c handler) \<Rightarrow>
     (char \<times> string option) list \<Rightarrow> 'c \<Rightarrow> (int \<times> 'c) option" where
  "usbipd_main T app dflt drv opts c = (case map_option both_families (usbipd_getopt app dflt opts start_options) of
     None \<Rightarrow> Some (1, c)
   | Some w \<Rightarrow> (case uo_cmd w of
       cmd_help \<Rightarrow> Some (0, c)
     | cmd_version \<Rightarrow> Some (0, c)
     | cmd_standalone_mode \<Rightarrow> (case drv (uo_device w) of (ops, recv) \<Rightarrow>
         (case do_standalone_mode T ops recv (snd (uo_port w)) (uo_pid_file w) (uo_daemonize w) (uo_ipv4 w) (uo_ipv6 w) c of
            None \<Rightarrow> None
          | Some (Exited n, c1) \<Rightarrow> Some (n, c1)
          | Some (Returned r, c1) \<Rightarrow> Some (if r > -1 then 0 else 1,
              case uo_pid_file w of None \<Rightarrow> c1 | Some f \<Rightarrow> so_unlink T f c1)))))"

section \<open>Open sockets\<close>

text \<open>\<open>opened\<close> is the set of the sockets of the process: the calls that make a socket return a new one or fail, and only
  closing takes one away.\<close>

definition sockets_counted :: "('c, 'k) tcp_sys_scheme \<Rightarrow> ('c \<Rightarrow> int set) \<Rightarrow> bool" where
  "sockets_counted T opened =
     ((\<forall>a c fd c'. so_socket T a c = (fd, c') \<longrightarrow>
         (if fd < 0 then opened c' = opened c else fd \<notin> opened c \<and> opened c' = insert fd (opened c))) \<and>
      (\<forall>l c fd c'. so_accept T l c = (fd, c') \<longrightarrow>
         (if fd < 0 then opened c' = opened c else fd \<notin> opened c \<and> opened c' = insert fd (opened c))) \<and>
      (\<forall>fd c. opened (so_close T fd c) = opened c - {fd}) \<and>
      (\<forall>fd opt c. opened (snd (so_setsockopt T fd opt c)) = opened c) \<and>
      (\<forall>fd a c. opened (snd (so_bind T fd a c)) = opened c) \<and>
      (\<forall>fd c. opened (snd (so_listen T fd c)) = opened c) \<and>
      (\<forall>fd a c. opened (snd (so_connect T fd a c)) = opened c) \<and>
      (\<forall>h p f c. opened (snd (snd (so_getaddrinfo T h p f c))) = opened c) \<and>
      (\<forall>c. opened (snd (so_malloc T c)) = opened c) \<and>
      (\<forall>c. opened (snd (so_fork T c)) = opened c) \<and>
      (\<forall>c. opened (snd (so_daemon T c)) = opened c) \<and>
      (\<forall>fds c. opened (snd (snd (so_ppoll T fds c))) = opened c) \<and>
      (\<forall>f c. opened (so_write_pid T f c) = opened c))"

lemma sockets_countedD:
  assumes "sockets_counted T opened"
  shows "so_socket T a c = (fd, c') \<Longrightarrow> fd < 0 \<Longrightarrow> opened c' = opened c"
    and "so_socket T a c = (fd, c') \<Longrightarrow> \<not> fd < 0 \<Longrightarrow> fd \<notin> opened c \<and> opened c' = insert fd (opened c)"
    and "so_accept T l c = (fd, c') \<Longrightarrow> fd < 0 \<Longrightarrow> opened c' = opened c"
    and "so_accept T l c = (fd, c') \<Longrightarrow> \<not> fd < 0 \<Longrightarrow> fd \<notin> opened c \<and> opened c' = insert fd (opened c)"
    and "opened (so_close T fd c) = opened c - {fd}"
    and "opened (snd (usbip_net_set_reuseaddr T fd c)) = opened c"
    and "opened (snd (usbip_net_set_nodelay T fd c)) = opened c"
    and "opened (snd (usbip_net_set_keepalive T fd c)) = opened c"
    and "opened (snd (usbip_net_set_v6only T fd c)) = opened c"
    and "so_bind T fd a c = (r, c') \<Longrightarrow> opened c' = opened c"
    and "so_listen T fd c = (r, c') \<Longrightarrow> opened c' = opened c"
    and "so_connect T fd a c = (r, c') \<Longrightarrow> opened c' = opened c"
    and "so_getaddrinfo T h p f c = (r, as, c') \<Longrightarrow> opened c' = opened c"
    and "so_malloc T c = (ok, c') \<Longrightarrow> opened c' = opened c"
    and "so_fork T c = (r, c') \<Longrightarrow> opened c' = opened c"
    and "so_daemon T c = (r, c') \<Longrightarrow> opened c' = opened c"
    and "so_ppoll T fds c = (r, bs, c') \<Longrightarrow> opened c' = opened c"
    and "opened (so_write_pid T g c) = opened c"
  using assms unfolding sockets_counted_def usbip_net_set_reuseaddr_def usbip_net_set_nodelay_def usbip_net_set_keepalive_def
    usbip_net_set_v6only_def usbip_net_set_def
  by (metis snd_conv)+

lemma listen_all_opened:
  assumes "sockets_counted T opened"
  shows "listen_all_addrinfo T ais n c = (fds, c') \<Longrightarrow>
    opened c' = opened c \<union> set fds \<and> set fds \<inter> opened c = {} \<and> distinct fds \<and> length fds \<le> n"
proof (induction ais arbitrary: n c fds c')
  case (Cons ai ais)
  note K = sockets_countedD [OF assms]
  show ?case
  proof (cases n)
    case 0
    then show ?thesis using Cons.prems by simp
  next
    case (Suc m)
    obtain s c1 where s: "so_socket T ai c = (s, c1)" by (meson surj_pair)
    show ?thesis
    proof (cases "s < 0")
      case True
      then show ?thesis using Cons.prems Cons.IH [of "Suc m" c1] Suc s K(1) [OF s True] by simp
    next
      case False
      let ?c4 = "snd (usbip_net_set_v6only T s (snd (usbip_net_set_nodelay T s (snd (usbip_net_set_reuseaddr T s c1)))))"
      have o4: "opened ?c4 = insert s (opened c)" "s \<notin> opened c" using K(2) [OF s False] K(6,7,9) by simp_all
      obtain r c5 where b: "so_bind T s ai ?c4 = (r, c5)" by (meson surj_pair)
      have o5: "opened c5 = insert s (opened c)" using K(10) [OF b] o4 by simp
      have shut: "opened (so_close T s d) = opened c" if "opened d = insert s (opened c)" for d
        using K(5) that o4(2) by auto
      show ?thesis
      proof (cases "r < 0")
        case True
        then show ?thesis using Cons.prems Cons.IH [of "Suc m" "so_close T s c5"] Suc s False b shut [OF o5] by simp
      next
        case r: False
        obtain l c6 where l: "so_listen T s c5 = (l, c6)" by (meson surj_pair)
        have o6: "opened c6 = insert s (opened c)" using K(11) [OF l] o5 by simp
        show ?thesis
        proof (cases "l < 0")
          case True
          then show ?thesis using Cons.prems Cons.IH [of "Suc m" "so_close T s c6"] Suc s False b r l shut [OF o6] by simp
        next
          case l2: False
          obtain fs c7 where f: "listen_all_addrinfo T ais m c6 = (fs, c7)" by (meson surj_pair)
          have "fds = s # fs" "c' = c7" using Cons.prems Suc s False b r l l2 f by simp_all
          then show ?thesis using Cons.IH [OF f] o6 o4(2) Suc by auto
        qed
      qed
    qed
  qed
qed simp

lemma connect_loop_opened:
  assumes "sockets_counted T opened"
  shows "connect_loop T ais c = (r, c') \<Longrightarrow>
    (case r of None \<Rightarrow> opened c' = opened c | Some fd \<Rightarrow> fd \<notin> opened c \<and> opened c' = insert fd (opened c))"
proof (induction ais arbitrary: c)
  case (Cons ai ais)
  note K = sockets_countedD [OF assms]
  obtain s c1 where s: "so_socket T ai c = (s, c1)" by (meson surj_pair)
  show ?case
  proof (cases "s < 0")
    case True
    then show ?thesis using Cons.prems Cons.IH [of c1] s K(1) [OF s True] by (auto split: option.splits)
  next
    case False
    let ?c3 = "snd (usbip_net_set_keepalive T s (snd (usbip_net_set_nodelay T s c1)))"
    have o3: "opened ?c3 = insert s (opened c)" "s \<notin> opened c" using K(2) [OF s False] K(7,8) by simp_all
    obtain q c4 where q: "so_connect T s ai ?c3 = (q, c4)" by (meson surj_pair)
    have o4: "opened c4 = insert s (opened c)" using K(12) [OF q] o3 by simp
    then have "opened (so_close T s c4) = opened c" using K(5) o3(2) by auto
    then show ?thesis using Cons.prems Cons.IH [of "so_close T s c4"] s False q o4 o3(2)
      by (cases "q = 0") (auto split: option.splits)
  qed
qed auto

lemma net_tcp_open_opened:
  assumes "sockets_counted T opened" "net_tcp_open T host service c = (r, c')"
  shows "case r of None \<Rightarrow> opened c' = opened c | Some sk \<Rightarrow> sk_fd sk \<notin> opened c \<and> opened c' = insert (sk_fd sk) (opened c)"
proof -
  note K = sockets_countedD [OF assms(1)]
  obtain q as c1 where q: "so_getaddrinfo T (Some host) service AF_UNSPEC c = (q, as, c1)" by (metis prod_cases3)
  obtain l c2 where l: "connect_loop T as c1 = (l, c2)" by (meson surj_pair)
  obtain ok c3 where m: "so_malloc T c2 = (ok, c3)" by (meson surj_pair)
  show ?thesis using connect_loop_opened [OF assms(1) l] assms(2) q l m K(13) [OF q] K(14) [OF m] K(5) [of _ c3]
    by (auto simp: net_tcp_open_def usbip_sock_init_def split: option.splits if_splits)
qed

lemma process_request_opened:
  assumes "sockets_counted T opened" "process_request T recv l c = Some (Returned r, c')"
  shows "opened c' = opened c"
proof -
  note K = sockets_countedD [OF assms(1)]
  obtain fd c1 where a: "so_accept T l c = (fd, c1)" by (meson surj_pair)
  show ?thesis
  proof (cases "fd < 0")
    case True
    then show ?thesis using assms(2) a K(3) [OF a] by (auto simp: process_request_def do_accept_def)
  next
    case False
    have o: "fd \<notin> opened c" "opened c1 = insert fd (opened c)" using K(4) [OF a False] by simp_all
    have n: "opened (snd (usbip_net_set_nodelay T fd c1)) = insert fd (opened c)" using K(7) o by simp
    obtain p c2 where f: "so_fork T (snd (usbip_net_set_nodelay T fd c1)) = (p, c2)" by (meson surj_pair)
    have o2: "opened c2 = insert fd (opened c)" using K(15) [OF f] n by simp
    show ?thesis using assms(2) a False f o o2 K(5) [of fd c1] K(5) [of fd c2]
      by (auto simp: process_request_def do_accept_def Let_def split: bind_splits if_splits option.splits)
  qed
qed

lemma serve_ready_opened:
  assumes "sockets_counted T opened"
  shows "serve_ready T recv fds c = Some (None, c') \<Longrightarrow> opened c' = opened c"
proof (induction fds arbitrary: c)
  case (Cons x fds)
  then show ?case using process_request_opened [OF assms]
    by (cases x) (fastforce split: if_splits option.splits proc_end.splits prod.splits)
qed simp

lemma standalone_loop_opened:
  assumes "sockets_counted T opened"
  shows "standalone_loop T recv fds c = Some (None, c') \<Longrightarrow> opened c' = opened c"
proof -
  let ?P = "\<lambda>T recv fds c r. sockets_counted T opened \<longrightarrow> fst r = None \<longrightarrow> opened (snd r) = opened c"
  have "?P T recv fds c r" if "standalone_loop T recv fds c = Some r" for r
  proof (rule standalone_loop.raw_induct [where P = ?P, OF _ that], intro impI)
    fix loop :: "('a, 'b) tcp_sys_scheme \<Rightarrow> 'a handler \<Rightarrow> int list \<Rightarrow> 'a \<Rightarrow> (int option \<times> 'a) option"
      and T recv fds c r
    assume ih: "\<And>T recv fds c r. loop T recv fds c = Some r \<Longrightarrow> ?P T recv fds c r"
      and e: "(case so_ppoll T fds c of (r, ready, c1) \<Rightarrow>
        if r < 0 then Some (None, c1) else if r = 0 then loop T recv fds c1
        else (case serve_ready T recv (zip fds ready) c1 of None \<Rightarrow> None
          | Some (Some n, c2) \<Rightarrow> Some (Some n, c2) | Some (None, c2) \<Rightarrow> loop T recv fds c2)) = Some r"
      and k: "sockets_counted T opened" and n: "fst r = None"
    obtain p ready c1 where p: "so_ppoll T fds c = (p, ready, c1)" by (metis prod_cases3)
    have o1: "opened c1 = opened c" using sockets_countedD(17) [OF k p] .
    have ih': "opened (snd r) = opened d" if "loop T recv fds d = Some r" for d
      using ih [OF that] k n by blast
    note e' = e [unfolded p prod.case]
    show "opened (snd r) = opened c"
    proof (cases "p < 0 \<or> p = 0")
      case True
      then consider "r = (None, c1)" | "loop T recv fds c1 = Some r" using e' by (cases "p < 0") simp_all
      then show ?thesis using o1 ih' by cases simp_all
    next
      case False
      obtain q c2 where q: "serve_ready T recv (zip fds ready) c1 = Some (q, c2)"
        using e' False by (cases "serve_ready T recv (zip fds ready) c1") auto
      have "q = None" using e' False q n by (cases q) auto
      then have "loop T recv fds c2 = Some r" "opened c2 = opened c1"
        using e' False q serve_ready_opened [OF k, of recv "zip fds ready" c1 c2] by simp_all
      then show ?thesis using o1 ih' [of c2] by simp
    qed
  qed
  from this [of "(None, c')"] assms show "standalone_loop T recv fds c = Some (None, c') \<Longrightarrow> opened c' = opened c" by simp
qed

text \<open>C28: However many requests it has served, the daemon that comes to its end has its listening sockets open and no
  other; at most twenty, each of them new, and none if it could not start.\<close>

theorem daemon_keeps_sockets:
  assumes "sockets_counted T opened"
    and "do_standalone_mode T (op, cl) recv port pid_file daemonize ipv4 ipv6 c = Some (Returned r, c')"
    and "\<And>f c. op = Some f \<Longrightarrow> opened (snd (f c)) = opened c" "\<And>f c. cl = Some f \<Longrightarrow> opened (f c) = opened c"
  shows "\<exists>fds. opened c' = opened c \<union> set fds \<and> set fds \<inter> opened c = {} \<and> distinct fds \<and> length fds \<le> 20 \<and> (r = 0 \<longleftrightarrow> fds \<noteq> [])"
proof -
  note K = sockets_countedD [OF assms(1)]
  obtain r0 c0 where 0: "usbipd_driver_open op c = (r0, c0)" by (meson surj_pair)
  have o0: "opened c0 = opened c" using 0 assms(3) [of _ c] by (auto simp: usbipd_driver_open_def split: option.splits)
  have cl: "opened (usbipd_driver_close cl d) = opened d" for d
    using assms(4) [of _ d] by (auto simp: usbipd_driver_close_def split: option.splits)
  obtain r1 c1 where 1: "(if daemonize then so_daemon T c0 else (0, c0)) = (r1, c1)" by (meson surj_pair)
  have o1: "opened c1 = opened c" using 1 K(16) o0 by (auto split: if_splits)
  let ?c2 = "case pid_file of None \<Rightarrow> c1 | Some f \<Rightarrow> so_write_pid T f c1"
  let ?fam = "if ipv4 \<and> ipv6 then AF_UNSPEC else if ipv4 then AF_INET else AF_INET6"
  have o2: "opened ?c2 = opened c" using o1 K(18) by (auto split: option.splits)
  obtain as c3 where 3: "do_getaddrinfo T port ?fam ?c2 = (as, c3)" by (meson surj_pair)
  have o3: "opened c3 = opened c" using 3 K(13) o2 by (auto simp: do_getaddrinfo_def Let_def split: prod.splits if_splits)
  obtain fds c4 where 4: "listen_all_addrinfo T (the as) MAXSOCKFD c3 = (fds, c4)" by (meson surj_pair)
  note l = listen_all_opened [OF assms(1) 4, unfolded o3]
  obtain ok c5 where 5: "so_malloc T c4 = (ok, c5)" by (meson surj_pair)
  have o5: "opened c5 = opened c4" using K(14) [OF 5] .
  note D = assms(2) [unfolded do_standalone_mode_def prod.case Let_def 0 1 3]
  consider (none) "r = -1" "opened c' = opened c"
    | (loop) c6 where "r = 0" "fds \<noteq> []" "standalone_loop T recv fds c5 = Some (None, c6)" "c' = usbipd_driver_close cl c6"
    using D 4 5 l o0 o1 o3 cl by (cases as) (auto split: if_splits option.splits)
  then show ?thesis
  proof cases
    case none
    then show ?thesis by (intro exI [of _ "[]"]) simp
  next
    case loop
    then show ?thesis using standalone_loop_opened [OF assms(1) loop(3)] o5 l cl by auto
  qed
qed

text \<open>A system that numbers its sockets; the last component is what \<open>ppoll\<close> returns.\<close>

definition demo_open :: "nat \<times> nat list \<times> int list \<Rightarrow> int \<times> nat \<times> nat list \<times> int list" where
  "demo_open c = (case c of (n, fds, sc) \<Rightarrow> (int n, Suc n, n # fds, sc))"

definition demo_opened :: "nat \<times> nat list \<times> int list \<Rightarrow> int set" where
  "demo_opened c = (case c of (n, fds, sc) \<Rightarrow> int ` {x \<in> set fds. x < n})"

definition demo_tcp :: "(nat \<times> nat list \<times> int list) tcp_sys" where
  "demo_tcp = \<lparr>so_getaddrinfo = (\<lambda>_ _ _ c. (0, [7, 2], c)), so_getnameinfo = (\<lambda>_ _. Some (''10.0.0.1'', ''1234'')),
     so_socket = (\<lambda>_. demo_open), so_setsockopt = (\<lambda>_ _ c. (0, c)), so_bind = (\<lambda>_ a c. (if a = 2 then -1 else 0, c)),
     so_listen = (\<lambda>_ c. (0, c)), so_connect = (\<lambda>_ _ c. (0, c)), so_accept = (\<lambda>_. demo_open),
     so_close = (\<lambda>fd (n, fds, sc). (n, filter (\<lambda>x. int x \<noteq> fd) fds, sc)), so_malloc = Pair True, so_auth = None,
     so_fork = (\<lambda>c. (100, c)), so_daemon = (\<lambda>c. (0, c)),
     so_ppoll = (\<lambda>fds (n, os, sc). (case sc of [] \<Rightarrow> (-1, [], n, os, []) | r # sc' \<Rightarrow> (r, map (\<lambda>_. r > 0) fds, n, os, sc'))),
     so_write_pid = (\<lambda>_ c. c), so_unlink = (\<lambda>_ c. c)\<rparr>"

lemma demo_tcp_counted: "sockets_counted demo_tcp demo_opened"
  unfolding sockets_counted_def demo_tcp_def
  by (intro conjI allI) (auto simp: demo_open_def demo_opened_def split: prod.splits list.splits)

text \<open>Two addresses, of which the second cannot be bound; one request, one time-out, and the signal.\<close>

theorem daemon_keeps_sockets_witness:
  "\<exists>c' fds. do_standalone_mode demo_tcp (None, None) (\<lambda>_ _ _ _. None) ''3240'' None True True True (3, [], [1, 0]) =
      Some (Returned 0, c') \<and> demo_opened c' = set fds \<and> length fds \<le> 20 \<and> fds \<noteq> []"
proof -
  let ?rv = "\<lambda>_ _ _ _. None :: (int \<times> (nat \<times> nat list \<times> int list) usbip_sock \<times> nat \<times> nat list \<times> int list) option"
  have T: "so_ppoll demo_tcp fds (n, os, sc) = (case sc of [] \<Rightarrow> (-1, [], n, os, []) | r # sc' \<Rightarrow> (r, map (\<lambda>_. r > 0) fds, n, os, sc'))"
    "so_socket demo_tcp a (n, os, sc) = (int n, Suc n, n # os, sc)" "so_accept demo_tcp fd (n, os, sc) = (int n, Suc n, n # os, sc)"
    "so_close demo_tcp fd (n, os, sc) = (n, filter (\<lambda>x. int x \<noteq> fd) os, sc)" "so_setsockopt demo_tcp fd opt c = (0, c)"
    "so_bind demo_tcp fd a c = (if a = 2 then -1 else 0, c)" "so_listen demo_tcp fd c = (0, c)" "so_fork demo_tcp c = (100, c)"
    "so_malloc demo_tcp c = (True, c)" "so_daemon demo_tcp c = (0, c)" "so_getnameinfo demo_tcp fd c = Some (''10.0.0.1'', ''1234'')"
    "so_auth demo_tcp = None" "so_getaddrinfo demo_tcp h q f c = (0, [7, 2], c)" for fds n os sc a fd opt c h q f
    by (simp_all add: demo_tcp_def demo_open_def)
  have l: "standalone_loop demo_tcp ?rv [3] (5, [3], [1, 0]) = Some (None, 6, [3], [])"
    by (subst standalone_loop.simps, simp add: T process_request_def do_accept_def usbip_net_set_nodelay_def usbip_net_set_def,
      subst standalone_loop.simps, simp add: T, subst standalone_loop.simps, simp add: T)
  have s: "listen_all_addrinfo demo_tcp [7, 2] 20 (3, [], [1, 0]) = ([3], 5, [3], [1, 0])"
    by (simp add: T numeral_eq_Suc usbip_net_set_reuseaddr_def usbip_net_set_nodelay_def usbip_net_set_v6only_def usbip_net_set_def)
  have r: "do_standalone_mode demo_tcp (None, None) ?rv ''3240'' None True True True (3, [], [1, 0]) = Some (Returned 0, 6, [3], [])"
    by (simp add: do_standalone_mode_def usbipd_driver_open_def usbipd_driver_close_def T do_getaddrinfo_def s l)
  have "demo_opened (3, [], [1, 0]) = {}" by (simp add: demo_opened_def)
  with daemon_keeps_sockets [OF demo_tcp_counted r] r show ?thesis by auto
qed

end
