(* ===== verification/Tool_Names.thy ===== *)
theory Tool_Names
  imports Tool_Vhci
begin

text \<open>
  The names of vendors, products, classes and protocols, \<open>names.c\<close>: five hash tables filled from the file \<open>usb.ids\<close>,
  and the texts \<open>usbip_common.c\<close> of the tools makes of them.
\<close>

section \<open>The hash tables\<close>

text \<open>The masks move down together until the first one is below \<open>HASH1\<close>.\<close>

abbreviation (input) HASH1 :: u32 where "HASH1 \<equiv> 0x10"
abbreviation (input) HASH2 :: u32 where "HASH2 \<equiv> 0x02"
abbreviation (input) HASHSZ :: nat where "HASHSZ \<equiv> 16"

function hash_loop :: "u32 \<Rightarrow> u32 \<Rightarrow> u32 \<Rightarrow> u32" where
  "hash_loop num mask1 mask2 =
     (if HASH1 \<le> mask1
      then hash_loop (if num AND mask1 \<noteq> 0 then num XOR mask2 else num) (drop_bit 1 mask1) (drop_bit 1 mask2)
      else num)"
  by pat_completeness auto
termination
proof (relation "measure (\<lambda>(num, mask1, mask2). unat mask1)")
  fix num mask1 mask2 :: u32
  assume "HASH1 \<le> mask1"
  then have "16 \<le> unat mask1" by (simp add: word_le_nat_alt)
  then show "((if num AND mask1 \<noteq> 0 then num XOR mask2 else num, drop_bit 1 mask1, drop_bit 1 mask2), num, mask1, mask2)
      \<in> measure (\<lambda>(num, mask1, mask2). unat mask1)"
    by (simp add: drop_bit_eq_div unat_div)
qed simp

declare hash_loop.simps [simp del]

definition hashnum :: "u32 \<Rightarrow> nat" where
  "hashnum num = unat (hash_loop num (push_bit 27 HASH1) (push_bit 27 HASH2) AND 15)"

lemma hashnum_less [simp]: "hashnum num < HASHSZ"
proof -
  have "hash_loop num a b AND 15 \<le> 15" for a b by (rule word_and_le1)
  then have "unat (hash_loop num a b AND 15) \<le> unat (15 :: u32)" for a b unfolding word_le_nat_alt .
  then show ?thesis by (simp add: hashnum_def le_imp_less_Suc [of _ 15, simplified])
qed

text \<open>An entry of each table.  Its last field tells which allocation it came from.\<close>

record vendor =
  v_vendorid :: u16
  v_name :: string
  v_mem :: nat
record product =
  p_vendorid :: u16
  p_productid :: u16
  p_name :: string
  p_mem :: nat
record clazz =
  c_classid :: u8
  c_name :: string
  c_mem :: nat
record subclazz =
  s_classid :: u8
  s_subclassid :: u8
  s_name :: string
  s_mem :: nat
record protocol =
  r_classid :: u8
  r_subclassid :: u8
  r_protocolid :: u8
  r_name :: string
  r_mem :: nat

text \<open>\<open>n_pool\<close> is the number of allocations on the list \<open>pool_head\<close>, the first \<open>n_dead\<close> of which were freed.\<close>

record 'c names_state =
  n_vendors :: "vendor list list"
  n_products :: "product list list"
  n_classes :: "clazz list list"
  n_subclasses :: "subclazz list list"
  n_protocols :: "protocol list list"
  n_pool :: nat
  n_dead :: nat
  nenv :: 'c

text \<open>\<open>fopen\<close> gives the text of the file, or an error number.\<close>

record 'c names_sys =
  n_calloc :: "nat \<Rightarrow> 'c \<Rightarrow> bool \<times> 'c"
  n_fopen :: "string \<Rightarrow> 'c \<Rightarrow> int + string"

text \<open>The walk along a chain; the fault is an entry that was freed.\<close>

fun chain_find :: "nat \<Rightarrow> ('e \<Rightarrow> nat) \<Rightarrow> ('e \<Rightarrow> bool) \<Rightarrow> 'e list \<Rightarrow> 'e option option" where
  "chain_find dead mem P [] = Some None"
| "chain_find dead mem P (e # es) =
     (if mem e < dead then None else if P e then Some (Some e) else chain_find dead mem P es)"

text \<open>The keys: the identifiers are widened to \<open>int\<close>, shifted and converted to \<open>unsigned int\<close>.\<close>

definition product_key :: "u16 \<Rightarrow> u16 \<Rightarrow> u32" where
  "product_key vid pid = push_bit 16 (ucast vid) OR ucast pid"

definition subclass_key :: "u8 \<Rightarrow> u8 \<Rightarrow> u32" where
  "subclass_key cid sid = push_bit 8 (ucast cid) OR ucast sid"

definition protocol_key :: "u8 \<Rightarrow> u8 \<Rightarrow> u8 \<Rightarrow> u32" where
  "protocol_key cid sid pid = push_bit 16 (ucast cid) OR push_bit 8 (ucast sid) OR ucast pid"

text \<open>The outer option is the fault, the inner one a null result.\<close>

definition names_vendor :: "'c names_state \<Rightarrow> u16 \<Rightarrow> string option option" where
  "names_vendor st vid = map_option (map_option v_name)
     (chain_find (n_dead st) v_mem (\<lambda>v. v_vendorid v = vid) (n_vendors st ! hashnum (ucast vid)))"

definition names_product :: "'c names_state \<Rightarrow> u16 \<Rightarrow> u16 \<Rightarrow> string option option" where
  "names_product st vid pid = map_option (map_option p_name)
     (chain_find (n_dead st) p_mem (\<lambda>p. p_vendorid p = vid \<and> p_productid p = pid)
       (n_products st ! hashnum (product_key vid pid)))"

definition names_class :: "'c names_state \<Rightarrow> u8 \<Rightarrow> string option option" where
  "names_class st cid = map_option (map_option c_name)
     (chain_find (n_dead st) c_mem (\<lambda>c. c_classid c = cid) (n_classes st ! hashnum (ucast cid)))"

definition names_subclass :: "'c names_state \<Rightarrow> u8 \<Rightarrow> u8 \<Rightarrow> string option option" where
  "names_subclass st cid sid = map_option (map_option s_name)
     (chain_find (n_dead st) s_mem (\<lambda>s. s_classid s = cid \<and> s_subclassid s = sid)
       (n_subclasses st ! hashnum (subclass_key cid sid)))"

definition names_protocol :: "'c names_state \<Rightarrow> u8 \<Rightarrow> u8 \<Rightarrow> u8 \<Rightarrow> string option option" where
  "names_protocol st cid sid pid = map_option (map_option r_name)
     (chain_find (n_dead st) r_mem (\<lambda>r. r_classid r = cid \<and> r_subclassid r = sid \<and> r_protocolid r = pid)
       (n_protocols st ! hashnum (protocol_key cid sid pid)))"

text \<open>An allocation goes on the list of the pool; the result is the number of it.\<close>

definition my_malloc :: "('c, 'k) names_sys_scheme \<Rightarrow> nat \<Rightarrow> 'c names_state \<Rightarrow> nat option \<times> 'c names_state" where
  "my_malloc N sz st =
     (let (ok, c1) = n_calloc N 16 (nenv st) in
      if \<not> ok then (None, st\<lparr>nenv := c1\<rparr>)
      else let (ok2, c2) = n_calloc N sz c1 in
        if \<not> ok2 then (None, st\<lparr>nenv := c2\<rparr>)
        else (Some (n_pool st), st\<lparr>nenv := c2, n_pool := Suc (n_pool st)\<rparr>))"

text \<open>The pool is freed, but neither it nor the tables are emptied; the fault is a pool that was freed before.\<close>

definition names_free :: "'c names_state \<Rightarrow> 'c names_state option" where
  "names_free st =
     (if n_pool st = 0 then Some st else if 0 < n_dead st then None else Some (st\<lparr>n_dead := n_pool st\<rparr>))"

section \<open>New entries\<close>

text \<open>What the five functions have in common: an entry that is already there, a failed allocation, or the new entry
  at the head of its chain.\<close>

definition new_entry ::
  "('c, 'k) names_sys_scheme \<Rightarrow> 'e option option \<Rightarrow> nat \<Rightarrow> (nat \<Rightarrow> 'c names_state \<Rightarrow> 'c names_state) \<Rightarrow>
     'c names_state \<Rightarrow> (int \<times> 'c names_state) option" where
  "new_entry N found sz put st = (case found of
     None \<Rightarrow> None
   | Some (Some e) \<Rightarrow> Some (-1, st)
   | Some None \<Rightarrow> (case my_malloc N sz st of
       (None, st1) \<Rightarrow> Some (-1, st1)
     | (Some i, st1) \<Rightarrow> Some (0, put i st1)))"

definition push_chain :: "nat \<Rightarrow> 'e \<Rightarrow> 'e list list \<Rightarrow> 'e list list" where
  "push_chain h e t = t[h := e # t ! h]"

definition new_vendor ::
  "('c, 'k) names_sys_scheme \<Rightarrow> string \<Rightarrow> u16 \<Rightarrow> 'c names_state \<Rightarrow> (int \<times> 'c names_state) option" where
  "new_vendor N name vid st =
     (let h = hashnum (ucast vid) in
      new_entry N (chain_find (n_dead st) v_mem (\<lambda>v. v_vendorid v = vid) (n_vendors st ! h)) (16 + length name)
        (\<lambda>i st. st\<lparr>n_vendors := push_chain h \<lparr>v_vendorid = vid, v_name = name, v_mem = i\<rparr> (n_vendors st)\<rparr>) st)"

definition new_product ::
  "('c, 'k) names_sys_scheme \<Rightarrow> string \<Rightarrow> u16 \<Rightarrow> u16 \<Rightarrow> 'c names_state \<Rightarrow> (int \<times> 'c names_state) option" where
  "new_product N name vid pid st =
     (let h = hashnum (product_key vid pid) in
      new_entry N (chain_find (n_dead st) p_mem (\<lambda>p. p_vendorid p = vid \<and> p_productid p = pid) (n_products st ! h))
        (16 + length name)
        (\<lambda>i st. st\<lparr>n_products := push_chain h \<lparr>p_vendorid = vid, p_productid = pid, p_name = name, p_mem = i\<rparr>
          (n_products st)\<rparr>) st)"

definition new_class ::
  "('c, 'k) names_sys_scheme \<Rightarrow> string \<Rightarrow> u8 \<Rightarrow> 'c names_state \<Rightarrow> (int \<times> 'c names_state) option" where
  "new_class N name cid st =
     (let h = hashnum (ucast cid) in
      new_entry N (chain_find (n_dead st) c_mem (\<lambda>c. c_classid c = cid) (n_classes st ! h)) (16 + length name)
        (\<lambda>i st. st\<lparr>n_classes := push_chain h \<lparr>c_classid = cid, c_name = name, c_mem = i\<rparr> (n_classes st)\<rparr>) st)"

definition new_subclass ::
  "('c, 'k) names_sys_scheme \<Rightarrow> string \<Rightarrow> u8 \<Rightarrow> u8 \<Rightarrow> 'c names_state \<Rightarrow> (int \<times> 'c names_state) option" where
  "new_subclass N name cid sid st =
     (let h = hashnum (subclass_key cid sid) in
      new_entry N (chain_find (n_dead st) s_mem (\<lambda>s. s_classid s = cid \<and> s_subclassid s = sid) (n_subclasses st ! h))
        (16 + length name)
        (\<lambda>i st. st\<lparr>n_subclasses := push_chain h \<lparr>s_classid = cid, s_subclassid = sid, s_name = name, s_mem = i\<rparr>
          (n_subclasses st)\<rparr>) st)"

definition new_protocol ::
  "('c, 'k) names_sys_scheme \<Rightarrow> string \<Rightarrow> u8 \<Rightarrow> u8 \<Rightarrow> u8 \<Rightarrow> 'c names_state \<Rightarrow> (int \<times> 'c names_state) option" where
  "new_protocol N name cid sid pid st =
     (let h = hashnum (protocol_key cid sid pid) in
      new_entry N (chain_find (n_dead st) r_mem (\<lambda>r. r_classid r = cid \<and> r_subclassid r = sid \<and> r_protocolid r = pid)
          (n_protocols st ! h)) (16 + length name)
        (\<lambda>i st. st\<lparr>n_protocols := push_chain h
          \<lparr>r_classid = cid, r_subclassid = sid, r_protocolid = pid, r_name = name, r_mem = i\<rparr> (n_protocols st)\<rparr>) st)"

section \<open>The file\<close>

text \<open>What the last line said: -1, the number of a section, or 1 for a section that is not stored.\<close>

record parse_ctx =
  lastvendor :: int
  lastclass :: int
  lastsubclass :: int
  lasthut :: int
  lastlang :: int

definition start_ctx :: parse_ctx where
  "start_ctx = \<lparr>lastvendor = -1, lastclass = -1, lastsubclass = -1, lasthut = -1, lastlang = -1\<rparr>"

text \<open>The new entry a line asks for.\<close>

datatype names_entry = No_entry
  | New_vendor string u16
  | New_product string u16 u16
  | New_class string u8
  | New_subclass string u8 u8
  | New_protocol string u8 u8 u8

definition char_at :: "string \<Rightarrow> nat \<Rightarrow> char" where
  "char_at s i = (if i < length s then s ! i else CHR 0x00)"

definition starts_with :: "string \<Rightarrow> string \<Rightarrow> bool" where
  "starts_with p s = (take (length p) s = p)"

text \<open>\<open>strtoul\<close> with base 16, converted to \<open>unsigned int\<close>, of a text that begins with a digit.\<close>

definition strtoul16 :: "string \<Rightarrow> u32 \<times> string" where
  "strtoul16 s =
     (let ds = (case s of z # x # c # cs \<Rightarrow>
            if z = CHR ''0'' \<and> (x = CHR ''x'' \<or> x = CHR ''X'') \<and> is_xdigit c then c # cs else s
          | _ \<Rightarrow> s);
          (n, r) = scan_radix 16 0 ds in
      (ucast (if 2 ^ 64 \<le> int n then - 1 else of_nat n :: ulong), r))"

text \<open>The line ends are cut off.\<close>

definition strip_line :: "string \<Rightarrow> string" where
  "strip_line buf = takeWhile (\<lambda>c. c \<noteq> CHR 0x0A) (takeWhile (\<lambda>c. c \<noteq> CHR 0x0D) (cstr buf))"

text \<open>A number and, behind white space, the name; \<open>None\<close> is a line without a name.\<close>

definition spec_of :: "string \<Rightarrow> (u32 \<times> string) option" where
  "spec_of s = (let (n, r) = strtoul16 s; cp = dropWhile is_space r in if cp = [] then None else Some (n, cp))"

definition class_line :: "parse_ctx \<Rightarrow> string \<Rightarrow> names_entry \<times> parse_ctx" where
  "class_line ctx buf =
     (let cp = dropWhile is_space (drop 2 buf) in
      if \<not> is_xdigit (char_at cp 0) then (No_entry, ctx)
      else case spec_of cp of
        None \<Rightarrow> (No_entry, ctx)
      | Some (n, name) \<Rightarrow> (New_class name (ucast n),
          ctx\<lparr>lasthut := -1, lastlang := -1, lastvendor := -1, lastsubclass := -1, lastclass := sint n\<rparr>))"

definition vendor_line :: "parse_ctx \<Rightarrow> string \<Rightarrow> names_entry \<times> parse_ctx" where
  "vendor_line ctx buf = (case spec_of buf of
     None \<Rightarrow> (No_entry, ctx)
   | Some (n, name) \<Rightarrow> (New_vendor name (ucast n),
       ctx\<lparr>lastvendor := sint n, lasthut := -1, lastlang := -1, lastclass := -1, lastsubclass := -1\<rparr>))"

definition product_line :: "parse_ctx \<Rightarrow> string \<Rightarrow> names_entry \<times> parse_ctx" where
  "product_line ctx buf = (case spec_of (drop 1 buf) of
     None \<Rightarrow> (No_entry, ctx)
   | Some (n, name) \<Rightarrow>
       if lastvendor ctx \<noteq> -1 then (New_product name (word_of_int (lastvendor ctx)) (ucast n), ctx)
       else if lastclass ctx \<noteq> -1
       then (New_subclass name (word_of_int (lastclass ctx)) (ucast n), ctx\<lparr>lastsubclass := sint n\<rparr>)
       else (No_entry, ctx))"

definition protocol_line :: "parse_ctx \<Rightarrow> string \<Rightarrow> names_entry \<times> parse_ctx" where
  "protocol_line ctx buf = (case spec_of (drop 2 buf) of
     None \<Rightarrow> (No_entry, ctx)
   | Some (n, name) \<Rightarrow>
       if lastclass ctx \<noteq> -1 \<and> lastsubclass ctx \<noteq> -1
       then (New_protocol name (word_of_int (lastclass ctx)) (word_of_int (lastsubclass ctx)) (ucast n), ctx)
       else (No_entry, ctx))"

definition names_parse_line :: "parse_ctx \<Rightarrow> string \<Rightarrow> names_entry \<times> parse_ctx" where
  "names_parse_line ctx buf =
     (if buf = [] \<or> char_at buf 0 = CHR ''#'' then (No_entry, ctx)
      else if starts_with ''PHYSDES '' buf then (No_entry, ctx)
      else if starts_with ''PHY '' buf then (No_entry, ctx)
      else if starts_with ''BIAS '' buf then (No_entry, ctx)
      else if starts_with ''L '' buf
      then (No_entry, ctx\<lparr>lasthut := -1, lastclass := -1, lastvendor := -1, lastsubclass := -1, lastlang := 1\<rparr>)
      else if starts_with ''C '' buf then class_line ctx buf
      else if starts_with ''AT'' buf \<and> is_space (char_at buf 2) then (No_entry, ctx)
      else if starts_with ''HCC'' buf \<and> is_space (char_at buf 3) then (No_entry, ctx)
      else if is_xdigit (char_at buf 0) then vendor_line ctx buf
      else if char_at buf 0 = CHR 0x09 \<and> is_xdigit (char_at buf 1) then product_line ctx buf
      else if char_at buf 0 = CHR 0x09 \<and> char_at buf 1 = CHR 0x09 \<and> is_xdigit (char_at buf 2)
      then protocol_line ctx buf
      else if starts_with ''HID '' buf then (No_entry, ctx)
      else if starts_with ''HUT '' buf
      then (No_entry, ctx\<lparr>lastlang := -1, lastclass := -1, lastvendor := -1, lastsubclass := -1, lasthut := 1\<rparr>)
      else (No_entry, ctx))"

text \<open>The result of a new entry is only printed.\<close>

fun add_entry ::
  "('c, 'k) names_sys_scheme \<Rightarrow> names_entry \<Rightarrow> 'c names_state \<Rightarrow> 'c names_state option" where
  "add_entry N No_entry st = Some st"
| "add_entry N (New_vendor name vid) st = map_option snd (new_vendor N name vid st)"
| "add_entry N (New_product name vid pid) st = map_option snd (new_product N name vid pid st)"
| "add_entry N (New_class name cid) st = map_option snd (new_class N name cid st)"
| "add_entry N (New_subclass name cid sid) st = map_option snd (new_subclass N name cid sid st)"
| "add_entry N (New_protocol name cid sid pid) st = map_option snd (new_protocol N name cid sid pid st)"

lemma fgets_drop: "fgets n s = Some buf \<Longrightarrow> length (drop (length buf) s) < length s"
  by (auto simp: fgets_def Let_def split: if_splits)

function parse_file ::
  "('c, 'k) names_sys_scheme \<Rightarrow> parse_ctx \<Rightarrow> string \<Rightarrow> 'c names_state \<Rightarrow> 'c names_state option" where
  "parse_file N ctx f st = (case fgets 512 f of
     None \<Rightarrow> Some st
   | Some buf \<Rightarrow> (case names_parse_line ctx (strip_line buf) of (e, ctx') \<Rightarrow>
       (case add_entry N e st of
          None \<Rightarrow> None
        | Some st' \<Rightarrow> parse_file N ctx' (drop (length buf) f) st')))"
  by pat_completeness auto
termination by (relation "measure (\<lambda>(N, ctx, f, st). length f)") (auto dest: fgets_drop)

declare parse_file.simps [simp del]

definition names_init :: "('c, 'k) names_sys_scheme \<Rightarrow> string \<Rightarrow> 'c names_state \<Rightarrow> (int \<times> 'c names_state) option" where
  "names_init N n st = (case n_fopen N n (nenv st) of
     Inl e \<Rightarrow> Some (e, st)
   | Inr f \<Rightarrow> map_option (\<lambda>st'. (0, st')) (parse_file N start_ctx f st))"

text \<open>\<open>snprintf\<close> into a buffer of \<open>n\<close> characters.\<close>

definition usbip_names_get_product :: "'c names_state \<Rightarrow> nat \<Rightarrow> u16 \<Rightarrow> u16 \<Rightarrow> string option" where
  "usbip_names_get_product st n vid pid =
     do { prod \<leftarrow> names_product st vid pid; vend \<leftarrow> names_vendor st vid;
          Some (take (n - 1) ((case vend of None \<Rightarrow> ''unknown vendor'' | Some v \<Rightarrow> v) @ '' : '' @
            (case prod of None \<Rightarrow> ''unknown product'' | Some p \<Rightarrow> p) @ '' ('' @
            pad 4 (CHR ''0'') (hex (unat vid)) @ '':'' @ pad 4 (CHR ''0'') (hex (unat pid)) @ '')'')) }"

definition class_codes :: "u8 \<Rightarrow> u8 \<Rightarrow> u8 \<Rightarrow> string" where
  "class_codes c s p = '' ('' @ pad 2 (CHR ''0'') (hex (unat c)) @ ''/'' @ pad 2 (CHR ''0'') (hex (unat s)) @ ''/'' @
     pad 2 (CHR ''0'') (hex (unat p)) @ '')''"

definition usbip_names_get_class :: "'c names_state \<Rightarrow> nat \<Rightarrow> u8 \<Rightarrow> u8 \<Rightarrow> u8 \<Rightarrow> string option" where
  "usbip_names_get_class st n cid sid pid =
     (if cid = 0 \<and> sid = 0 \<and> pid = 0 then Some (take (n - 1) (''(Defined at Interface level)'' @ class_codes cid sid pid))
      else do { p \<leftarrow> names_protocol st cid sid pid; s \<leftarrow> names_subclass st cid sid; c \<leftarrow> names_class st cid;
        Some (take (n - 1) ((case c of None \<Rightarrow> ''unknown class'' | Some x \<Rightarrow> x) @ '' / '' @
          (case s of None \<Rightarrow> ''unknown subclass'' | Some x \<Rightarrow> x) @ '' / '' @
          (case p of None \<Rightarrow> ''unknown protocol'' | Some x \<Rightarrow> x) @ class_codes cid sid pid)) })"

section \<open>A chained table\<close>

text \<open>What the five tables share: \<open>tab\<close> is the table, \<open>put\<close> replaces it, \<open>mk\<close> makes an entry.\<close>

locale name_table =
  fixes tab :: "'c names_state \<Rightarrow> 'e list list"
    and put :: "'e list list \<Rightarrow> 'c names_state \<Rightarrow> 'c names_state"
    and key :: "'e \<Rightarrow> 'k" and name :: "'e \<Rightarrow> string" and mem :: "'e \<Rightarrow> nat"
    and h :: "'k \<Rightarrow> nat" and mk :: "'k \<Rightarrow> string \<Rightarrow> nat \<Rightarrow> 'e"
  assumes key_mk: "key (mk k n i) = k" and name_mk: "name (mk k n i) = n"
    and h_less: "h k < HASHSZ"
    and tab_put: "tab (put t st) = t" and put_tab: "put (tab st) st = st" and dead_put: "n_dead (put t st) = n_dead st"
    and tab_pool: "tab (st\<lparr>nenv := c, n_pool := p\<rparr>) = tab st"
begin

lemma chain_find_live: "chain_find 0 m P es = Some (find P es)"
  by (induction es) auto

lemma find_push:
  assumes "length t = HASHSZ"
  shows "find (\<lambda>e. key e = k') (push_chain (h k) (mk k n i) t ! h k') =
    (if k' = k then Some (mk k n i) else find (\<lambda>e. key e = k') (t ! h k'))"
  using assms h_less by (auto simp: push_chain_def key_mk nth_list_update)

lemma new_entry_look:
  assumes "\<And>n c. fst (n_calloc N n c)" "n_dead st = 0" "length (tab st) = HASHSZ"
  shows "\<exists>r c p t. new_entry N (chain_find (n_dead st) mem (\<lambda>e. key e = k) (tab st ! h k)) sz
        (\<lambda>i st. put (push_chain (h k) (mk k nm i) (tab st)) st) st = Some (r, put t (st\<lparr>nenv := c, n_pool := p\<rparr>)) \<and>
      length t = HASHSZ \<and>
      (\<forall>k'. find (\<lambda>e. key e = k') (t ! h k') = (case find (\<lambda>e. key e = k') (tab st ! h k') of
         Some e \<Rightarrow> Some e | None \<Rightarrow> if k' = k then Some (mk k nm (n_pool st)) else None))"
proof (cases "find (\<lambda>e. key e = k) (tab st ! h k)")
  case (Some e)
  then have "new_entry N (chain_find (n_dead st) mem (\<lambda>e. key e = k) (tab st ! h k)) sz
      (\<lambda>i st. put (push_chain (h k) (mk k nm i) (tab st)) st) st = Some (-1, put (tab st) (st\<lparr>nenv := nenv st, n_pool := n_pool st\<rparr>))"
    using assms(2) by (simp add: new_entry_def chain_find_live put_tab)
  moreover have "find (\<lambda>e. key e = k') (tab st ! h k') = (case find (\<lambda>e. key e = k') (tab st ! h k') of
      Some e \<Rightarrow> Some e | None \<Rightarrow> if k' = k then Some (mk k nm (n_pool st)) else None)" for k'
    using Some by (auto split: option.splits)
  ultimately show ?thesis using assms(3) by blast
next
  case None
  obtain c1 where 1: "n_calloc N 16 (nenv st) = (True, c1)" using assms(1) by (metis (full_types) prod.collapse)
  obtain c2 where 2: "n_calloc N sz c1 = (True, c2)" using assms(1) by (metis (full_types) prod.collapse)
  have "new_entry N (chain_find (n_dead st) mem (\<lambda>e. key e = k) (tab st ! h k)) sz
      (\<lambda>i st. put (push_chain (h k) (mk k nm i) (tab st)) st) st =
      Some (0, put (push_chain (h k) (mk k nm (n_pool st)) (tab st)) (st\<lparr>nenv := c2, n_pool := Suc (n_pool st)\<rparr>))"
    using assms(2) None 1 2 by (simp add: new_entry_def chain_find_live my_malloc_def tab_pool)
  moreover have "length (push_chain (h k) (mk k nm (n_pool st)) (tab st)) = HASHSZ"
    using assms(3) by (simp add: push_chain_def)
  moreover have "find (\<lambda>e. key e = k') (push_chain (h k) (mk k nm (n_pool st)) (tab st) ! h k') =
      (case find (\<lambda>e. key e = k') (tab st ! h k') of Some e \<Rightarrow> Some e | None \<Rightarrow> if k' = k then Some (mk k nm (n_pool st)) else None)" for k'
    using None find_push [OF assms(3), of k' k nm "n_pool st"] by (auto split: option.splits)
  ultimately show ?thesis by blast
qed

end

text \<open>The keys of the tables, and their entries in the order of the key.\<close>

interpretation vendors: name_table n_vendors "\<lambda>t st. st\<lparr>n_vendors := t\<rparr>" v_vendorid v_name v_mem "\<lambda>v. hashnum (ucast v)"
  "\<lambda>k n i. \<lparr>v_vendorid = k, v_name = n, v_mem = i\<rparr>"
  by unfold_locales simp_all

interpretation products: name_table n_products "\<lambda>t st. st\<lparr>n_products := t\<rparr>" "\<lambda>p. (p_vendorid p, p_productid p)" p_name p_mem
  "\<lambda>(v, p). hashnum (product_key v p)" "\<lambda>(v, p) n i. \<lparr>p_vendorid = v, p_productid = p, p_name = n, p_mem = i\<rparr>"
  by unfold_locales (auto split: prod.splits)

interpretation classes: name_table n_classes "\<lambda>t st. st\<lparr>n_classes := t\<rparr>" c_classid c_name c_mem "\<lambda>c. hashnum (ucast c)"
  "\<lambda>k n i. \<lparr>c_classid = k, c_name = n, c_mem = i\<rparr>"
  by unfold_locales simp_all

interpretation subclasses: name_table n_subclasses "\<lambda>t st. st\<lparr>n_subclasses := t\<rparr>" "\<lambda>s. (s_classid s, s_subclassid s)" s_name s_mem
  "\<lambda>(c, s). hashnum (subclass_key c s)" "\<lambda>(c, s) n i. \<lparr>s_classid = c, s_subclassid = s, s_name = n, s_mem = i\<rparr>"
  by unfold_locales (auto split: prod.splits)

interpretation protocols: name_table n_protocols "\<lambda>t st. st\<lparr>n_protocols := t\<rparr>" "\<lambda>r. (r_classid r, r_subclassid r, r_protocolid r)"
  r_name r_mem "\<lambda>(c, s, p). hashnum (protocol_key c s p)"
  "\<lambda>(c, s, p) n i. \<lparr>r_classid = c, r_subclassid = s, r_protocolid = p, r_name = n, r_mem = i\<rparr>"
  by unfold_locales (auto split: prod.splits)

section \<open>The tables as maps\<close>

text \<open>The entries a file asks for, and those of each kind.\<close>

function file_entries :: "parse_ctx \<Rightarrow> string \<Rightarrow> names_entry list" where
  "file_entries ctx f = (case fgets 512 f of
     None \<Rightarrow> []
   | Some buf \<Rightarrow> (case names_parse_line ctx (strip_line buf) of (e, ctx') \<Rightarrow>
       e # file_entries ctx' (drop (length buf) f)))"
  by pat_completeness auto
termination by (relation "measure (\<lambda>(ctx, f). length f)") (auto dest: fgets_drop)

declare file_entries.simps [simp del]

fun vendor_entries :: "names_entry list \<Rightarrow> (u16 \<times> string) list" where
  "vendor_entries [] = []"
| "vendor_entries (New_vendor n v # es) = (v, n) # vendor_entries es"
| "vendor_entries (_ # es) = vendor_entries es"

fun product_entries :: "names_entry list \<Rightarrow> ((u16 \<times> u16) \<times> string) list" where
  "product_entries [] = []"
| "product_entries (New_product n v p # es) = ((v, p), n) # product_entries es"
| "product_entries (_ # es) = product_entries es"

fun class_entries :: "names_entry list \<Rightarrow> (u8 \<times> string) list" where
  "class_entries [] = []"
| "class_entries (New_class n c # es) = (c, n) # class_entries es"
| "class_entries (_ # es) = class_entries es"

fun subclass_entries :: "names_entry list \<Rightarrow> ((u8 \<times> u8) \<times> string) list" where
  "subclass_entries [] = []"
| "subclass_entries (New_subclass n c s # es) = ((c, s), n) # subclass_entries es"
| "subclass_entries (_ # es) = subclass_entries es"

fun protocol_entries :: "names_entry list \<Rightarrow> ((u8 \<times> u8 \<times> u8) \<times> string) list" where
  "protocol_entries [] = []"
| "protocol_entries (New_protocol n c s p # es) = ((c, s, p), n) # protocol_entries es"
| "protocol_entries (_ # es) = protocol_entries es"

definition tables_ok :: "'c names_state \<Rightarrow> bool" where
  "tables_ok st = (n_dead st = 0 \<and> length (n_vendors st) = HASHSZ \<and> length (n_products st) = HASHSZ \<and>
     length (n_classes st) = HASHSZ \<and> length (n_subclasses st) = HASHSZ \<and> length (n_protocols st) = HASHSZ)"

text \<open>The five maps before and after entries were added: what was there stays, and the first of two counts.\<close>

definition adds :: "names_entry list \<Rightarrow> 'c names_state \<Rightarrow> 'c names_state \<Rightarrow> bool" where
  "adds es st st' = (
     (\<forall>v. names_vendor st' v = map_option (\<lambda>m. case m of Some n \<Rightarrow> Some n | None \<Rightarrow> map_of (vendor_entries es) v) (names_vendor st v)) \<and>
     (\<forall>v p. names_product st' v p =
        map_option (\<lambda>m. case m of Some n \<Rightarrow> Some n | None \<Rightarrow> map_of (product_entries es) (v, p)) (names_product st v p)) \<and>
     (\<forall>c. names_class st' c = map_option (\<lambda>m. case m of Some n \<Rightarrow> Some n | None \<Rightarrow> map_of (class_entries es) c) (names_class st c)) \<and>
     (\<forall>c s. names_subclass st' c s =
        map_option (\<lambda>m. case m of Some n \<Rightarrow> Some n | None \<Rightarrow> map_of (subclass_entries es) (c, s)) (names_subclass st c s)) \<and>
     (\<forall>c s p. names_protocol st' c s p =
        map_option (\<lambda>m. case m of Some n \<Rightarrow> Some n | None \<Rightarrow> map_of (protocol_entries es) (c, s, p)) (names_protocol st c s p)))"

lemmas names_defs = names_vendor_def names_product_def names_class_def names_subclass_def names_protocol_def

lemma id_case: "map_option (\<lambda>m. case m of None \<Rightarrow> None | Some n \<Rightarrow> Some n) x = x"
  by (cases x) (auto split: option.splits)

lemma add_vendor:
  assumes "\<And>n c. fst (n_calloc N n c)" "tables_ok st"
  shows "\<exists>st'. add_entry N (New_vendor nm v) st = Some st' \<and> tables_ok st' \<and> adds [New_vendor nm v] st st'"
proof -
  from assms(2) have t: "n_dead st = 0" "length (n_vendors st) = HASHSZ" by (simp_all add: tables_ok_def)
  from vendors.new_entry_look [OF assms(1) t, of v "16 + length nm" nm]
  obtain r c p t where "new_vendor N nm v st = Some (r, (st\<lparr>nenv := c, n_pool := p\<rparr>)\<lparr>n_vendors := t\<rparr>)"
    "length t = HASHSZ"
    "\<forall>k'. find (\<lambda>e. v_vendorid e = k') (t ! hashnum (ucast k')) = (case find (\<lambda>e. v_vendorid e = k') (n_vendors st ! hashnum (ucast k')) of
         Some e \<Rightarrow> Some e | None \<Rightarrow> if k' = v then Some \<lparr>v_vendorid = v, v_name = nm, v_mem = n_pool st\<rparr> else None)"
    unfolding new_vendor_def Let_def by blast
  then show ?thesis using assms(2)
    by (auto simp: tables_ok_def adds_def names_defs vendors.chain_find_live id_case split: option.splits)
qed


lemma add_product:
  assumes "\<And>n c. fst (n_calloc N n c)" "tables_ok st"
  shows "\<exists>st'. add_entry N (New_product nm v p) st = Some st' \<and> tables_ok st' \<and> adds [New_product nm v p] st st'"
proof -
  from assms(2) have t: "n_dead st = 0" "length (n_products st) = HASHSZ" by (simp_all add: tables_ok_def)
  from products.new_entry_look [OF assms(1) t, of "(v, p)" "16 + length nm" nm]
  obtain r k f t where "new_product N nm v p st = Some (r, (st\<lparr>nenv := k, n_pool := f\<rparr>)\<lparr>n_products := t\<rparr>)"
    "length t = HASHSZ"
    "\<forall>v' p'. find (\<lambda>e. p_vendorid e = v' \<and> p_productid e = p') (t ! hashnum (product_key v' p')) = (case find (\<lambda>e. p_vendorid e = v' \<and> p_productid e = p') (n_products st ! hashnum (product_key v' p')) of
       Some e \<Rightarrow> Some e | None \<Rightarrow> if v' = v \<and> p' = p then Some \<lparr>p_vendorid = v, p_productid = p, p_name = nm, p_mem = n_pool st\<rparr> else None)"
    unfolding new_product_def Let_def split_paired_All prod.case prod.inject by blast
  then show ?thesis using assms(2)
    by (auto simp: tables_ok_def adds_def names_defs products.chain_find_live id_case split: option.splits)
qed

lemma add_class:
  assumes "\<And>n c. fst (n_calloc N n c)" "tables_ok st"
  shows "\<exists>st'. add_entry N (New_class nm c) st = Some st' \<and> tables_ok st' \<and> adds [New_class nm c] st st'"
proof -
  from assms(2) have t: "n_dead st = 0" "length (n_classes st) = HASHSZ" by (simp_all add: tables_ok_def)
  from classes.new_entry_look [OF assms(1) t, of "c" "16 + length nm" nm]
  obtain r k f t where "new_class N nm c st = Some (r, (st\<lparr>nenv := k, n_pool := f\<rparr>)\<lparr>n_classes := t\<rparr>)"
    "length t = HASHSZ"
    "\<forall>c'. find (\<lambda>e. c_classid e = c') (t ! hashnum (ucast c')) = (case find (\<lambda>e. c_classid e = c') (n_classes st ! hashnum (ucast c')) of
       Some e \<Rightarrow> Some e | None \<Rightarrow> if c' = c then Some \<lparr>c_classid = c, c_name = nm, c_mem = n_pool st\<rparr> else None)"
    unfolding new_class_def Let_def split_paired_All prod.case prod.inject by blast
  then show ?thesis using assms(2)
    by (auto simp: tables_ok_def adds_def names_defs classes.chain_find_live id_case split: option.splits)
qed

lemma add_subclass:
  assumes "\<And>n c. fst (n_calloc N n c)" "tables_ok st"
  shows "\<exists>st'. add_entry N (New_subclass nm c s) st = Some st' \<and> tables_ok st' \<and> adds [New_subclass nm c s] st st'"
proof -
  from assms(2) have t: "n_dead st = 0" "length (n_subclasses st) = HASHSZ" by (simp_all add: tables_ok_def)
  from subclasses.new_entry_look [OF assms(1) t, of "(c, s)" "16 + length nm" nm]
  obtain r k f t where "new_subclass N nm c s st = Some (r, (st\<lparr>nenv := k, n_pool := f\<rparr>)\<lparr>n_subclasses := t\<rparr>)"
    "length t = HASHSZ"
    "\<forall>c' s'. find (\<lambda>e. s_classid e = c' \<and> s_subclassid e = s') (t ! hashnum (subclass_key c' s')) = (case find (\<lambda>e. s_classid e = c' \<and> s_subclassid e = s') (n_subclasses st ! hashnum (subclass_key c' s')) of
       Some e \<Rightarrow> Some e | None \<Rightarrow> if c' = c \<and> s' = s then Some \<lparr>s_classid = c, s_subclassid = s, s_name = nm, s_mem = n_pool st\<rparr> else None)"
    unfolding new_subclass_def Let_def split_paired_All prod.case prod.inject by blast
  then show ?thesis using assms(2)
    by (auto simp: tables_ok_def adds_def names_defs subclasses.chain_find_live id_case split: option.splits)
qed

lemma add_protocol:
  assumes "\<And>n c. fst (n_calloc N n c)" "tables_ok st"
  shows "\<exists>st'. add_entry N (New_protocol nm c s p) st = Some st' \<and> tables_ok st' \<and> adds [New_protocol nm c s p] st st'"
proof -
  from assms(2) have t: "n_dead st = 0" "length (n_protocols st) = HASHSZ" by (simp_all add: tables_ok_def)
  from protocols.new_entry_look [OF assms(1) t, of "(c, s, p)" "16 + length nm" nm]
  obtain r k f t where "new_protocol N nm c s p st = Some (r, (st\<lparr>nenv := k, n_pool := f\<rparr>)\<lparr>n_protocols := t\<rparr>)"
    "length t = HASHSZ"
    "\<forall>c' s' p'. find (\<lambda>e. r_classid e = c' \<and> r_subclassid e = s' \<and> r_protocolid e = p') (t ! hashnum (protocol_key c' s' p')) = (case find (\<lambda>e. r_classid e = c' \<and> r_subclassid e = s' \<and> r_protocolid e = p') (n_protocols st ! hashnum (protocol_key c' s' p')) of
       Some e \<Rightarrow> Some e | None \<Rightarrow> if c' = c \<and> s' = s \<and> p' = p then Some \<lparr>r_classid = c, r_subclassid = s, r_protocolid = p, r_name = nm, r_mem = n_pool st\<rparr> else None)"
    unfolding new_protocol_def Let_def split_paired_All prod.case prod.inject by blast
  then show ?thesis using assms(2)
    by (auto simp: tables_ok_def adds_def names_defs protocols.chain_find_live id_case split: option.splits)
qed

lemma add_entry_adds:
  assumes "\<And>n c. fst (n_calloc N n c)" "tables_ok st"
  shows "\<exists>st'. add_entry N e st = Some st' \<and> tables_ok st' \<and> adds [e] st st'"
proof (cases e)
  case No_entry
  then show ?thesis using assms(2) by (simp add: adds_def id_case)
qed (use add_vendor [OF assms] add_product [OF assms] add_class [OF assms] add_subclass [OF assms] add_protocol [OF assms]
  in simp_all)

lemma adds_trans:
  assumes "adds [e] st st1" "adds es st1 st2"
  shows "adds (e # es) st st2"
  using assms unfolding adds_def
  by (cases e) (auto simp: option.map_comp comp_def intro!: option.map_cong0 split: option.splits)

lemma parse_file_adds:
  assumes "\<And>n c. fst (n_calloc N n c)"
  shows "tables_ok st \<Longrightarrow> \<exists>st'. parse_file N ctx f st = Some st' \<and> tables_ok st' \<and> adds (file_entries ctx f) st st'"
proof (induction ctx f arbitrary: st rule: file_entries.induct)
  case (1 ctx f)
  show ?case
  proof (cases "fgets 512 f")
    case None
    then show ?thesis using "1.prems"
      by (subst parse_file.simps, subst file_entries.simps) (simp add: adds_def id_case)
  next
    case (Some buf)
    obtain e ctx' where p: "names_parse_line ctx (strip_line buf) = (e, ctx')" by (meson surj_pair)
    from add_entry_adds [OF assms "1.prems", of e] obtain st1 where
      st1: "add_entry N e st = Some st1" "tables_ok st1" "adds [e] st st1" by blast
    from "1.IH" [OF Some p [symmetric] st1(2)] obtain st2 where
      "parse_file N ctx' (drop (length buf) f) st1 = Some st2" "tables_ok st2"
      "adds (file_entries ctx' (drop (length buf) f)) st1 st2" by blast
    then show ?thesis using Some p st1 adds_trans [OF st1(3)]
      by (subst parse_file.simps, subst file_entries.simps) simp
  qed
qed

text \<open>The tables before the first file is read.\<close>

definition empty_names :: "'c \<Rightarrow> 'c names_state" where
  "empty_names c = \<lparr>n_vendors = replicate HASHSZ [], n_products = replicate HASHSZ [], n_classes = replicate HASHSZ [],
     n_subclasses = replicate HASHSZ [], n_protocols = replicate HASHSZ [], n_pool = 0, n_dead = 0, nenv = c\<rparr>"

lemma empty_lookups:
  "names_vendor (empty_names c) v = Some None" "names_product (empty_names c) v p = Some None"
  "names_class (empty_names c) k = Some None" "names_subclass (empty_names c) k s = Some None"
  "names_protocol (empty_names c) k s q = Some None"
  by (simp_all add: names_defs empty_names_def)

lemma names_init_adds:
  assumes "\<And>n c. fst (n_calloc N n c)" "n_fopen N path c = Inr f"
  shows "\<exists>st. names_init N path (empty_names c) = Some (0, st) \<and> adds (file_entries start_ctx f) (empty_names c) st"
proof -
  have "tables_ok (empty_names c)" "nenv (empty_names c) = c" by (simp_all add: tables_ok_def empty_names_def)
  with parse_file_adds [OF assms(1) this(1), of start_ctx f] assms(2)
  show ?thesis by (auto simp: names_init_def)
qed

text \<open>C29: Whatever the hash function does, the tables hold what the file says: a name is found exactly if there is a line
  for its number in its section, and of several lines the first one counts.\<close>

theorem names_found:
  assumes "\<And>n c. fst (n_calloc N n c)" "n_fopen N path c = Inr f"
  shows "\<exists>st. names_init N path (empty_names c) = Some (0, st) \<and>
    (\<forall>v. names_vendor st v = Some (map_of (vendor_entries (file_entries start_ctx f)) v)) \<and>
    (\<forall>v p. names_product st v p = Some (map_of (product_entries (file_entries start_ctx f)) (v, p))) \<and>
    (\<forall>k. names_class st k = Some (map_of (class_entries (file_entries start_ctx f)) k)) \<and>
    (\<forall>k s. names_subclass st k s = Some (map_of (subclass_entries (file_entries start_ctx f)) (k, s))) \<and>
    (\<forall>k s p. names_protocol st k s p = Some (map_of (protocol_entries (file_entries start_ctx f)) (k, s, p)))"
  using names_init_adds [OF assms] by (auto simp: adds_def empty_lookups)

section \<open>Reading what was written\<close>

definition names_line :: "string \<Rightarrow> u16 \<Rightarrow> string \<Rightarrow> string" where
  "names_line pre n name = pre @ pad 4 (CHR ''0'') (hex (unat n)) @ ''  '' @ name"

definition vendor_text :: "u16 \<times> string \<times> (u16 \<times> string) list \<Rightarrow> string" where
  "vendor_text x = (case x of (v, name, ps) \<Rightarrow>
     names_line [] v name @ [CHR 0x0A] @ concat (map (\<lambda>(p, pn). names_line [CHR 0x09] p pn @ [CHR 0x0A]) ps))"

definition good_name :: "string \<Rightarrow> bool" where
  "good_name n = (n \<noteq> [] \<and> \<not> is_space (hd n) \<and> list_all (\<lambda>c. c \<notin> {CHR 0x00, CHR 0x0A, CHR 0x0D}) n \<and> length n \<le> 500)"

lemma xdigit_chars:
  assumes "is_xdigit z"
  shows "\<not> is_space z" "z \<noteq> CHR ''x''" "z \<noteq> CHR ''X''" "z \<noteq> CHR ''#''" "z \<noteq> CHR ''P''" "z \<noteq> CHR ''L''" "z \<noteq> CHR '' ''"
    "z \<noteq> CHR ''I''" "z \<noteq> CHR ''T''" "z \<noteq> CHR ''H''" "z \<noteq> CHR 0x09" "z \<noteq> CHR 0x00" "z \<noteq> CHR 0x0A" "z \<noteq> CHR 0x0D"
  using assms by (auto simp: is_xdigit_def radix_digit_def is_space_def)

lemma length_hex: "k < 16 ^ Suc m \<Longrightarrow> length (hex k) \<le> Suc m"
proof (induction m arbitrary: k)
  case (Suc m)
  then have "k div 16 < 16 ^ Suc m" by (simp add: less_mult_imp_div_less mult.commute)
  then show ?case using Suc.IH by (subst hex.simps) simp
qed (simp add: hex.simps)

lemma four_digits:
  obtains a b ds where "pad 4 (CHR ''0'') (hex (unat (n :: u16))) = a # b # ds" "is_xdigit a" "is_xdigit b" "list_all is_xdigit ds"
    "length ds = 2"
proof -
  let ?s = "pad 4 (CHR ''0'') (hex (unat n))"
  have x: "list_all is_xdigit ?s"
    using hex_digits [of "unat n"] by (auto simp: pad_def list_all_iff is_xdigit_def [of "CHR ''0''"] radix_digit_def)
  have "length (hex (unat n)) \<le> 4" using length_hex [of "unat n" 3] unsigned_less [of n, where 'a = nat] by simp
  then have "length ?s = 4" by (simp add: pad_def)
  then obtain a b c d where "?s = [a, b, c, d]" by (auto simp: length_Suc_conv numeral_eq_Suc)
  then show ?thesis using x that [of a b "[c, d]"] by simp
qed

lemma spec_of_line:
  assumes "good_name name"
  shows "spec_of (names_line [] n name) = Some (ucast n, name)"
proof -
  obtain a b ds where d: "pad 4 (CHR ''0'') (hex (unat n)) = a # b # ds" "is_xdigit a" "is_xdigit b" "list_all is_xdigit ds"
    by (rule four_digits [of n])
  let ?r = "''  '' @ name"
  have "scan_radix 16 0 (hex (unat n) @ ?r) = (unat n, ?r)"
    by (rule scan_radix_hex) (simp add: is_xdigit_def radix_digit_def)
  then have s: "scan_radix 16 0 (pad 4 (CHR ''0'') (hex (unat n)) @ ?r) = (unat n, ?r)"
    by (simp add: pad_def scan_radix_zeros)
  have "unat n < 2 ^ 64" using unsigned_less [of n, where 'a = nat] by simp
  moreover have "(case pad 4 (CHR ''0'') (hex (unat n)) @ ?r of z # x # c # cs \<Rightarrow>
      if z = CHR ''0'' \<and> (x = CHR ''x'' \<or> x = CHR ''X'') \<and> is_xdigit c then c # cs else pad 4 (CHR ''0'') (hex (unat n)) @ ?r
    | _ \<Rightarrow> pad 4 (CHR ''0'') (hex (unat n)) @ ?r) = pad 4 (CHR ''0'') (hex (unat n)) @ ?r"
    using xdigit_chars(2,3) [OF d(3)] d(1) by (cases ds) auto
  ultimately have "strtoul16 (names_line [] n name) = (ucast (of_nat (unat n) :: ulong), ?r)"
    unfolding strtoul16_def names_line_def append_Nil Let_def by (simp only: s) simp
  moreover have "dropWhile is_space ?r = name"
    using assms by (cases name) (simp_all add: good_name_def is_space_def)
  moreover have "(ucast (of_nat (unat n) :: ulong) :: u32) = ucast n"
    by (rule bit_word_eqI) (auto simp: bit_simps dest: bit_imp_le_length)
  ultimately show ?thesis using assms unfolding spec_of_def Let_def by (simp only: prod.case good_name_def if_False)
qed

lemma product_chars: "is_xdigit (CHR 0x09) = False" "CHR 0x09 \<noteq> CHR ''#''"
  by (simp_all add: is_xdigit_def radix_digit_def)

lemma sint_ucast16: "sint (ucast (v :: u16) :: u32) = uint v"
proof -
  have "uint v < 2 ^ 16" using uint_bounded [of v] by simp
  moreover have "uint (ucast v :: u32) = uint v" using calculation by (simp add: unsigned_ucast_eq take_bit_int_eq_self)
  moreover have "- (2 ^ 31) \<le> uint v" by (rule order_trans [of _ 0]) simp_all
  ultimately show ?thesis using signed_take_bit_int_eq_self [of 31 "uint v"] by (simp add: sint_uint)
qed

lemma parse_vendor_line:
  assumes "good_name name"
  shows "names_parse_line ctx (names_line [] v name) = (New_vendor name v,
    ctx\<lparr>lastvendor := int (unat v), lasthut := -1, lastlang := -1, lastclass := -1, lastsubclass := -1\<rparr>)"
proof -
  obtain a b ds where d: "pad 4 (CHR ''0'') (hex (unat v)) = a # b # ds" "is_xdigit a" "is_xdigit b" "list_all is_xdigit ds"
    "length ds = 2"
    by (rule four_digits [of v])
  have "sint (ucast v :: u32) = int (unat v)" "ucast (ucast v :: u32) = v"
    by (simp_all add: sint_ucast16 ucast_up_ucast_id is_up)
  moreover obtain c e where "ds = [c, e]" using d(5) by (auto simp: length_Suc_conv numeral_eq_Suc)
  ultimately show ?thesis using d(2-4) xdigit_chars [OF d(2)] xdigit_chars [OF d(3)] spec_of_line [OF assms, of v]
    by (simp add: names_parse_line_def names_line_def d(1) starts_with_def char_at_def vendor_line_def)
qed

lemma parse_product_line:
  assumes "good_name name" "lastvendor ctx = int (unat v)"
  shows "names_parse_line ctx (names_line [CHR 0x09] p name) = (New_product name v p, ctx)"
proof -
  obtain a b ds where d: "pad 4 (CHR ''0'') (hex (unat p)) = a # b # ds" "is_xdigit a" "is_xdigit b" "list_all is_xdigit ds"
    "length ds = 2"
    by (rule four_digits [of p])
  have "uint v \<noteq> -1" using uint_nonnegative [of v] by linarith
  then have w: "(word_of_int (int (unat v)) :: u16) = v" "ucast (ucast p :: u32) = p" "int (unat v) \<noteq> -1"
    by (simp_all add: ucast_up_ucast_id is_up)
  have l: "names_line [CHR 0x09] p name = CHR 0x09 # names_line [] p name" by (simp add: names_line_def)
  have c: "char_at (CHR 0x09 # names_line [] p name) 1 = a" by (simp add: char_at_def names_line_def d(1))
  show ?thesis using d(2) product_chars spec_of_line [OF assms(1), of p] w assms(2)
    unfolding l names_parse_line_def c by (simp add: starts_with_def char_at_def product_line_def)
qed

lemma fgets_line:
  assumes "list_all (\<lambda>c. c \<notin> {CHR 0x00, CHR 0x0A, CHR 0x0D}) line" "length line \<le> 510"
  shows "fgets 512 (line @ CHR 0x0A # rest) = Some (line @ [CHR 0x0A])" "strip_line (line @ [CHR 0x0A]) = line"
proof -
  have n: "\<forall>c\<in>set line. c \<noteq> CHR 0x0A \<and> c \<noteq> CHR 0x0D \<and> c \<noteq> CHR 0x00" using assms(1) by (auto simp: list_all_iff)
  have "take 511 (line @ CHR 0x0A # rest) = line @ CHR 0x0A # take (510 - length line) rest"
    using assms(2) by (simp add: take_Cons')
  moreover have "takeWhile (\<lambda>c. c \<noteq> CHR 0x0A) (line @ CHR 0x0A # xs) = line" for xs
    using n by (simp add: takeWhile_append2)
  ultimately show "fgets 512 (line @ CHR 0x0A # rest) = Some (line @ [CHR 0x0A])"
    by (simp add: fgets_def Let_def)
  have "takeWhile (\<lambda>c. c \<noteq> CHR 0x0D) (line @ [CHR 0x0A]) = line @ [CHR 0x0A]" "cstr (line @ [CHR 0x0A]) = line @ [CHR 0x0A]"
    using n by (simp_all add: takeWhile_append2 cstr_def)
  then show "strip_line (line @ [CHR 0x0A]) = line" using n by (simp add: strip_line_def takeWhile_append2)
qed

lemma names_line_chars:
  assumes "good_name name" "pre = [] \<or> pre = [CHR 0x09]"
  shows "list_all (\<lambda>c. c \<notin> {CHR 0x00, CHR 0x0A, CHR 0x0D}) (names_line pre n name)" "length (names_line pre n name) \<le> 510"
proof -
  obtain a b ds where d: "pad 4 (CHR ''0'') (hex (unat n)) = a # b # ds" "is_xdigit a" "is_xdigit b" "list_all is_xdigit ds"
    "length ds = 2"
    by (rule four_digits [of n])
  have x: "c \<noteq> CHR 0x00 \<and> c \<noteq> CHR 0x0A \<and> c \<noteq> CHR 0x0D" if "is_xdigit c" for c
    using xdigit_chars(12-14) [OF that] by blast
  have "list_all (\<lambda>c. c \<noteq> CHR 0x00 \<and> c \<noteq> CHR 0x0A \<and> c \<noteq> CHR 0x0D) ds"
    using d(4) x by (simp add: list_all_iff)
  then show "list_all (\<lambda>c. c \<notin> {CHR 0x00, CHR 0x0A, CHR 0x0D}) (names_line pre n name)"
    using assms x [OF d(2)] x [OF d(3)] by (auto simp: names_line_def d(1) good_name_def)
  show "length (names_line pre n name) \<le> 510"
    using assms d(5) by (auto simp: names_line_def d(1) good_name_def)
qed

lemma file_entries_line:
  assumes "good_name name" "pre = [] \<or> pre = [CHR 0x09]" "names_parse_line ctx (names_line pre n name) = (e, ctx')"
  shows "file_entries ctx (names_line pre n name @ CHR 0x0A # rest) = e # file_entries ctx' rest"
  using fgets_line [OF names_line_chars [OF assms(1,2), of n]] assms(3)
  by (subst file_entries.simps) simp

lemma file_entries_products:
  assumes "list_all (\<lambda>(p, pn). good_name pn) ps" "lastvendor ctx = int (unat v)"
  shows "file_entries ctx (concat (map (\<lambda>(p, pn). names_line [CHR 0x09] p pn @ [CHR 0x0A]) ps) @ rest) =
    map (\<lambda>(p, pn). New_product pn v p) ps @ file_entries ctx rest"
  using assms
proof (induction ps)
  case (Cons x ps)
  then show ?case
    using file_entries_line [of "snd x" "[CHR 0x09]" ctx "fst x"] parse_product_line [of "snd x" ctx v "fst x"]
    by (auto split: prod.splits)
qed simp

definition good_vendor :: "u16 \<times> string \<times> (u16 \<times> string) list \<Rightarrow> bool" where
  "good_vendor x = (case x of (v, n, ps) \<Rightarrow> good_name n \<and> list_all (\<lambda>(p, pn). good_name pn) ps)"

lemma file_entries_vendors:
  "list_all good_vendor vs \<Longrightarrow> file_entries ctx (concat (map vendor_text vs)) =
    concat (map (\<lambda>(v, n, ps). New_vendor n v # map (\<lambda>(p, pn). New_product pn v p) ps) vs)"
proof (induction vs arbitrary: ctx)
  case Nil
  show ?case by (subst file_entries.simps) (simp add: fgets_def)
next
  case (Cons x vs)
  obtain v n ps where x: "x = (v, n, ps)" by (cases x)
  let ?c = "ctx\<lparr>lastvendor := int (unat v), lasthut := -1, lastlang := -1, lastclass := -1, lastsubclass := -1\<rparr>"
  have g: "good_name n" "list_all (\<lambda>(p, pn). good_name pn) ps" using Cons.prems x by (simp_all add: good_vendor_def)
  have l: "lastvendor ?c = int (unat v)" by simp
  show ?case using Cons.prems Cons.IH [of ?c] file_entries_line [OF g(1) _ parse_vendor_line [OF g(1), of ctx v]]
      file_entries_products [OF g(2) l] x
    by (simp add: vendor_text_def)
qed

lemma entries_append:
  "vendor_entries (xs @ ys) = vendor_entries xs @ vendor_entries ys"
  "product_entries (xs @ ys) = product_entries xs @ product_entries ys"
  by (induction xs rule: vendor_entries.induct; simp) (induction xs rule: product_entries.induct; simp)

lemma entries_products:
  "vendor_entries (map (\<lambda>(p, pn). New_product pn v p) ps) = []"
  "product_entries (map (\<lambda>(p, pn). New_product pn v p) ps) = map (\<lambda>(p, pn). ((v, p), pn)) ps"
  by (induction ps) auto

lemma entries_vendors:
  fixes vs :: "(u16 \<times> string \<times> (u16 \<times> string) list) list"
  defines "es \<equiv> concat (map (\<lambda>(v, n, ps). New_vendor n v # map (\<lambda>(p, pn). New_product pn v p) ps) vs)"
  shows "vendor_entries es = map (\<lambda>(v, n, ps). (v, n)) vs"
    "product_entries es = concat (map (\<lambda>(v, n, ps). map (\<lambda>(p, pn). ((v, p), pn)) ps) vs)"
  unfolding es_def by (induction vs) (auto simp: entries_append entries_products)

text \<open>C36: The names of vendors and products are found as they were written to the file, if they fit a line.\<close>

theorem names_written_found:
  assumes "\<And>n c. fst (n_calloc N n c)" "n_fopen N path c = Inr (concat (map vendor_text vs))" "list_all good_vendor vs"
  shows "\<exists>st. names_init N path (empty_names c) = Some (0, st) \<and>
    (\<forall>v. names_vendor st v = Some (map_of (map (\<lambda>(v, n, ps). (v, n)) vs) v)) \<and>
    (\<forall>v p. names_product st v p = Some (map_of (concat (map (\<lambda>(v, n, ps). map (\<lambda>(p, pn). ((v, p), pn)) ps) vs)) (v, p)))"
proof -
  from names_init_adds [OF assms(1,2)] obtain st where
    "names_init N path (empty_names c) = Some (0, st)" "adds (file_entries start_ctx (concat (map vendor_text vs))) (empty_names c) st"
    by blast
  then show ?thesis
    by (simp add: adds_def file_entries_vendors [OF assms(3)] entries_vendors empty_lookups)
qed

text \<open>A host on which every call succeeds and that has one file.\<close>

definition demo_names :: "string \<Rightarrow> unit names_sys" where
  "demo_names f = \<lparr>n_calloc = (\<lambda>_ c. (True, c)), n_fopen = (\<lambda>_ _. Inr f)\<rparr>"

definition demo_ids :: string where
  "demo_ids = ''C 03  HID'' @ [CHR 0x0A, CHR 0x09] @ ''01  Boot'' @ [CHR 0x0A, CHR 0x09, CHR 0x09] @ ''02  Mouse'' @ [CHR 0x0A] @
     ''000b  Linux'' @ [CHR 0x0A, CHR 0x09] @ ''0002  root hub'' @ [CHR 0x0A]"

theorem names_found_witness:
  "\<exists>st. names_init (demo_names demo_ids) ''usb.ids'' (empty_names ()) = Some (0, st) \<and>
    names_vendor st 0x0b = Some (Some ''Linux'') \<and> names_product st 0x0b 2 = Some (Some ''root hub'') \<and>
    names_protocol st 3 1 2 = Some (Some ''Mouse'') \<and> names_vendor st 1 = Some None"
proof -
  have n: "\<And>n c. fst (n_calloc (demo_names demo_ids) n c)" "n_fopen (demo_names demo_ids) ''usb.ids'' () = Inr demo_ids"
    by (simp_all add: demo_names_def)
  have "map_of (vendor_entries (file_entries start_ctx demo_ids)) 0x0b = Some ''Linux''"
    "map_of (vendor_entries (file_entries start_ctx demo_ids)) 1 = None"
    "map_of (product_entries (file_entries start_ctx demo_ids)) (0x0b, 2) = Some ''root hub''"
    "map_of (protocol_entries (file_entries start_ctx demo_ids)) (3, 1, 2) = Some ''Mouse''"
    by code_simp+
  then show ?thesis using names_found [OF n] by fastforce
qed

theorem names_written_found_witness:
  "\<exists>st. names_init (demo_names (vendor_text (0x0b, ''Linux'', [(2, ''root hub'')]))) ''usb.ids'' (empty_names ()) = Some (0, st) \<and>
    names_vendor st 0x0b = Some (Some ''Linux'') \<and> names_product st 0x0b 2 = Some (Some ''root hub'')"
proof -
  let ?vs = "[(0x0b, ''Linux'', [(2, ''root hub'')])] :: (u16 \<times> string \<times> (u16 \<times> string) list) list"
  have "\<And>n c. fst (n_calloc (demo_names (vendor_text (hd ?vs))) n c)"
    "n_fopen (demo_names (vendor_text (hd ?vs))) ''usb.ids'' () = Inr (concat (map vendor_text ?vs))" "list_all good_vendor ?vs"
    by (simp_all add: demo_names_def good_vendor_def good_name_def is_space_def)
  from names_written_found [OF this] show ?thesis by auto
qed

section \<open>The names after they were freed\<close>

text \<open>\<open>names_free\<close> empties neither the tables nor the pool: a lookup that meets an entry reads freed memory, and
  freeing the names again frees them twice.\<close>

lemma names_free_dangles:
  assumes "names_free st = Some st'" "0 < n_pool st"
  shows "names_free st' = None"
    and "n_vendors st ! hashnum (ucast v) = e # es \<Longrightarrow> v_mem e < n_pool st \<Longrightarrow> names_vendor st' v = None"
  using assms by (auto simp: names_free_def names_vendor_def split: if_splits)

end
