(* ===== verification/Tool_Cmd.thy ===== *)
theory Tool_Cmd
  imports Tool_App Tool_Names
begin

text \<open>
  The commands of \<open>usbip\<close>: their options and what they print (\<open>usbip_list.c\<close>, \<open>usbip_port.c\<close>, the dump of ports in
  \<open>vhci_driver.c\<close>, and the last function of each \<open>usbip_*.c\<close>).  \<open>getopt_long\<close> is a function of the C library: a
  command gets the options it found with their arguments.
\<close>

section \<open>Printing devices\<close>

definition nl :: string where "nl = [CHR 0x0A]"

definition hex4 :: "u16 \<Rightarrow> string" where "hex4 x = pad 4 (CHR ''0'') (hex (unat x))"

text \<open>A line whose label, right-aligned in \<open>n\<close> characters, is followed by a text.\<close>

definition labelled :: "nat \<Rightarrow> string \<Rightarrow> string \<Rightarrow> string" where
  "labelled n label s = pad n (CHR '' '') label @ s @ nl"

definition print_device :: "string \<Rightarrow> u16 \<Rightarrow> u16 \<Rightarrow> bool \<Rightarrow> string" where
  "print_device busid vid pid parsable =
     (if parsable then ''busid='' @ busid @ ''#usbid='' @ hex4 vid @ '':'' @ hex4 pid @ ''#''
      else '' - busid '' @ busid @ '' ('' @ hex4 vid @ '':'' @ hex4 pid @ '')'' @ nl)"

definition print_product_name :: "string \<Rightarrow> bool \<Rightarrow> string" where
  "print_product_name name parsable = (if parsable then [] else ''   '' @ name @ nl)"

fun print_local :: "'n names_state \<Rightarrow> bool \<Rightarrow> usbip_usb_device list \<Rightarrow> string option" where
  "print_local st parsable [] = Some []"
| "print_local st parsable (d # ds) =
     do { product_name \<leftarrow> usbip_names_get_product st 128 (idVendor d) (idProduct d);
          rest \<leftarrow> print_local st parsable ds;
          Some (print_device (cstr (ub_busid d)) (idVendor d) (idProduct d) parsable @
            print_product_name product_name parsable @ nl @ rest) }"

text \<open>\<open>ids\<close> is \<open>USBIDS_FILE\<close>, which the build sets.  The names are read and freed by each command; a file that cannot be opened is only reported.  The state of the
  names has its own environment.\<close>

definition usbip_list_local_devices ::
  "('n, 'k) names_sys_scheme \<Rightarrow> string \<Rightarrow> 'c usbip_host_driver \<Rightarrow> bool \<Rightarrow> 'n names_state \<Rightarrow> 'c \<Rightarrow>
     (int \<times> string \<times> 'n names_state \<times> 'c) option" where
  "usbip_list_local_devices N ids H parsable st c =
     do { (_, st1) \<leftarrow> names_init N ids st;
          let (rc, c1) = usbip_driver_open H c;
          if rc \<noteq> 0 then do { st2 \<leftarrow> names_free st1; Some (-1, [], st2, c1) }
          else do {
            (num, ds) \<leftarrow> usbip_list_devices H c1;
            if num < 0 then do { st2 \<leftarrow> names_free st1; Some (-1, [], st2, usbip_driver_close H c1) }
            else do { out \<leftarrow> print_local st1 parsable ds;
                      st2 \<leftarrow> names_free st1;
                      Some (0, out, st2, usbip_driver_close H c1) } } }"

fun print_interfaces :: "'n names_state \<Rightarrow> nat \<Rightarrow> usbip_usb_interface list \<Rightarrow> string option" where
  "print_interfaces st j [] = Some []"
| "print_interfaces st j (i # is) =
     do { class_name \<leftarrow> usbip_names_get_class st 100 (bInterfaceClass i) (bInterfaceSubClass i) (bInterfaceProtocol i);
          rest \<leftarrow> print_interfaces st (Suc j) is;
          Some (labelled 11 [] ('': '' @ pad 2 (CHR '' '') (decimal j) @ '' - '' @ class_name) @ rest) }"

fun print_importable :: "'n names_state \<Rightarrow> (usbip_usb_device \<times> usbip_usb_interface list) list \<Rightarrow> string option" where
  "print_importable st [] = Some []"
| "print_importable st ((udev, us) # ds) =
     do { product_name \<leftarrow> usbip_names_get_product st 100 (idVendor udev) (idProduct udev);
          class_name \<leftarrow> usbip_names_get_class st 100 (bDeviceClass udev) (bDeviceSubClass udev) (bDeviceProtocol udev);
          intfs \<leftarrow> print_interfaces st 0 us;
          rest \<leftarrow> print_importable st ds;
          Some (labelled 11 (cstr (ub_busid udev)) ('': '' @ product_name) @ labelled 11 [] ('': '' @ cstr (ub_path udev)) @
            labelled 11 [] ('': '' @ class_name) @ intfs @ nl @ rest) }"

text \<open>What is printed when all devices were received.\<close>

definition print_importable_list ::
  "'n names_state \<Rightarrow> string \<Rightarrow> (usbip_usb_device \<times> usbip_usb_interface list) list \<Rightarrow> string option" where
  "print_importable_list st host ds =
     (if ds = [] then Some []
      else map_option (\<lambda>s. ''Importable USB devices'' @ nl @ replicate 22 (CHR ''='') @ nl @ '' - '' @ host @ nl @ s)
        (print_importable st ds))"

definition usbip_list_importable_devices ::
  "('n, 'k) names_sys_scheme \<Rightarrow> string \<Rightarrow> bool \<Rightarrow> ('c, 'm) conn_sys_scheme \<Rightarrow> string \<Rightarrow> string \<Rightarrow> 'n names_state \<Rightarrow> 'c \<Rightarrow>
     (int \<times> string \<times> 'n names_state \<times> 'c) option" where
  "usbip_list_importable_devices N ids le C host port st c =
     do { (_, st1) \<leftarrow> names_init N ids st;
          (case conn_open C host port c of
             (None, c1) \<Rightarrow> do { st2 \<leftarrow> names_free st1; Some (-1, [], st2, c1) }
           | (Some sk, c1) \<Rightarrow> do {
               (rc, ds, c2) \<leftarrow> get_importable_devices le C sk c1;
               out \<leftarrow> print_importable_list st1 host ds;
               st2 \<leftarrow> names_free st1;
               Some (if rc < 0 then -1 else 0, out, st2, conn_close C sk c2) }) }"

section \<open>Printing ports\<close>

definition usbip_vhci_imported_device_dump ::
  "'c vhci_sys \<Rightarrow> 'n names_state \<Rightarrow> usbip_vhci_device \<Rightarrow> 'c vhci_lib \<Rightarrow> (int \<times> string) option" where
  "usbip_vhci_imported_device_dump K st vd l =
     (if port_free vd then Some (0, [])
      else do {
        product_name \<leftarrow> usbip_names_get_product st 100 (idVendor (vv_udev vd)) (idProduct (vv_udev vd));
        let busid = cstr (ub_busid (vv_udev vd));
        let remote = ''remote bus/dev '' @ pad 3 (CHR ''0'') (decimal (unat (vv_busnum vd))) @ ''/'' @
              pad 3 (CHR ''0'') (decimal (unat (vv_devnum vd)));
        Some (0, ''Port '' @ pad 2 (CHR ''0'') (dec_int (vv_port vd)) @ '': <'' @ usbip_status_string (uint (vv_status vd)) @
          ''> at '' @ usbip_speed_string (uint (ub_speed (vv_udev vd))) @ nl @ ''       '' @ product_name @ nl @
          (case read_record K (vv_port vd) (Some NI_MAXHOST) (Some NI_MAXSERV) (Some SYSFS_BUS_ID_SIZE) l of
             Some (host, serv, rbusid) \<Rightarrow> labelled 10 busid ('' -> usbip://'' @ host @ '':'' @ serv @ ''/'' @ rbusid) @
               labelled 10 '' '' ('' -> '' @ remote)
           | None \<Rightarrow> labelled 10 busid '' -> unknown host, remote port and remote busid'' @
               labelled 10 '' '' ('' -> '' @ remote))) })"

text \<open>The loop ends with the first line that cannot be read, which is the end of the list or a port in error.\<close>

partial_function (option) dump_loop ::
  "'c vhci_sys \<Rightarrow> 'n names_state \<Rightarrow> status_context \<Rightarrow> 'c vhci_lib \<Rightarrow> (int \<times> string \<times> 'c vhci_lib) option" where
  "dump_loop K st ctx l = (case parse_status_line K ctx l of
     None \<Rightarrow> None
   | Some (ok, vd, ctx', l') \<Rightarrow>
       if \<not> ok then Some (0, [], l')
       else if port_free vd then dump_loop K st ctx' l'
       else (case usbip_vhci_imported_device_dump K st vd l' of
         None \<Rightarrow> None
       | Some (r, out) \<Rightarrow>
           if r \<noteq> 0 then Some (-1, out, l')
           else Option.bind (dump_loop K st ctx' l') (\<lambda>(r2, out2, l2). Some (r2, out @ out2, l2))))"

definition usbip_vhci_imported_devices_dump ::
  "'c vhci_sys \<Rightarrow> 'n names_state \<Rightarrow> 'c vhci_lib \<Rightarrow> (int \<times> string \<times> 'c vhci_lib) option" where
  "usbip_vhci_imported_devices_dump K st l = (case open_status K True first_context l of (ok, ctx, l1) \<Rightarrow>
     if \<not> ok then Some (-1, [], l1) else dump_loop K st ctx l1)"

definition usbip_list_imported_devices ::
  "('n, 'k) names_sys_scheme \<Rightarrow> string \<Rightarrow> 'c vhci_sys \<Rightarrow> 'n names_state \<Rightarrow> 'c vhci_lib \<Rightarrow>
     (int \<times> string \<times> 'n names_state \<times> 'c vhci_lib) option" where
  "usbip_list_imported_devices N ids K st l =
     do { (_, st1) \<leftarrow> names_init N ids st;
          let (r, l1) = usbip_vhci_driver_open K l;
          if r < 0 then do { st2 \<leftarrow> names_free st1; Some (-1, [], st2, l1) }
          else do {
            (r2, out, l2) \<leftarrow> usbip_vhci_imported_devices_dump K st1 l1;
            st2 \<leftarrow> names_free st1;
            Some (if r2 < 0 then -1 else r2,
              ''Imported USB devices'' @ nl @ replicate 20 (CHR ''='') @ nl @ out, st2, usbip_vhci_driver_close l2) } }"

definition usbip_port_show ::
  "('n, 'k) names_sys_scheme \<Rightarrow> string \<Rightarrow> 'c vhci_sys \<Rightarrow> 'n names_state \<Rightarrow> 'c vhci_lib \<Rightarrow>
     (int \<times> string \<times> 'n names_state \<times> 'c vhci_lib) option" where
  "usbip_port_show N ids K st l = usbip_list_imported_devices N ids K st l"

section \<open>Options\<close>

type_synonym options = "(char \<times> string) list"

text \<open>The options of the commands that need a host and a bus id: these two, and whether \<open>-d\<close> was among them; \<open>None\<close> is
  an option that is not known.  For \<open>attach\<close> the option \<open>-d\<close> gives the bus id.\<close>

record host_options =
  ho_host :: "string option"
  ho_busid :: "string option"
  ho_device :: bool

fun host_getopt :: "bool \<Rightarrow> options \<Rightarrow> host_options \<Rightarrow> host_options option" where
  "host_getopt attach [] w = Some w"
| "host_getopt attach ((opt, arg) # opts) w =
     (if opt = CHR ''r'' then host_getopt attach opts (w\<lparr>ho_host := Some arg\<rparr>)
      else if opt = CHR ''b'' \<or> attach \<and> opt = CHR ''d'' then host_getopt attach opts (w\<lparr>ho_busid := Some arg\<rparr>)
      else if opt = CHR ''d'' then host_getopt attach opts (w\<lparr>ho_device := True\<rparr>)
      else None)"

definition no_options :: host_options where
  "no_options = \<lparr>ho_host = None, ho_busid = None, ho_device = False\<rparr>"

definition usbip_attach ::
  "bool \<Rightarrow> ('c vhci_lib, 'k) conn_sys_scheme \<Rightarrow> 'c vhci_sys \<Rightarrow> options \<Rightarrow> 'c vhci_lib \<Rightarrow> (int \<times> 'c vhci_lib) option" where
  "usbip_attach le C K opts l = (case host_getopt True opts no_options of
     None \<Rightarrow> Some (-1, l)
   | Some w \<Rightarrow> (case (ho_host w, ho_busid w) of
       (Some host, Some busid) \<Rightarrow> usbip_attach_device le C K host (usbip_port_string C) busid l
     | _ \<Rightarrow> Some (-1, l)))"

definition usbip_connect ::
  "bool \<Rightarrow> ('c, 'k) conn_sys_scheme \<Rightarrow> ('c, 'h) host_sys_scheme \<Rightarrow> 'c usbip_host_driver \<Rightarrow> options \<Rightarrow> 'c \<Rightarrow> (int \<times> 'c) option" where
  "usbip_connect le C S H opts c = (case host_getopt False opts no_options of
     None \<Rightarrow> Some (-1, c)
   | Some w \<Rightarrow> (case (ho_host w, ho_busid w) of
       (Some host, Some busid) \<Rightarrow> usbip_connect_device le C (if ho_device w then snd (usbip_hdriver_set S 1 H) else H)
         host (usbip_port_string C) busid c
     | _ \<Rightarrow> Some (-1, c)))"

definition usbip_disconnect ::
  "bool \<Rightarrow> ('c, 'k) conn_sys_scheme \<Rightarrow> ('c, 'h) host_sys_scheme \<Rightarrow> 'c usbip_host_driver \<Rightarrow> options \<Rightarrow> 'c \<Rightarrow> (int \<times> 'c) option" where
  "usbip_disconnect le C S H opts c = (case host_getopt False opts no_options of
     None \<Rightarrow> Some (-1, c)
   | Some w \<Rightarrow> (case (ho_host w, ho_busid w) of
       (Some host, Some busid) \<Rightarrow> usbip_disconnect_device le C (if ho_device w then snd (usbip_hdriver_set S 1 H) else H)
         host (usbip_port_string C) busid c
     | _ \<Rightarrow> Some (-1, c)))"

text \<open>These commands end with their first option.\<close>

definition usbip_bind :: "'c usbip_host_driver \<Rightarrow> options \<Rightarrow> 'c \<Rightarrow> int \<times> 'c" where
  "usbip_bind H opts c = (case opts of [] \<Rightarrow> (-1, c)
     | (opt, arg) # _ \<Rightarrow> if opt = CHR ''b'' then usbip_bind_device H arg c else (-1, c))"

definition usbip_unbind :: "'c usbip_host_driver \<Rightarrow> options \<Rightarrow> 'c \<Rightarrow> int \<times> 'c" where
  "usbip_unbind H opts c = (case opts of [] \<Rightarrow> (-1, c)
     | (opt, arg) # _ \<Rightarrow> if opt = CHR ''b'' then usbip_unbind_device H arg c else (-1, c))"

definition usbip_detach :: "'c vhci_sys \<Rightarrow> options \<Rightarrow> 'c vhci_lib \<Rightarrow> int \<times> 'c vhci_lib" where
  "usbip_detach K opts l = (case opts of [] \<Rightarrow> (-1, l)
     | (opt, arg) # _ \<Rightarrow> if opt = CHR ''p'' then usbip_detach_port K arg l else (-1, l))"

text \<open>\<open>-p\<close> counts only before the option that lists.\<close>

fun usbip_list ::
  "('n, 'k) names_sys_scheme \<Rightarrow> string \<Rightarrow> bool \<Rightarrow> ('c, 'm) conn_sys_scheme \<Rightarrow> ('c, 'h) host_sys_scheme \<Rightarrow> 'c usbip_host_driver \<Rightarrow>
     bool \<Rightarrow> options \<Rightarrow> 'n names_state \<Rightarrow> 'c \<Rightarrow> (int \<times> string \<times> 'n names_state \<times> 'c) option" where
  "usbip_list N ids le C S H parsable [] st c = Some (-1, [], st, c)"
| "usbip_list N ids le C S H parsable ((opt, arg) # opts) st c =
     (if opt = CHR ''p'' then usbip_list N ids le C S H True opts st c
      else if opt = CHR ''r'' then usbip_list_importable_devices N ids le C arg (usbip_port_string C) st c
      else if opt = CHR ''l'' then usbip_list_local_devices N ids H parsable st c
      else if opt = CHR ''d'' then usbip_list_local_devices N ids (snd (usbip_hdriver_set S 1 H)) parsable st c
      else Some (-1, [], st, c))"

end
