(* ===== verification/Spec2Isabelle.thy ===== *)
theory Spec2Isabelle
  imports Stub_Dev Usbip_Ux Vhci_Sysfs Vudc_Sysfs Tool_App Lib_Host Tool_Usbipd Tool_Cmd
begin

text \<open>
  USB/IP shares USB devices over a network.  The kernel part under \<open>src/drivers/usb/usbip\<close> has three
  drivers around a common core.  The stub driver (\<open>stub_*.c\<close>) takes over a real device of the exporting
  host; the virtual device controller (\<open>vudc_*.c\<close>) exports a gadget implemented in software; the virtual
  host controller (\<open>vhci_*.c\<close>) presents a remote device on a port of the importing host.  The two sides
  of a connection exchange the requests of \<open>usbip_common.h\<close> over a transport, which is a kernel socket
  or the user space transport of \<open>usbip_ux.c\<close>.  Every device of every driver has the structure
  \<open>usbip_device\<close>, which the event handler of \<open>usbip_event.c\<close> takes through its life.

  In user space, under \<open>src/tools/usb/usbip\<close>, the commands and daemons agree on a device over TCP before the
  kernel takes the connection over, and the libusb host (\<open>libusb/stub\<close>) is a second implementation of the
  stub driver, on libusb and threads.

  \<^bold>\<open>Conventions.\<close>  A definition has the name of the C function it translates, with a prefix \<open>v_\<close>, \<open>vhci_\<close>,
  \<open>t_\<close>, \<open>app_\<close> or \<open>l_\<close> where two files use the same name; structures are records, enumerations datatypes, and 16 or 32 bit
  fields words of that width.  A pointer that may be null is an option, a list of the kernel a list.
  A result \<open>None\<close> is behaviour C does not define: an access outside a buffer or array, a null
  dereference, a \<open>BUG()\<close>, or a function that does not return.  Error numbers are negative integers as in
  the source.  What the kernel does beyond the standard library (memory allocation, sockets, threads,
  the USB core, the gadget core, and in user space sysfs, libudev and libusb) is a record of functions over an abstract state \<open>'c\<close> that is passed
  through, one record per driver; each property holds for all of them, or names what it needs of
  them.  Locks are not modelled: what runs under a lock is one operation, and the threads of a
  driver interleave between operations.

  \<^bold>\<open>Theories.\<close>
  \<^item> \<open>Usbip_Prelude\<close>: machine integers, byte buffers with bounds, C strings, the pipe word of a URB.
  \<^item> \<open>Usbip_Event\<close> (\<open>usbip_event.c\<close>): event words, the list of pending events and the worker.  The locale
    \<open>eh_handlers\<close> says what a driver's handlers must keep, \<open>eh_lifecycle\<close> what shutting down and resetting
    promise; the three drivers interpret them.
  \<^item> \<open>Usbip_Pdu\<close> (\<open>usbip_common.h\<close>, packing and byte order of \<open>usbip_common.c\<close>): headers, their 48 bytes.
  \<^item> \<open>Usbip_Common\<close> (the rest of \<open>usbip_common.c\<close>): transports, exact reception, transfer buffers,
    isochronous descriptors and padding.  The locale \<open>trx_stream\<close> is the contract of a transport,
    \<open>trx_reliable\<close> that of one that loses nothing.
  \<^item> \<open>Usbip_Ux\<close> (\<open>usbip_ux.c\<close>): the transport through a process, which interprets \<open>trx_reliable\<close>.
  \<^item> \<open>Stub_Busid\<close> (\<open>stub_main.c\<close>), \<open>Stub_Tx\<close> (\<open>stub_tx.c\<close>), \<open>Stub_Rx\<close> (\<open>stub_rx.c\<close>), \<open>Stub_Dev\<close> (\<open>stub_dev.c\<close>): the
    stub driver; \<open>Stub_Account\<close> makes its threads a state machine \<open>stub_step\<close>.
  \<^item> \<open>Vhci_Tx\<close>, \<open>Vhci_Rx\<close>, \<open>Vhci_Port\<close>, \<open>Vhci_Hub\<close>, \<open>Vhci_Hcd\<close>, \<open>Vhci_Sysfs\<close> (\<open>vhci_tx.c\<close>, \<open>vhci_rx.c\<close>, \<open>vhci_hcd.c\<close>,
    \<open>vhci_sysfs.c\<close>): the host controller; \<open>Vhci_Port\<close> has the state machine \<open>vhci_step\<close> of a port.
  \<^item> \<open>Vudc_Dev\<close>, \<open>Vudc_Tx\<close>, \<open>Vudc_Transfer\<close>, \<open>Vudc_Rx\<close>, \<open>Vudc_Sysfs\<close> (\<open>vudc_dev.c\<close>, \<open>vudc_tx.c\<close>, \<open>vudc_transfer.c\<close>,
    \<open>vudc_rx.c\<close>, \<open>vudc_sysfs.c\<close>, \<open>vudc_main.c\<close>): the device controller; \<open>gadget_step\<close> is its state machine.
  \<^item> \<open>Tool_Device\<close>, \<open>Tool_Net\<close>, \<open>Tool_Ux\<close> (\<open>usbip_common.c\<close>, \<open>sysfs_utils.c\<close>, \<open>usbip_network.c\<close>, \<open>usbip_ux.c\<close> of the
    tools): devices as user space sees them, the messages of the daemons, the threads of the transport.
  \<^item> \<open>Tool_Vhci\<close> (\<open>vhci_driver.c\<close>, \<open>usbip_detach.c\<close>): the ports of the importing host; \<open>Tool_Host\<close>
    (\<open>usbip_host_common.c\<close>, \<open>usbip_host_driver.c\<close>, \<open>usbip_device_driver.c\<close>, \<open>usbip_host_api.c\<close>): listing, binding
    and exporting; \<open>Tool_Daemon\<close> (\<open>usbipd.c\<close>, \<open>usbipd_dev.c\<close>, \<open>usbip_list.c\<close>) and \<open>Tool_App\<close> (\<open>usbip_attach.c\<close>,
    \<open>usbipd_app.c\<close>, \<open>usbip_connect.c\<close>, \<open>usbip_disconnect.c\<close>): the two ends of each request.
  \<^item> \<open>Tool_Names\<close> (\<open>names.c\<close>): the names of vendors and classes; the locale \<open>name_table\<close> is the contract of a chained
    hash table, which the five tables interpret.  \<open>Tool_Usbipd\<close> (\<open>usbipd.c\<close>, the end of \<open>usbip_network.c\<close>):
    connections and the main loop; \<open>Tool_Cmd\<close>: the options of the commands and what they print.
  \<^item> \<open>Lib_Common\<close> (\<open>stub_common.c\<close>, \<open>stub_event.c\<close>), \<open>Lib_Dev\<close> (\<open>stub_dev.c\<close>, \<open>stub_main.c\<close>), \<open>Lib_Tx\<close> (\<open>stub_tx.c\<close>),
    \<open>Lib_Rx\<close> (\<open>stub_rx.c\<close>): the libusb host; \<open>Lib_Answers\<close> compares what it sends with \<open>Stub_Tx\<close>, \<open>Lib_Host\<close> has
    what it knows of devices and interfaces.

  \<^bold>\<open>What the lemmas show.\<close>  The invariants of the state machines: the stub driver answers every request
  exactly once, the host controller hands every URB back exactly once, one run of the transfer timer
  answers what it takes, a device controller stays well-formed.  The life of a connection: the
  event worker takes a device that reported an event out of service and frees it after a reset, for
  each of the three drivers.  The data: headers and descriptors arrive as they were sent, the
  padding of isochronous packets is restored, nothing a peer sends makes a receiver write outside a
  buffer, and the two transports deliver the bytes sent.  Attaching and detaching, binding and
  unbinding do what user space asked for.  The tools: what one end writes the other reads, for lists of
  devices, imports and exports, attach requests, records of connections and the file of names; the
  daemon leaves no connection open.  The libusb host: its answers
  are those of the stub driver, byte by byte.  The properties of kind \<open>error\<close> state what the code does in the
  situations in which it does not recover.

  \<^bold>\<open>Bounds and fuel.\<close>  The event worker has fuel for the devices it pops; one unit per pending device is
  enough as long as its handlers report nothing new, which is proved (\<open>event_loop_drains\<close> of \<open>eh_handlers\<close>).
  The threads run forever, so their loops have fuel and no property assumes that they return.
  Removing the requests of an endpoint calls the gadget driver, which may queue new ones: \<open>nuke\<close> is a partial
  function, and \<open>nuke_ends\<close> shows that it returns for a driver that does not.  All other loops are
  structural or have a measure.

  \<^bold>\<open>Not modelled.\<close>  Debug output, the registration of drivers with the kernel, suspend and resume of the
  stub driver, reference counts and the release of memory except where a property is about them.Of
  the tools: the table of the commands and help texts of \<open>usbip.c\<close>, the signal handler and the threads that
  stand for processes in \<open>usbipd.c\<close>, the dummy driver, the replacements of system calls on other
  platforms, and the example programs.
\<close>

end
